(* ===== verification/Prelude.thy ===== *)
theory Prelude
  imports Main "HOL-Library.Word"
begin

text \<open>
  Shared vocabulary of the development.

  \<^item> machine integers of the source (\<open>u8\<close>, \<open>u32\<close>, \<open>u64\<close>) as words of their width,
    \<open>usize\<close> as \<^typ>\<open>nat\<close>, byte buffers and Rust strings as lists of bytes;
  \<^item> the error-or-value type of fallible functions and its bind (the source's question-mark
    operator), with the rewrite rules the components use;
  \<^item> the part of the Rust standard library the sources rely on (UTF-8 validation,
    saturating subtraction, splitting and joining strings);
  \<^item> the interface of the two packages that read and write integers and strings on the
    wire, \<open>ssh_encoding\<close> and \<open>byteorder\<close>: a record of functions that every definition using
    them takes as an argument, and the locale \<open>ssh_codec\<close> of the laws their documentation
    (RFC 4251, section 5, and big-endian order) promises.
\<close>

section \<open>Types\<close>

type_synonym u8 = "8 word"
type_synonym u32 = "32 word"
type_synonym u64 = "64 word"
type_synonym bytes = "u8 list"
type_synonym rstring = bytes
type_synonym instant = nat
type_synonym duration = nat

named_theorems res_simps "rewrite rules for the error-or-value bind"
named_theorems wire_simps "rewrite rules for reading and writing wire values"

text \<open>A string literal of the source as the bytes it denotes (all literals are ASCII).\<close>

definition str :: "string \<Rightarrow> rstring" where
  "str s = map of_char s"

lemma str_simps [simp]:
  "str [] = []"
  "str (c # s) = of_char c # str s"
  by (simp_all add: str_def)

lemma length_str [simp]: "length (str s) = length s"
  by (simp add: str_def)

lemma of_char_word8_inj: "(of_char c :: u8) = of_char d \<longleftrightarrow> c = d"
proof
  assume "(of_char c :: u8) = of_char d"
  then have "unat (of_char c :: u8) = unat (of_char d :: u8)" by simp
  moreover have "unat (of_char e :: u8) = of_char e" for e :: char
  proof -
    have "(of_char e :: nat) < 256" by simp
    moreover have "(of_char e :: u8) = of_nat (of_char e)"
      by (cases e) simp
    ultimately show ?thesis by (simp add: unat_of_nat)
  qed
  ultimately have "(of_char c :: nat) = of_char d" by simp
  then show "c = d" by (simp only: of_char_eq_iff)
qed simp

lemma str_eq_iff [simp]: "str s = str t \<longleftrightarrow> s = t"
  unfolding str_def by (rule inj_map_eq_map) (simp add: inj_def of_char_word8_inj)

section \<open>Results\<close>

definition bindR :: "'e + 'a \<Rightarrow> ('a \<Rightarrow> 'e + 'b) \<Rightarrow> 'e + 'b" where
  "bindR x f = (case x of Inl e \<Rightarrow> Inl e | Inr a \<Rightarrow> f a)"

definition is_ok :: "'e + 'a \<Rightarrow> bool" where
  "is_ok x = (case x of Inl _ \<Rightarrow> False | Inr _ \<Rightarrow> True)"

lemma bindR_simps [simp, res_simps]:
  "bindR (Inl e) f = Inl e"
  "bindR (Inr a) f = f a"
  by (simp_all add: bindR_def)

lemma bindR_Inr_iff [res_simps]:
  "bindR x f = Inr y \<longleftrightarrow> (\<exists>a. x = Inr a \<and> f a = Inr y)"
  by (cases x) auto

lemma bindR_Inl_iff [res_simps]:
  "bindR x f = Inl e \<longleftrightarrow> x = Inl e \<or> (\<exists>a. x = Inr a \<and> f a = Inl e)"
  by (cases x) auto

lemma bindR_assoc: "bindR (bindR x f) g = bindR x (\<lambda>a. bindR (f a) g)"
  by (cases x) auto

lemma is_ok_simps [simp, res_simps]:
  "is_ok (Inl e) = False"
  "is_ok (Inr a) = True"
  by (simp_all add: is_ok_def)

lemma is_ok_iff: "is_ok x \<longleftrightarrow> (\<exists>a. x = Inr a)"
  by (cases x) auto

definition ok_or :: "'e \<Rightarrow> 'a option \<Rightarrow> 'e + 'a" where
  "ok_or e x = (case x of None \<Rightarrow> Inl e | Some a \<Rightarrow> Inr a)"

lemma ok_or_simps [simp, res_simps]:
  "ok_or e None = Inl e"
  "ok_or e (Some a) = Inr a"
  by (simp_all add: ok_or_def)

lemma ok_or_Inr_iff [res_simps]: "ok_or e x = Inr a \<longleftrightarrow> x = Some a"
  by (cases x) auto

lemma ok_or_Inl_iff [res_simps]: "ok_or e x = Inl d \<longleftrightarrow> x = None \<and> d = e"
  by (cases x) auto

section \<open>Integers\<close>

text \<open>\<open>u32::saturating_sub\<close> and \<open>u32::saturating_add\<close> of the standard library.\<close>

definition saturating_sub :: "'a::len word \<Rightarrow> 'a word \<Rightarrow> 'a word" where
  "saturating_sub a b = (if b \<le> a then a - b else 0)"

definition saturating_add :: "'a::len word \<Rightarrow> 'a word \<Rightarrow> 'a word" where
  "saturating_add a b = (if a \<le> - 1 - b then a + b else - 1)"

lemma unat_saturating_sub [simp]:
  "unat (saturating_sub a b) = unat a - unat b"
  by (auto simp: saturating_sub_def unat_sub word_le_nat_alt)

lemma saturating_sub_le: "saturating_sub a b \<le> a"
  by (simp add: word_le_nat_alt)

lemma unat_minus_word_le [simp]:
  "b \<le> a \<Longrightarrow> unat (a - b) = unat a - unat b" for a b :: "'a::len word"
  by (simp add: unat_sub)

lemma unat_of_nat_u32 [simp]: "n < 2 ^ 32 \<Longrightarrow> unat (of_nat n :: u32) = n"
  by (simp add: unat_of_nat)

lemma of_nat_u32_le [simp]:
  "n \<le> unat w \<Longrightarrow> (of_nat n :: u32) \<le> w"
  using unsigned_less [of w] by (simp add: word_le_nat_alt unat_of_nat)

section \<open>UTF-8\<close>

text \<open>
  \<open>String::from_utf8\<close> of the standard library: a byte string is accepted when it is a sequence
  of well-formed encodings of Unicode scalar values. The function below gives the number of
  continuation bytes after a given lead byte, or nothing when the sequence is ill-formed.
\<close>

definition utf8_cont :: "u8 \<Rightarrow> bool" where
  "utf8_cont b = (0x80 \<le> b \<and> b \<le> 0xBF)"

fun utf8_tail :: "u8 \<Rightarrow> bytes \<Rightarrow> nat option" where
  "utf8_tail a r =
     (if a < 0x80 then Some 0
      else if 0xC2 \<le> a \<and> a \<le> 0xDF then
        (case r of b # _ \<Rightarrow> if utf8_cont b then Some 1 else None | [] \<Rightarrow> None)
      else if 0xE0 \<le> a \<and> a \<le> 0xEF then
        (case r of
           b # c # _ \<Rightarrow>
             if utf8_cont b \<and> utf8_cont c \<and> (a = 0xE0 \<longrightarrow> 0xA0 \<le> b) \<and> (a = 0xED \<longrightarrow> b \<le> 0x9F)
             then Some 2 else None
         | _ \<Rightarrow> None)
      else if 0xF0 \<le> a \<and> a \<le> 0xF4 then
        (case r of
           b # c # d # _ \<Rightarrow>
             if utf8_cont b \<and> utf8_cont c \<and> utf8_cont d \<and> (a = 0xF0 \<longrightarrow> 0x90 \<le> b) \<and>
                (a = 0xF4 \<longrightarrow> b \<le> 0x8F)
             then Some 3 else None
         | _ \<Rightarrow> None)
      else None)"

declare utf8_tail.simps [simp del]

function utf8_valid :: "bytes \<Rightarrow> bool" where
  "utf8_valid [] = True"
| "utf8_valid (a # r) =
     (case utf8_tail a r of None \<Rightarrow> False | Some n \<Rightarrow> utf8_valid (drop n r))"
  by pat_completeness auto
termination
  by (relation "measure length") auto

definition is_ascii :: "bytes \<Rightarrow> bool" where
  "is_ascii s = list_all (\<lambda>b. b < 0x80) s"

lemma utf8_valid_ascii: "is_ascii s \<Longrightarrow> utf8_valid s"
  by (induction s) (simp_all add: is_ascii_def utf8_tail.simps)

section \<open>Splitting and joining strings\<close>

text \<open>\<open>str::split\<close> on a one-byte separator and \<open>slice::join\<close>.\<close>

fun split_on :: "'a \<Rightarrow> 'a list \<Rightarrow> 'a list list" where
  "split_on c [] = [[]]"
| "split_on c (x # xs) =
     (if x = c then [] # split_on c xs
      else (case split_on c xs of [] \<Rightarrow> [[x]] | y # ys \<Rightarrow> (x # y) # ys))"

fun join_with :: "'a \<Rightarrow> 'a list list \<Rightarrow> 'a list" where
  "join_with c [] = []"
| "join_with c [x] = x"
| "join_with c (x # y # ys) = x @ c # join_with c (y # ys)"

lemma split_on_not_Nil [simp]: "split_on c xs \<noteq> []"
  by (induction xs) (auto split: list.splits)

lemma join_split_on [simp]: "join_with c (split_on c xs) = xs"
proof (induction xs)
  case (Cons x xs)
  obtain y ys where split: "split_on c xs = y # ys"
    by (cases "split_on c xs") auto
  then show ?case
    using Cons by (cases ys) auto
qed simp

lemma split_on_no_sep: "c \<notin> set x \<Longrightarrow> split_on c x = [x]"
  by (induction x) auto

lemma split_on_append_sep: "c \<notin> set x \<Longrightarrow> split_on c (x @ c # r) = x # split_on c r"
  by (induction x) auto

lemma split_join_on:
  "xs \<noteq> [] \<Longrightarrow> \<forall>x \<in> set xs. c \<notin> set x \<Longrightarrow> split_on c (join_with c xs) = xs"
  by (induction c xs rule: join_with.induct) (auto simp: split_on_no_sep split_on_append_sep)

lemma join_with_eq_Nil: "[] \<notin> set xs \<Longrightarrow> join_with c xs = [] \<longleftrightarrow> xs = []"
  by (cases "(c, xs)" rule: join_with.cases) auto

section \<open>Big-endian integers\<close>

text \<open>\<open>u32::to_be_bytes\<close> of the standard library.\<close>

definition to_be_bytes :: "u32 \<Rightarrow> bytes" where
  "to_be_bytes n =
     [of_nat (unat n div 256 div 256 div 256), of_nat (unat n div 256 div 256),
      of_nat (unat n div 256), of_nat (unat n)]"

section \<open>The wire packages\<close>

text \<open>
  \<open>be_write_u32\<close> and \<open>be_read_u32\<close> are \<open>byteorder::BigEndian::write_u32\<close> and \<open>read_u32\<close>; the
  other fields are the \<open>Encode\<close> and \<open>Decode\<close> implementations of \<open>ssh_encoding\<close> for \<open>u32\<close>, for
  byte strings and for \<open>String\<close>. A decoder returns the value and the unread rest of the
  input. Encoders are total: writing into a vector fails only for strings longer than
  \<open>u32::MAX\<close>, which no caller builds.
\<close>

record codec =
  be_write_u32 :: "u32 \<Rightarrow> bytes"
  be_read_u32 :: "bytes \<Rightarrow> u32"
  u32_encode :: "u32 \<Rightarrow> bytes"
  u32_decode :: "bytes \<Rightarrow> (u32 \<times> bytes) option"
  bytes_encode :: "bytes \<Rightarrow> bytes"
  bytes_decode :: "bytes \<Rightarrow> (bytes \<times> bytes) option"

text \<open>Strings up to this length are within the limit the package puts on length prefixes.\<close>

definition max_string :: nat where
  "max_string = 0xFFFFF"

definition string_decode :: "codec \<Rightarrow> bytes \<Rightarrow> (rstring \<times> bytes) option" where
  "string_decode C b =
     (case bytes_decode C b of
        None \<Rightarrow> None
      | Some (s, r) \<Rightarrow> if utf8_valid s then Some (s, r) else None)"

text \<open>\<open>u8::decode\<close> and \<open>bool::decode\<close> style reads of one byte.\<close>

fun u8_decode :: "bytes \<Rightarrow> (u8 \<times> bytes) option" where
  "u8_decode [] = None"
| "u8_decode (b # r) = Some (b, r)"

locale ssh_codec =
  fixes C :: codec
  assumes be_write: "be_write_u32 C n = to_be_bytes n"
    and be_read: "be_read_u32 C (to_be_bytes n @ r) = n"
    and u32_length: "length (u32_encode C n) = 4"
    and u32_round: "u32_decode C (u32_encode C n @ r) = Some (n, r)"
    and u32_sound: "u32_decode C b = Some (n, r) \<Longrightarrow> b = u32_encode C n @ r"
    and bytes_layout: "bytes_encode C s = u32_encode C (of_nat (length s)) @ s"
    and bytes_round: "length s \<le> max_string \<Longrightarrow> bytes_decode C (bytes_encode C s @ r) = Some (s, r)"
    and bytes_sound: "bytes_decode C b = Some (s, r) \<Longrightarrow> b = bytes_encode C s @ r \<and> length s \<le> max_string"
begin

lemma be_length: "length (be_write_u32 C n) = 4"
  by (simp add: be_write to_be_bytes_def)

lemma be_read_write: "be_read_u32 C (be_write_u32 C n @ r) = n"
  by (simp add: be_write be_read)

lemma be_read_Nil: "be_read_u32 C (to_be_bytes n) = n"
  using be_read [of n "[]"] by simp

lemma u32_round_Nil: "u32_decode C (u32_encode C n) = Some (n, [])"
  using u32_round [of n "[]"] by simp

lemma bytes_round_Nil: "length s \<le> max_string \<Longrightarrow> bytes_decode C (bytes_encode C s) = Some (s, [])"
  using bytes_round [of s "[]"] by simp

lemma bytes_length: "length (bytes_encode C s) = length s + 4"
  by (simp add: bytes_layout u32_length)

lemma u32_short: "length b < 4 \<Longrightarrow> u32_decode C b = None"
  using u32_sound u32_length by (cases "u32_decode C b") fastforce+

lemma u32_shorter: "u32_decode C b = Some (n, r) \<Longrightarrow> length b = length r + 4"
  using u32_sound [of b n r] by (simp add: u32_length)

lemma bytes_shorter: "bytes_decode C b = Some (s, r) \<Longrightarrow> length b = length r + length s + 4"
  using bytes_sound [of b s r] by (simp add: bytes_length)

lemma string_round:
  "length s \<le> max_string \<Longrightarrow> utf8_valid s \<Longrightarrow> string_decode C (bytes_encode C s @ r) = Some (s, r)"
  by (simp add: string_decode_def bytes_round)

lemma string_round_Nil:
  "length s \<le> max_string \<Longrightarrow> utf8_valid s \<Longrightarrow> string_decode C (bytes_encode C s) = Some (s, [])"
  using string_round [of s "[]"] by simp

lemma string_sound:
  "string_decode C b = Some (s, r) \<Longrightarrow>
     b = bytes_encode C s @ r \<and> length s \<le> max_string \<and> utf8_valid s"
  by (auto simp: string_decode_def split: option.splits if_splits dest: bytes_sound)

lemma u32_iff: "u32_decode C b = Some (n, r) \<longleftrightarrow> b = u32_encode C n @ r"
  using u32_sound u32_round by blast

lemma bytes_iff:
  "bytes_decode C b = Some (s, r) \<longleftrightarrow> b = bytes_encode C s @ r \<and> length s \<le> max_string"
  using bytes_sound bytes_round by blast

lemma string_iff:
  "string_decode C b = Some (s, r) \<longleftrightarrow>
     b = bytes_encode C s @ r \<and> length s \<le> max_string \<and> utf8_valid s"
  using string_sound string_round by blast

lemmas u32_rules = be_length be_read_write u32_length u32_round u32_round_Nil
lemmas round_rules =
  u32_length u32_round u32_round_Nil bytes_round bytes_round_Nil string_round string_round_Nil

end

section \<open>The documented formats\<close>

text \<open>
  Big-endian integers and length-prefixed strings: the formats RFC 4251 specifies for the
  packages. They are used to show that the laws of \<open>ssh_codec\<close> can hold and to evaluate the
  model on concrete inputs; no definition of the model refers to them.
\<close>

definition u32_of_be :: "u8 \<Rightarrow> u8 \<Rightarrow> u8 \<Rightarrow> u8 \<Rightarrow> u32" where
  "u32_of_be a b c d = of_nat (((unat a * 256 + unat b) * 256 + unat c) * 256 + unat d)"

fun read_be :: "bytes \<Rightarrow> u32" where
  "read_be (a # b # c # d # r) = u32_of_be a b c d"
| "read_be _ = 0"

fun dec_be :: "bytes \<Rightarrow> (u32 \<times> bytes) option" where
  "dec_be (a # b # c # d # r) = Some (u32_of_be a b c d, r)"
| "dec_be _ = None"

fun dec_str :: "bytes \<Rightarrow> (bytes \<times> bytes) option" where
  "dec_str b =
     (case dec_be b of
        None \<Rightarrow> None
      | Some (n, r) \<Rightarrow>
          if unat n \<le> max_string \<and> unat n \<le> length r
          then Some (take (unat n) r, drop (unat n) r) else None)"

definition rfc4251 :: codec where
  "rfc4251 = \<lparr> be_write_u32 = to_be_bytes, be_read_u32 = read_be, u32_encode = to_be_bytes,
     u32_decode = dec_be, bytes_encode = (\<lambda>s. to_be_bytes (of_nat (length s)) @ s),
     bytes_decode = dec_str \<rparr>"

lemma rfc4251_simps [simp]:
  "be_write_u32 rfc4251 = to_be_bytes" "be_read_u32 rfc4251 = read_be"
  "u32_encode rfc4251 = to_be_bytes" "u32_decode rfc4251 = dec_be"
  "bytes_encode rfc4251 = (\<lambda>s. to_be_bytes (of_nat (length s)) @ s)"
  "bytes_decode rfc4251 = dec_str"
  by (simp_all add: rfc4251_def)

lemma unat_of_nat_u8: "unat (of_nat n :: u8) = n mod 256"
  by (simp add: unat_of_nat)

lemma of_be_to_be_bytes:
  "u32_of_be (of_nat (unat n div 256 div 256 div 256)) (of_nat (unat n div 256 div 256))
     (of_nat (unat n div 256)) (of_nat (unat n)) = n"
proof -
  have "unat n < 256 * 256 * 256 * 256"
    using unsigned_less [of n, where 'a = nat] by simp
  then have "unat n div 256 div 256 div 256 < 256"
    by (simp add: less_mult_imp_div_less)
  then show ?thesis
    by (simp only: u32_of_be_def unat_of_nat_u8 mod_less div_mult_mod_eq) simp
qed

lemma to_be_bytes_of_be: "to_be_bytes (u32_of_be a b c d) = [a, b, c, d]"
proof -
  have bounds: "unat a < 256" "unat b < 256" "unat c < 256" "unat d < 256"
    using unsigned_less [of a, where 'a = nat] unsigned_less [of b, where 'a = nat]
      unsigned_less [of c, where 'a = nat] unsigned_less [of d, where 'a = nat] by simp_all
  define m where "m = (unat a * 256 + unat b) * 256 + unat c"
  have "unat a * 256 + unat b < 256 * 256" using bounds by simp
  then have "m < 256 * 256 * 256" using bounds by (simp add: m_def)
  then have "m * 256 + unat d < 2 ^ 32" using bounds by simp
  then have n: "unat (u32_of_be a b c d) = m * 256 + unat d"
    by (simp only: u32_of_be_def m_def [symmetric] unat_of_nat_u32)
  have q: "(m * 256 + unat d) div 256 = m"
    "m div 256 = unat a * 256 + unat b" "(unat a * 256 + unat b) div 256 = unat a"
    using bounds by (simp_all add: m_def)
  have w: "of_nat x = (of_nat (x mod 256) :: u8)" for x
    by (simp add: word_unat_eq_iff unat_of_nat)
  have mm: "(x * 256 + y) mod 256 = y" if "y < 256" for x y :: nat
    using that by simp
  have r: "(m * 256 + unat d) mod 256 = unat d" "m mod 256 = unat c"
    "(unat a * 256 + unat b) mod 256 = unat b"
    unfolding m_def by (rule mm, rule bounds)+
  show ?thesis
    unfolding to_be_bytes_def n q
    by (subst (1) w [of "m * 256 + unat d"], subst w [of m], subst w [of "unat a * 256 + unat b"])
      (simp add: r bounds)
qed

lemma length_to_be_bytes [simp]: "length (to_be_bytes n) = 4"
  by (simp add: to_be_bytes_def)

lemma dec_be_to_be_bytes [simp]: "dec_be (to_be_bytes n @ r) = Some (n, r)"
  by (simp only: to_be_bytes_def append.simps dec_be.simps of_be_to_be_bytes)

lemma read_be_to_be_bytes [simp]: "read_be (to_be_bytes n @ r) = n"
  by (simp only: to_be_bytes_def append.simps read_be.simps of_be_to_be_bytes)

lemma dec_be_sound: "dec_be b = Some (n, r) \<Longrightarrow> b = to_be_bytes n @ r"
  by (cases b rule: dec_be.cases) (auto simp: to_be_bytes_of_be)

lemma dec_str_round:
  assumes "length s \<le> max_string"
  shows "dec_str (to_be_bytes (of_nat (length s)) @ s @ r) = Some (s, r)"
proof -
  have "unat (of_nat (length s) :: u32) = length s"
    using assms by (simp add: max_string_def)
  with assms show ?thesis by simp
qed

lemma dec_str_sound:
  "dec_str b = Some (s, r) \<Longrightarrow> b = (to_be_bytes (of_nat (length s)) @ s) @ r \<and> length s \<le> max_string"
  by (auto split: option.splits if_splits dest!: dec_be_sound)

interpretation rfc: ssh_codec rfc4251
  by unfold_locales (auto simp del: dec_str.simps simp: dec_str_round dest: dec_be_sound dec_str_sound)

lemma rfc4251_codec: "ssh_codec rfc4251"
  by (rule rfc.ssh_codec_axioms)

end
