(* ===== verification/Types.thy ===== *)
theory Types
  imports Prelude
begin

text \<open>
  The protocol vocabulary of \<open>lib_inner.rs\<close>, \<open>msg.rs\<close> and \<open>pty.rs\<close>: the error type, message
  numbers, the strict key exchange order checks, signal names, disconnect and channel-open
  failure codes, terminal mode codes, rekey limits and the per-channel parameters. Constructors
  carry a prefix where the source reuses a name (\<open>E_\<close> for \<open>Error\<close>, \<open>AK_\<close> for \<open>AlgorithmKind\<close>,
  \<open>D_\<close> for \<open>Disconnect\<close>, \<open>SIG_\<close> for \<open>Sig\<close>); the payload of an error that wraps a foreign
  package's error is left out. Two outcomes are not errors of the source but stand beside them:
  \<open>Panicked\<close> for a failed assertion or out-of-range index, and \<open>Diverged\<close> for a loop that does
  not return.
\<close>

section \<open>Errors\<close>

datatype AlgorithmKind = AK_Kex | AK_Key | AK_Cipher | AK_Compression | AK_Mac

text \<open>
  The errors of \<open>ssh_encoding\<close> that the sources raise themselves, and \<open>EncDecode\<close> for a failure
  inside one of the package's decoders.
\<close>

datatype enc_error = EncLength | EncCharacterEncoding | EncTrailingData nat | EncDecode

datatype ChannelOpenFailure =
    AdministrativelyProhibited
  | ConnectFailed
  | UnknownChannelType
  | ResourceShortage
  | OtherFailure u32 rstring

datatype (plugins only: code size) error =
    E_CouldNotReadKey | E_KexInit | E_UnknownAlgo
  | E_NoCommonAlgo AlgorithmKind "rstring list" "rstring list"
  | E_Version | E_Kex | E_PacketAuth | E_Inconsistent | E_NotAuthenticated
  | E_UnsupportedAuthMethod | E_IndexOutOfBounds | E_UnknownKey | E_WrongServerSig
  | E_PacketSize nat | E_WrongChannel | E_ChannelOpenFailure ChannelOpenFailure
  | E_Disconnect | E_NoHomeDir | E_KeyChanged nat | E_HUP | E_ConnectionTimeout
  | E_KeepaliveTimeout | E_InactivityTimeout | E_WriteStalled | E_RekeyTimeout u64
  | E_HandshakeTimeout | E_NoAuthMethod | E_SendError | E_Pending | E_DecryptionError
  | E_RequestDenied | E_Keys | E_IO | E_Utf8 | E_Compress | E_Decompress | E_Join | E_Elapsed
  | E_StrictKeyExchangeViolation u8 nat
  | E_Signature | E_SshKey | E_SshEncoding enc_error | E_InvalidConfig rstring | E_RecvError
  | Panicked | Diverged

type_synonym 'a res = "error + 'a"

definition strict_kex_violation :: "u8 \<Rightarrow> nat \<Rightarrow> error" where
  "strict_kex_violation message_type sequence_number =
     E_StrictKeyExchangeViolation message_type sequence_number"

text \<open>Decoding with the error conversion the sources apply to the package's errors.\<close>

definition d_u32 :: "codec \<Rightarrow> bytes \<Rightarrow> (u32 \<times> bytes) res" where
  "d_u32 C r = ok_or (E_SshEncoding EncDecode) (u32_decode C r)"

definition d_bytes :: "codec \<Rightarrow> bytes \<Rightarrow> (bytes \<times> bytes) res" where
  "d_bytes C r = ok_or (E_SshEncoding EncDecode) (bytes_decode C r)"

definition d_string :: "codec \<Rightarrow> bytes \<Rightarrow> (rstring \<times> bytes) res" where
  "d_string C r = ok_or (E_SshEncoding EncDecode) (string_decode C r)"

definition d_u8 :: "bytes \<Rightarrow> (u8 \<times> bytes) res" where
  "d_u8 r = ok_or (E_SshEncoding EncDecode) (u8_decode r)"

lemmas decoder_defs = d_u32_def d_bytes_def d_string_def d_u8_def

section \<open>Message numbers\<close>

abbreviation (input) DISCONNECT :: u8 where "DISCONNECT \<equiv> 1"
abbreviation (input) IGNORE :: u8 where "IGNORE \<equiv> 2"
abbreviation (input) UNIMPLEMENTED :: u8 where "UNIMPLEMENTED \<equiv> 3"
abbreviation (input) DEBUG :: u8 where "DEBUG \<equiv> 4"
abbreviation (input) SERVICE_REQUEST :: u8 where "SERVICE_REQUEST \<equiv> 5"
abbreviation (input) SERVICE_ACCEPT :: u8 where "SERVICE_ACCEPT \<equiv> 6"
abbreviation (input) EXT_INFO :: u8 where "EXT_INFO \<equiv> 7"
abbreviation (input) KEXINIT :: u8 where "KEXINIT \<equiv> 20"
abbreviation (input) NEWKEYS :: u8 where "NEWKEYS \<equiv> 21"
abbreviation (input) KEX_ECDH_INIT :: u8 where "KEX_ECDH_INIT \<equiv> 30"
abbreviation (input) KEX_ECDH_REPLY :: u8 where "KEX_ECDH_REPLY \<equiv> 31"
abbreviation (input) KEX_DH_GEX_REQUEST :: u8 where "KEX_DH_GEX_REQUEST \<equiv> 34"
abbreviation (input) KEX_DH_GEX_GROUP :: u8 where "KEX_DH_GEX_GROUP \<equiv> 31"
abbreviation (input) KEX_DH_GEX_INIT :: u8 where "KEX_DH_GEX_INIT \<equiv> 32"
abbreviation (input) KEX_DH_GEX_REPLY :: u8 where "KEX_DH_GEX_REPLY \<equiv> 33"
abbreviation (input) KEX_HYBRID_INIT :: u8 where "KEX_HYBRID_INIT \<equiv> 30"
abbreviation (input) KEX_HYBRID_REPLY :: u8 where "KEX_HYBRID_REPLY \<equiv> 31"
abbreviation (input) USERAUTH_REQUEST :: u8 where "USERAUTH_REQUEST \<equiv> 50"
abbreviation (input) USERAUTH_FAILURE :: u8 where "USERAUTH_FAILURE \<equiv> 51"
abbreviation (input) USERAUTH_SUCCESS :: u8 where "USERAUTH_SUCCESS \<equiv> 52"
abbreviation (input) USERAUTH_BANNER :: u8 where "USERAUTH_BANNER \<equiv> 53"
abbreviation (input) USERAUTH_INFO_RESPONSE :: u8 where "USERAUTH_INFO_RESPONSE \<equiv> 61"
abbreviation (input) USERAUTH_INFO_REQUEST_OR_USERAUTH_PK_OK :: u8 where "USERAUTH_INFO_REQUEST_OR_USERAUTH_PK_OK \<equiv> 60"
abbreviation (input) GLOBAL_REQUEST :: u8 where "GLOBAL_REQUEST \<equiv> 80"
abbreviation (input) REQUEST_SUCCESS :: u8 where "REQUEST_SUCCESS \<equiv> 81"
abbreviation (input) REQUEST_FAILURE :: u8 where "REQUEST_FAILURE \<equiv> 82"
abbreviation (input) CHANNEL_OPEN :: u8 where "CHANNEL_OPEN \<equiv> 90"
abbreviation (input) CHANNEL_OPEN_CONFIRMATION :: u8 where "CHANNEL_OPEN_CONFIRMATION \<equiv> 91"
abbreviation (input) CHANNEL_OPEN_FAILURE :: u8 where "CHANNEL_OPEN_FAILURE \<equiv> 92"
abbreviation (input) CHANNEL_WINDOW_ADJUST :: u8 where "CHANNEL_WINDOW_ADJUST \<equiv> 93"
abbreviation (input) CHANNEL_DATA :: u8 where "CHANNEL_DATA \<equiv> 94"
abbreviation (input) CHANNEL_EXTENDED_DATA :: u8 where "CHANNEL_EXTENDED_DATA \<equiv> 95"
abbreviation (input) CHANNEL_EOF :: u8 where "CHANNEL_EOF \<equiv> 96"
abbreviation (input) CHANNEL_CLOSE :: u8 where "CHANNEL_CLOSE \<equiv> 97"
abbreviation (input) CHANNEL_REQUEST :: u8 where "CHANNEL_REQUEST \<equiv> 98"
abbreviation (input) CHANNEL_SUCCESS :: u8 where "CHANNEL_SUCCESS \<equiv> 99"
abbreviation (input) CHANNEL_FAILURE :: u8 where "CHANNEL_FAILURE \<equiv> 100"
abbreviation (input) SSH_OPEN_CONNECT_FAILED :: u8 where "SSH_OPEN_CONNECT_FAILED \<equiv> 2"
abbreviation (input) SSH_OPEN_UNKNOWN_CHANNEL_TYPE :: u8 where "SSH_OPEN_UNKNOWN_CHANNEL_TYPE \<equiv> 3"
abbreviation (input) SSH_OPEN_RESOURCE_SHORTAGE :: u8 where "SSH_OPEN_RESOURCE_SHORTAGE \<equiv> 4"
abbreviation (input) USERAUTH_INFO_REQUEST :: u8 where "USERAUTH_INFO_REQUEST \<equiv> 60"
abbreviation (input) USERAUTH_PK_OK :: u8 where "USERAUTH_PK_OK \<equiv> 60"
abbreviation (input) SSH_OPEN_ADMINISTRATIVELY_PROHIBITED :: u8 where "SSH_OPEN_ADMINISTRATIVELY_PROHIBITED \<equiv> 1"

section \<open>Strict key exchange order\<close>

definition validate_msg_strict_kex :: "u8 \<Rightarrow> nat \<Rightarrow> u8 list \<Rightarrow> bool option" where
  "validate_msg_strict_kex msg_type seqno order =
     (if seqno < length order then Some (order ! seqno = msg_type) else None)"

definition alt_order_step :: "u8 \<Rightarrow> nat \<Rightarrow> u8 list \<Rightarrow> bool option \<Rightarrow> bool option" where
  "alt_order_step msg_type seqno order valid =
     (case (valid, validate_msg_strict_kex msg_type seqno order) of
        (Some True, _) \<Rightarrow> Some True
      | (_, Some True) \<Rightarrow> Some True
      | (_, Some False) \<Rightarrow> Some False
      | (x, None) \<Rightarrow> x)"

definition validate_msg_strict_kex_alt_order :: "u8 \<Rightarrow> nat \<Rightarrow> u8 list list \<Rightarrow> bool option" where
  "validate_msg_strict_kex_alt_order msg_type seqno orders =
     fold (alt_order_step msg_type seqno) orders None"

definition validate_client_msg_strict_kex :: "u8 \<Rightarrow> nat \<Rightarrow> unit res" where
  "validate_client_msg_strict_kex msg_type seqno =
     (if Some False = validate_msg_strict_kex_alt_order msg_type seqno
           [[KEXINIT, KEX_ECDH_INIT, NEWKEYS],
            [KEXINIT, KEX_DH_GEX_REQUEST, KEX_DH_GEX_INIT, NEWKEYS]]
      then Inl (strict_kex_violation msg_type seqno) else Inr ())"

definition validate_server_msg_strict_kex :: "u8 \<Rightarrow> nat \<Rightarrow> unit res" where
  "validate_server_msg_strict_kex msg_type seqno =
     (if Some False = validate_msg_strict_kex_alt_order msg_type seqno
           [[KEXINIT, KEX_ECDH_REPLY, NEWKEYS],
            [KEXINIT, KEX_DH_GEX_GROUP, KEX_DH_GEX_REPLY, NEWKEYS]]
      then Inl (strict_kex_violation msg_type seqno) else Inr ())"

definition ALL_KEX_MESSAGES :: "u8 list" where
  "ALL_KEX_MESSAGES =
     [KEXINIT, KEX_ECDH_INIT, KEX_ECDH_REPLY, KEX_DH_GEX_GROUP, KEX_DH_GEX_INIT,
      KEX_DH_GEX_REPLY, KEX_DH_GEX_REQUEST, NEWKEYS]"

definition is_kex_msg :: "u8 \<Rightarrow> bool" where
  "is_kex_msg m = (m \<in> set ALL_KEX_MESSAGES)"

section \<open>Rekey limits\<close>

record Limits =
  rekey_write_limit :: nat
  rekey_read_limit :: nat
  rekey_time_limit :: duration

text \<open>\<open>Limits::new\<close> panics on an out-of-range bound, here the value \<^term>\<open>None\<close>.\<close>

definition Limits_new :: "nat \<Rightarrow> nat \<Rightarrow> duration \<Rightarrow> Limits option" where
  "Limits_new write_limit read_limit time_limit =
     (if write_limit \<le> 2 ^ 30 \<and> read_limit \<le> 2 ^ 30
      then Some \<lparr> rekey_write_limit = write_limit, rekey_read_limit = read_limit,
                  rekey_time_limit = time_limit \<rparr>
      else None)"

text \<open>Durations are counted in milliseconds.\<close>

definition Limits_default :: Limits where
  "Limits_default = \<lparr> rekey_write_limit = 2 ^ 30, rekey_read_limit = 2 ^ 30,
     rekey_time_limit = 3600 * 1000 \<rparr>"

section \<open>Disconnect reasons\<close>

datatype Disconnect =
    D_HostNotAllowedToConnect | D_ProtocolError | D_KeyExchangeFailed | D_Reserved
  | D_MACError | D_CompressionError | D_ServiceNotAvailable | D_ProtocolVersionNotSupported
  | D_HostKeyNotVerifiable | D_ConnectionLost | D_ByApplication | D_TooManyConnections
  | D_AuthCancelledByUser | D_NoMoreAuthMethodsAvailable | D_IllegalUserName

text \<open>The discriminants, which \<open>reason as u32\<close> reads.\<close>

primrec disconnect_code :: "Disconnect \<Rightarrow> u32" where
  "disconnect_code D_HostNotAllowedToConnect = 1"
| "disconnect_code D_ProtocolError = 2"
| "disconnect_code D_KeyExchangeFailed = 3"
| "disconnect_code D_Reserved = 4"
| "disconnect_code D_MACError = 5"
| "disconnect_code D_CompressionError = 6"
| "disconnect_code D_ServiceNotAvailable = 7"
| "disconnect_code D_ProtocolVersionNotSupported = 8"
| "disconnect_code D_HostKeyNotVerifiable = 9"
| "disconnect_code D_ConnectionLost = 10"
| "disconnect_code D_ByApplication = 11"
| "disconnect_code D_TooManyConnections = 12"
| "disconnect_code D_AuthCancelledByUser = 13"
| "disconnect_code D_NoMoreAuthMethodsAvailable = 14"
| "disconnect_code D_IllegalUserName = 15"

definition disconnect_try_from :: "u32 \<Rightarrow> Disconnect res" where
  "disconnect_try_from v =
     (if v = 1 then Inr D_HostNotAllowedToConnect
      else if v = 2 then Inr D_ProtocolError
      else if v = 3 then Inr D_KeyExchangeFailed
      else if v = 4 then Inr D_Reserved
      else if v = 5 then Inr D_MACError
      else if v = 6 then Inr D_CompressionError
      else if v = 7 then Inr D_ServiceNotAvailable
      else if v = 8 then Inr D_ProtocolVersionNotSupported
      else if v = 9 then Inr D_HostKeyNotVerifiable
      else if v = 10 then Inr D_ConnectionLost
      else if v = 11 then Inr D_ByApplication
      else if v = 12 then Inr D_TooManyConnections
      else if v = 13 then Inr D_AuthCancelledByUser
      else if v = 14 then Inr D_NoMoreAuthMethodsAvailable
      else if v = 15 then Inr D_IllegalUserName
      else Inl E_Inconsistent)"

section \<open>Signals\<close>

datatype Sig =
    SIG_ABRT | SIG_ALRM | SIG_FPE | SIG_HUP | SIG_ILL | SIG_INT | SIG_KILL | SIG_PIPE
  | SIG_QUIT | SIG_SEGV | SIG_TERM | SIG_USR1 | SIG_Custom rstring

primrec sig_name :: "Sig \<Rightarrow> rstring" where
  "sig_name SIG_ABRT = str ''ABRT''"
| "sig_name SIG_ALRM = str ''ALRM''"
| "sig_name SIG_FPE = str ''FPE''"
| "sig_name SIG_HUP = str ''HUP''"
| "sig_name SIG_ILL = str ''ILL''"
| "sig_name SIG_INT = str ''INT''"
| "sig_name SIG_KILL = str ''KILL''"
| "sig_name SIG_PIPE = str ''PIPE''"
| "sig_name SIG_QUIT = str ''QUIT''"
| "sig_name SIG_SEGV = str ''SEGV''"
| "sig_name SIG_TERM = str ''TERM''"
| "sig_name SIG_USR1 = str ''USR1''"
| "sig_name (SIG_Custom c) = c"

definition sig_from_name :: "rstring \<Rightarrow> Sig" where
  "sig_from_name name =
     (if name = str ''ABRT'' then SIG_ABRT
      else if name = str ''ALRM'' then SIG_ALRM
      else if name = str ''FPE'' then SIG_FPE
      else if name = str ''HUP'' then SIG_HUP
      else if name = str ''ILL'' then SIG_ILL
      else if name = str ''INT'' then SIG_INT
      else if name = str ''KILL'' then SIG_KILL
      else if name = str ''PIPE'' then SIG_PIPE
      else if name = str ''QUIT'' then SIG_QUIT
      else if name = str ''SEGV'' then SIG_SEGV
      else if name = str ''TERM'' then SIG_TERM
      else if name = str ''USR1'' then SIG_USR1
      else SIG_Custom name)"

section \<open>Channel-open failures\<close>

text \<open>Decimal rendering of an integer, as \<open>format!\<close> does it.\<close>

fun show_nat :: "nat \<Rightarrow> rstring" where
  "show_nat n = (if n < 10 then [of_nat (48 + n)] else show_nat (n div 10) @ [of_nat (48 + n mod 10)])"

declare show_nat.simps [simp del]

definition failure_from_u32 :: "u32 \<Rightarrow> ChannelOpenFailure option" where
  "failure_from_u32 x =
     (if x = 1 then Some AdministrativelyProhibited
      else if x = 2 then Some ConnectFailed
      else if x = 3 then Some UnknownChannelType
      else if x = 4 then Some ResourceShortage
      else Some (OtherFailure x (str ''Unknown code '' @ show_nat (unat x))))"

primrec failure_code :: "ChannelOpenFailure \<Rightarrow> u32" where
  "failure_code AdministrativelyProhibited = 1"
| "failure_code ConnectFailed = 2"
| "failure_code UnknownChannelType = 3"
| "failure_code ResourceShortage = 4"
| "failure_code (OtherFailure code _) = code"

primrec failure_description :: "ChannelOpenFailure \<Rightarrow> rstring" where
  "failure_description AdministrativelyProhibited = str ''Administratively prohibited''"
| "failure_description ConnectFailed = str ''Connect failed''"
| "failure_description UnknownChannelType = str ''Unknown channel type''"
| "failure_description ResourceShortage = str ''Resource shortage''"
| "failure_description (OtherFailure _ reason) = reason"

section \<open>Channel parameters\<close>

type_synonym ChannelId = u32

text \<open>A queued write: the buffer, the extended stream number, the offset already sent.\<close>

type_synonym pending_item = "bytes \<times> u32 option \<times> nat"

record ChannelParams =
  recipient_channel :: u32
  sender_channel :: ChannelId
  recipient_window_size :: u32
  sender_window_size :: u32
  recipient_maximum_packet_size :: u32
  sender_maximum_packet_size :: u32
  confirmed :: bool
  wants_reply :: bool
  pending_data :: "pending_item list"
  pending_eof :: bool
  pending_close :: bool

record ChannelOpenConfirmation =
  coc_recipient_channel :: u32
  coc_sender_channel :: u32
  coc_initial_window_size :: u32
  coc_maximum_packet_size :: u32

definition confirm :: "ChannelOpenConfirmation \<Rightarrow> ChannelParams \<Rightarrow> ChannelParams" where
  "confirm c ch = ch\<lparr> recipient_channel := coc_sender_channel c,
     recipient_window_size := coc_initial_window_size c,
     recipient_maximum_packet_size := coc_maximum_packet_size c,
     confirmed := True \<rparr>"

definition take_pending_controls :: "ChannelParams \<Rightarrow> (bool \<times> bool) \<times> ChannelParams" where
  "take_pending_controls ch =
     ((pending_eof ch, pending_close ch), ch\<lparr> pending_eof := False, pending_close := False \<rparr>)"

section \<open>Terminal modes\<close>

datatype (plugins only: code size) Pty =
  TTY_OP_END | VINTR | VQUIT | VERASE | VKILL | VEOF | VEOL | VEOL2 | VSTART | VSTOP | VSUSP
  | VDSUSP | VREPRINT | VWERASE | VLNEXT | VFLUSH | VSWTCH | VSTATUS | VDISCARD | IGNPAR
  | PARMRK | INPCK | ISTRIP | INLCR | IGNCR | ICRNL | IUCLC | IXON | IXANY | IXOFF | IMAXBEL
  | IUTF8 | ISIG | ICANON | XCASE | ECHO | ECHOE | ECHOK | ECHONL | NOFLSH | TOSTOP | IEXTEN
  | ECHOCTL | ECHOKE | PENDIN | OPOST | OLCUC | ONLCR | OCRNL | ONOCR | ONLRET | CS7 | CS8
  | PARENB | PARODD | TTY_OP_ISPEED | TTY_OP_OSPEED

primrec pty_code :: "Pty \<Rightarrow> u8" where
  "pty_code TTY_OP_END = 0"
| "pty_code VINTR = 1"
| "pty_code VQUIT = 2"
| "pty_code VERASE = 3"
| "pty_code VKILL = 4"
| "pty_code VEOF = 5"
| "pty_code VEOL = 6"
| "pty_code VEOL2 = 7"
| "pty_code VSTART = 8"
| "pty_code VSTOP = 9"
| "pty_code VSUSP = 10"
| "pty_code VDSUSP = 11"
| "pty_code VREPRINT = 12"
| "pty_code VWERASE = 13"
| "pty_code VLNEXT = 14"
| "pty_code VFLUSH = 15"
| "pty_code VSWTCH = 16"
| "pty_code VSTATUS = 17"
| "pty_code VDISCARD = 18"
| "pty_code IGNPAR = 30"
| "pty_code PARMRK = 31"
| "pty_code INPCK = 32"
| "pty_code ISTRIP = 33"
| "pty_code INLCR = 34"
| "pty_code IGNCR = 35"
| "pty_code ICRNL = 36"
| "pty_code IUCLC = 37"
| "pty_code IXON = 38"
| "pty_code IXANY = 39"
| "pty_code IXOFF = 40"
| "pty_code IMAXBEL = 41"
| "pty_code IUTF8 = 42"
| "pty_code ISIG = 50"
| "pty_code ICANON = 51"
| "pty_code XCASE = 52"
| "pty_code ECHO = 53"
| "pty_code ECHOE = 54"
| "pty_code ECHOK = 55"
| "pty_code ECHONL = 56"
| "pty_code NOFLSH = 57"
| "pty_code TOSTOP = 58"
| "pty_code IEXTEN = 59"
| "pty_code ECHOCTL = 60"
| "pty_code ECHOKE = 61"
| "pty_code PENDIN = 62"
| "pty_code OPOST = 70"
| "pty_code OLCUC = 71"
| "pty_code ONLCR = 72"
| "pty_code OCRNL = 73"
| "pty_code ONOCR = 74"
| "pty_code ONLRET = 75"
| "pty_code CS7 = 90"
| "pty_code CS8 = 91"
| "pty_code PARENB = 92"
| "pty_code PARODD = 93"
| "pty_code TTY_OP_ISPEED = 128"
| "pty_code TTY_OP_OSPEED = 129"

definition pty_table :: "(u8 \<times> Pty) list" where
  "pty_table =
    [(1, VINTR), (2, VQUIT), (3, VERASE), (4, VKILL), (5, VEOF), (6, VEOL), (7, VEOL2),
     (8, VSTART), (9, VSTOP), (10, VSUSP), (11, VDSUSP), (12, VREPRINT), (13, VWERASE),
     (14, VLNEXT), (15, VFLUSH), (16, VSWTCH), (17, VSTATUS), (18, VDISCARD), (30, IGNPAR),
     (31, PARMRK), (32, INPCK), (33, ISTRIP), (34, INLCR), (35, IGNCR), (36, ICRNL),
     (37, IUCLC), (38, IXON), (39, IXANY), (40, IXOFF), (41, IMAXBEL), (42, IUTF8), (50, ISIG),
     (51, ICANON), (52, XCASE), (53, ECHO), (54, ECHOE), (55, ECHOK), (56, ECHONL),
     (57, NOFLSH), (58, TOSTOP), (59, IEXTEN), (60, ECHOCTL), (61, ECHOKE), (62, PENDIN),
     (70, OPOST), (71, OLCUC), (72, ONLCR), (73, OCRNL), (74, ONOCR), (75, ONLRET), (90, CS7),
     (91, CS8), (92, PARENB), (93, PARODD), (128, TTY_OP_ISPEED), (129, TTY_OP_OSPEED)]"

definition pty_from_u8 :: "u8 \<Rightarrow> Pty option" where
  "pty_from_u8 x = map_of pty_table x"

section \<open>Lemmas\<close>

context ssh_codec
begin

lemma d_u32_iff: "d_u32 C b = Inr (n, r) \<longleftrightarrow> b = u32_encode C n @ r"
  by (simp add: d_u32_def ok_or_Inr_iff u32_iff)

lemma d_bytes_iff:
  "d_bytes C b = Inr (s, r) \<longleftrightarrow> b = bytes_encode C s @ r \<and> length s \<le> max_string"
  by (simp add: d_bytes_def ok_or_Inr_iff bytes_iff)

lemma d_string_iff:
  "d_string C b = Inr (s, r) \<longleftrightarrow>
     b = bytes_encode C s @ r \<and> length s \<le> max_string \<and> utf8_valid s"
  by (simp add: d_string_def ok_or_Inr_iff string_iff)

lemma d_u32_round [simp]: "d_u32 C (u32_encode C n @ r) = Inr (n, r)"
  by (simp add: d_u32_iff)

lemma d_u32_round_Nil [simp]: "d_u32 C (u32_encode C n) = Inr (n, [])"
  by (simp add: d_u32_iff)

lemma d_bytes_round:
  "length s \<le> max_string \<Longrightarrow> d_bytes C (bytes_encode C s @ r) = Inr (s, r)"
  by (simp add: d_bytes_iff)

lemma d_string_round:
  "length s \<le> max_string \<Longrightarrow> utf8_valid s \<Longrightarrow> d_string C (bytes_encode C s @ r) = Inr (s, r)"
  by (simp add: d_string_iff)

lemmas decode_iffs = d_u32_iff d_bytes_iff d_string_iff

end

lemma alt_order_fold:
  "fold (alt_order_step m n) orders v =
     (if v = Some True \<or> (\<exists>order \<in> set orders. n < length order \<and> order ! n = m) then Some True
      else if v = Some False \<or> (\<exists>order \<in> set orders. n < length order) then Some False
      else None)"
proof (induction orders arbitrary: v)
  case Nil
  then show ?case by (cases v) auto
qed (auto simp: alt_order_step_def validate_msg_strict_kex_def split: option.splits bool.splits)

lemma alt_order_invalid:
  "validate_msg_strict_kex_alt_order m n orders = Some False \<longleftrightarrow>
     (\<exists>order \<in> set orders. n < length order) \<and>
     \<not> (\<exists>order \<in> set orders. n < length order \<and> order ! n = m)"
  by (simp add: validate_msg_strict_kex_alt_order_def alt_order_fold)

lemma nat_less_4_cases: "(n :: nat) < 4 \<Longrightarrow> n = 0 \<or> n = 1 \<or> n = 2 \<or> n = 3"
  by auto

lemma sig_from_name_Custom:
  "sig_from_name name = SIG_Custom c \<longleftrightarrow> c = name \<and> name \<notin> set (map sig_name
     [SIG_ABRT, SIG_ALRM, SIG_FPE, SIG_HUP, SIG_ILL, SIG_INT, SIG_KILL, SIG_PIPE, SIG_QUIT,
      SIG_SEGV, SIG_TERM, SIG_USR1])"
  by (auto simp: sig_from_name_def simp del: str_simps)

end
