(* ===== verification/Wire.thy ===== *)
theory Wire
  imports Types
begin

text \<open>
  Encoded messages: the packet framing macro of \<open>lib_inner.rs\<close>, the bounded strings and
  name-lists of \<open>helpers.rs\<close>, and the channel-open messages of \<open>parsing.rs\<close>. A decoder takes
  the unread input and returns the value with the rest of the input; \<open>is_finished\<close> is the
  empty rest. The properties: name-lists and channel-open confirmations survive encoding and
  decoding, accepted name-lists are within the bounds, and a channel-open message of a known
  type is accepted exactly when it is its canonical encoding, with no byte left over.
\<close>

section \<open>Packets in a write buffer\<close>

text \<open>
  \<open>push_packet!\<close>: reserve four bytes, write the payload, patch the length of the payload
  (as a \<open>u32\<close>) into the reserved bytes.
\<close>

definition push_packet :: "codec \<Rightarrow> bytes \<Rightarrow> bytes \<Rightarrow> bytes" where
  "push_packet C buffer x = buffer @ be_write_u32 C (of_nat (length x)) @ x"

section \<open>Bounded strings and name-lists\<close>

definition limited_string_decode :: "nat \<Rightarrow> codec \<Rightarrow> bytes \<Rightarrow> (rstring \<times> bytes) res" where
  "limited_string_decode N C r =
     bindR (d_bytes C r) (\<lambda>(buf, rest).
       if length buf > N then Inl (E_SshEncoding EncLength)
       else if \<not> utf8_valid buf then Inl (E_SshEncoding EncCharacterEncoding)
       else Inr (buf, rest))"

definition MAX_NAME_LIST_ENTRIES :: nat where
  "MAX_NAME_LIST_ENTRIES = 1024"

definition MAX_NAME_LIST_BYTES :: nat where
  "MAX_NAME_LIST_BYTES = 16 * 1024"

type_synonym NameList = "rstring list"

text \<open>The separator of a name-list, a comma.\<close>

abbreviation (input) comma :: u8 where
  "comma \<equiv> 44"

definition as_encoded_string :: "NameList \<Rightarrow> rstring" where
  "as_encoded_string nl = join_with comma nl"

fun name_list_fold :: "NameList \<Rightarrow> rstring list \<Rightarrow> NameList res" where
  "name_list_fold acc [] = Inr acc"
| "name_list_fold acc (name # rest) =
     (if name = [] \<or> \<not> is_ascii name then Inl (E_SshEncoding EncCharacterEncoding)
      else if length acc > MAX_NAME_LIST_ENTRIES then Inl (E_SshEncoding EncLength)
      else name_list_fold (acc @ [name]) rest)"

definition from_encoded_string :: "rstring \<Rightarrow> NameList res" where
  "from_encoded_string v = (if v = [] then Inr [] else name_list_fold [] (split_on comma v))"

definition name_list_encode :: "codec \<Rightarrow> NameList \<Rightarrow> bytes" where
  "name_list_encode C nl = bytes_encode C (as_encoded_string nl)"

definition name_list_decode :: "codec \<Rightarrow> bytes \<Rightarrow> (NameList \<times> bytes) res" where
  "name_list_decode C r =
     bindR (limited_string_decode MAX_NAME_LIST_BYTES C r) (\<lambda>(s, rest).
     bindR (from_encoded_string s) (\<lambda>nl. Inr (nl, rest)))"

section \<open>Channel-open messages\<close>

definition ensure_end :: "bytes \<Rightarrow> unit res" where
  "ensure_end r = (if r = [] then Inr () else Inl (E_SshEncoding (EncTrailingData (length r))))"

record TcpChannelInfo =
  host_to_connect :: rstring
  port_to_connect :: u32
  originator_address :: rstring
  originator_port :: u32

record StreamLocalChannelInfo =
  socket_path :: rstring

datatype ChannelType =
    CT_Session
  | CT_X11 rstring u32
  | CT_DirectTcpip TcpChannelInfo
  | CT_DirectStreamLocal StreamLocalChannelInfo
  | CT_ForwardedTcpIp TcpChannelInfo
  | CT_ForwardedStreamLocal StreamLocalChannelInfo
  | CT_AgentForward
  | CT_Unknown rstring

record OpenChannelMessage =
  ocm_typ :: ChannelType
  ocm_recipient_channel :: u32
  ocm_recipient_window_size :: u32
  ocm_recipient_maximum_packet_size :: u32

definition stream_local_info_decode ::
  "codec \<Rightarrow> bytes \<Rightarrow> (StreamLocalChannelInfo \<times> bytes) res" where
  "stream_local_info_decode C r =
     bindR (d_string C r) (\<lambda>(path, r). Inr (\<lparr> socket_path = path \<rparr>, r))"

definition tcp_info_decode :: "codec \<Rightarrow> bytes \<Rightarrow> (TcpChannelInfo \<times> bytes) res" where
  "tcp_info_decode C r =
     bindR (d_string C r) (\<lambda>(host, r).
     bindR (d_u32 C r) (\<lambda>(port, r).
     bindR (d_string C r) (\<lambda>(oaddr, r).
     bindR (d_u32 C r) (\<lambda>(oport, r).
       Inr (\<lparr> host_to_connect = host, port_to_connect = port,
              originator_address = oaddr, originator_port = oport \<rparr>, r)))))"

definition channel_type_parse :: "codec \<Rightarrow> rstring \<Rightarrow> bytes \<Rightarrow> (ChannelType \<times> bytes) res" where
  "channel_type_parse C typ r =
     (if typ = str ''session'' then
        bindR (ensure_end r) (\<lambda>_. Inr (CT_Session, r))
      else if typ = str ''x11'' then
        bindR (d_string C r) (\<lambda>(oaddr, r).
        bindR (d_u32 C r) (\<lambda>(oport, r).
        bindR (ensure_end r) (\<lambda>_. Inr (CT_X11 oaddr oport, r))))
      else if typ = str ''direct-tcpip'' then
        bindR (tcp_info_decode C r) (\<lambda>(info, r).
        bindR (ensure_end r) (\<lambda>_. Inr (CT_DirectTcpip info, r)))
      else if typ = str ''direct-streamlocal@openssh.com'' then
        bindR (stream_local_info_decode C r) (\<lambda>(info, r).
        bindR (d_string C r) (\<lambda>(_, r).
        bindR (d_u32 C r) (\<lambda>(_, r).
        bindR (ensure_end r) (\<lambda>_. Inr (CT_DirectStreamLocal info, r)))))
      else if typ = str ''forwarded-tcpip'' then
        bindR (tcp_info_decode C r) (\<lambda>(info, r).
        bindR (ensure_end r) (\<lambda>_. Inr (CT_ForwardedTcpIp info, r)))
      else if typ = str ''forwarded-streamlocal@openssh.com'' then
        bindR (stream_local_info_decode C r) (\<lambda>(info, r).
        bindR (d_string C r) (\<lambda>(_, r).
        bindR (ensure_end r) (\<lambda>_. Inr (CT_ForwardedStreamLocal info, r))))
      else if typ = str ''auth-agent@openssh.com'' then
        bindR (ensure_end r) (\<lambda>_. Inr (CT_AgentForward, r))
      else Inr (CT_Unknown typ, r))"

definition open_channel_parse :: "codec \<Rightarrow> bytes \<Rightarrow> (OpenChannelMessage \<times> bytes) res" where
  "open_channel_parse C r =
     bindR (d_string C r) (\<lambda>(typ, r).
     bindR (d_u32 C r) (\<lambda>(sender, r).
     bindR (d_u32 C r) (\<lambda>(window, r).
     bindR (d_u32 C r) (\<lambda>(maxpacket, r).
     bindR (channel_type_parse C typ r) (\<lambda>(ct, r).
       Inr (\<lparr> ocm_typ = ct, ocm_recipient_channel = sender,
              ocm_recipient_window_size = window,
              ocm_recipient_maximum_packet_size = maxpacket \<rparr>, r))))))"

definition open_channel_fail ::
  "codec \<Rightarrow> OpenChannelMessage \<Rightarrow> bytes \<Rightarrow> u8 \<Rightarrow> bytes \<Rightarrow> bytes" where
  "open_channel_fail C m buffer reason message =
     push_packet C buffer
       (CHANNEL_OPEN_FAILURE # u32_encode C (ocm_recipient_channel m) @
        u32_encode C (ucast reason) @ bytes_encode C message @ bytes_encode C (str ''en''))"

definition open_channel_unknown_type :: "codec \<Rightarrow> OpenChannelMessage \<Rightarrow> bytes \<Rightarrow> bytes" where
  "open_channel_unknown_type C m buffer =
     open_channel_fail C m buffer SSH_OPEN_UNKNOWN_CHANNEL_TYPE (str ''Unknown channel type'')"

definition open_confirmation_decode ::
  "codec \<Rightarrow> bytes \<Rightarrow> (ChannelOpenConfirmation \<times> bytes) res" where
  "open_confirmation_decode C r =
     bindR (d_u32 C r) (\<lambda>(rc, r).
     bindR (d_u32 C r) (\<lambda>(sc, r).
     bindR (d_u32 C r) (\<lambda>(win, r).
     bindR (d_u32 C r) (\<lambda>(mx, r).
       Inr (\<lparr> coc_recipient_channel = rc, coc_sender_channel = sc,
              coc_initial_window_size = win, coc_maximum_packet_size = mx \<rparr>, r)))))"

section \<open>Name-list lemmas\<close>

definition name_ok :: "rstring \<Rightarrow> bool" where
  "name_ok n = (n \<noteq> [] \<and> is_ascii n)"

lemma name_list_fold_Inr:
  "name_list_fold acc ns = Inr r \<longleftrightarrow>
     r = acc @ ns \<and> list_all name_ok ns \<and>
     (ns = [] \<or> length acc + length ns \<le> MAX_NAME_LIST_ENTRIES + 1)"
  by (induction acc ns rule: name_list_fold.induct) (auto simp: name_ok_def)

lemma split_on_sep_free: "y \<in> set (split_on c xs) \<Longrightarrow> c \<notin> set y"
  by (induction xs arbitrary: y) (auto split: list.splits if_splits)

text \<open>What a name-list may contain: the domain of the encoding.\<close>

definition name_list_ok :: "NameList \<Rightarrow> bool" where
  "name_list_ok nl \<longleftrightarrow>
     list_all (\<lambda>n. name_ok n \<and> comma \<notin> set n) nl \<and> length nl \<le> MAX_NAME_LIST_ENTRIES + 1"

lemma from_encoded_string_iff:
  "from_encoded_string v = Inr nl \<longleftrightarrow> name_list_ok nl \<and> v = as_encoded_string nl"
proof (cases "v = []")
  case True
  then show ?thesis
    using join_with_eq_Nil [of nl comma]
    by (auto simp: from_encoded_string_def name_list_ok_def as_encoded_string_def name_ok_def
        list_all_iff)
next
  case False
  show ?thesis
  proof
    assume "from_encoded_string v = Inr nl"
    then have nl: "nl = split_on comma v" "list_all name_ok nl"
      "length nl \<le> MAX_NAME_LIST_ENTRIES + 1"
      using False by (auto simp: from_encoded_string_def name_list_fold_Inr)
    moreover have "list_all (\<lambda>n. comma \<notin> set n) nl"
      using nl(1) by (auto simp: list_all_iff dest: split_on_sep_free)
    ultimately show "name_list_ok nl \<and> v = as_encoded_string nl"
      by (auto simp: name_list_ok_def as_encoded_string_def list_all_iff)
  next
    assume nl: "name_list_ok nl \<and> v = as_encoded_string nl"
    then have "nl \<noteq> []" using False by (auto simp: as_encoded_string_def)
    then have "split_on comma v = nl"
      using nl by (auto simp: as_encoded_string_def name_list_ok_def list_all_iff intro!: split_join_on)
    then show "from_encoded_string v = Inr nl"
      using nl False by (auto simp: from_encoded_string_def name_list_fold_Inr name_list_ok_def list_all_iff)
  qed
qed

lemma is_ascii_join: "list_all is_ascii nl \<Longrightarrow> is_ascii (join_with comma nl)"
  by (induction comma nl rule: join_with.induct) (auto simp: is_ascii_def)

lemma name_list_ok_ascii: "name_list_ok nl \<Longrightarrow> is_ascii (as_encoded_string nl)"
  unfolding as_encoded_string_def
  by (rule is_ascii_join) (auto simp: name_list_ok_def name_ok_def list_all_iff)

section \<open>The layouts of channel-open messages\<close>

text \<open>
  The fixed layouts of RFC 4254 and of the OpenSSH extensions: the type name, the fields after
  the common header, and what is left of the input. The reserved fields of the stream-local
  types may hold anything; an extension type leaves its fields unread.
\<close>

definition string_ok :: "rstring \<Rightarrow> bool" where
  "string_ok s \<longleftrightarrow> length s \<le> max_string \<and> utf8_valid s"

definition known_types :: "rstring list" where
  "known_types = map str [''session'', ''x11'', ''direct-tcpip'', ''direct-streamlocal@openssh.com'',
     ''forwarded-tcpip'', ''forwarded-streamlocal@openssh.com'', ''auth-agent@openssh.com'']"

fun tcp_layout :: "codec \<Rightarrow> TcpChannelInfo \<Rightarrow> bytes \<Rightarrow> bool" where
  "tcp_layout C i b \<longleftrightarrow>
     b = bytes_encode C (host_to_connect i) @ u32_encode C (port_to_connect i) @
         bytes_encode C (originator_address i) @ u32_encode C (originator_port i) \<and>
     string_ok (host_to_connect i) \<and> string_ok (originator_address i)"

fun type_layout :: "codec \<Rightarrow> ChannelType \<Rightarrow> rstring \<Rightarrow> bytes \<Rightarrow> bytes \<Rightarrow> bool" where
  "type_layout C CT_Session name b r \<longleftrightarrow> name = str ''session'' \<and> b = [] \<and> r = []"
| "type_layout C (CT_X11 a p) name b r \<longleftrightarrow>
     name = str ''x11'' \<and> b = bytes_encode C a @ u32_encode C p \<and> string_ok a \<and> r = []"
| "type_layout C (CT_DirectTcpip i) name b r \<longleftrightarrow>
     name = str ''direct-tcpip'' \<and> tcp_layout C i b \<and> r = []"
| "type_layout C (CT_DirectStreamLocal i) name b r \<longleftrightarrow>
     name = str ''direct-streamlocal@openssh.com'' \<and> string_ok (socket_path i) \<and> r = [] \<and>
     (\<exists>s p. string_ok s \<and>
        b = bytes_encode C (socket_path i) @ bytes_encode C s @ u32_encode C p)"
| "type_layout C (CT_ForwardedTcpIp i) name b r \<longleftrightarrow>
     name = str ''forwarded-tcpip'' \<and> tcp_layout C i b \<and> r = []"
| "type_layout C (CT_ForwardedStreamLocal i) name b r \<longleftrightarrow>
     name = str ''forwarded-streamlocal@openssh.com'' \<and> string_ok (socket_path i) \<and> r = [] \<and>
     (\<exists>s. string_ok s \<and> b = bytes_encode C (socket_path i) @ bytes_encode C s)"
| "type_layout C CT_AgentForward name b r \<longleftrightarrow>
     name = str ''auth-agent@openssh.com'' \<and> b = [] \<and> r = []"
| "type_layout C (CT_Unknown t) name b r \<longleftrightarrow> name = t \<and> t \<notin> set known_types \<and> b = r"

definition open_layout :: "codec \<Rightarrow> OpenChannelMessage \<Rightarrow> bytes \<Rightarrow> bytes \<Rightarrow> bool" where
  "open_layout C m b r \<longleftrightarrow>
     (\<exists>name suffix. string_ok name \<and> type_layout C (ocm_typ m) name suffix r \<and>
        b = bytes_encode C name @ u32_encode C (ocm_recipient_channel m) @
            u32_encode C (ocm_recipient_window_size m) @
            u32_encode C (ocm_recipient_maximum_packet_size m) @ suffix)"

lemma ensure_end_Inr [res_simps]: "ensure_end r = Inr u \<longleftrightarrow> r = []"
  by (simp add: ensure_end_def)

context ssh_codec
begin

lemma tcp_info_decode_iff:
  "tcp_info_decode C b = Inr (i, r) \<longleftrightarrow> (\<exists>s. tcp_layout C i s \<and> b = s @ r)"
  by (cases i) (auto simp: tcp_info_decode_def res_simps decode_iffs string_ok_def)

lemma stream_local_info_decode_iff:
  "stream_local_info_decode C b = Inr (i, r) \<longleftrightarrow>
     b = bytes_encode C (socket_path i) @ r \<and> string_ok (socket_path i)"
  by (cases i) (auto simp: stream_local_info_decode_def res_simps decode_iffs string_ok_def)

lemma channel_type_parse_iff:
  "channel_type_parse C typ b = Inr (ct, r) \<longleftrightarrow> type_layout C ct typ b r"
  unfolding channel_type_parse_def
  by (cases ct)
    (auto simp: res_simps decode_iffs tcp_info_decode_iff stream_local_info_decode_iff
      string_ok_def known_types_def simp del: str_simps tcp_layout.simps split: if_splits, blast)

lemma open_channel_parse_iff:
  "open_channel_parse C b = Inr (m, r) \<longleftrightarrow> open_layout C m b r"
  by (cases m)
    (auto simp: open_channel_parse_def open_layout_def res_simps decode_iffs
      channel_type_parse_iff string_ok_def, blast)

lemma limited_string_decode_iff:
  "limited_string_decode N C b = Inr (s, r) \<longleftrightarrow>
     b = bytes_encode C s @ r \<and> length s \<le> max_string \<and> length s \<le> N \<and> utf8_valid s"
  by (auto simp: limited_string_decode_def res_simps decode_iffs split: if_splits
      intro!: exI [of _ s])

lemma name_list_decode_iff:
  "name_list_decode C b = Inr (nl, r) \<longleftrightarrow>
     name_list_ok nl \<and> length (as_encoded_string nl) \<le> MAX_NAME_LIST_BYTES \<and>
     b = name_list_encode C nl @ r"
proof -
  have "length s \<le> MAX_NAME_LIST_BYTES \<Longrightarrow> length s \<le> max_string" for s :: rstring
    by (simp add: MAX_NAME_LIST_BYTES_def max_string_def)
  then show ?thesis
    using name_list_ok_ascii [of nl] utf8_valid_ascii [of "as_encoded_string nl"]
    by (auto simp: name_list_decode_def res_simps limited_string_decode_iff
        from_encoded_string_iff name_list_encode_def)
qed

lemma open_confirmation_iff:
  "open_confirmation_decode C b = Inr (c, r) \<longleftrightarrow>
     b = u32_encode C (coc_recipient_channel c) @ u32_encode C (coc_sender_channel c) @
         u32_encode C (coc_initial_window_size c) @ u32_encode C (coc_maximum_packet_size c) @ r"
  by (cases c) (auto simp: open_confirmation_decode_def res_simps decode_iffs)

end

section \<open>Properties\<close>

text \<open>
  C29. The name-list decoder accepts exactly the canonical encodings: it returns a list and a
  rest precisely when the list has non-empty ASCII names free of commas, no more entries and
  bytes than the bounds admit, and the input is the encoding of the list followed by the rest.
\<close>

theorem name_list_decode_exact:
  assumes "ssh_codec C"
  shows "name_list_decode C b = Inr (nl, r) \<longleftrightarrow>
     name_list_ok nl \<and> length (as_encoded_string nl) \<le> MAX_NAME_LIST_BYTES \<and>
     b = name_list_encode C nl @ r"
  by (rule ssh_codec.name_list_decode_iff [OF assms])

theorem name_list_decode_exact_witness:
  "name_list_decode rfc4251 (name_list_encode rfc4251 [str ''none'', str ''zlib''] @ [7]) =
     Inr ([str ''none'', str ''zlib''], [7])"
  by (simp add: name_list_decode_exact [OF rfc4251_codec] name_list_ok_def name_ok_def
      is_ascii_def MAX_NAME_LIST_ENTRIES_def MAX_NAME_LIST_BYTES_def as_encoded_string_def)

text \<open>
  C28. A channel-open message is accepted exactly when its bytes have the layout of its type:
  the types the program knows are accepted only with every field present and no trailing byte,
  while the fields of an extension type are left unread for the application.
\<close>

theorem open_channel_parse_exact:
  assumes "ssh_codec C"
  shows "open_channel_parse C b = Inr (m, r) \<longleftrightarrow> open_layout C m b r"
  by (rule ssh_codec.open_channel_parse_iff [OF assms])

theorem open_channel_parse_exact_witness:
  "open_channel_parse rfc4251 (to_be_bytes 7 @ str ''session'' @ to_be_bytes 3 @ to_be_bytes 100 @ to_be_bytes 50) =
     Inr (\<lparr> ocm_typ = CT_Session, ocm_recipient_channel = 3, ocm_recipient_window_size = 100,
            ocm_recipient_maximum_packet_size = 50 \<rparr>, [])"
proof -
  have "string_ok (str ''session'')"
    unfolding string_ok_def
    by (intro conjI utf8_valid_ascii) (simp_all add: max_string_def is_ascii_def)
  then show ?thesis
    unfolding open_channel_parse_exact [OF rfc4251_codec] open_layout_def
    by (intro exI [of _ "str ''session''"] exI [of _ "[]"]) simp
qed

end
