(* ===== verification/Cipher.thy ===== *)
theory Cipher
  imports Wire
begin

unbundle bit_operations_syntax

text \<open>
  The packet ciphers of \<open>cipher/\<close> and the packet authenticators of \<open>mac/\<close>: the trait objects
  \<open>SealingKey\<close>, \<open>OpeningKey\<close> and \<open>Mac\<close> as datatypes with one constructor per implementation,
  and their methods as functions that dispatch on it. The primitives of the cryptographic
  packages (keystreams, block modes, AEAD seal and open, HMAC, the random generator) are the
  fields of the record \<open>crypto\<close>, an argument of every definition that calls them.
\<close>

section \<open>The cryptographic packages\<close>

datatype hash_alg = HA_Sha1 | HA_Sha256 | HA_Sha512

datatype block_alg = TdesEde3 | Aes128 | Aes192 | Aes256

text \<open>
  \<open>ctr_keystream\<close> gives the bytes of the counter-mode keystream of a key and initial vector
  from a position on; \<open>cbc_encrypt_block\<close> and \<open>cbc_decrypt_block\<close> process one block under a
  chaining value and return the next one; \<open>gcm_seal\<close> and \<open>gcm_open\<close> take key, nonce and
  associated data; \<open>rng_fill\<close> gives the random bytes drawn for the packet with a sequence
  number.
\<close>

record crypto =
  hmac :: "hash_alg \<Rightarrow> bytes \<Rightarrow> bytes \<Rightarrow> bytes"
  hmac_len :: "hash_alg \<Rightarrow> nat"
  alg_key_len :: "block_alg \<Rightarrow> nat"
  alg_block_len :: "block_alg \<Rightarrow> nat"
  ctr_keystream :: "block_alg \<Rightarrow> bytes \<Rightarrow> bytes \<Rightarrow> nat \<Rightarrow> nat \<Rightarrow> bytes"
  cbc_encrypt_block :: "block_alg \<Rightarrow> bytes \<Rightarrow> bytes \<Rightarrow> bytes \<Rightarrow> bytes \<times> bytes"
  cbc_decrypt_block :: "block_alg \<Rightarrow> bytes \<Rightarrow> bytes \<Rightarrow> bytes \<Rightarrow> bytes \<times> bytes"
  gcm_tag_len :: nat
  gcm_seal :: "block_alg \<Rightarrow> bytes \<Rightarrow> bytes \<Rightarrow> bytes \<Rightarrow> bytes \<Rightarrow> bytes \<times> bytes"
  gcm_open :: "block_alg \<Rightarrow> bytes \<Rightarrow> bytes \<Rightarrow> bytes \<Rightarrow> bytes \<Rightarrow> bytes option"
  chacha_key_len :: nat
  chacha_tag_len :: nat
  chacha_seal :: "bytes \<Rightarrow> u32 \<Rightarrow> bytes \<Rightarrow> bytes \<times> bytes"
  chacha_open :: "bytes \<Rightarrow> u32 \<Rightarrow> bytes \<Rightarrow> bytes \<Rightarrow> bytes option"
  chacha_decrypt_len :: "bytes \<Rightarrow> u32 \<Rightarrow> bytes \<Rightarrow> bytes"
  rng_fill :: "u32 \<Rightarrow> nat \<Rightarrow> bytes"

section \<open>Constants\<close>

definition PACKET_LENGTH_LEN :: nat where "PACKET_LENGTH_LEN = 4"
definition MINIMUM_PACKET_LEN :: nat where "MINIMUM_PACKET_LEN = 16"
definition MAXIMUM_PACKET_LEN_BASELINE :: nat where "MAXIMUM_PACKET_LEN_BASELINE = 256 * 1024"
definition CHANNEL_DATA_PACKET_OVERHEAD :: nat where "CHANNEL_DATA_PACKET_OVERHEAD = 1 + 4 + 4"
definition CHANNEL_EXTENDED_DATA_PACKET_OVERHEAD :: nat where
  "CHANNEL_EXTENDED_DATA_PACKET_OVERHEAD = CHANNEL_DATA_PACKET_OVERHEAD + 4"
definition PADDING_LENGTH_LEN :: nat where "PADDING_LENGTH_LEN = 1"
definition MAXIMUM_PADDING_LEN :: nat where "MAXIMUM_PADDING_LEN = 19"
definition MAXIMUM_PACKET_LEN_HEADROOM :: nat where
  "MAXIMUM_PACKET_LEN_HEADROOM =
     PADDING_LENGTH_LEN + CHANNEL_EXTENDED_DATA_PACKET_OVERHEAD + MAXIMUM_PADDING_LEN"
definition MAXIMUM_PACKET_LEN :: nat where
  "MAXIMUM_PACKET_LEN = MAXIMUM_PACKET_LEN_BASELINE + MAXIMUM_PACKET_LEN_HEADROOM"
definition MAXIMUM_DECOMPRESSED_PACKET_LEN :: nat where
  "MAXIMUM_DECOMPRESSED_PACKET_LEN = MAXIMUM_PACKET_LEN"

lemmas packet_consts = PACKET_LENGTH_LEN_def MINIMUM_PACKET_LEN_def PADDING_LENGTH_LEN_def
  MAXIMUM_PACKET_LEN_def MAXIMUM_PACKET_LEN_BASELINE_def MAXIMUM_PACKET_LEN_HEADROOM_def
  CHANNEL_DATA_PACKET_OVERHEAD_def CHANNEL_EXTENDED_DATA_PACKET_OVERHEAD_def
  MAXIMUM_PADDING_LEN_def MAXIMUM_DECOMPRESSED_PACKET_LEN_def

section \<open>Packet authentication codes\<close>

datatype Mac = NoMac | CryptoMac hash_alg bytes | CryptoEtmMac hash_alg bytes

fun mac_len :: "crypto \<Rightarrow> Mac \<Rightarrow> nat" where
  "mac_len K NoMac = 0"
| "mac_len K (CryptoMac h _) = hmac_len K h"
| "mac_len K (CryptoEtmMac h _) = hmac_len K h"

fun is_etm :: "Mac \<Rightarrow> bool" where
  "is_etm (CryptoEtmMac _ _) = True"
| "is_etm _ = False"

definition crypto_mac_compute :: "codec \<Rightarrow> crypto \<Rightarrow> hash_alg \<Rightarrow> bytes \<Rightarrow> u32 \<Rightarrow> bytes \<Rightarrow> bytes" where
  "crypto_mac_compute C K h key sequence_number payload =
     hmac K h key (be_write_u32 C sequence_number @ payload)"

fun mac_compute :: "codec \<Rightarrow> crypto \<Rightarrow> Mac \<Rightarrow> u32 \<Rightarrow> bytes \<Rightarrow> bytes" where
  "mac_compute C K NoMac _ _ = []"
| "mac_compute C K (CryptoMac h key) seqn payload = crypto_mac_compute C K h key seqn payload"
| "mac_compute C K (CryptoEtmMac h key) seqn payload = crypto_mac_compute C K h key seqn payload"

fun mac_verify :: "codec \<Rightarrow> crypto \<Rightarrow> Mac \<Rightarrow> u32 \<Rightarrow> bytes \<Rightarrow> bytes \<Rightarrow> bool" where
  "mac_verify C K NoMac _ _ _ = True"
| "mac_verify C K (CryptoMac h key) seqn payload mac =
     (crypto_mac_compute C K h key seqn payload = mac)"
| "mac_verify C K (CryptoEtmMac h key) seqn payload mac =
     (crypto_mac_compute C K h key seqn payload = mac)"

section \<open>Block ciphers\<close>

text \<open>
  The two implementations of \<open>BlockStreamCipher\<close>: counter mode with the key, the initial vector
  and the position in the keystream (a 64-bit count of bytes in the code, which no key lives
  long enough to exhaust), and CBC with the chaining values of both directions.
\<close>

datatype block_cipher =
    CtrWrapper block_alg bytes bytes nat
  | CbcWrapper block_alg bytes bytes bytes

definition xor_bytes :: "bytes \<Rightarrow> bytes \<Rightarrow> bytes" where
  "xor_bytes = map2 (\<lambda>a b. a XOR b)"

text \<open>\<open>unchecked_apply_keystream_inout\<close> of the counter-mode wrapper.\<close>

definition ctr_apply :: "crypto \<Rightarrow> block_alg \<Rightarrow> bytes \<Rightarrow> bytes \<Rightarrow> nat \<Rightarrow> bytes \<Rightarrow> bytes" where
  "ctr_apply K a key iv pos buf = xor_bytes buf (ctr_keystream K a key iv pos (length buf))"

text \<open>
  Processing the exact chunks of a buffer under a chaining value; a shorter tail stays as it
  is, as \<open>chunks_exact_mut\<close> leaves it.
\<close>

function cbc_chunks :: "nat \<Rightarrow> (bytes \<Rightarrow> bytes \<Rightarrow> bytes \<times> bytes) \<Rightarrow> bytes \<Rightarrow> bytes \<Rightarrow> bytes \<times> bytes" where
  "cbc_chunks bs f iv xs =
     (if bs = 0 \<or> length xs < bs then (xs, iv)
      else let (b, iv') = f iv (take bs xs); (r, iv'') = cbc_chunks bs f iv' (drop bs xs)
           in (b @ r, iv''))"
  by pat_completeness auto
termination
  by (relation "measure (\<lambda>(bs, f, iv, xs). length xs)") auto

declare cbc_chunks.simps [simp del]

fun encrypt_data :: "crypto \<Rightarrow> block_cipher \<Rightarrow> bytes \<Rightarrow> bytes \<times> block_cipher" where
  "encrypt_data K (CtrWrapper a key iv pos) xs =
     (ctr_apply K a key iv pos xs, CtrWrapper a key iv (pos + length xs))"
| "encrypt_data K (CbcWrapper a key enc_iv dec_iv) xs =
     (let (ys, enc_iv') = cbc_chunks (alg_block_len K a) (cbc_encrypt_block K a key) enc_iv xs
      in (ys, CbcWrapper a key enc_iv' dec_iv))"

definition decrypt_inner :: "crypto \<Rightarrow> block_alg \<Rightarrow> bytes \<Rightarrow> bytes \<Rightarrow> bytes \<Rightarrow> bytes \<times> bytes" where
  "decrypt_inner K a key dec_iv xs =
     cbc_chunks (alg_block_len K a) (cbc_decrypt_block K a key) dec_iv xs"

fun decrypt_data :: "crypto \<Rightarrow> block_cipher \<Rightarrow> bytes \<Rightarrow> bytes \<times> block_cipher" where
  "decrypt_data K (CtrWrapper a key iv pos) xs =
     (ctr_apply K a key iv pos xs, CtrWrapper a key iv (pos + length xs))"
| "decrypt_data K (CbcWrapper a key enc_iv dec_iv) xs =
     (let (ys, dec_iv') = decrypt_inner K a key dec_iv xs in (ys, CbcWrapper a key enc_iv dec_iv'))"

text \<open>The packet-length probe decrypts a copy of the first block and keeps the cipher state.\<close>

fun decrypt_packet_length_block :: "crypto \<Rightarrow> block_cipher \<Rightarrow> bytes \<Rightarrow> bytes" where
  "decrypt_packet_length_block K (CtrWrapper a key iv pos) xs = ctr_apply K a key iv pos xs"
| "decrypt_packet_length_block K (CbcWrapper a key enc_iv dec_iv) xs =
     fst (decrypt_inner K a key dec_iv xs)"

section \<open>The nonce of the GCM ciphers\<close>

text \<open>
  \<open>Nonce::advance\<close>: from the last byte to the first, add the carry as \<open>u16\<close>, keep the low byte,
  carry the rest. The value before the update is the nonce handed out.
\<close>

fun nonce_add :: "bytes \<Rightarrow> 16 word \<Rightarrow> bytes" where
  "nonce_add [] carry = []"
| "nonce_add (b # bs) carry =
     (let n = ucast b + carry in ucast n # nonce_add bs (drop_bit 8 n))"

definition nonce_advance :: "bytes \<Rightarrow> bytes \<times> bytes" where
  "nonce_advance nonce = (nonce, rev (nonce_add (rev nonce) 1))"

section \<open>Sealing keys\<close>

datatype SealingKey =
    SK_Clear
  | SK_Block block_cipher Mac
  | SK_Gcm block_alg bytes bytes
  | SK_Chacha bytes

definition clear_padding_length :: "bytes \<Rightarrow> nat" where
  "clear_padding_length payload =
     (let block_size = 8; padding_len = block_size - ((5 + length payload) mod block_size)
      in if padding_len < 4 then padding_len + block_size else padding_len)"

definition block_padding_length :: "crypto \<Rightarrow> Mac \<Rightarrow> bytes \<Rightarrow> nat" where
  "block_padding_length K mac payload =
     (let block_size = 16;
          pll = (if is_etm mac then 0 else PACKET_LENGTH_LEN);
          extra_len = PACKET_LENGTH_LEN + PADDING_LENGTH_LEN + mac_len K mac;
          padding_len =
            (if length payload + extra_len \<le> MINIMUM_PACKET_LEN
             then MINIMUM_PACKET_LEN - length payload - PADDING_LENGTH_LEN - pll
             else block_size - ((pll + PADDING_LENGTH_LEN + length payload) mod block_size))
      in if padding_len < PACKET_LENGTH_LEN then padding_len + block_size else padding_len)"

definition gcm_padding_length :: "bytes \<Rightarrow> nat" where
  "gcm_padding_length payload =
     (let block_size = 16;
          extra_len = PACKET_LENGTH_LEN + PADDING_LENGTH_LEN;
          padding_len =
            (if length payload + extra_len \<le> MINIMUM_PACKET_LEN
             then MINIMUM_PACKET_LEN - length payload - PADDING_LENGTH_LEN
             else block_size - ((PADDING_LENGTH_LEN + length payload) mod block_size))
      in if padding_len < PACKET_LENGTH_LEN then padding_len + block_size else padding_len)"

definition chacha_padding_length :: "bytes \<Rightarrow> nat" where
  "chacha_padding_length payload =
     (let block_size = 8;
          extra_len = PACKET_LENGTH_LEN + PADDING_LENGTH_LEN;
          padding_len =
            (if length payload + extra_len \<le> MINIMUM_PACKET_LEN
             then MINIMUM_PACKET_LEN - length payload - PADDING_LENGTH_LEN
             else block_size - ((PADDING_LENGTH_LEN + length payload) mod block_size))
      in if padding_len < PACKET_LENGTH_LEN then padding_len + block_size else padding_len)"

fun padding_length :: "crypto \<Rightarrow> SealingKey \<Rightarrow> bytes \<Rightarrow> nat" where
  "padding_length K SK_Clear p = clear_padding_length p"
| "padding_length K (SK_Block _ mac) p = block_padding_length K mac p"
| "padding_length K (SK_Gcm _ _ _) p = gcm_padding_length p"
| "padding_length K (SK_Chacha _) p = chacha_padding_length p"

text \<open>\<open>fill_padding\<close>: zeros for the clear and ChaCha keys, random bytes for the others.\<close>

fun fill_padding :: "crypto \<Rightarrow> SealingKey \<Rightarrow> u32 \<Rightarrow> nat \<Rightarrow> bytes" where
  "fill_padding K SK_Clear _ n = replicate n 0"
| "fill_padding K (SK_Block _ _) seqn n = rng_fill K seqn n"
| "fill_padding K (SK_Gcm _ _ _) seqn n = rng_fill K seqn n"
| "fill_padding K (SK_Chacha _) _ n = replicate n 0"

fun seal_tag_len :: "crypto \<Rightarrow> SealingKey \<Rightarrow> nat" where
  "seal_tag_len K SK_Clear = 0"
| "seal_tag_len K (SK_Block _ mac) = mac_len K mac"
| "seal_tag_len K (SK_Gcm _ _ _) = gcm_tag_len K"
| "seal_tag_len K (SK_Chacha _) = chacha_tag_len K"

definition block_seal ::
  "codec \<Rightarrow> crypto \<Rightarrow> block_cipher \<Rightarrow> Mac \<Rightarrow> u32 \<Rightarrow> bytes \<Rightarrow> bytes \<times> bytes \<times> block_cipher" where
  "block_seal C K bc mac seqn plaintext =
     (if is_etm mac then
        let (body, bc') = encrypt_data K bc (drop PACKET_LENGTH_LEN plaintext);
            out = take PACKET_LENGTH_LEN plaintext @ body
        in (out, mac_compute C K mac seqn out, bc')
      else
        let tag = mac_compute C K mac seqn plaintext;
            (out, bc') = encrypt_data K bc plaintext
        in (out, tag, bc'))"

definition gcm_seal_key ::
  "crypto \<Rightarrow> block_alg \<Rightarrow> bytes \<Rightarrow> bytes \<Rightarrow> bytes \<Rightarrow> bytes \<times> bytes \<times> bytes" where
  "gcm_seal_key K a key nonce plaintext =
     (let packet_length = take PACKET_LENGTH_LEN plaintext;
          (current, nonce') = nonce_advance nonce;
          (body, tag) = gcm_seal K a key current packet_length (drop PACKET_LENGTH_LEN plaintext)
      in (packet_length @ body, tag, nonce'))"

text \<open>
  \<open>seal\<close>: the plaintext of a packet (length field included) becomes ciphertext of the same
  length, a tag and the key for the next packet.
\<close>

fun seal :: "codec \<Rightarrow> crypto \<Rightarrow> SealingKey \<Rightarrow> u32 \<Rightarrow> bytes \<Rightarrow> bytes \<times> bytes \<times> SealingKey" where
  "seal C K SK_Clear _ plaintext = (plaintext, [], SK_Clear)"
| "seal C K (SK_Block bc mac) seqn plaintext =
     (let (out, tag, bc') = block_seal C K bc mac seqn plaintext in (out, tag, SK_Block bc' mac))"
| "seal C K (SK_Gcm a key nonce) seqn plaintext =
     (let (out, tag, nonce') = gcm_seal_key K a key nonce plaintext in (out, tag, SK_Gcm a key nonce'))"
| "seal C K (SK_Chacha key) seqn plaintext =
     (let (out, tag) = chacha_seal K key seqn plaintext in (out, tag, SK_Chacha key))"

section \<open>Opening keys\<close>

datatype OpeningKey =
    OK_Clear
  | OK_Block block_cipher Mac
  | OK_Gcm block_alg bytes bytes
  | OK_Chacha bytes

fun packet_length_to_read_for_block_length :: "OpeningKey \<Rightarrow> nat" where
  "packet_length_to_read_for_block_length (OK_Block _ _) = 16"
| "packet_length_to_read_for_block_length _ = 4"

fun decrypt_packet_length :: "crypto \<Rightarrow> OpeningKey \<Rightarrow> u32 \<Rightarrow> bytes \<Rightarrow> bytes" where
  "decrypt_packet_length K OK_Clear _ enc = enc"
| "decrypt_packet_length K (OK_Block bc mac) _ enc =
     (if is_etm mac then take 4 enc
      else take 4 (decrypt_packet_length_block K bc (take 16 enc)))"
| "decrypt_packet_length K (OK_Gcm _ _ _) _ enc = enc"
| "decrypt_packet_length K (OK_Chacha key) seqn enc = chacha_decrypt_len K key seqn enc"

fun open_tag_len :: "crypto \<Rightarrow> OpeningKey \<Rightarrow> nat" where
  "open_tag_len K OK_Clear = 0"
| "open_tag_len K (OK_Block _ mac) = mac_len K mac"
| "open_tag_len K (OK_Gcm _ _ _) = gcm_tag_len K"
| "open_tag_len K (OK_Chacha _) = chacha_tag_len K"

definition block_open ::
  "codec \<Rightarrow> crypto \<Rightarrow> block_cipher \<Rightarrow> Mac \<Rightarrow> u32 \<Rightarrow> bytes \<Rightarrow> (bytes \<times> block_cipher) res" where
  "block_open C K bc mac seqn buf =
     (if length buf < mac_len K mac then Inl Panicked
      else
        let ciphertext_len = length buf - mac_len K mac;
            ct = take ciphertext_len buf; tag = drop ciphertext_len buf
        in if is_etm mac then
             (if \<not> mac_verify C K mac seqn ct tag then Inl E_PacketAuth
              else if length ct < PACKET_LENGTH_LEN then Inl Panicked
              else let (body, bc') = decrypt_data K bc (drop PACKET_LENGTH_LEN ct) in Inr (body, bc'))
           else
             (let (pt, bc') = decrypt_data K bc ct
              in if \<not> mac_verify C K mac seqn pt tag then Inl E_PacketAuth
                 else if length pt < PACKET_LENGTH_LEN then Inl Panicked
                 else Inr (drop PACKET_LENGTH_LEN pt, bc')))"

definition gcm_open_key ::
  "crypto \<Rightarrow> block_alg \<Rightarrow> bytes \<Rightarrow> bytes \<Rightarrow> bytes \<Rightarrow> (bytes \<times> bytes) res" where
  "gcm_open_key K a key nonce buf =
     (if length buf < PACKET_LENGTH_LEN then Inl Panicked
      else
        let packet_length = take PACKET_LENGTH_LEN buf; (current, nonce') = nonce_advance nonce
        in bindR (ok_or E_DecryptionError
                    (gcm_open K a key current packet_length (drop PACKET_LENGTH_LEN buf)))
             (\<lambda>pt. Inr (pt, nonce')))"

definition chacha_open_key :: "crypto \<Rightarrow> bytes \<Rightarrow> u32 \<Rightarrow> bytes \<Rightarrow> bytes res" where
  "chacha_open_key K key seqn buf =
     (if length buf < chacha_tag_len K then Inl Panicked
      else
        let ciphertext_len = length buf - chacha_tag_len K
        in ok_or E_DecryptionError
             (chacha_open K key seqn (take ciphertext_len buf) (drop ciphertext_len buf)))"

text \<open>
  \<open>open\<close>: a received buffer (length field, ciphertext and tag) becomes the plaintext after the
  length field, or an error.
\<close>

fun open_packet :: "codec \<Rightarrow> crypto \<Rightarrow> OpeningKey \<Rightarrow> u32 \<Rightarrow> bytes \<Rightarrow> (bytes \<times> OpeningKey) res" where
  "open_packet C K OK_Clear _ buf =
     (if length buf < 4 then Inl Panicked else Inr (drop 4 buf, OK_Clear))"
| "open_packet C K (OK_Block bc mac) seqn buf =
     bindR (block_open C K bc mac seqn buf) (\<lambda>(pt, bc'). Inr (pt, OK_Block bc' mac))"
| "open_packet C K (OK_Gcm a key nonce) seqn buf =
     bindR (gcm_open_key K a key nonce buf) (\<lambda>(pt, nonce'). Inr (pt, OK_Gcm a key nonce'))"
| "open_packet C K (OK_Chacha key) seqn buf =
     bindR (chacha_open_key K key seqn buf) (\<lambda>pt. Inr (pt, OK_Chacha key))"

section \<open>Cipher and authenticator tables\<close>

datatype Cipher =
    Clear
  | SshBlockCtr block_alg
  | SshBlockCbc block_alg
  | GcmCipher block_alg
  | SshChacha20Poly1305Cipher

definition CIPHERS :: "(rstring \<times> Cipher) list" where
  "CIPHERS =
     [(str ''clear'', Clear), (str ''none'', Clear), (str ''3des-cbc'', SshBlockCbc TdesEde3),
      (str ''aes128-ctr'', SshBlockCtr Aes128), (str ''aes192-ctr'', SshBlockCtr Aes192),
      (str ''aes256-ctr'', SshBlockCtr Aes256),
      (str ''aes128-gcm@openssh.com'', GcmCipher Aes128),
      (str ''aes256-gcm@openssh.com'', GcmCipher Aes256),
      (str ''aes128-cbc'', SshBlockCbc Aes128), (str ''aes192-cbc'', SshBlockCbc Aes192),
      (str ''aes256-cbc'', SshBlockCbc Aes256),
      (str ''chacha20-poly1305@openssh.com'', SshChacha20Poly1305Cipher)]"

datatype MacAlgorithm = NoMacAlgorithm | CryptoMacAlgorithm hash_alg | CryptoEtmMacAlgorithm hash_alg

definition MACS :: "(rstring \<times> MacAlgorithm) list" where
  "MACS =
     [(str ''none'', NoMacAlgorithm), (str ''hmac-sha1'', CryptoMacAlgorithm HA_Sha1),
      (str ''hmac-sha2-256'', CryptoMacAlgorithm HA_Sha256),
      (str ''hmac-sha2-512'', CryptoMacAlgorithm HA_Sha512),
      (str ''hmac-sha1-etm@openssh.com'', CryptoEtmMacAlgorithm HA_Sha1),
      (str ''hmac-sha2-256-etm@openssh.com'', CryptoEtmMacAlgorithm HA_Sha256),
      (str ''hmac-sha2-512-etm@openssh.com'', CryptoEtmMacAlgorithm HA_Sha512)]"

text \<open>The key lengths are the type-level constants \<open>U20\<close>, \<open>U32\<close> and \<open>U64\<close> of the table.\<close>

fun mac_alg_key_len :: "MacAlgorithm \<Rightarrow> nat" where
  "mac_alg_key_len NoMacAlgorithm = 0"
| "mac_alg_key_len (CryptoMacAlgorithm h) = (case h of HA_Sha1 \<Rightarrow> 20 | HA_Sha256 \<Rightarrow> 32 | HA_Sha512 \<Rightarrow> 64)"
| "mac_alg_key_len (CryptoEtmMacAlgorithm h) = (case h of HA_Sha1 \<Rightarrow> 20 | HA_Sha256 \<Rightarrow> 32 | HA_Sha512 \<Rightarrow> 64)"

text \<open>\<open>make_mac\<close> copies the key into an array of the key length and panics on another length.\<close>

fun make_mac :: "MacAlgorithm \<Rightarrow> bytes \<Rightarrow> Mac res" where
  "make_mac NoMacAlgorithm key = Inr NoMac"
| "make_mac (CryptoMacAlgorithm h) key =
     (if length key = mac_alg_key_len (CryptoMacAlgorithm h) then Inr (CryptoMac h key) else Inl Panicked)"
| "make_mac (CryptoEtmMacAlgorithm h) key =
     (if length key = mac_alg_key_len (CryptoEtmMacAlgorithm h) then Inr (CryptoEtmMac h key)
      else Inl Panicked)"

fun needs_mac :: "Cipher \<Rightarrow> bool" where
  "needs_mac (SshBlockCtr _) = True"
| "needs_mac (SshBlockCbc _) = True"
| "needs_mac _ = False"

definition NONCE_LEN :: nat where "NONCE_LEN = 12"

fun cipher_key_len :: "crypto \<Rightarrow> Cipher \<Rightarrow> nat" where
  "cipher_key_len K Clear = 0"
| "cipher_key_len K (SshBlockCtr a) = alg_key_len K a"
| "cipher_key_len K (SshBlockCbc a) = alg_key_len K a"
| "cipher_key_len K (GcmCipher a) = alg_key_len K a"
| "cipher_key_len K SshChacha20Poly1305Cipher = chacha_key_len K"

fun cipher_nonce_len :: "crypto \<Rightarrow> Cipher \<Rightarrow> nat" where
  "cipher_nonce_len K (SshBlockCtr a) = alg_block_len K a"
| "cipher_nonce_len K (SshBlockCbc a) = alg_block_len K a"
| "cipher_nonce_len K (GcmCipher a) = NONCE_LEN"
| "cipher_nonce_len K _ = 0"

text \<open>\<open>new_cipher_from_slices\<close> panics when the key or the initial vector has another length.\<close>

fun new_cipher_from_slices :: "crypto \<Rightarrow> Cipher \<Rightarrow> bytes \<Rightarrow> bytes \<Rightarrow> block_cipher res" where
  "new_cipher_from_slices K c k n =
     (if length k \<noteq> cipher_key_len K c \<or> length n \<noteq> cipher_nonce_len K c then Inl Panicked
      else (case c of
              SshBlockCtr a \<Rightarrow> Inr (CtrWrapper a k n 0)
            | SshBlockCbc a \<Rightarrow> Inr (CbcWrapper a k n n)
            | _ \<Rightarrow> Inl Panicked))"

fun make_opening_key :: "crypto \<Rightarrow> Cipher \<Rightarrow> bytes \<Rightarrow> bytes \<Rightarrow> bytes \<Rightarrow> MacAlgorithm \<Rightarrow> OpeningKey res" where
  "make_opening_key K Clear k n m mac = Inr OK_Clear"
| "make_opening_key K (GcmCipher a) k n m mac =
     (if length k = alg_key_len K a \<and> length n = NONCE_LEN then Inr (OK_Gcm a k n) else Inl Panicked)"
| "make_opening_key K SshChacha20Poly1305Cipher k n m mac =
     (if length k = chacha_key_len K then Inr (OK_Chacha k) else Inl Panicked)"
| "make_opening_key K c k n m mac =
     bindR (new_cipher_from_slices K c k n) (\<lambda>bc.
     bindR (make_mac mac m) (\<lambda>mc. Inr (OK_Block bc mc)))"

fun make_sealing_key :: "crypto \<Rightarrow> Cipher \<Rightarrow> bytes \<Rightarrow> bytes \<Rightarrow> bytes \<Rightarrow> MacAlgorithm \<Rightarrow> SealingKey res" where
  "make_sealing_key K Clear k n m mac = Inr SK_Clear"
| "make_sealing_key K (GcmCipher a) k n m mac =
     (if length k = alg_key_len K a \<and> length n = NONCE_LEN then Inr (SK_Gcm a k n) else Inl Panicked)"
| "make_sealing_key K SshChacha20Poly1305Cipher k n m mac =
     (if length k = chacha_key_len K then Inr (SK_Chacha k) else Inl Panicked)"
| "make_sealing_key K c k n m mac =
     bindR (new_cipher_from_slices K c k n) (\<lambda>bc.
     bindR (make_mac mac m) (\<lambda>mc. Inr (SK_Block bc mc)))"

section \<open>What the packages promise\<close>

text \<open>
  The documented behaviour of the cryptographic packages: outputs have the advertised lengths,
  a shorter keystream is a prefix of a longer one, one CBC block decrypts to what was
  encrypted and yields the same next chaining value, and opening what was sealed under the same key,
  nonce (or sequence number) and associated data gives the plaintext back. Nothing is assumed
  about secrecy or about forged inputs.
\<close>

definition crypto_ok :: "crypto \<Rightarrow> bool" where
  "crypto_ok K \<longleftrightarrow>
     (\<forall>h k m. length (hmac K h k m) = hmac_len K h) \<and>
     (\<forall>a. alg_block_len K a = 8 \<or> alg_block_len K a = 16) \<and>
     (\<forall>a k iv p n. length (ctr_keystream K a k iv p n) = n) \<and>
     (\<forall>a k iv p n m. m \<le> n \<longrightarrow> take m (ctr_keystream K a k iv p n) = ctr_keystream K a k iv p m) \<and>
     (\<forall>a k iv b. length (fst (cbc_encrypt_block K a k iv b)) = length b) \<and>
     (\<forall>a k iv b. length b = alg_block_len K a \<longrightarrow>
        cbc_decrypt_block K a k iv (fst (cbc_encrypt_block K a k iv b)) =
          (b, snd (cbc_encrypt_block K a k iv b))) \<and>
     (\<forall>a k n ad p. length (fst (gcm_seal K a k n ad p)) = length p) \<and>
     (\<forall>a k n ad p. length (snd (gcm_seal K a k n ad p)) = gcm_tag_len K) \<and>
     (\<forall>a k n ad p. gcm_open K a k n ad
        (fst (gcm_seal K a k n ad p) @ snd (gcm_seal K a k n ad p)) = Some p) \<and>
     (\<forall>k s p. length (fst (chacha_seal K k s p)) = length p) \<and>
     (\<forall>k s p. length (snd (chacha_seal K k s p)) = chacha_tag_len K) \<and>
     (\<forall>k s p. 4 \<le> length p \<longrightarrow>
        chacha_open K k s (fst (chacha_seal K k s p)) (snd (chacha_seal K k s p)) = Some (drop 4 p)) \<and>
     (\<forall>k s p. 4 \<le> length p \<longrightarrow>
        chacha_decrypt_len K k s (take 4 (fst (chacha_seal K k s p))) = take 4 p) \<and>
     (\<forall>s n. length (rng_fill K s n) = n) \<and>
     (\<forall>a k iv b. length (fst (cbc_decrypt_block K a k iv b)) = length b)"

lemma crypto_okD:
  assumes "crypto_ok K"
  shows "length (hmac K h k m) = hmac_len K h"
    and "alg_block_len K a = 8 \<or> alg_block_len K a = 16"
    and "length (ctr_keystream K a k iv p n) = n"
    and "m' \<le> n \<Longrightarrow> take m' (ctr_keystream K a k iv p n) = ctr_keystream K a k iv p m'"
    and "length (fst (cbc_encrypt_block K a k iv b)) = length b"
    and "length b = alg_block_len K a \<Longrightarrow>
      cbc_decrypt_block K a k iv (fst (cbc_encrypt_block K a k iv b)) =
        (b, snd (cbc_encrypt_block K a k iv b))"
    and "length (fst (gcm_seal K a k n' ad q)) = length q"
    and "length (snd (gcm_seal K a k n' ad q)) = gcm_tag_len K"
    and "gcm_open K a k n' ad (fst (gcm_seal K a k n' ad q) @ snd (gcm_seal K a k n' ad q)) = Some q"
    and "length (fst (chacha_seal K k s q)) = length q"
    and "length (snd (chacha_seal K k s q)) = chacha_tag_len K"
    and "4 \<le> length q \<Longrightarrow>
      chacha_open K k s (fst (chacha_seal K k s q)) (snd (chacha_seal K k s q)) = Some (drop 4 q)"
    and "4 \<le> length q \<Longrightarrow> chacha_decrypt_len K k s (take 4 (fst (chacha_seal K k s q))) = take 4 q"
    and "length (rng_fill K s n) = n"
    and "length (fst (cbc_decrypt_block K a k iv b)) = length b"
  using assms by (simp_all add: crypto_ok_def)

section \<open>Padding\<close>

text \<open>
  The alignment the protocol asks of each key: the block length, and how many bytes before the
  padding-length byte are aligned with it (the length field, unless it travels outside).
\<close>

fun key_block :: "SealingKey \<Rightarrow> nat" where
  "key_block SK_Clear = 8"
| "key_block (SK_Block _ _) = 16"
| "key_block (SK_Gcm _ _ _) = 16"
| "key_block (SK_Chacha _) = 8"

fun key_prefix :: "SealingKey \<Rightarrow> nat" where
  "key_prefix SK_Clear = 4"
| "key_prefix (SK_Block _ mac) = (if is_etm mac then 0 else 4)"
| "key_prefix _ = 0"

text \<open>\<open>fill_up n b\<close>: the padding that takes \<open>n\<close> bytes to a multiple of \<open>b\<close>, at least four.\<close>

definition fill_up :: "nat \<Rightarrow> nat \<Rightarrow> nat" where
  "fill_up b n = (let p = b - n mod b in if p < 4 then p + b else p)"

lemma fill_up_bounds:
  assumes "4 \<le> b"
  shows "4 \<le> fill_up b n" "fill_up b n < b + 4"
proof -
  define p where "p = b - n mod b"
  have "n mod b < b" using assms by simp
  then have "0 < p" "p \<le> b" by (simp_all add: p_def)
  with assms show "4 \<le> fill_up b n" "fill_up b n < b + 4"
    unfolding fill_up_def Let_def p_def [symmetric] by auto
qed

lemma fill_up_aligned: "0 < b \<Longrightarrow> (n + fill_up b n) mod b = 0"
proof -
  assume b: "0 < b"
  define p where "p = b - n mod b"
  have "n = n div b * b + n mod b" by simp
  moreover have "n mod b < b" using b by simp
  ultimately have "n + p = n div b * b + b" unfolding p_def by linarith
  then have p: "(n + p) mod b = 0" by simp
  moreover have "(n + (p + b)) mod b = (n + p) mod b"
    by (simp only: add.assoc [symmetric] mod_add_self2)
  ultimately show ?thesis unfolding fill_up_def Let_def p_def [symmetric] by simp
qed

lemma fill_up_small: "5 \<le> b \<Longrightarrow> n + 4 \<le> b \<Longrightarrow> fill_up b n = b - n"
  by (simp add: fill_up_def Let_def)

lemma clear_padding_fill: "clear_padding_length p = fill_up 8 (5 + length p)"
  by (simp add: clear_padding_length_def fill_up_def Let_def)

lemma gcm_padding_fill: "gcm_padding_length p = fill_up 16 (1 + length p)"
  by (auto simp: gcm_padding_length_def fill_up_def Let_def packet_consts)

lemma block_padding_fill:
  "block_padding_length K mac p = fill_up 16 ((if is_etm mac then 0 else 4) + 1 + length p)"
  by (cases mac; cases "length p = 11")
    (auto simp: block_padding_length_def fill_up_def Let_def packet_consts)

text \<open>The ChaCha key fills short packets up to sixteen bytes, two of its blocks.\<close>

lemma chacha_padding_cases:
  "chacha_padding_length p =
     (if length p \<le> 11 then 15 - length p else fill_up 8 (1 + length p))"
  by (auto simp: chacha_padding_length_def fill_up_def Let_def packet_consts)

lemma padding_length_bounds:
  "4 \<le> padding_length K sk p \<and> padding_length K sk p \<le> MAXIMUM_PADDING_LEN"
proof (cases sk)
  case (SK_Chacha key)
  then show ?thesis
    using fill_up_bounds [of 8 "1 + length p"]
    by (auto simp: chacha_padding_cases packet_consts)
qed (use fill_up_bounds [of 8 "5 + length p"] fill_up_bounds [of 16 "1 + length p"]
      fill_up_bounds [of 16 "5 + length p"] in
    \<open>auto simp: clear_padding_fill gcm_padding_fill block_padding_fill packet_consts\<close>)

lemma padding_length_aligned:
  "(key_prefix sk + 1 + length p + padding_length K sk p) mod key_block sk = 0"
proof (cases sk)
  case SK_Clear
  then show ?thesis using fill_up_aligned [of 8 "5 + length p"] by (simp add: clear_padding_fill)
next
  case (SK_Block bc mac)
  then show ?thesis
    using fill_up_aligned [of 16 "(if is_etm mac then 0 else 4) + 1 + length p"]
    by (simp add: block_padding_fill)
next
  case (SK_Gcm a k n)
  then show ?thesis using fill_up_aligned [of 16 "1 + length p"] by (simp add: gcm_padding_fill)
next
  case (SK_Chacha k)
  then show ?thesis
    using fill_up_aligned [of 8 "1 + length p"] by (auto simp: chacha_padding_cases)
qed

section \<open>Nonces\<close>

fun le_value :: "bytes \<Rightarrow> nat" where
  "le_value [] = 0"
| "le_value (b # bs) = unat b + 256 * le_value bs"

text \<open>The big-endian number a nonce stands for, and the nonce after a number of packets.\<close>

definition nonce_value :: "bytes \<Rightarrow> nat" where
  "nonce_value n = le_value (rev n)"

definition nonce_after :: "nat \<Rightarrow> bytes \<Rightarrow> bytes" where
  "nonce_after k n = ((\<lambda>n. snd (nonce_advance n)) ^^ k) n"

lemma unat_u8_less: "unat (b :: u8) < 256"
  using unsigned_less [of b, where 'a = nat] by simp

lemma le_value_less: "le_value bs < 256 ^ length bs"
proof (induction bs)
  case (Cons b bs)
  then have "unat b + 256 * le_value bs < 256 + 256 * le_value bs"
    using unat_u8_less [of b] by simp
  also have "\<dots> = 256 * (le_value bs + 1)" by simp
  also have "\<dots> \<le> 256 * 256 ^ length bs" using Cons by (intro mult_le_mono) auto
  finally show ?case by simp
qed simp

lemma length_nonce_add [simp]: "length (nonce_add bs c) = length bs"
  by (induction bs c rule: nonce_add.induct) (simp_all add: Let_def)

lemma le_value_nonce_add:
  "unat c < 256 \<Longrightarrow> le_value (nonce_add bs c) = (le_value bs + unat c) mod 256 ^ length bs"
proof (induction bs c rule: nonce_add.induct)
  case (2 b bs c)
  define s where "s = unat b + unat c"
  define n :: "16 word" where "n = ucast b + c"
  have b: "unat (ucast b :: 16 word) = unat b"
    using unat_u8_less [of b] by (simp add: unsigned_ucast_eq take_bit_eq_mod)
  have "s < 2 ^ 16" using 2(2) unat_u8_less [of b] by (simp add: s_def)
  then have n: "unat n = s"
    by (simp add: n_def s_def unat_word_ariths(1) b)
  have low: "unat (ucast n :: u8) = s mod 256"
    by (simp add: unsigned_ucast_eq take_bit_eq_mod n)
  have carry: "unat (drop_bit 8 n) = s div 256"
    by (simp add: drop_bit_eq_div unat_div n)
  have "s div 256 < 256" using 2(2) unat_u8_less [of b] by (simp add: s_def)
  with 2(1) [OF n_def] carry
  have "le_value (nonce_add bs (drop_bit 8 n)) = (le_value bs + s div 256) mod 256 ^ length bs"
    by simp
  moreover have "(unat b + 256 * le_value bs + unat c) div 256 = le_value bs + s div 256"
    "(unat b + 256 * le_value bs + unat c) mod 256 = s mod 256"
  proof -
    have e: "unat b + 256 * le_value bs + unat c = s + le_value bs * 256" by (simp add: s_def)
    show "(unat b + 256 * le_value bs + unat c) div 256 = le_value bs + s div 256"
      "(unat b + 256 * le_value bs + unat c) mod 256 = s mod 256"
      unfolding e by simp_all
  qed
  ultimately show ?case
    by (simp add: n_def [symmetric] Let_def low mod_mult2_eq)
qed simp

lemma nonce_advance_value:
  "nonce_value (snd (nonce_advance n)) = (nonce_value n + 1) mod 256 ^ length n"
  by (simp add: nonce_value_def nonce_advance_def le_value_nonce_add)

lemma length_nonce_after [simp]: "length (nonce_after k n) = length n"
  by (induction k) (simp_all add: nonce_after_def nonce_advance_def)

lemma nonce_after_Suc: "nonce_after (Suc k) n = snd (nonce_advance (nonce_after k n))"
  by (simp add: nonce_after_def)

lemma nonce_after_value: "nonce_value (nonce_after k n) = (nonce_value n + k) mod 256 ^ length n"
proof (induction k)
  case 0
  then show ?case
    using le_value_less [of "rev n"] by (simp add: nonce_after_def nonce_value_def)
next
  case (Suc k)
  then show ?case
    by (simp add: nonce_after_Suc nonce_advance_value mod_Suc_eq)
qed

lemma mod_add_distinct:
  fixes i j m v :: nat
  assumes "i < j" "j < m"
  shows "(v + i) mod m \<noteq> (v + j) mod m"
proof
  assume "(v + i) mod m = (v + j) mod m"
  then have "m dvd (v + j) - (v + i)" using assms by (intro mod_eq_dvd_iff_nat [THEN iffD1]) auto
  then have "m dvd j - i" by simp
  then show False using assms by (auto dest!: dvd_imp_le)
qed

section \<open>Opening what was sealed\<close>

lemma length_xor_bytes [simp]: "length (xor_bytes a b) = min (length a) (length b)"
  by (simp add: xor_bytes_def)

lemma xor_bytes_twice: "length k = length a \<Longrightarrow> xor_bytes (xor_bytes a k) k = a"
  unfolding xor_bytes_def
  by (induction a k rule: list_induct2') (auto simp: xor.assoc)

lemma take_xor_bytes: "take n (xor_bytes a k) = xor_bytes (take n a) (take n k)"
  by (simp add: xor_bytes_def take_map take_zip)

lemma length_cbc_chunks:
  "(\<And>iv b. length (fst (f iv b)) = length b) \<Longrightarrow> length (fst (cbc_chunks bs f iv xs)) = length xs"
proof (induction bs f iv xs rule: cbc_chunks.induct)
  case (1 bs f iv xs)
  show ?case
  proof (cases "bs = 0 \<or> length xs < bs")
    case True
    then show ?thesis by (subst cbc_chunks.simps) simp
  next
    case False
    then show ?thesis
      using 1(1) [OF False refl prod.collapse 1(2)] 1(2) [of iv "take bs xs"]
      by (subst cbc_chunks.simps) (auto simp: split_beta Let_def)
  qed
qed

lemma cbc_chunks_inverse:
  assumes "0 < bs" "bs dvd length xs"
    and len: "\<And>iv b. length (fst (f iv b)) = length b"
    and inv: "\<And>iv b. length b = bs \<Longrightarrow> g iv (fst (f iv b)) = (b, snd (f iv b))"
  shows "cbc_chunks bs g iv (fst (cbc_chunks bs f iv xs)) = (xs, snd (cbc_chunks bs f iv xs))"
  using assms(2)
proof (induction "length xs" arbitrary: xs iv rule: less_induct)
  case less
  show ?case
  proof (cases "length xs < bs")
    case True
    then have "xs = []" using less(2) dvd_imp_le by fastforce
    then show ?thesis using assms(1) by (simp add: cbc_chunks.simps)
  next
    case False
    have "bs dvd length (drop bs xs)" using less(2) by (simp add: dvd_diff_nat)
    moreover have "length (drop bs xs) < length xs" using assms(1) False by simp
    ultimately have IH: "cbc_chunks bs g iv' (fst (cbc_chunks bs f iv' (drop bs xs))) =
        (drop bs xs, snd (cbc_chunks bs f iv' (drop bs xs)))" for iv'
      using less(1) by blast
    have l: "length (fst (f iv (take bs xs))) = bs" using False len by simp
    have "fst (cbc_chunks bs f iv xs) =
        fst (f iv (take bs xs)) @ fst (cbc_chunks bs f (snd (f iv (take bs xs))) (drop bs xs))"
      "snd (cbc_chunks bs f iv xs) = snd (cbc_chunks bs f (snd (f iv (take bs xs))) (drop bs xs))"
      using False assms(1) by (subst cbc_chunks.simps, simp add: split_beta Let_def)+
    moreover have "g iv (fst (f iv (take bs xs))) = (take bs xs, snd (f iv (take bs xs)))"
      using inv False by simp
    ultimately show ?thesis
      using l assms(1) IH
      by (subst cbc_chunks.simps) (simp add: split_beta Let_def)
  qed
qed

lemma cbc_chunks_take:
  assumes "0 < bs" "bs dvd n" "n \<le> length xs" "\<And>iv b. length (fst (f iv b)) = length b"
  shows "fst (cbc_chunks bs f iv (take n xs)) = take n (fst (cbc_chunks bs f iv xs))"
  using assms(2,3)
proof (induction "length xs" arbitrary: n xs iv rule: less_induct)
  case less
  show ?case
  proof (cases "n = 0")
    case False
    then have n: "bs \<le> n" using less(2) by (simp add: dvd_imp_le)
    have "bs dvd n - bs" "n - bs \<le> length (drop bs xs)" using less(2,3) by (auto simp: dvd_diff_nat)
    moreover have "length (drop bs xs) < length xs" using assms(1) n less(3) by simp
    ultimately have IH: "fst (cbc_chunks bs f iv' (take (n - bs) (drop bs xs))) =
        take (n - bs) (fst (cbc_chunks bs f iv' (drop bs xs)))" for iv'
      using less(1) by blast
    have "take bs (take n xs) = take bs xs" "drop bs (take n xs) = take (n - bs) (drop bs xs)"
      using n by (simp_all add: drop_take)
    moreover have "length (fst (f iv (take bs xs))) = bs" using assms(4) n less(3) by simp
    ultimately show ?thesis
      using IH n assms(1) less(3)
      by (subst (1 2) cbc_chunks.simps) (simp add: split_beta Let_def)
  qed (use assms(1) in \<open>simp add: cbc_chunks.simps\<close>)
qed

text \<open>
  A sealing key and an opening key that belong together: same algorithm, key and
  authenticator, and the same place in the keystream, chain or nonce sequence.
\<close>

fun bc_sync :: "block_cipher \<Rightarrow> block_cipher \<Rightarrow> bool" where
  "bc_sync (CtrWrapper a k iv p) (CtrWrapper a' k' iv' p') \<longleftrightarrow> a = a' \<and> k = k' \<and> iv = iv' \<and> p = p'"
| "bc_sync (CbcWrapper a k e d) (CbcWrapper a' k' e' d') \<longleftrightarrow> a = a' \<and> k = k' \<and> e = d'"
| "bc_sync _ _ \<longleftrightarrow> False"

fun in_sync :: "SealingKey \<Rightarrow> OpeningKey \<Rightarrow> bool" where
  "in_sync SK_Clear OK_Clear \<longleftrightarrow> True"
| "in_sync (SK_Block bc m) (OK_Block bc' m') \<longleftrightarrow> bc_sync bc bc' \<and> m = m'"
| "in_sync (SK_Gcm a k n) (OK_Gcm a' k' n') \<longleftrightarrow> a = a' \<and> k = k' \<and> n = n'"
| "in_sync (SK_Chacha k) (OK_Chacha k') \<longleftrightarrow> k = k'"
| "in_sync _ _ \<longleftrightarrow> False"

lemma bc_round:
  assumes "crypto_ok K" "bc_sync bc bc'" "16 dvd length xs"
  shows "\<exists>bc''. decrypt_data K bc' (fst (encrypt_data K bc xs)) = (xs, bc'') \<and>
           bc_sync (snd (encrypt_data K bc xs)) bc''"
    and "length (fst (encrypt_data K bc xs)) = length xs"
proof -
  note K = crypto_okD [OF assms(1)]
  have d: "alg_block_len K a dvd length xs" "0 < alg_block_len K a" for a
  proof -
    have "alg_block_len K a dvd 16" using K(2) [of a] by auto
    then show "alg_block_len K a dvd length xs" using assms(3) dvd_trans by blast
    show "0 < alg_block_len K a" using K(2) [of a] by auto
  qed
  show "length (fst (encrypt_data K bc xs)) = length xs"
    by (cases bc) (auto simp: ctr_apply_def K split_beta Let_def length_cbc_chunks)
  show "\<exists>bc''. decrypt_data K bc' (fst (encrypt_data K bc xs)) = (xs, bc'') \<and>
           bc_sync (snd (encrypt_data K bc xs)) bc''"
    using assms(2)
  proof (cases "(bc, bc')" rule: bc_sync.cases)
    case (1 a k iv p a' k' iv' p')
    then show ?thesis
      using assms(2) by (auto simp: ctr_apply_def K xor_bytes_twice)
  next
    case (2 a k e d a' k' e' d')
    then show ?thesis
      using assms(2) cbc_chunks_inverse [OF d(2) [of a] d(1) [of a],
          of "cbc_encrypt_block K a k" "cbc_decrypt_block K a k" e]
      by (auto simp: split_beta Let_def decrypt_inner_def K)
  qed auto
qed

lemma bc_probe:
  assumes "crypto_ok K" "bc_sync bc bc'" "16 dvd length xs" "16 \<le> length xs"
  shows "decrypt_packet_length_block K bc' (take 16 (fst (encrypt_data K bc xs))) = take 16 xs"
proof -
  note K = crypto_okD [OF assms(1)]
  obtain bc'' where dec: "decrypt_data K bc' (fst (encrypt_data K bc xs)) = (xs, bc'')"
    using bc_round(1) [OF assms(1-3)] by blast
  have len: "length (fst (encrypt_data K bc xs)) = length xs"
    by (rule bc_round(2) [OF assms(1-3)])
  have "decrypt_packet_length_block K bc' (take 16 ys) = take 16 (fst (decrypt_data K bc' ys))"
    if "length ys = length xs" for ys
  proof (cases bc')
    case (CtrWrapper a k iv p)
    then show ?thesis
      using that assms(4) by (simp add: ctr_apply_def take_xor_bytes K)
  next
    case (CbcWrapper a k e d)
    have "alg_block_len K a dvd 16" "0 < alg_block_len K a" using K(2) [of a] by auto
    then show ?thesis
      using that assms(4) CbcWrapper
        cbc_chunks_take [of "alg_block_len K a" 16 ys "cbc_decrypt_block K a k" d]
      by (simp add: decrypt_inner_def split_beta Let_def K)
  qed
  from this [OF len] show ?thesis by (simp add: dec)
qed

lemma mac_verify_compute: "mac_verify C K m s p (mac_compute C K m s p)"
  by (cases m) simp_all

lemma length_mac_compute: "crypto_ok K \<Longrightarrow> length (mac_compute C K m s p) = mac_len K m"
  by (cases m) (simp_all add: crypto_mac_compute_def crypto_okD)

text \<open>What the framing code needs of a plaintext: a length field and the key's alignment.\<close>

definition sealable :: "SealingKey \<Rightarrow> bytes \<Rightarrow> bool" where
  "sealable sk p \<longleftrightarrow> 16 \<le> length p \<and> (length p + key_prefix sk - 4) mod key_block sk = 0"

lemma seal_block:
  fixes C :: codec and s :: u32
  assumes K: "crypto_ok K" and sync: "bc_sync bc bc'" and p: "sealable (SK_Block bc m) p"
  defines "r \<equiv> block_seal C K bc m s p"
  shows "length (fst r) = length p" "length (fst (snd r)) = mac_len K m"
    "\<exists>bc''. block_open C K bc' m s (fst r @ fst (snd r)) = Inr (drop 4 p, bc'') \<and>
       bc_sync (snd (snd r)) bc''"
    "decrypt_packet_length K (OK_Block bc' m) s (take 16 (fst r)) = take 4 p"
proof -
  have p16: "16 \<le> length p" using p by (simp add: sealable_def)
  have "length (fst r) = length p \<and> length (fst (snd r)) = mac_len K m \<and>
    (\<exists>bc''. block_open C K bc' m s (fst r @ fst (snd r)) = Inr (drop 4 p, bc'') \<and>
       bc_sync (snd (snd r)) bc'') \<and>
    decrypt_packet_length K (OK_Block bc' m) s (take 16 (fst r)) = take 4 p"
  proof (cases "is_etm m")
    case True
    then have dvd: "16 dvd length (drop 4 p)"
      using p by (simp add: sealable_def mod_eq_0_iff_dvd)
    note rt = bc_round [OF K sync dvd]
    show ?thesis
      using True rt p16 mac_verify_compute [of C K m s] length_mac_compute [OF K]
      by (auto simp: r_def block_seal_def block_open_def split_beta Let_def PACKET_LENGTH_LEN_def
          min_def)
  next
    case False
    then have dvd: "16 dvd length p"
      using p by (simp add: sealable_def mod_eq_0_iff_dvd)
    note rt = bc_round [OF K sync dvd]
    show ?thesis
      using False rt p16 bc_probe [OF K sync dvd p16] mac_verify_compute [of C K m s]
        length_mac_compute [OF K]
      by (auto simp: r_def block_seal_def block_open_def split_beta Let_def PACKET_LENGTH_LEN_def)
  qed
  then show "length (fst r) = length p" "length (fst (snd r)) = mac_len K m"
    "\<exists>bc''. block_open C K bc' m s (fst r @ fst (snd r)) = Inr (drop 4 p, bc'') \<and>
       bc_sync (snd (snd r)) bc''"
    "decrypt_packet_length K (OK_Block bc' m) s (take 16 (fst r)) = take 4 p" by auto
qed

text \<open>
  The contract of a matching pair of keys: ciphertext and tag have the announced lengths, the
  length field can be read from the first bytes, opening gives the plaintext after the length
  field, and the pair matches again afterwards.
\<close>

lemma open_seal:
  assumes K: "crypto_ok K" and sync: "in_sync sk ok" and p: "sealable sk p"
  obtains ct tag sk' ok' where "seal C K sk s p = (ct, tag, sk')"
    "length ct = length p" "length tag = seal_tag_len K sk" "seal_tag_len K sk = open_tag_len K ok"
    "open_packet C K ok s (ct @ tag) = Inr (drop 4 p, ok')" "in_sync sk' ok'"
    "decrypt_packet_length K ok s (take (packet_length_to_read_for_block_length ok) ct) = take 4 p"
proof -
  have p16: "16 \<le> length p" using p by (simp add: sealable_def)
  show ?thesis
    using sync
  proof (cases "(sk, ok)" rule: in_sync.cases)
    case 1
    then show ?thesis using that p16 by simp
  next
    case (2 bc m bc' m')
    then have sync': "bc_sync bc bc'" and m: "m' = m" using sync by simp_all
    have p': "sealable (SK_Block bc m) p" using p 2 by simp
    define r where "r = block_seal C K bc m s p"
    note b = seal_block [OF K sync' p', where C = C and s = s, folded r_def]
    obtain bc'' where "block_open C K bc' m s (fst r @ fst (snd r)) = Inr (drop 4 p, bc'')"
      "bc_sync (snd (snd r)) bc''" using b(3) by blast
    then show ?thesis
      using that [of "fst r" "fst (snd r)" "SK_Block (snd (snd r)) m" "OK_Block bc'' m"] b 2 m
      by (simp add: r_def split_beta Let_def)
  next
    case (3 a k n a' k' n')
    define r where "r = gcm_seal K a k n (take 4 p) (drop 4 p)"
    show ?thesis
      using that [of "take 4 p @ fst r" "snd r" "SK_Gcm a k (snd (nonce_advance n))"
          "OK_Gcm a k (snd (nonce_advance n))"] 3 sync p16
      by (simp add: r_def gcm_seal_key_def gcm_open_key_def split_beta Let_def PACKET_LENGTH_LEN_def
          nonce_advance_def crypto_okD [OF K])
  next
    case (4 k k')
    define r where "r = chacha_seal K k s p"
    show ?thesis
      using that [of "fst r" "snd r" "SK_Chacha k" "OK_Chacha k"] 4 sync p16
      by (simp add: r_def chacha_open_key_def split_beta Let_def crypto_okD [OF K])
  qed auto
qed

section \<open>Properties\<close>

text \<open>
  C33. Every key pads a packet with at least four bytes and at most the maximum the transport
  limit reserves for padding, and the padded packet fills whole blocks of the cipher, for every
  payload length and every authenticator.
\<close>

theorem padding_length_correct:
  "4 \<le> padding_length K sk p \<and> padding_length K sk p \<le> MAXIMUM_PADDING_LEN \<and>
   (key_prefix sk + 1 + length p + padding_length K sk p) mod key_block sk = 0"
  using padding_length_bounds padding_length_aligned by blast

text \<open>
  C17. The nonces a GCM key hands out for different packets are all different, until the
  twelve-byte counter has gone through its whole range.
\<close>

theorem gcm_nonces_distinct:
  assumes "length nonce = NONCE_LEN" "i < j" "j < 2 ^ 96"
  shows "fst (nonce_advance (nonce_after i nonce)) \<noteq> fst (nonce_advance (nonce_after j nonce))"
proof -
  have "(256 :: nat) ^ length nonce = 2 ^ 96" by (simp add: assms(1) NONCE_LEN_def)
  then have "nonce_value (nonce_after i nonce) \<noteq> nonce_value (nonce_after j nonce)"
    using mod_add_distinct [OF assms(2,3)] by (simp only: nonce_after_value) simp
  then show ?thesis by (auto simp: nonce_advance_def)
qed

theorem gcm_nonces_distinct_witness:
  "fst (nonce_advance (nonce_after 0 (replicate 12 255))) \<noteq>
   fst (nonce_advance (nonce_after 1 (replicate 12 255)))"
  using gcm_nonces_distinct [of "replicate 12 255" 0 1] by (simp add: NONCE_LEN_def)

end
