(* ===== verification/Transport.thy ===== *)
theory Transport
  imports Cipher
begin

text \<open>
  Packet framing (\<open>cipher/mod.rs\<close>): the read/write buffer, the two ways a packet is written
  (\<open>write\<close> copies the payload, \<open>finish_packet\<close> completes a payload already in the buffer) and
  the reader. A stream is the list of bytes that will arrive; a short stream is the end-of-file
  error of \<open>read_exact\<close>. The properties: both writers produce the same packet, and what one
  side writes the other side reads back, packet by packet, with the keys in step.
\<close>

record SSHBuffer =
  sb_buffer :: bytes
  sb_len :: nat
  sb_bytes :: nat
  sb_seqn :: u32

definition SSHBuffer_new :: SSHBuffer where
  "SSHBuffer_new = \<lparr> sb_buffer = [], sb_len = 0, sb_bytes = 0, sb_seqn = 0 \<rparr>"

text \<open>\<open>Vec::resize\<close> with zeros, and overwriting a range in place.\<close>

definition resize :: "nat \<Rightarrow> bytes \<Rightarrow> bytes" where
  "resize n xs = take n xs @ replicate (n - length xs) 0"

definition splice :: "nat \<Rightarrow> bytes \<Rightarrow> bytes \<Rightarrow> bytes" where
  "splice i ys xs = take i xs @ ys @ drop (i + length ys) xs"

definition finish_packet ::
  "codec \<Rightarrow> crypto \<Rightarrow> SealingKey \<Rightarrow> nat \<Rightarrow> nat \<Rightarrow> SSHBuffer \<Rightarrow> (SealingKey \<times> SSHBuffer) res" where
  "finish_packet C K sk offset payload_len b =
     (let payload_start = offset + PACKET_LENGTH_LEN + PADDING_LENGTH_LEN;
          payload_end = payload_start + payload_len;
          buf = sb_buffer b
      in if length buf < payload_end then Inl Panicked
      else
      let padding = padding_length K sk (drop payload_start (take payload_end buf));
          packet_length = PADDING_LENGTH_LEN + payload_len + padding
      in if packet_length \<ge> 2 ^ 32 then Inl Panicked
      else
      let buf = splice offset (be_write_u32 C (of_nat packet_length)) buf
      in if padding \<ge> 2 ^ 8 then Inl Panicked
      else
      let buf = splice (offset + PACKET_LENGTH_LEN) [of_nat padding] buf;
          buf = resize (payload_end + padding) buf;
          buf = splice payload_end
                  (fill_padding K sk (sb_seqn b) (length (drop payload_end buf))) buf;
          buf = resize (length buf + seal_tag_len K sk) buf;
          (ct, tag, sk') = seal C K sk (sb_seqn b)
                             (take (PACKET_LENGTH_LEN + packet_length) (drop offset buf))
      in Inr (sk', b\<lparr> sb_buffer := take offset buf @ ct @ tag,
                       sb_bytes := sb_bytes b + payload_len, sb_seqn := sb_seqn b + 1 \<rparr>))"

definition write_payload ::
  "codec \<Rightarrow> crypto \<Rightarrow> SealingKey \<Rightarrow> bytes \<Rightarrow> SSHBuffer \<Rightarrow> (SealingKey \<times> SSHBuffer) res" where
  "write_payload C K sk payload b =
     (let padding = padding_length K sk payload;
          packet_length = PADDING_LENGTH_LEN + length payload + padding;
          offset = length (sb_buffer b)
      in if packet_length \<ge> 2 ^ 32 then Inl Panicked
      else
      let buf = sb_buffer b @ to_be_bytes (of_nat packet_length)
      in if padding \<ge> 2 ^ 8 then Inl Panicked
      else
      let buf = buf @ [of_nat padding];
          buf = buf @ payload;
          pad_offset = length buf;
          buf = resize (pad_offset + padding) buf;
          buf = splice pad_offset (fill_padding K sk (sb_seqn b) (length (drop pad_offset buf))) buf;
          tag_offset = length buf;
          buf = resize (tag_offset + seal_tag_len K sk) buf;
          (ct, tag, sk') = seal C K sk (sb_seqn b)
                             (take (PACKET_LENGTH_LEN + packet_length) (drop offset buf))
      in Inr (sk', b\<lparr> sb_buffer := take offset buf @ ct @ tag,
                       sb_bytes := sb_bytes b + length payload, sb_seqn := sb_seqn b + 1 \<rparr>))"

text \<open>
  The second half of \<open>read\<close>, once the length of the packet is known. After opening, the buffer
  holds the plaintext from its fifth byte on; its first four bytes, the length field, are kept
  as received and never read again.
\<close>

definition read_body ::
  "codec \<Rightarrow> crypto \<Rightarrow> bytes \<Rightarrow> SSHBuffer \<Rightarrow> OpeningKey \<Rightarrow>
     (nat \<times> bytes \<times> SSHBuffer \<times> OpeningKey) res" where
  "read_body C K stream b ok =
     (let buf = resize (sb_len b + 4) (sb_buffer b);
          l = packet_length_to_read_for_block_length ok
      in if length buf < l then Inl Panicked
      else if length stream < length buf - l then Inl E_IO
      else
      let buf = take l buf @ take (length buf - l) stream;
          rest = drop (length buf - l) stream
      in bindR (open_packet C K ok (sb_seqn b) buf) (\<lambda>(plaintext, ok').
         let padding = (case plaintext of [] \<Rightarrow> 0 | x # _ \<Rightarrow> unat x)
         in if length plaintext < padding then Inl E_IndexOutOfBounds
         else
         let plaintext_end = length plaintext - padding
         in Inr (plaintext_end + 4, rest,
              b\<lparr> sb_seqn := sb_seqn b + 1, sb_len := 0,
                 sb_buffer := resize (plaintext_end + 4) (take 4 buf @ plaintext) \<rparr>, ok')))"

definition read_packet ::
  "codec \<Rightarrow> crypto \<Rightarrow> bytes \<Rightarrow> SSHBuffer \<Rightarrow> OpeningKey \<Rightarrow>
     (nat \<times> bytes \<times> SSHBuffer \<times> OpeningKey) res" where
  "read_packet C K stream b ok =
     (if sb_len b = 0 then
        (let l = packet_length_to_read_for_block_length ok
         in if length stream < l then Inl E_IO
         else
         let enc = take l stream;
             len = unat (be_read_u32 C (decrypt_packet_length K ok (sb_seqn b) enc))
         in if len > MAXIMUM_PACKET_LEN then Inl (E_PacketSize len)
         else read_body C K (drop l stream)
                (b\<lparr> sb_buffer := enc, sb_len := len + open_tag_len K ok \<rparr>) ok)
      else read_body C K stream b ok)"

section \<open>What a writer puts on the wire\<close>

text \<open>The plaintext of a packet: length, padding length, payload and padding.\<close>

definition packet_plaintext :: "crypto \<Rightarrow> SealingKey \<Rightarrow> u32 \<Rightarrow> bytes \<Rightarrow> bytes" where
  "packet_plaintext K sk seqn payload =
     (let padding = padding_length K sk payload
      in to_be_bytes (of_nat (1 + length payload + padding)) @ of_nat padding # payload @
         fill_padding K sk seqn padding)"

lemma resize_grow [simp]: "length xs \<le> n \<Longrightarrow> resize n xs = xs @ replicate (n - length xs) 0"
  by (simp add: resize_def)

lemma splice_end: "splice (length xs) ys (xs @ zs) = xs @ ys @ drop (length ys) zs"
  by (simp add: splice_def)

lemma length_fill_padding: "crypto_ok K \<Longrightarrow> length (fill_padding K sk s n) = n"
  by (cases sk) (simp_all add: crypto_okD)

lemma length_packet_plaintext:
  "crypto_ok K \<Longrightarrow>
     length (packet_plaintext K sk s p) = 5 + length p + padding_length K sk p"
  by (simp add: packet_plaintext_def length_fill_padding Let_def to_be_bytes_def)

lemma padding_fits [simp]: "padding_length K sk p < 256" "\<not> 256 \<le> padding_length K sk p"
  using padding_length_bounds [of K sk p] by (simp_all add: packet_consts)

lemma write_payload_eq:
  assumes K: "crypto_ok K" and len: "1 + length payload + padding_length K sk payload < 2 ^ 32"
  shows "write_payload C K sk payload b =
    (let (ct, tag, sk') = seal C K sk (sb_seqn b) (packet_plaintext K sk (sb_seqn b) payload)
     in Inr (sk', b\<lparr> sb_buffer := sb_buffer b @ ct @ tag,
          sb_bytes := sb_bytes b + length payload, sb_seqn := sb_seqn b + 1 \<rparr>))"
proof -
  define old where "old = sb_buffer b"
  define padding where "padding = padding_length K sk payload"
  have p: "padding < 256" by (simp add: padding_def)
  define hd where "hd = to_be_bytes (of_nat (PADDING_LENGTH_LEN + length payload + padding)) @
    [of_nat padding]"
  have hd: "length hd = 5" by (simp add: hd_def to_be_bytes_def)
  define pad where "pad = fill_padding K sk (sb_seqn b) padding"
  have pad: "length pad = padding" by (simp add: pad_def length_fill_padding [OF K])
  have pt: "packet_plaintext K sk (sb_seqn b) payload = hd @ payload @ pad"
    by (simp add: packet_plaintext_def hd_def pad_def padding_def packet_consts Let_def)
  have s1: "((old @ to_be_bytes (of_nat (PADDING_LENGTH_LEN + length payload + padding))) @
      [of_nat padding]) @ payload = old @ hd @ payload"
    by (simp add: hd_def)
  have r1: "resize (length (old @ hd @ payload) + padding) (old @ hd @ payload) =
      (old @ hd @ payload) @ replicate padding 0"
    by simp
  have f: "fill_padding K sk (sb_seqn b) (length (drop (length (old @ hd @ payload))
      ((old @ hd @ payload) @ replicate padding 0))) = pad"
    by (simp add: pad_def)
  have s2: "splice (length (old @ hd @ payload)) pad ((old @ hd @ payload) @ replicate padding 0) =
      old @ hd @ payload @ pad"
    unfolding splice_end by (simp add: pad)
  have r2: "resize (length (old @ hd @ payload @ pad) + n) (old @ hd @ payload @ pad) =
      old @ hd @ payload @ pad @ replicate n 0" for n
    by simp
  have t1: "take (PACKET_LENGTH_LEN + (PADDING_LENGTH_LEN + length payload + padding))
      (drop (length old) (old @ hd @ payload @ pad @ z)) = hd @ payload @ pad" for z
    by (simp add: packet_consts hd pad)
  have t2: "take (length old) (old @ z) = old" for z by simp
  have g: "\<not> 2 ^ 32 \<le> PADDING_LENGTH_LEN + length payload + padding" "\<not> 2 ^ 8 \<le> padding"
    using len p by (simp_all add: packet_consts padding_def)
  show ?thesis
    unfolding write_payload_def
    by (simp only: Let_def old_def [symmetric] padding_def [symmetric] s1 r1 f s2 r2 t1 t2 pt g
        if_False split_beta cong: let_weak_cong)
qed

lemma write_payload_oversize:
  "2 ^ 32 \<le> 1 + length payload + padding_length K sk payload \<Longrightarrow>
     write_payload C K sk payload b = Inl Panicked"
  by (simp add: write_payload_def PADDING_LENGTH_LEN_def Let_def [of "padding_length K sk payload"]
      Let_def [of "1 + _ + _"])

lemma finish_packet_eq:
  assumes C: "ssh_codec C" and K: "crypto_ok K"
    and len: "1 + length payload + padding_length K sk payload < 2 ^ 32"
    and b: "sb_buffer b = old @ prefix @ payload" "length prefix = 5"
  shows "finish_packet C K sk (length old) (length payload) b =
    write_payload C K sk payload (b\<lparr> sb_buffer := old \<rparr>)"
proof -
  define padding where "padding = padding_length K sk payload"
  have p: "padding < 256" by (simp add: padding_def)
  define hd where "hd = to_be_bytes (of_nat (PADDING_LENGTH_LEN + length payload + padding)) @
    [of_nat padding]"
  have hd: "length hd = 5" by (simp add: hd_def to_be_bytes_def)
  define pad where "pad = fill_padding K sk (sb_seqn b) padding"
  have pad: "length pad = padding" by (simp add: pad_def length_fill_padding [OF K])
  obtain p1 p2 where prefix: "prefix = p1 @ [p2]" "length p1 = 4"
    using b(2) by (cases prefix rule: rev_cases) auto
  have s1: "splice (length old) (to_be_bytes (of_nat (PADDING_LENGTH_LEN + length payload + padding)))
      (old @ prefix @ payload) =
      old @ to_be_bytes (of_nat (PADDING_LENGTH_LEN + length payload + padding)) @ p2 # payload"
    by (simp add: splice_def prefix to_be_bytes_def)
  have s2: "splice (length old + 4) [of_nat padding]
      (old @ to_be_bytes (of_nat (PADDING_LENGTH_LEN + length payload + padding)) @ p2 # payload) =
      old @ hd @ payload"
    by (simp add: splice_def hd_def to_be_bytes_def)
  have s3: "splice (length old + 5 + length payload) pad
      (old @ hd @ payload @ replicate padding 0) = old @ hd @ payload @ pad"
    by (simp add: splice_def hd pad)
  have pt: "packet_plaintext K sk (sb_seqn b) payload = hd @ payload @ pad"
    by (simp add: packet_plaintext_def hd_def pad_def padding_def packet_consts Let_def)
  have c: "length old + 4 + PADDING_LENGTH_LEN = length old + 5"
    "length old + PACKET_LENGTH_LEN = length old + 4"
    by (simp_all add: packet_consts)
  have pay: "drop (length old + 5) (take (length old + 5 + length payload) (old @ prefix @ payload)) =
      payload"
    using b(2) by simp
  have r1: "resize (length old + 5 + length payload + padding) (old @ hd @ payload) =
      old @ hd @ payload @ replicate padding 0"
    by (simp add: hd)
  have r2: "resize (length (old @ hd @ payload @ pad) + n) (old @ hd @ payload @ pad) =
      old @ hd @ payload @ pad @ replicate n 0" for n
    by simp
  have pad': "fill_padding K sk (sb_seqn b)
      (length (drop (length old + 5 + length payload) (old @ hd @ payload @ replicate padding 0))) = pad"
    by (simp add: pad_def hd)
  have t1: "take (PACKET_LENGTH_LEN + (PADDING_LENGTH_LEN + length payload + padding))
      (drop (length old) (old @ hd @ payload @ pad @ z)) = hd @ payload @ pad" for z
    by (simp add: packet_consts hd pad)
  have g: "\<not> length (old @ prefix @ payload) < length old + 5 + length payload"
    "\<not> 2 ^ 32 \<le> PADDING_LENGTH_LEN + length payload + padding" "\<not> 2 ^ 8 \<le> padding"
    using b(2) len p by (simp_all add: packet_consts padding_def)
  have t2: "take (length old) (old @ z) = old" for z by simp
  show ?thesis
    unfolding write_payload_eq [OF K len] finish_packet_def
    by (simp only: Let_def b(1) c pay padding_def [symmetric] ssh_codec.be_write [OF C] s1 s2 r1
        pad' s3 r2 t1 t2 pt g if_False split_beta SSHBuffer.simps append_assoc
        cong: let_weak_cong) (simp add: pt)
qed


section \<open>Reading back what was written\<close>

lemma plaintext_sealable:
  assumes "crypto_ok K"
  shows "sealable sk (packet_plaintext K sk s payload)"
proof -
  let ?p = "padding_length K sk payload"
  have len: "length (packet_plaintext K sk s payload) = 5 + length payload + ?p"
    by (rule length_packet_plaintext [OF assms])
  have "(key_prefix sk + 1 + length payload + ?p) mod key_block sk = 0"
    by (rule padding_length_aligned)
  moreover have "key_prefix sk + 1 + length payload + ?p = 5 + length payload + ?p + key_prefix sk - 4"
    by simp
  moreover have "16 \<le> 5 + length payload + ?p"
  proof (cases sk)
    case SK_Clear
    have "8 dvd 5 + length payload + ?p"
      using padding_length_aligned [of sk payload K] SK_Clear by (simp add: mod_eq_0_iff_dvd)
    moreover have "8 < 5 + length payload + ?p"
      using padding_length_bounds [of K sk payload] by simp
    ultimately show ?thesis
    proof (elim dvdE)
      fix k assume k: "5 + length payload + ?p = 8 * k" "8 < 5 + length payload + ?p"
      then have "1 < k" by simp
      with k(1) show ?thesis by simp
    qed
  next
    case (SK_Block bc m)
    show ?thesis
    proof -
      have "16 dvd key_prefix sk + 1 + length payload + ?p" "0 < key_prefix sk + 1 + length payload + ?p"
        using padding_length_aligned [of sk payload K] SK_Block by (simp_all add: mod_eq_0_iff_dvd)
      then have "16 \<le> key_prefix sk + 1 + length payload + ?p" by (rule dvd_imp_le)
      moreover have "key_prefix sk \<le> 4" using SK_Block by simp
      ultimately show ?thesis by linarith
    qed
  next
    case (SK_Gcm a k n)
    have "16 dvd 1 + length payload + ?p"
      using padding_length_aligned [of sk payload K] SK_Gcm by (simp add: mod_eq_0_iff_dvd)
    then have "16 \<le> 1 + length payload + ?p" by (rule dvd_imp_le) simp
    then show ?thesis by simp
  next
    case (SK_Chacha k)
    then show ?thesis
      using fill_up_bounds [of 8 "1 + length payload"] by (simp add: chacha_padding_cases)
  qed
  ultimately show ?thesis unfolding sealable_def len by metis
qed

lemma plaintext_parts:
  fixes s :: u32
  assumes "crypto_ok K" "1 + length payload + padding_length K sk payload < 2 ^ 32"
  defines "pt \<equiv> packet_plaintext K sk s payload"
  shows "take 4 pt = to_be_bytes (of_nat (1 + length payload + padding_length K sk payload))"
    "\<exists>x r. drop 4 pt = x # payload @ r \<and> unat x = padding_length K sk payload \<and> length r = unat x"
proof -
  show "take 4 pt = to_be_bytes (of_nat (1 + length payload + padding_length K sk payload))"
    by (simp add: pt_def packet_plaintext_def Let_def to_be_bytes_def)
  have "unat (of_nat (padding_length K sk payload) :: u8) = padding_length K sk payload"
    by (simp add: unat_of_nat)
  then show "\<exists>x r. drop 4 pt = x # payload @ r \<and> unat x = padding_length K sk payload \<and> length r = unat x"
    by (simp add: pt_def packet_plaintext_def Let_def to_be_bytes_def length_fill_padding [OF assms(1)])
qed

lemma block_first_read: "packet_length_to_read_for_block_length ok \<le> 16"
  by (cases ok) simp_all

text \<open>One packet: the writer appends it to its buffer, the reader takes exactly it.\<close>

lemma read_write_packet:
  assumes C: "ssh_codec C" and K: "crypto_ok K" and sync: "in_sync sk ok"
    and seqn: "sb_seqn rb = sb_seqn wb" and idle: "sb_len rb = 0"
    and len: "1 + length payload + padding_length K sk payload \<le> MAXIMUM_PACKET_LEN"
  obtains pkt sk' ok' where
    "write_payload C K sk payload wb = Inr (sk', wb\<lparr> sb_buffer := sb_buffer wb @ pkt,
       sb_bytes := sb_bytes wb + length payload, sb_seqn := sb_seqn wb + 1 \<rparr>)"
    "in_sync sk' ok'"
    "\<And>rest. \<exists>h. read_packet C K (pkt @ rest) rb ok = Inr (length payload + 5, rest,
       rb\<lparr> sb_buffer := h @ payload, sb_len := 0, sb_seqn := sb_seqn rb + 1 \<rparr>, ok') \<and> length h = 5"
proof -
  define s where "s = sb_seqn wb"
  define pt where "pt = packet_plaintext K sk s payload"
  define n where "n = 1 + length payload + padding_length K sk payload"
  have n: "n \<le> 262177" using len by (simp add: n_def packet_consts)
  have lpt: "length pt = 4 + n" by (simp add: pt_def n_def length_packet_plaintext [OF K])
  have seal_pt: "sealable sk pt" unfolding pt_def by (rule plaintext_sealable [OF K])
  obtain ct tag sk' ok' where sl: "seal C K sk s pt = (ct, tag, sk')" "length ct = length pt"
      "length tag = seal_tag_len K sk" "seal_tag_len K sk = open_tag_len K ok"
      "open_packet C K ok s (ct @ tag) = Inr (drop 4 pt, ok')" "in_sync sk' ok'"
      "decrypt_packet_length K ok s (take (packet_length_to_read_for_block_length ok) ct) = take 4 pt"
    by (rule open_seal [OF K sync seal_pt, where C = C and s = s])
  have "n < 2 ^ 32" using n by simp
  note parts = plaintext_parts [OF K this [unfolded n_def], where s = s, folded pt_def n_def]
  obtain x r where x: "drop 4 pt = x # payload @ r" "unat x = padding_length K sk payload"
      "length r = unat x" using parts(2) by blast
  let ?l = "packet_length_to_read_for_block_length ok"
  have l: "?l \<le> length ct" using block_first_read [of ok] seal_pt sl(2) by (simp add: sealable_def)
  have rd: "unat (be_read_u32 C (take 4 pt)) = n"
    using n by (simp add: parts(1) ssh_codec.be_read_Nil [OF C])
  have "\<exists>h. read_packet C K ((ct @ tag) @ rest) rb ok = Inr (length payload + 5, rest,
       rb\<lparr> sb_buffer := h @ payload, sb_len := 0, sb_seqn := sb_seqn rb + 1 \<rparr>, ok') \<and> length h = 5"
    for rest
  proof (intro exI conjI)
    let ?h = "take 4 (ct @ tag) @ [x]"
    define b1 where "b1 = rb\<lparr> sb_buffer := take ?l ct, sb_len := n + open_tag_len K ok \<rparr>"
    have ll: "length (ct @ tag) = n + open_tag_len K ok + 4" "?l \<le> n + open_tag_len K ok + 4"
      using l sl(2-4) lpt by simp_all
    define B where "B = resize (n + open_tag_len K ok + 4) (take ?l ct)"
    have B: "length B = length (ct @ tag)" "take ?l B = take ?l ct"
      using l ll by (simp_all add: B_def resize_def min_def)
    have s1: "take (length (ct @ tag) - ?l) (drop ?l ct @ tag @ rest) = drop ?l ct @ tag"
      "drop (length (ct @ tag) - ?l) (drop ?l ct @ tag @ rest) = rest"
      "take ?l ct @ drop ?l ct @ tag = ct @ tag"
      "\<not> length (ct @ tag) < ?l"
      "\<not> length (drop ?l ct @ tag @ rest) < length (ct @ tag) - ?l"
      using l by simp_all
    have s2: "resize (length payload + 5) (take 4 (ct @ tag) @ x # payload @ r) =
        ?h @ payload" "length (x # payload @ r) - unat x + 4 = length payload + 5"
      "\<not> length (x # payload @ r) < unat x"
      using x sl(2) lpt by (simp_all add: resize_def)
    have "read_body C K (drop ?l ct @ tag @ rest) b1 ok = Inr (length payload + 5, rest,
       b1\<lparr> sb_seqn := sb_seqn b1 + 1, sb_len := 0, sb_buffer := ?h @ payload \<rparr>, ok')"
    proof -
      have "sb_len b1 + 4 = n + open_tag_len K ok + 4" "sb_buffer b1 = take ?l ct" "sb_seqn b1 = s"
        using seqn by (simp_all add: b1_def s_def)
      then show ?thesis
        unfolding read_body_def
        by (simp only: B_def [symmetric] Let_def B s1 sl(5) x(1) bindR_simps split_conv
            list.case s2 if_False cong: let_weak_cong)
    qed
    moreover have "read_packet C K ((ct @ tag) @ rest) rb ok =
        read_body C K (drop ?l ct @ tag @ rest) b1 ok"
    proof -
      have s3: "take ?l ((ct @ tag) @ rest) = take ?l ct" "\<not> length ((ct @ tag) @ rest) < ?l"
        "drop ?l ((ct @ tag) @ rest) = drop ?l ct @ tag @ rest" "\<not> MAXIMUM_PACKET_LEN < n"
        "sb_seqn rb = s"
        using l n seqn by (simp_all add: packet_consts s_def)
      show ?thesis
        unfolding read_packet_def if_P [OF idle] Let_def s3(1,3,5) sl(7) rd if_not_P [OF s3(2)]
          if_not_P [OF s3(4)] b1_def ..
    qed
    ultimately show "read_packet C K ((ct @ tag) @ rest) rb ok = Inr (length payload + 5, rest,
       rb\<lparr> sb_buffer := ?h @ payload, sb_len := 0, sb_seqn := sb_seqn rb + 1 \<rparr>, ok')"
      by (simp add: b1_def)
    show "length ?h = 5" using l sl(2) lpt by simp
  qed
  moreover have "write_payload C K sk payload wb = Inr (sk', wb\<lparr> sb_buffer := sb_buffer wb @ ct @ tag,
       sb_bytes := sb_bytes wb + length payload, sb_seqn := sb_seqn wb + 1 \<rparr>)"
    using n sl(1) by (subst write_payload_eq [OF K]) (simp_all add: n_def s_def pt_def)
  ultimately show ?thesis using that sl(6) by blast
qed

section \<open>Streams of packets\<close>

primrec write_all ::
  "codec \<Rightarrow> crypto \<Rightarrow> bytes list \<Rightarrow> SealingKey \<Rightarrow> SSHBuffer \<Rightarrow> (SealingKey \<times> SSHBuffer) res" where
  "write_all C K [] sk b = Inr (sk, b)"
| "write_all C K (p # ps) sk b =
     bindR (write_payload C K sk p b) (\<lambda>(sk', b'). write_all C K ps sk' b')"

primrec read_all ::
  "codec \<Rightarrow> crypto \<Rightarrow> nat \<Rightarrow> bytes \<Rightarrow> SSHBuffer \<Rightarrow> OpeningKey \<Rightarrow>
     (bytes list \<times> bytes \<times> SSHBuffer \<times> OpeningKey) res" where
  "read_all C K 0 stream b ok = Inr ([], stream, b, ok)"
| "read_all C K (Suc n) stream b ok =
     bindR (read_packet C K stream b ok) (\<lambda>(_, stream', b', ok').
     bindR (read_all C K n stream' b' ok') (\<lambda>(ps, r). Inr (drop 5 (sb_buffer b') # ps, r)))"

lemma stream_round_trip:
  assumes C: "ssh_codec C" and K: "crypto_ok K" and sync: "in_sync sk ok"
    and seqn: "sb_seqn rb = sb_seqn wb" and idle: "sb_len rb = 0"
    and len: "\<forall>p \<in> set ps. 1 + length p + MAXIMUM_PADDING_LEN \<le> MAXIMUM_PACKET_LEN"
  shows "\<exists>pkts sk' wb' ok' rb'. write_all C K ps sk wb = Inr (sk', wb') \<and>
    sb_buffer wb' = sb_buffer wb @ pkts \<and> in_sync sk' ok' \<and> sb_seqn rb' = sb_seqn wb' \<and>
    read_all C K (length ps) (pkts @ rest) rb ok = Inr (ps, rest, rb', ok')"
  using sync seqn idle len
proof (induction ps arbitrary: sk ok wb rb)
  case Nil
  then show ?case by auto
next
  case (Cons p ps)
  have "1 + length p + padding_length K sk p \<le> MAXIMUM_PACKET_LEN"
    using Cons.prems(4) padding_length_bounds [of K sk p] by auto
  then obtain pkt sk1 ok1 where w: "write_payload C K sk p wb = Inr (sk1, wb\<lparr> sb_buffer := sb_buffer wb @ pkt,
       sb_bytes := sb_bytes wb + length p, sb_seqn := sb_seqn wb + 1 \<rparr>)" "in_sync sk1 ok1"
    and r: "\<And>rest. \<exists>h. read_packet C K (pkt @ rest) rb ok = Inr (length p + 5, rest,
       rb\<lparr> sb_buffer := h @ p, sb_len := 0, sb_seqn := sb_seqn rb + 1 \<rparr>, ok1) \<and> length h = 5"
    by (rule read_write_packet [OF C K Cons.prems(1-3)]) blast
  define wb1 where "wb1 = wb\<lparr> sb_buffer := sb_buffer wb @ pkt, sb_bytes := sb_bytes wb + length p,
    sb_seqn := sb_seqn wb + 1 \<rparr>"
  have step: "\<exists>pkts sk' wb' ok' rb'. write_all C K ps sk1 wb1 = Inr (sk', wb') \<and>
      sb_buffer wb' = sb_buffer wb1 @ pkts \<and> in_sync sk' ok' \<and> sb_seqn rb' = sb_seqn wb' \<and>
      read_all C K (length ps) (pkts @ rest) (rb\<lparr> sb_buffer := h, sb_len := 0,
        sb_seqn := sb_seqn rb + 1 \<rparr>) ok1 = Inr (ps, rest, rb', ok')" for h
    using Cons.prems by (intro Cons.IH [OF w(2)]) (auto simp: wb1_def)
  obtain sk' wb' pkts where w': "write_all C K ps sk1 wb1 = Inr (sk', wb')"
      "sb_buffer wb' = sb_buffer wb1 @ pkts"
    using step [of "[]"] by blast
  obtain h where h: "read_packet C K (pkt @ (pkts @ rest)) rb ok = Inr (length p + 5, pkts @ rest,
       rb\<lparr> sb_buffer := h @ p, sb_len := 0, sb_seqn := sb_seqn rb + 1 \<rparr>, ok1)" "length h = 5"
    using r by blast
  obtain ok' rb' where "in_sync sk' ok'" "sb_seqn rb' = sb_seqn wb'"
      "read_all C K (length ps) (pkts @ rest) (rb\<lparr> sb_buffer := h @ p, sb_len := 0,
        sb_seqn := sb_seqn rb + 1 \<rparr>) ok1 = Inr (ps, rest, rb', ok')"
    using step [of "h @ p"] w' by auto
  moreover have "sb_buffer wb' = sb_buffer wb @ (pkt @ pkts)" using w'(2) by (simp add: wb1_def)
  ultimately show ?case
    using w(1) w'(1) h by (intro exI [of _ "pkt @ pkts"] exI) (auto simp: wb1_def)
qed

section \<open>Panics\<close>

lemma length_decrypt_data: "crypto_ok K \<Longrightarrow> length (fst (decrypt_data K bc xs)) = length xs"
  by (cases bc) (simp_all add: ctr_apply_def crypto_okD decrypt_inner_def split_beta Let_def length_cbc_chunks)

lemma block_open_no_panic:
  assumes "crypto_ok K" "mac_len K m + 4 \<le> length buf"
  shows "block_open C K bc m s buf \<noteq> Inl Panicked"
proof -
  have "\<not> length (take (length buf - mac_len K m) buf) < 4" using assms(2) by simp
  moreover have "length (fst (decrypt_data K bc (take (length buf - mac_len K m) buf))) =
      length (take (length buf - mac_len K m) buf)"
    by (rule length_decrypt_data [OF assms(1)])
  ultimately show ?thesis
    using assms(2) unfolding block_open_def Let_def PACKET_LENGTH_LEN_def split_beta by simp
qed

lemma open_packet_no_panic:
  assumes "crypto_ok K" "open_tag_len K ok + 4 \<le> length buf"
  shows "open_packet C K ok s buf \<noteq> Inl Panicked"
proof (cases ok)
  case (OK_Block bc m)
  then show ?thesis using block_open_no_panic [OF assms(1)] assms(2) by (simp add: res_simps split_beta)
next
  case (OK_Gcm a k n)
  then show ?thesis
    using assms(2) by (simp add: gcm_open_key_def PACKET_LENGTH_LEN_def res_simps split_beta Let_def)
next
  case (OK_Chacha k)
  then show ?thesis using assms(2) by (simp add: chacha_open_key_def res_simps Let_def)
qed (use assms(2) in simp)

lemma read_body_no_panic:
  assumes K: "crypto_ok K" and e: "length e = packet_length_to_read_for_block_length ok"
    and l: "packet_length_to_read_for_block_length ok \<le> open_tag_len K ok + 4"
  shows "read_body C K s (b\<lparr> sb_buffer := e, sb_len := n + open_tag_len K ok \<rparr>) ok \<noteq> Inl Panicked"
proof -
  define buf where "buf = resize (n + open_tag_len K ok + 4) e"
  have buf: "length buf = n + open_tag_len K ok + 4" using e l by (simp add: buf_def)
  let ?l = "packet_length_to_read_for_block_length ok"
  define buf' where "buf' = take ?l buf @ take (length buf - ?l) s"
  have "open_packet C K ok q buf' \<noteq> Inl Panicked" if "\<not> length s < length buf - ?l" for q
    using that l buf by (intro open_packet_no_panic [OF K]) (simp add: buf'_def)
  moreover have "\<not> length buf < ?l" using l buf by simp
  ultimately show ?thesis
    unfolding read_body_def
    by (simp add: Let_def buf_def [symmetric] buf'_def [symmetric] bindR_Inl_iff split_beta
        cong: let_weak_cong)
qed

section \<open>A crypto environment for examples\<close>

text \<open>
  A stand-in for the cryptographic packages that satisfies their contract (constant keystream,
  constant tags). It only serves to evaluate the model and to show the contract can be met.
\<close>

definition demo_crypto :: crypto where
  "demo_crypto =
     \<lparr> hmac = (\<lambda>h k m. replicate 20 9), hmac_len = (\<lambda>h. 20), alg_key_len = (\<lambda>a. 16),
       alg_block_len = (\<lambda>a. 16), ctr_keystream = (\<lambda>a k iv p n. replicate n 90),
       cbc_encrypt_block = (\<lambda>a k iv b. (b, b)), cbc_decrypt_block = (\<lambda>a k iv b. (b, b)),
       gcm_tag_len = 16, gcm_seal = (\<lambda>a k n ad p. (p, replicate 16 1)),
       gcm_open = (\<lambda>a k n ad c. Some (take (length c - 16) c)),
       chacha_key_len = 64, chacha_tag_len = 16,
       chacha_seal = (\<lambda>k s p. (p, replicate 16 2)), chacha_open = (\<lambda>k s c t. Some (drop 4 c)),
       chacha_decrypt_len = (\<lambda>k s b. b), rng_fill = (\<lambda>s n. replicate n 7) \<rparr>"

lemma demo_crypto_ok: "crypto_ok demo_crypto"
  by (simp add: crypto_ok_def demo_crypto_def)

section \<open>Properties\<close>

text \<open>
  C5. A sequence of payloads within the transport limit, written by one side, is read back by
  the other side as the same payloads in the same order, whatever bytes follow; the two keys
  are in step again and both sides have counted the same sequence numbers. This holds for the
  clear, block (encrypt-then-MAC or not), GCM and ChaCha keys.
\<close>

theorem transport_round_trip:
  assumes "ssh_codec C" "crypto_ok K" "in_sync sk ok" "sb_seqn rb = sb_seqn wb" "sb_len rb = 0"
    and "\<forall>p \<in> set ps. 1 + length p + MAXIMUM_PADDING_LEN \<le> MAXIMUM_PACKET_LEN"
  shows "\<exists>pkts sk' wb' ok' rb'. write_all C K ps sk wb = Inr (sk', wb') \<and>
    sb_buffer wb' = sb_buffer wb @ pkts \<and> in_sync sk' ok' \<and> sb_seqn rb' = sb_seqn wb' \<and>
    read_all C K (length ps) (pkts @ rest) rb ok = Inr (ps, rest, rb', ok')"
  by (rule stream_round_trip [OF assms])

theorem transport_round_trip_witness:
  "\<exists>pkts sk' wb' ok' rb'.
     write_all rfc4251 demo_crypto [[5], [6, 7]] (SK_Gcm Aes128 [] (replicate 12 0)) SSHBuffer_new =
       Inr (sk', wb') \<and>
     sb_buffer wb' = sb_buffer SSHBuffer_new @ pkts \<and> in_sync sk' ok' \<and>
     sb_seqn rb' = sb_seqn wb' \<and>
     read_all rfc4251 demo_crypto 2 (pkts @ [1]) SSHBuffer_new (OK_Gcm Aes128 [] (replicate 12 0)) =
       Inr ([[5], [6, 7]], [1], rb', ok')"
  using transport_round_trip [OF rfc4251_codec demo_crypto_ok,
      of "SK_Gcm Aes128 [] (replicate 12 0)" "OK_Gcm Aes128 [] (replicate 12 0)"
         SSHBuffer_new SSHBuffer_new "[[5], [6, 7]]" "[1]"]
  by (simp add: SSHBuffer_new_def packet_consts numeral_2_eq_2 del: write_all.simps read_all.simps)

text \<open>
  C34. Completing a payload that was built in place behind a five-byte prefix gives exactly the
  buffer, key and counters that copying the payload with \<open>write\<close> gives.
\<close>

theorem finish_packet_equals_write:
  assumes "ssh_codec C" "crypto_ok K" "1 + length payload + padding_length K sk payload < 2 ^ 32"
    "sb_buffer b = old @ prefix @ payload" "length prefix = 5"
  shows "finish_packet C K sk (length old) (length payload) b =
    write_payload C K sk payload (b\<lparr> sb_buffer := old \<rparr>)"
  by (rule finish_packet_eq [OF assms])

theorem finish_packet_equals_write_witness:
  "finish_packet rfc4251 demo_crypto (SK_Chacha [3]) (Suc 0) (Suc (Suc 0))
     (SSHBuffer_new\<lparr> sb_buffer := [8, 0, 0, 0, 0, 0, 21, 22] \<rparr>) =
   write_payload rfc4251 demo_crypto (SK_Chacha [3]) [21, 22] (SSHBuffer_new\<lparr> sb_buffer := [8] \<rparr>)"
  using finish_packet_equals_write [OF rfc4251_codec demo_crypto_ok, of "[21, 22]" "SK_Chacha [3]"
      "SSHBuffer_new\<lparr> sb_buffer := [8, 0, 0, 0, 0, 0, 21, 22] \<rparr>" "[8]" "[0, 0, 0, 0, 0]"]
  by (simp add: chacha_padding_cases)

text \<open>
  C22. Whatever bytes arrive, starting a packet never panics, provided a block cipher is used
  with an authentication code of at least twelve bytes: the outcome is a packet or an error.
\<close>

theorem read_packet_no_panic:
  assumes K: "crypto_ok K" and idle: "sb_len b = 0"
    and mac: "\<forall>bc m. ok = OK_Block bc m \<longrightarrow> 12 \<le> mac_len K m"
  shows "read_packet C K stream b ok \<noteq> Inl Panicked"
proof -
  have body: "read_body C K s (b\<lparr> sb_buffer := e, sb_len := n + open_tag_len K ok \<rparr>) ok \<noteq> Inl Panicked"
    if "length e = packet_length_to_read_for_block_length ok" for s e n
    by (rule read_body_no_panic [OF K that]) (use mac in \<open>cases ok; auto\<close>)
  then show ?thesis
    by (auto simp: read_packet_def idle Let_def)
qed

theorem read_packet_no_panic_witness:
  "read_packet rfc4251 demo_crypto (replicate 40 200) SSHBuffer_new
     (OK_Block (CtrWrapper Aes128 [] [] 0) (CryptoMac HA_Sha1 [])) \<noteq> Inl Panicked"
  by (rule read_packet_no_panic [OF demo_crypto_ok]) (simp_all add: SSHBuffer_new_def demo_crypto_def)

text \<open>
  C39. With a block cipher and no authentication code, a packet whose length field is below
  twelve makes the reader slice its buffer past the end.
\<close>

theorem read_short_block_panics:
  assumes "sb_len b = 0" "16 \<le> length stream"
    and "unat (be_read_u32 C (decrypt_packet_length K (OK_Block bc NoMac) (sb_seqn b) (take 16 stream))) < 12"
  shows "read_packet C K stream b (OK_Block bc NoMac) = Inl Panicked"
proof -
  let ?n = "unat (be_read_u32 C (decrypt_packet_length K (OK_Block bc NoMac) (sb_seqn b) (take 16 stream)))"
  have "length (resize (?n + 4) (take 16 stream)) < 16"
    using assms(2,3) by (simp add: resize_def)
  then have "read_body C K (drop 16 stream) (b\<lparr> sb_buffer := take 16 stream, sb_len := ?n \<rparr>)
      (OK_Block bc NoMac) = Inl Panicked"
    by (simp add: read_body_def Let_def [of "resize _ _"])
  then show ?thesis
    using assms unfolding read_packet_def by (simp add: packet_consts)
qed

theorem read_short_block_panics_witness:
  "read_packet rfc4251 demo_crypto (replicate 16 90) SSHBuffer_new
     (OK_Block (CtrWrapper Aes128 [] [] 0) NoMac) = Inl Panicked"
proof -
  have "decrypt_packet_length demo_crypto (OK_Block (CtrWrapper Aes128 [] [] 0) NoMac) 0
      (take 16 (replicate 16 90)) = replicate 4 0"
    by (simp add: demo_crypto_def ctr_apply_def xor_bytes_def)
  also have "\<dots> = [0, 0, 0, 0]" by (simp add: numeral_eq_Suc)
  also have "\<dots> = to_be_bytes 0" by (simp add: to_be_bytes_def)
  finally have "be_read_u32 rfc4251 (decrypt_packet_length demo_crypto
      (OK_Block (CtrWrapper Aes128 [] [] 0) NoMac) (sb_seqn SSHBuffer_new) (take 16 (replicate 16 90))) = 0"
    by (simp only: rfc.be_read_Nil SSHBuffer_new_def SSHBuffer.simps)
  then show ?thesis
    by (intro read_short_block_panics) (simp_all only: unat_0, simp_all add: SSHBuffer_new_def)
qed

end
