(* ===== verification/Writer.thy ===== *)
theory Writer
  imports Transport
begin

text \<open>
  Compression (\<open>compression.rs\<close>) and the packet writer (\<open>sshbuffer.rs\<close>). A flate2 object is
  deterministic, so its state is the history of the calls made on it; the package's functions
  take that history, the input offered and the room for output, and return a status, the number
  of bytes consumed and the bytes produced, or an error. The properties: decompression always
  returns and never yields more than the packet limit, every way of writing a packet stages the
  same bytes, and flushing to a socket neither loses nor repeats a byte however often it is
  cancelled.
\<close>

section \<open>Compression\<close>

datatype Compression = Compression_None | Compression_Zlib | Compression_ZlibOpenSSH

type_synonym zhist = "(bytes \<times> nat) list"

datatype Compress = Compress_None | Compress_Zlib zhist

datatype Decompress = Decompress_None | Decompress_Zlib zhist

datatype zstatus = ZOk | ZBufError | ZStreamEnd

record flate =
  z_compress :: "zhist \<Rightarrow> bytes \<Rightarrow> nat \<Rightarrow> (zstatus \<times> nat \<times> bytes) option"
  z_decompress :: "zhist \<Rightarrow> bytes \<Rightarrow> nat \<Rightarrow> (zstatus \<times> nat \<times> bytes) option"

definition Compression_new :: "rstring \<Rightarrow> Compression" where
  "Compression_new name =
     (if name = str ''zlib'' then Compression_Zlib
      else if name = str ''zlib@openssh.com'' then Compression_ZlibOpenSSH
      else Compression_None)"

text \<open>A reset object is as good as a new one: its history is empty.\<close>

fun init_compress :: "Compression \<Rightarrow> Compress \<Rightarrow> Compress" where
  "init_compress Compression_None cmp = Compress_None"
| "init_compress _ (Compress_Zlib c) = Compress_Zlib []"
| "init_compress _ Compress_None = Compress_Zlib []"

fun init_decompress :: "Compression \<Rightarrow> Decompress \<Rightarrow> Decompress" where
  "init_decompress Compression_None cmp = Decompress_None"
| "init_decompress _ (Decompress_Zlib c) = Decompress_Zlib []"
| "init_decompress _ Decompress_None = Decompress_Zlib []"

fun is_deferred :: "Compression \<Rightarrow> bool" where
  "is_deferred Compression_ZlibOpenSSH = True"
| "is_deferred _ = False"

definition zlib_output_reserve_bound :: "nat \<Rightarrow> nat" where
  "zlib_output_reserve_bound input_len = input_len + 10"

text \<open>
  The loop of \<open>compress_into\<close>: \<open>n_in\<close> and \<open>out\<close> are the bytes consumed and produced so far,
  \<open>cap\<close> is the length of the output area after \<open>start_len\<close>.
\<close>

partial_function (option) compress_loop ::
  "flate \<Rightarrow> zhist \<Rightarrow> bytes \<Rightarrow> nat \<Rightarrow> bytes \<Rightarrow> nat \<Rightarrow> (zhist \<times> bytes) res option" where
  "compress_loop Z h input n_in out cap =
     (case z_compress Z h (drop n_in input) (cap - length out) of
        None \<Rightarrow> Some (Inl E_Compress)
      | Some (status, c, p) \<Rightarrow>
          (case status of
             ZBufError \<Rightarrow>
               compress_loop Z (h @ [(drop n_in input, cap - length out)]) input (n_in + c) (out @ p)
                 (cap + max cap 1)
           | _ \<Rightarrow> Some (Inr (h @ [(drop n_in input, cap - length out)], out @ p))))"

fun compress_into :: "flate \<Rightarrow> Compress \<Rightarrow> bytes \<Rightarrow> bytes \<Rightarrow> nat \<Rightarrow> (nat \<times> bytes \<times> Compress) res" where
  "compress_into Z Compress_None input buf start_len =
     Inr (length input, take start_len buf @ input, Compress_None)"
| "compress_into Z (Compress_Zlib h) input buf start_len =
     (case compress_loop Z h input 0 [] (zlib_output_reserve_bound (length input)) of
        None \<Rightarrow> Inl Diverged
      | Some (Inl e) \<Rightarrow> Inl e
      | Some (Inr (h', out)) \<Rightarrow> Inr (length out, take start_len buf @ out, Compress_Zlib h'))"

definition max_output_len :: nat where
  "max_output_len = MAXIMUM_DECOMPRESSED_PACKET_LEN + 1"

text \<open>
  The loop of \<open>decompress\<close>. As in the code, the tests for consumed input and full output look at
  the counters from before the call.
\<close>

partial_function (option) decompress_loop ::
  "flate \<Rightarrow> zhist \<Rightarrow> bytes \<Rightarrow> nat \<Rightarrow> bytes \<Rightarrow> nat \<Rightarrow> (zhist \<times> bytes) res option" where
  "decompress_loop Z h input n_in out cap =
     (case z_decompress Z h (drop n_in input) (cap - length out) of
        None \<Rightarrow> Some (Inl E_Decompress)
      | Some (status, c, p) \<Rightarrow>
          (if status = ZStreamEnd then Some (Inr (h @ [(drop n_in input, cap - length out)], out @ p))
           else if length out \<noteq> cap \<and> n_in = length input
           then Some (Inr (h @ [(drop n_in input, cap - length out)], out @ p))
           else if length out = cap then
             (if cap = max_output_len then Some (Inr (h @ [(drop n_in input, cap - length out)], out @ p))
              else decompress_loop Z (h @ [(drop n_in input, cap - length out)]) input (n_in + c) (out @ p)
                     (min (cap * 2) max_output_len))
           else decompress_loop Z (h @ [(drop n_in input, cap - length out)]) input (n_in + c) (out @ p) cap))"

fun decompress :: "flate \<Rightarrow> Decompress \<Rightarrow> bytes \<Rightarrow> (bytes \<times> Decompress) res" where
  "decompress Z Decompress_None input = Inr (input, Decompress_None)"
| "decompress Z (Decompress_Zlib h) input =
     (case decompress_loop Z h input 0 [] (max 1 (min (length input) max_output_len)) of
        None \<Rightarrow> Inl Diverged
      | Some (Inl e) \<Rightarrow> Inl e
      | Some (Inr (h', out)) \<Rightarrow>
          if length out > MAXIMUM_DECOMPRESSED_PACKET_LEN then Inl (E_PacketSize (length out))
          else Inr (out, Decompress_Zlib h'))"

section \<open>The packet writer\<close>

text \<open>The foreign packages a writer relies on, in one record.\<close>

record env =
  cdc :: codec
  cry :: crypto
  fla :: flate

datatype SshId = SshId_Standard rstring | SshId_Raw rstring

fun as_kex_hash_bytes :: "SshId \<Rightarrow> bytes" where
  "as_kex_hash_bytes (SshId_Standard s) = s"
| "as_kex_hash_bytes (SshId_Raw s) = rev (dropWhile (\<lambda>c. c = 10 \<or> c = 13) (rev s))"

fun ssh_id_write :: "SshId \<Rightarrow> bytes \<Rightarrow> bytes" where
  "ssh_id_write (SshId_Standard s) buffer = buffer @ s @ [13, 10]"
| "ssh_id_write (SshId_Raw s) buffer = buffer @ s"

definition send_ssh_id :: "SshId \<Rightarrow> SSHBuffer \<Rightarrow> SSHBuffer" where
  "send_ssh_id sid b = b\<lparr> sb_buffer := ssh_id_write sid (sb_buffer b) \<rparr>"

definition OUTBOUND_HIGH_WATERMARK :: nat where
  "OUTBOUND_HIGH_WATERMARK = 128 * 1024"

record PacketWriter =
  pw_cipher :: SealingKey
  pw_compress :: Compress
  pw_packet_buffer :: bytes
  pw_write_buffer :: SSHBuffer
  pw_flush_cursor :: nat
  pw_drained_total :: u64

definition PACKET_PREFIX_LEN :: nat where
  "PACKET_PREFIX_LEN = PACKET_LENGTH_LEN + 1"

definition PacketWriter_new :: "SealingKey \<Rightarrow> Compress \<Rightarrow> PacketWriter" where
  "PacketWriter_new cipher compress =
     \<lparr> pw_cipher = cipher, pw_compress = compress, pw_packet_buffer = [],
       pw_write_buffer = SSHBuffer_new, pw_flush_cursor = 0, pw_drained_total = 0 \<rparr>"

definition PacketWriter_clear :: PacketWriter where
  "PacketWriter_clear = PacketWriter_new SK_Clear Compress_None"

text \<open>
  A closure that builds a packet appends its payload to the buffer it is given or fails; it is
  the payload, or the error. A failing call leaves the session, so the state it leaves behind is
  not part of the result.
\<close>

definition prepare_packet :: "bytes res \<Rightarrow> PacketWriter \<Rightarrow> (bytes \<times> PacketWriter) res" where
  "prepare_packet f w = bindR f (\<lambda>payload. Inr (payload, w\<lparr> pw_packet_buffer := [] \<rparr>))"

definition finish_output ::
  "env \<Rightarrow> nat \<Rightarrow> nat \<Rightarrow> bytes \<Rightarrow> PacketWriter \<Rightarrow> PacketWriter res" where
  "finish_output E offset payload_len buf w =
     bindR (finish_packet (cdc E) (cry E) (pw_cipher w) offset payload_len
              ((pw_write_buffer w)\<lparr> sb_buffer := buf \<rparr>))
       (\<lambda>(sk, b). Inr (w\<lparr> pw_cipher := sk, pw_write_buffer := b \<rparr>))"

definition write_payload_into_output ::
  "env \<Rightarrow> (bytes \<Rightarrow> nat \<Rightarrow> (bytes \<times> nat) res) \<Rightarrow> PacketWriter \<Rightarrow> PacketWriter res" where
  "write_payload_into_output E f w =
     (let offset = length (sb_buffer (pw_write_buffer w));
          payload_start = offset + PACKET_PREFIX_LEN;
          buf = resize payload_start (sb_buffer (pw_write_buffer w))
      in bindR (f buf payload_start) (\<lambda>(buf, payload_len).
         if payload_len = 0
         then Inr (w\<lparr> pw_write_buffer := (pw_write_buffer w)\<lparr> sb_buffer := take offset buf \<rparr> \<rparr>)
         else finish_output E offset payload_len buf w))"

definition write_packet_in_place :: "env \<Rightarrow> bytes res \<Rightarrow> PacketWriter \<Rightarrow> PacketWriter res" where
  "write_packet_in_place E f w =
     write_payload_into_output E (\<lambda>buf payload_start.
       bindR f (\<lambda>payload. Inr (buf @ payload, length (buf @ payload) - payload_start))) w"

definition write_compressed_payload_into_output :: "env \<Rightarrow> bytes \<Rightarrow> PacketWriter \<Rightarrow> PacketWriter res" where
  "write_compressed_payload_into_output E payload w =
     (let offset = length (sb_buffer (pw_write_buffer w));
          payload_start = offset + PACKET_PREFIX_LEN;
          buf = resize payload_start (sb_buffer (pw_write_buffer w))
      in bindR (compress_into (fla E) (pw_compress w) payload buf payload_start)
           (\<lambda>(payload_len, buf, cmp).
             if payload_len = 0
             then Inr (w\<lparr> pw_compress := cmp,
                          pw_write_buffer := (pw_write_buffer w)\<lparr> sb_buffer := take offset buf \<rparr> \<rparr>)
             else finish_output E offset payload_len buf (w\<lparr> pw_compress := cmp \<rparr>)))"

definition packet_raw :: "env \<Rightarrow> bytes \<Rightarrow> PacketWriter \<Rightarrow> PacketWriter res" where
  "packet_raw E buf w =
     (if buf = [] then Inr w
      else if pw_compress w = Compress_None then
        bindR (write_payload (cdc E) (cry E) (pw_cipher w) buf (pw_write_buffer w))
          (\<lambda>(sk, b). Inr (w\<lparr> pw_cipher := sk, pw_write_buffer := b \<rparr>))
      else write_compressed_payload_into_output E buf w)"

definition write_packet :: "env \<Rightarrow> bytes res \<Rightarrow> PacketWriter \<Rightarrow> PacketWriter res" where
  "write_packet E f w =
     (if pw_compress w = Compress_None then write_packet_in_place E f w
      else
        bindR (prepare_packet f w) (\<lambda>(buf, w).
        bindR (packet_raw E buf w) (\<lambda>w. Inr (w\<lparr> pw_packet_buffer := buf \<rparr>))))"

definition packet :: "env \<Rightarrow> bytes res \<Rightarrow> PacketWriter \<Rightarrow> (bytes \<times> PacketWriter) res" where
  "packet E f w =
     bindR (prepare_packet f w) (\<lambda>(buf, w). bindR (packet_raw E buf w) (\<lambda>w. Inr (buf, w)))"

definition packet_bytes :: "env \<Rightarrow> bytes res \<Rightarrow> PacketWriter \<Rightarrow> (bytes \<times> PacketWriter) res" where
  "packet_bytes E f w =
     bindR f (\<lambda>buf. bindR (packet_raw E buf w) (\<lambda>w. Inr (buf, w)))"

definition set_cipher :: "SealingKey \<Rightarrow> PacketWriter \<Rightarrow> PacketWriter" where
  "set_cipher cipher w = w\<lparr> pw_cipher := cipher \<rparr>"

definition reset_seqn :: "PacketWriter \<Rightarrow> PacketWriter" where
  "reset_seqn w = w\<lparr> pw_write_buffer := (pw_write_buffer w)\<lparr> sb_seqn := 0 \<rparr> \<rparr>"

definition has_pending :: "PacketWriter \<Rightarrow> bool" where
  "has_pending w = (sb_buffer (pw_write_buffer w) \<noteq> [])"

definition pending_bytes :: "PacketWriter \<Rightarrow> nat" where
  "pending_bytes w = length (sb_buffer (pw_write_buffer w))"

text \<open>
  \<open>flush_into\<close> against a socket that answers each write in turn: a number of bytes taken, an
  error, or nothing more (the list ends), in which case the future is dropped while it waits.
  \<open>flushed\<close> is the socket's answer to the final flush, \<^term>\<open>None\<close> when it stays pending. The
  second component of the result is what the socket received during the call.
\<close>

datatype flush_outcome = Flushed nat | FlushError | Cancelled

fun flush_into ::
  "nat option list \<Rightarrow> bool option \<Rightarrow> nat \<Rightarrow> PacketWriter \<Rightarrow> flush_outcome \<times> bytes \<times> PacketWriter" where
  "flush_into answers flushed written w =
     (if pw_flush_cursor w < length (sb_buffer (pw_write_buffer w)) then
        (case answers of
           [] \<Rightarrow> (Cancelled, [], w)
         | None # _ \<Rightarrow> (FlushError, [], w)
         | Some n # answers' \<Rightarrow>
             if n = 0 then (FlushError, [], w)
             else
               let chunk = take n (drop (pw_flush_cursor w) (sb_buffer (pw_write_buffer w)));
                   (r, sent, w') = flush_into answers' flushed (written + n)
                     (w\<lparr> pw_flush_cursor := pw_flush_cursor w + n,
                         pw_drained_total := saturating_add (pw_drained_total w) (of_nat n) \<rparr>)
               in (r, chunk @ sent, w'))
      else if sb_buffer (pw_write_buffer w) \<noteq> [] then
        (case flushed of
           None \<Rightarrow> (Cancelled, [], w)
         | Some False \<Rightarrow> (FlushError, [], w)
         | Some True \<Rightarrow>
             (Flushed written, [],
              w\<lparr> pw_write_buffer := (pw_write_buffer w)\<lparr> sb_buffer := [] \<rparr>, pw_flush_cursor := 0 \<rparr>))
      else (Flushed written, [], w))"

declare flush_into.simps [simp del]

section \<open>Decompression returns\<close>

text \<open>
  What flate2 documents of a decompression call: it consumes no more than the input and produces
  no more than the room it was given, and when it has both input and room it makes progress
  (or fails, or reports the end of the stream).
\<close>

definition inflate_ok :: "flate \<Rightarrow> bool" where
  "inflate_ok Z \<longleftrightarrow>
     (\<forall>h i s st c p. z_decompress Z h i s = Some (st, c, p) \<longrightarrow>
        c \<le> length i \<and> length p \<le> s \<and>
        (i \<noteq> [] \<and> 0 < s \<and> st \<noteq> ZStreamEnd \<longrightarrow> 0 < c \<or> p \<noteq> []))"

definition loop_measure :: "bytes \<Rightarrow> nat \<Rightarrow> bytes \<Rightarrow> nat \<Rightarrow> nat" where
  "loop_measure input n_in out cap =
     (length input - n_in) + (max_output_len - length out) + (max_output_len - cap)"

lemma decompress_loop_returns:
  assumes "inflate_ok Z" "n_in \<le> length input" "length out \<le> cap" "1 \<le> cap" "cap \<le> max_output_len"
  shows "\<exists>r. decompress_loop Z h input n_in out cap = Some r \<and>
           (\<forall>h' out'. r = Inr (h', out') \<longrightarrow> length out' \<le> max_output_len)"
  using assms(2-5)
proof (induction "loop_measure input n_in out cap" arbitrary: h n_in out cap rule: less_induct)
  case less
  note IH = less(1) and pre = less(2-5)
  show ?case
  proof (cases "z_decompress Z h (drop n_in input) (cap - length out)")
    case None
    then show ?thesis by (subst decompress_loop.simps) simp
  next
    case (Some a)
    obtain st c p where a: "a = (st, c, p)" by (cases a)
    define h1 where "h1 = h @ [(drop n_in input, cap - length out)]"
    have "c \<le> length (drop n_in input) \<and> length p \<le> cap - length out \<and>
        (drop n_in input \<noteq> [] \<and> 0 < cap - length out \<and> st \<noteq> ZStreamEnd \<longrightarrow> 0 < c \<or> p \<noteq> [])"
      using assms(1) Some a unfolding inflate_ok_def by blast
    then have ok: "c \<le> length input - n_in" "length p \<le> cap - length out"
      "drop n_in input \<noteq> [] \<and> length out < cap \<and> st \<noteq> ZStreamEnd \<longrightarrow> 0 < c \<or> p \<noteq> []"
      by simp_all
    have unfold: "decompress_loop Z h input n_in out cap =
       (if st = ZStreamEnd then Some (Inr (h1, out @ p))
        else if length out \<noteq> cap \<and> n_in = length input then Some (Inr (h1, out @ p))
        else if length out = cap then
          (if cap = max_output_len then Some (Inr (h1, out @ p))
           else decompress_loop Z h1 input (n_in + c) (out @ p) (min (cap * 2) max_output_len))
        else decompress_loop Z h1 input (n_in + c) (out @ p) cap)"
      by (subst decompress_loop.simps) (simp add: Some a h1_def)
    have pre': "n_in + c \<le> length input" "length (out @ p) \<le> cap" using ok pre by simp_all
    have fin: ?thesis if "decompress_loop Z h input n_in out cap = Some (Inr (h1, out @ p))"
      using that pre' pre(4) by simp
    consider "st = ZStreamEnd \<or> (length out \<noteq> cap \<and> n_in = length input) \<or>
        (length out = cap \<and> cap = max_output_len)"
      | (grow) "st \<noteq> ZStreamEnd" "length out = cap" "cap \<noteq> max_output_len"
      | (again) "st \<noteq> ZStreamEnd" "length out \<noteq> cap" "n_in \<noteq> length input"
      by blast
    then show ?thesis
    proof cases
      case 1
      then show ?thesis using fin unfold by auto
    next
      case grow
      define cap' where "cap' = min (cap * 2) max_output_len"
      have cap': "cap < cap'" "cap' \<le> max_output_len" using grow pre by (auto simp: cap'_def)
      have "loop_measure input (n_in + c) (out @ p) cap' < loop_measure input n_in out cap"
        using cap' pre pre' by (simp add: loop_measure_def)
      then show ?thesis
        using IH [of "n_in + c" "out @ p" cap' h1] pre' cap' grow unfold pre(3)
        by (auto simp: cap'_def [symmetric])
    next
      case again
      have "0 < c + length p" using ok(3) again pre by auto
      then have "loop_measure input (n_in + c) (out @ p) cap < loop_measure input n_in out cap"
        using pre pre' unfolding loop_measure_def length_append by linarith
      then show ?thesis
        using IH [of "n_in + c" "out @ p" cap h1] pre' pre again unfold by auto
    qed
  qed
qed

lemma decompress_loop_error:
  assumes "decompress_loop Z h input n_in out cap = Some r"
  shows "\<forall>e. r = Inl e \<longrightarrow> e = E_Decompress"
  by (rule decompress_loop.raw_induct [OF _ assms]) (auto split: option.splits prod.splits if_splits)

lemma initial_cap: "1 \<le> max 1 (min n max_output_len)" "max 1 (min n max_output_len) \<le> max_output_len"
  by (auto simp: max_output_len_def)

section \<open>Writing a packet\<close>

abbreviation wbuf :: "PacketWriter \<Rightarrow> bytes" where
  "wbuf w \<equiv> sb_buffer (pw_write_buffer w)"

lemma write_payload_appends:
  assumes "crypto_ok K" "write_payload C K sk p b = Inr (sk', b')"
  shows "\<exists>pkt. sb_buffer b' = sb_buffer b @ pkt"
proof (cases "1 + length p + padding_length K sk p < 2 ^ 32")
  case True
  then show ?thesis
    using assms(2) by (auto simp: write_payload_eq [OF assms(1)] split_beta Let_def)
next
  case False
  then show ?thesis using assms(2) by (simp add: write_payload_oversize)
qed

lemma finish_output_eq:
  assumes "ssh_codec (cdc E)" "crypto_ok (cry E)"
    and "1 + length p + padding_length (cry E) (pw_cipher w) p < 2 ^ 32"
  shows "finish_output E (length (wbuf w)) (length p) (wbuf w @ replicate 5 0 @ p) w =
    bindR (write_payload (cdc E) (cry E) (pw_cipher w) p (pw_write_buffer w))
      (\<lambda>(sk, b). Inr (w\<lparr> pw_cipher := sk, pw_write_buffer := b \<rparr>))"
  using finish_packet_eq [OF assms(1,2,3), of "(pw_write_buffer w)\<lparr> sb_buffer := wbuf w @ replicate 5 0 @ p \<rparr>"
      "wbuf w" "replicate 5 0" ]
  by (simp add: finish_output_def)

lemma padding_19: "1 + length p + MAXIMUM_PADDING_LEN < 2 ^ 32 \<Longrightarrow> 1 + length p + padding_length K sk p < 2 ^ 32"
  using padding_length_bounds [of K sk p] by simp

lemma write_packet_plain:
  assumes "ssh_codec (cdc E)" "crypto_ok (cry E)" "1 + length p + MAXIMUM_PADDING_LEN < 2 ^ 32"
    and "pw_compress w = Compress_None"
  shows "write_packet E (Inr p) w = packet_raw E p w"
proof (cases "p = []")
  case True
  then show ?thesis
    by (simp add: write_packet_def assms(4) write_packet_in_place_def write_payload_into_output_def
        packet_raw_def Let_def PACKET_PREFIX_LEN_def PACKET_LENGTH_LEN_def)
next
  case False
  have "resize (length (wbuf w) + PACKET_PREFIX_LEN) (wbuf w) = wbuf w @ replicate 5 0"
    by (simp add: PACKET_PREFIX_LEN_def PACKET_LENGTH_LEN_def)
  then show ?thesis
    using finish_output_eq [OF assms(1,2) padding_19 [OF assms(3)], of w] False
    by (simp add: write_packet_def assms(4) write_packet_in_place_def write_payload_into_output_def
        packet_raw_def Let_def PACKET_PREFIX_LEN_def PACKET_LENGTH_LEN_def)
qed

lemma packet_raw_packet_buffer:
  "packet_raw E p (w\<lparr> pw_packet_buffer := x \<rparr>) =
     map_sum id (\<lambda>w. w\<lparr> pw_packet_buffer := x \<rparr>) (packet_raw E p w)"
  unfolding packet_raw_def write_compressed_payload_into_output_def Let_def finish_output_def
  by (auto simp: bindR_def map_sum_def split: sum.splits prod.splits)

text \<open>Everything of a writer but the scratch buffer it keeps for reuse.\<close>

definition forget :: "PacketWriter \<Rightarrow> PacketWriter" where
  "forget w = w\<lparr> pw_packet_buffer := [] \<rparr>"

lemma write_packet_forget:
  assumes "ssh_codec (cdc E)" "crypto_ok (cry E)" "1 + length p + MAXIMUM_PADDING_LEN < 2 ^ 32"
  shows "map_sum id forget (write_packet E (Inr p) w) = map_sum id forget (packet_raw E p w)"
proof (cases "pw_compress w = Compress_None")
  case True
  then show ?thesis by (simp add: write_packet_plain [OF assms])
next
  case False
  then show ?thesis
    by (cases "packet_raw E p w")
      (simp_all add: write_packet_def prepare_packet_def packet_raw_packet_buffer forget_def)
qed

lemma packet_forget:
  "map_sum id (map_prod id forget) (packet E (Inr p) w) =
     map_sum id (\<lambda>w'. (p, forget w')) (packet_raw E p w)"
  by (cases "packet_raw E p w")
    (simp_all add: packet_def prepare_packet_def packet_raw_packet_buffer forget_def)

section \<open>Flushing\<close>

definition unsent :: "PacketWriter \<Rightarrow> bytes" where
  "unsent w = drop (pw_flush_cursor w) (wbuf w)"

lemma flush_into_Some:
  assumes "pw_flush_cursor w < length (wbuf w)" "n \<noteq> 0"
  shows "flush_into (Some n # rest) flushed written w =
    (let (r, sent, w') = flush_into rest flushed (written + n)
       (w\<lparr> pw_flush_cursor := pw_flush_cursor w + n,
           pw_drained_total := saturating_add (pw_drained_total w) (of_nat n) \<rparr>)
     in (r, take n (unsent w) @ sent, w'))"
  using assms by (simp add: flush_into.simps [of "Some n # rest"] unsent_def)

lemma flush_into_stop:
  assumes "pw_flush_cursor w < length (wbuf w)" "\<forall>n rest. answers = Some n # rest \<longrightarrow> n = 0"
  shows "flush_into answers flushed written w = (if answers = [] then Cancelled else FlushError, [], w)"
  using assms by (auto simp: flush_into.simps [of answers] split: list.splits option.splits)

lemma flush_into_drained:
  assumes "\<not> pw_flush_cursor w < length (wbuf w)"
  shows "flush_into answers flushed written w =
    (if wbuf w = [] \<or> flushed = Some True
     then (Flushed written, [], if wbuf w = [] then w else
       w\<lparr> pw_write_buffer := (pw_write_buffer w)\<lparr> sb_buffer := [] \<rparr>, pw_flush_cursor := 0 \<rparr>)
     else (if flushed = None then Cancelled else FlushError, [], w))"
  using assms by (auto simp: flush_into.simps [of answers] split: option.splits)

lemma flush_into_conserves:
  "flush_into answers flushed written w = (r, sent, w') \<Longrightarrow>
     sent @ unsent w' = unsent w \<and> (\<forall>k. r = Flushed k \<longrightarrow> wbuf w' = [] \<and> unsent w = sent) \<and>
     (pw_flush_cursor w \<le> length (wbuf w) \<and> sum_list (map (case_option 0 id) answers) \<le> length (unsent w)
        \<longrightarrow> pw_flush_cursor w' \<le> length (wbuf w'))"
proof (induction answers arbitrary: written w r sent w')
  case Nil
  then show ?case
    by (cases "pw_flush_cursor w < length (wbuf w)")
      (auto simp: flush_into_stop flush_into_drained unsent_def split: if_splits)
next
  case (Cons a rest)
  show ?case
  proof (cases "pw_flush_cursor w < length (wbuf w) \<and> (\<exists>n. a = Some n \<and> n \<noteq> 0)")
    case True
    then obtain n where n: "a = Some n" "n \<noteq> 0" "pw_flush_cursor w < length (wbuf w)" by auto
    define w1 where "w1 = w\<lparr> pw_flush_cursor := pw_flush_cursor w + n,
      pw_drained_total := saturating_add (pw_drained_total w) (of_nat n) \<rparr>"
    obtain sent1 where rec: "flush_into rest flushed (written + n) w1 = (r, sent1, w')"
      and sent: "sent = take n (unsent w) @ sent1"
      using Cons.prems n by (auto simp: flush_into_Some w1_def Let_def split: prod.splits)
    have "take n (unsent w) @ unsent w1 = unsent w"
      by (simp add: unsent_def w1_def add.commute flip: drop_drop)
    then show ?thesis
      using Cons.IH [OF rec] sent n by (auto simp: w1_def unsent_def)
  next
    case False
    then show ?thesis
      using Cons.prems by (cases "pw_flush_cursor w < length (wbuf w)")
        (auto simp: flush_into_stop flush_into_drained unsent_def split: if_splits)
  qed
qed

text \<open>
  A session interleaves writing packets with flushes that may be cancelled. \<open>run_ops\<close> keeps
  what was staged and what the socket received.
\<close>

datatype wop = Op_packet bytes | Op_flush "nat option list" "bool option"

fun run_ops :: "env \<Rightarrow> wop list \<Rightarrow> PacketWriter \<Rightarrow> (bytes \<times> bytes \<times> PacketWriter) res" where
  "run_ops E [] w = Inr ([], [], w)"
| "run_ops E (Op_packet p # ops) w =
     bindR (packet_raw E p w) (\<lambda>w1. bindR (run_ops E ops w1) (\<lambda>(staged, sent, w').
       Inr (drop (length (wbuf w)) (wbuf w1) @ staged, sent, w')))"
| "run_ops E (Op_flush a f # ops) w =
     (let (r, chunk, w1) = flush_into a f 0 w
      in bindR (run_ops E ops w1) (\<lambda>(staged, sent, w'). Inr (staged, chunk @ sent, w')))"

text \<open>A socket never takes more than it was offered.\<close>

fun ops_ok :: "env \<Rightarrow> wop list \<Rightarrow> PacketWriter \<Rightarrow> bool" where
  "ops_ok E [] w = True"
| "ops_ok E (Op_packet p # ops) w = (case packet_raw E p w of Inl _ \<Rightarrow> True | Inr w1 \<Rightarrow> ops_ok E ops w1)"
| "ops_ok E (Op_flush a f # ops) w =
     (sum_list (map (case_option 0 id) a) \<le> length (unsent w) \<and>
      (case flush_into a f 0 w of (_, _, w1) \<Rightarrow> ops_ok E ops w1))"

lemma take_splice:
  assumes "n \<le> i" "n \<le> length xs"
  shows "take n (splice i ys xs) = take n xs" "n \<le> length (splice i ys xs)"
  using assms by (simp_all add: splice_def)

lemma take_resize:
  assumes "n \<le> m" "n \<le> length xs"
  shows "take n (resize m xs) = take n xs" "n \<le> length (resize m xs)"
  using assms by (simp_all add: resize_def)

text \<open>Finishing a packet leaves what stands before it, whatever the foreign packages do.\<close>

lemma finish_packet_prefix:
  assumes "finish_packet C K sk offset n b = Inr (sk', b')"
  shows "\<exists>pkt. sb_buffer b' = take offset (sb_buffer b) @ pkt"
proof -
  define start where "start = offset + PACKET_LENGTH_LEN + PADDING_LENGTH_LEN"
  define pad where "pad = padding_length K sk (drop start (take (start + n) (sb_buffer b)))"
  define b1 where "b1 = splice offset (be_write_u32 C (of_nat (PADDING_LENGTH_LEN + n + pad))) (sb_buffer b)"
  define b2 where "b2 = resize (start + n + pad) (splice (offset + PACKET_LENGTH_LEN) [of_nat pad] b1)"
  define b3 where "b3 = splice (start + n) (fill_padding K sk (sb_seqn b) (length (drop (start + n) b2))) b2"
  define b4 where "b4 = resize (length b3 + seal_tag_len K sk) b3"
  from assms have len: "start + n \<le> length (sb_buffer b)"
    by (auto simp: finish_packet_def Let_def start_def split: if_splits)
  then have o: "offset \<le> length (sb_buffer b)" "offset \<le> start" by (simp_all add: start_def)
  have 1: "take offset b1 = take offset (sb_buffer b)" "offset \<le> length b1"
    using take_splice [OF order_refl o(1)] by (simp_all add: b1_def)
  have 2: "take offset b2 = take offset b1" "offset \<le> length b2"
    using take_splice [OF _ 1(2), of "offset + PACKET_LENGTH_LEN" "[of_nat pad]"] o(2) by (simp_all add: b2_def take_resize)
  have 3: "take offset b3 = take offset b2" "offset \<le> length b3"
    using take_splice [OF _ 2(2), of "start + n"] o(2) by (simp_all add: b3_def)
  have 4: "take offset b4 = take offset b3"
    using 3(2) by (simp add: b4_def take_resize)
  from assms have "\<exists>pkt. sb_buffer b' = take offset b4 @ pkt"
    unfolding finish_packet_def Let_def start_def [symmetric] pad_def [symmetric] b1_def [symmetric] b2_def [symmetric]
      b3_def [symmetric] b4_def [symmetric]
    by (auto simp: split_beta split: if_splits)
  with 1 2 3 4 show ?thesis by simp
qed

lemma compressed_appends:
  assumes "write_compressed_payload_into_output E p w = Inr w'"
  shows "(\<exists>pkt. wbuf w' = wbuf w @ pkt) \<and> pw_flush_cursor w' = pw_flush_cursor w"
proof -
  let ?start = "length (wbuf w) + PACKET_PREFIX_LEN"
  let ?buf = "resize ?start (wbuf w)"
  from assms obtain n buf cmp where c: "compress_into (fla E) (pw_compress w) p ?buf ?start = Inr (n, buf, cmp)"
    and w': "(if n = 0 then Inr (w\<lparr> pw_compress := cmp, pw_write_buffer := (pw_write_buffer w)\<lparr> sb_buffer := take (length (wbuf w)) buf \<rparr> \<rparr>)
      else finish_output E (length (wbuf w)) n buf (w\<lparr> pw_compress := cmp \<rparr>)) = Inr w'"
    by (auto simp: write_compressed_payload_into_output_def Let_def bindR_Inr_iff)
  have "length (wbuf w) \<le> ?start" by simp
  then have "take (length (wbuf w)) (take ?start ?buf @ out) = wbuf w" for out
    by (simp add: resize_def)
  moreover obtain out where "buf = take ?start ?buf @ out"
    using c by (cases "pw_compress w") (auto split: option.splits sum.splits)
  ultimately have "take (length (wbuf w)) buf = wbuf w" by metis
  then show ?thesis
    using w' by (cases "n = 0") (auto simp: finish_output_def res_simps dest!: finish_packet_prefix)
qed

lemma packet_raw_appends:
  assumes "crypto_ok (cry E)" "packet_raw E p w = Inr w'"
  shows "\<exists>pkt. wbuf w' = wbuf w @ pkt" "pw_flush_cursor w' = pw_flush_cursor w"
  using assms(2) write_payload_appends [OF assms(1)] compressed_appends [of E p w w']
  by (auto simp: packet_raw_def res_simps split: if_splits)

lemma packet_raw_clear:
  assumes "crypto_ok (cry E)" "pw_cipher w = SK_Clear" "pw_compress w = Compress_None" "p \<noteq> []"
    and "1 + length p + MAXIMUM_PADDING_LEN < 2 ^ 32"
  shows "packet_raw E p w = Inr (w\<lparr> pw_write_buffer := (pw_write_buffer w)\<lparr>
    sb_buffer := wbuf w @ packet_plaintext (cry E) SK_Clear (sb_seqn (pw_write_buffer w)) p,
    sb_bytes := sb_bytes (pw_write_buffer w) + length p,
    sb_seqn := sb_seqn (pw_write_buffer w) + 1 \<rparr> \<rparr>)"
  using assms write_payload_eq [OF assms(1) padding_19 [OF assms(5)]]
  by (simp add: packet_raw_def)

lemma run_ops_conserves:
  assumes K: "crypto_ok (cry E)"
  shows "run_ops E ops w = Inr (staged, sent, w') \<Longrightarrow> ops_ok E ops w \<Longrightarrow>
    pw_flush_cursor w \<le> length (wbuf w) \<Longrightarrow>
    sent @ unsent w' = unsent w @ staged"
proof (induction ops arbitrary: w staged sent)
  case (Cons op ops)
  show ?case
  proof (cases op)
    case (Op_packet p)
    obtain w1 staged1 where w1: "packet_raw E p w = Inr w1" "run_ops E ops w1 = Inr (staged1, sent, w')"
      "staged = drop (length (wbuf w)) (wbuf w1) @ staged1"
      using Cons.prems(1) Op_packet by (auto simp: res_simps)
    note app = packet_raw_appends [OF K w1(1)]
    obtain pkt where pkt: "wbuf w1 = wbuf w @ pkt" using app(1) by blast
    have "unsent w1 = unsent w @ pkt"
      using pkt app(2) Cons.prems(3) by (simp add: unsent_def)
    moreover have "sent @ unsent w' = unsent w1 @ staged1"
      using Cons.IH [OF w1(2)] Cons.prems(2,3) Op_packet w1(1) app pkt by simp
    ultimately show ?thesis using w1(3) pkt by simp
  next
    case (Op_flush a f)
    obtain r chunk w1 where w1: "flush_into a f 0 w = (r, chunk, w1)" by (cases "flush_into a f 0 w")
    obtain sent1 where s1: "run_ops E ops w1 = Inr (staged, sent1, w')" "sent = chunk @ sent1"
      using Cons.prems(1) Op_flush w1 by (auto simp: res_simps)
    have "chunk @ unsent w1 = unsent w" "pw_flush_cursor w1 \<le> length (wbuf w1)"
      using flush_into_conserves [OF w1] Cons.prems(2,3) Op_flush by auto
    then show ?thesis
      using Cons.IH [OF s1(1)] Cons.prems(2) Op_flush w1 s1(2) by auto
  qed
qed simp

section \<open>Properties\<close>

definition demo_flate :: flate where
  "demo_flate = \<lparr> z_compress = (\<lambda>h i s. Some (ZOk, min (length i) s, take s i)),
     z_decompress = (\<lambda>h i s. Some (ZOk, min (length i) s, take s i)) \<rparr>"

definition demo_env :: env where
  "demo_env = \<lparr> cdc = rfc4251, cry = demo_crypto, fla = demo_flate \<rparr>"

lemma demo_env_simps [simp]:
  "cdc demo_env = rfc4251" "cry demo_env = demo_crypto" "fla demo_env = demo_flate"
  by (simp_all add: demo_env_def)

text \<open>
  C23. Decompressing a packet always returns, and what it returns is at most the packet limit;
  its output buffer never grows beyond one byte more, so an oversized packet is reported with
  exactly that length.
\<close>

theorem decompress_returns_bounded:
  assumes "inflate_ok Z"
  shows "decompress Z (Decompress_Zlib h) input \<noteq> Inl Diverged \<and>
    (case decompress Z (Decompress_Zlib h) input of
       Inr (out, _) \<Rightarrow> length out \<le> MAXIMUM_DECOMPRESSED_PACKET_LEN
     | Inl (E_PacketSize n) \<Rightarrow> n = MAXIMUM_DECOMPRESSED_PACKET_LEN + 1
     | Inl e \<Rightarrow> e = E_Decompress)"
proof -
  obtain r where r: "decompress_loop Z h input 0 [] (max 1 (min (length input) max_output_len)) = Some r"
    "\<forall>h' out'. r = Inr (h', out') \<longrightarrow> length out' \<le> max_output_len"
    using decompress_loop_returns [OF assms, of 0 input "[]"] initial_cap [of "length input"] by fastforce
  show ?thesis
  proof (cases r)
    case (Inl e)
    then show ?thesis using r decompress_loop_error [OF r(1)] by simp
  next
    case (Inr x)
    then show ?thesis using r by (cases x) (auto simp: max_output_len_def)
  qed
qed

theorem decompress_returns_bounded_witness:
  "decompress demo_flate (Decompress_Zlib []) [1, 2] \<noteq> Inl Diverged \<and>
    (case decompress demo_flate (Decompress_Zlib []) [1, 2] of
       Inr (out, _) \<Rightarrow> length out \<le> MAXIMUM_DECOMPRESSED_PACKET_LEN
     | Inl (E_PacketSize n) \<Rightarrow> n = MAXIMUM_DECOMPRESSED_PACKET_LEN + 1
     | Inl e \<Rightarrow> e = E_Decompress)"
  by (rule decompress_returns_bounded) (auto simp: inflate_ok_def demo_flate_def)

text \<open>
  C35. The ways of writing a packet agree: building the payload in place, building it in the
  scratch buffer and copying it all stage the same bytes and leave the same cipher, compression
  and sequence state.
\<close>

theorem write_packet_variants_agree:
  assumes "ssh_codec (cdc E)" "crypto_ok (cry E)" "1 + length p + MAXIMUM_PADDING_LEN < 2 ^ 32"
  shows "map_sum id forget (write_packet E (Inr p) w) = map_sum id forget (packet_raw E p w) \<and>
    map_sum id (map_prod id forget) (packet E (Inr p) w) =
      map_sum id (\<lambda>w'. (p, forget w')) (packet_raw E p w) \<and>
    packet_bytes E (Inr p) w = map_sum id (\<lambda>w'. (p, w')) (packet_raw E p w)"
  by (intro conjI write_packet_forget [OF assms] packet_forget)
    (cases "packet_raw E p w"; simp add: packet_bytes_def)

theorem write_packet_variants_agree_witness:
  "map_sum id forget (write_packet demo_env (Inr [5, 6]) PacketWriter_clear) =
     map_sum id forget (packet_raw demo_env [5, 6] PacketWriter_clear)"
  using write_packet_variants_agree [of demo_env "[5, 6]" PacketWriter_clear]
  by (simp add: rfc4251_codec demo_crypto_ok packet_consts)

text \<open>
  C14. Over any interleaving of writing packets, compressed or not, and flushing, with flushes
  cancelled or failing at any point, the socket has received exactly the staged bytes in order up
  to what is still unsent: nothing is lost, repeated or reordered. The socket takes no more than
  it was offered, and the cursor starts within the buffer.
\<close>

theorem flush_conserves_stream:
  assumes "crypto_ok (cry E)" "run_ops E ops w = Inr (staged, sent, w')" "ops_ok E ops w"
    and "pw_flush_cursor w \<le> length (wbuf w)"
  shows "sent @ unsent w' = unsent w @ staged"
  by (rule run_ops_conserves [OF assms])

theorem flush_conserves_stream_witness:
  "\<exists>staged sent w'.
     run_ops demo_env [Op_packet [5], Op_flush [Some 3] None] PacketWriter_clear = Inr (staged, sent, w') \<and>
     sent @ unsent w' = staged \<and> length sent = 3"
proof -
  let ?ops = "[Op_packet [5], Op_flush [Some 3] None]"
  have w: "pw_cipher PacketWriter_clear = SK_Clear" "pw_compress PacketWriter_clear = Compress_None"
    "wbuf PacketWriter_clear = []" "pw_flush_cursor PacketWriter_clear = 0"
    by (simp_all add: PacketWriter_clear_def PacketWriter_new_def SSHBuffer_new_def)
  obtain w1 where w1: "packet_raw demo_env [5] PacketWriter_clear = Inr w1" "length (wbuf w1) = 16"
    "pw_flush_cursor w1 = 0"
    using packet_raw_clear [of demo_env PacketWriter_clear "[5]"] demo_crypto_ok w
    by (auto simp: length_packet_plaintext clear_padding_length_def Let_def MAXIMUM_PADDING_LEN_def)
  define w2 where "w2 = w1\<lparr> pw_flush_cursor := 3, pw_drained_total := saturating_add (pw_drained_total w1) 3 \<rparr>"
  have fl: "flush_into [Some 3] None 0 w1 = (Cancelled, take 3 (wbuf w1), w2)"
    using w1(2,3) by (simp add: flush_into_Some flush_into_stop unsent_def w2_def)
  have run: "run_ops demo_env ?ops PacketWriter_clear = Inr (wbuf w1, take 3 (wbuf w1), w2)"
    using w1(1) fl w(3) by simp
  have ok: "ops_ok demo_env ?ops PacketWriter_clear"
    using w1 fl by (simp add: unsent_def)
  have "take 3 (wbuf w1) @ unsent w2 = unsent PacketWriter_clear @ wbuf w1"
    using flush_conserves_stream [OF _ run ok] w demo_crypto_ok by simp
  then show ?thesis
    using run w1(2) w(3) by (auto simp: unsent_def)
qed

end
