(* ===== verification/Negotiation.thy ===== *)
theory Negotiation
  imports Writer
begin

text \<open>
  Algorithm negotiation (\<open>negotiation.rs\<close>) and the algorithm tables of \<open>kex/mod.rs\<close>: the
  preference lists, the two implementations of the \<open>Select\<close> trait, reading the peer's KEXINIT
  and writing our own. Host key algorithms are values of the package \<open>ssh_key\<close>; their wire names
  are the parameter \<open>N\<close>. The properties: selection picks the first client choice the server
  supports, both roles pick the same one, and two peers that read each other's KEXINIT end up
  with the same algorithms and the same strict-mode flag.
\<close>

section \<open>Names\<close>

datatype HashAlg = Sha256 | Sha512

datatype Algorithm =
    Ed25519 | EcdsaNistP256 | EcdsaNistP384 | EcdsaNistP521 | Rsa "HashAlg option"
  | OtherAlgorithm rstring

fun is_rsa :: "Algorithm \<Rightarrow> bool" where
  "is_rsa (Rsa _) = True"
| "is_rsa _ = False"

text \<open>A host key: its algorithm and its serialised form.\<close>

record PrivateKey =
  pk_algorithm :: Algorithm
  pk_blob :: bytes

abbreviation (input) CURVE25519 :: rstring where "CURVE25519 \<equiv> str ''curve25519-sha256''"
abbreviation (input) CURVE25519_PRE_RFC_8731 :: rstring where
  "CURVE25519_PRE_RFC_8731 \<equiv> str ''curve25519-sha256@libssh.org''"
abbreviation (input) MLKEM768X25519_SHA256 :: rstring where
  "MLKEM768X25519_SHA256 \<equiv> str ''mlkem768x25519-sha256''"
abbreviation (input) DH_GEX_SHA1 :: rstring where
  "DH_GEX_SHA1 \<equiv> str ''diffie-hellman-group-exchange-sha1''"
abbreviation (input) DH_GEX_SHA256 :: rstring where
  "DH_GEX_SHA256 \<equiv> str ''diffie-hellman-group-exchange-sha256''"
abbreviation (input) DH_G1_SHA1 :: rstring where "DH_G1_SHA1 \<equiv> str ''diffie-hellman-group1-sha1''"
abbreviation (input) DH_G14_SHA1 :: rstring where "DH_G14_SHA1 \<equiv> str ''diffie-hellman-group14-sha1''"
abbreviation (input) DH_G14_SHA256 :: rstring where
  "DH_G14_SHA256 \<equiv> str ''diffie-hellman-group14-sha256''"
abbreviation (input) DH_G15_SHA512 :: rstring where
  "DH_G15_SHA512 \<equiv> str ''diffie-hellman-group15-sha512''"
abbreviation (input) DH_G16_SHA512 :: rstring where
  "DH_G16_SHA512 \<equiv> str ''diffie-hellman-group16-sha512''"
abbreviation (input) DH_G17_SHA512 :: rstring where
  "DH_G17_SHA512 \<equiv> str ''diffie-hellman-group17-sha512''"
abbreviation (input) DH_G18_SHA512 :: rstring where
  "DH_G18_SHA512 \<equiv> str ''diffie-hellman-group18-sha512''"
abbreviation (input) ECDH_SHA2_NISTP256 :: rstring where "ECDH_SHA2_NISTP256 \<equiv> str ''ecdh-sha2-nistp256''"
abbreviation (input) ECDH_SHA2_NISTP384 :: rstring where "ECDH_SHA2_NISTP384 \<equiv> str ''ecdh-sha2-nistp384''"
abbreviation (input) ECDH_SHA2_NISTP521 :: rstring where "ECDH_SHA2_NISTP521 \<equiv> str ''ecdh-sha2-nistp521''"
abbreviation (input) NAME_NONE :: rstring where "NAME_NONE \<equiv> str ''none''"
abbreviation (input) EXTENSION_SUPPORT_AS_CLIENT :: rstring where
  "EXTENSION_SUPPORT_AS_CLIENT \<equiv> str ''ext-info-c''"
abbreviation (input) EXTENSION_SUPPORT_AS_SERVER :: rstring where
  "EXTENSION_SUPPORT_AS_SERVER \<equiv> str ''ext-info-s''"
abbreviation (input) EXTENSION_OPENSSH_STRICT_KEX_AS_CLIENT :: rstring where
  "EXTENSION_OPENSSH_STRICT_KEX_AS_CLIENT \<equiv> str ''kex-strict-c-v00@openssh.com''"
abbreviation (input) EXTENSION_OPENSSH_STRICT_KEX_AS_SERVER :: rstring where
  "EXTENSION_OPENSSH_STRICT_KEX_AS_SERVER \<equiv> str ''kex-strict-s-v00@openssh.com''"

text \<open>The keys of the table \<open>KEXES\<close>, and \<open>Name::try_from\<close> on them.\<close>

definition ALL_KEX_ALGORITHMS :: "rstring list" where
  "ALL_KEX_ALGORITHMS =
     [MLKEM768X25519_SHA256, CURVE25519, CURVE25519_PRE_RFC_8731, DH_GEX_SHA1, DH_GEX_SHA256,
      DH_G1_SHA1, DH_G14_SHA1, DH_G14_SHA256, DH_G15_SHA512, DH_G16_SHA512, DH_G17_SHA512,
      DH_G18_SHA512, ECDH_SHA2_NISTP256, ECDH_SHA2_NISTP384, ECDH_SHA2_NISTP521, NAME_NONE]"

definition kex_name_try_from :: "rstring \<Rightarrow> rstring option" where
  "kex_name_try_from s = find (\<lambda>x. x = s) ALL_KEX_ALGORITHMS"

datatype KexCause = KC_Initial | KC_Rekey bool bytes

fun is_strict_rekey :: "KexCause \<Rightarrow> bool" where
  "is_strict_rekey (KC_Rekey strict _) = strict"
| "is_strict_rekey KC_Initial = False"

fun is_rekey :: "KexCause \<Rightarrow> bool" where
  "is_rekey KC_Initial = False"
| "is_rekey (KC_Rekey _ _) = True"

fun cause_session_id :: "KexCause \<Rightarrow> bytes option" where
  "cause_session_id KC_Initial = None"
| "cause_session_id (KC_Rekey _ session_id) = Some session_id"

record Names =
  nm_kex :: rstring
  nm_key :: Algorithm
  nm_cipher :: rstring
  nm_client_mac :: rstring
  nm_server_mac :: rstring
  nm_server_compression :: Compression
  nm_client_compression :: Compression
  nm_ignore_guessed :: bool
  nm_strict_kex :: bool

record Preferred =
  pf_kex :: "rstring list"
  pf_key :: "Algorithm list"
  pf_cipher :: "rstring list"
  pf_mac :: "rstring list"
  pf_compression :: "rstring list"

fun is_key_compatible_with_algo :: "PrivateKey \<Rightarrow> Algorithm \<Rightarrow> bool" where
  "is_key_compatible_with_algo key (Rsa _) = is_rsa (pk_algorithm key)"
| "is_key_compatible_with_algo key a = (pk_algorithm key = a)"

definition possible_host_key_algos_for_keys :: "Preferred \<Rightarrow> PrivateKey list \<Rightarrow> Algorithm list" where
  "possible_host_key_algos_for_keys pref available =
     filter (\<lambda>n. \<exists>k \<in> set available. is_key_compatible_with_algo k n) (pf_key pref)"

definition SAFE_KEX_ORDER :: "rstring list" where
  "SAFE_KEX_ORDER =
     [MLKEM768X25519_SHA256, CURVE25519, CURVE25519_PRE_RFC_8731, DH_GEX_SHA256, DH_G18_SHA512,
      DH_G17_SHA512, DH_G16_SHA512, DH_G15_SHA512, DH_G14_SHA256, EXTENSION_SUPPORT_AS_CLIENT,
      EXTENSION_SUPPORT_AS_SERVER, EXTENSION_OPENSSH_STRICT_KEX_AS_CLIENT,
      EXTENSION_OPENSSH_STRICT_KEX_AS_SERVER]"

definition KEX_EXTENSION_NAMES :: "rstring list" where
  "KEX_EXTENSION_NAMES =
     [EXTENSION_SUPPORT_AS_CLIENT, EXTENSION_SUPPORT_AS_SERVER,
      EXTENSION_OPENSSH_STRICT_KEX_AS_CLIENT, EXTENSION_OPENSSH_STRICT_KEX_AS_SERVER]"

definition CIPHER_ORDER :: "rstring list" where
  "CIPHER_ORDER =
     [str ''chacha20-poly1305@openssh.com'', str ''aes256-gcm@openssh.com'', str ''aes256-ctr'',
      str ''aes192-ctr'', str ''aes128-ctr'']"

definition SAFE_HMAC_ORDER :: "rstring list" where
  "SAFE_HMAC_ORDER =
     [str ''hmac-sha2-512-etm@openssh.com'', str ''hmac-sha2-256-etm@openssh.com'',
      str ''hmac-sha2-512'', str ''hmac-sha2-256'']"

definition COMPRESSION_ORDER :: "rstring list" where
  "COMPRESSION_ORDER = [str ''none'', str ''zlib'', str ''zlib@openssh.com'']"

definition Preferred_DEFAULT :: Preferred where
  "Preferred_DEFAULT =
     \<lparr> pf_kex = SAFE_KEX_ORDER,
       pf_key = [Ed25519, EcdsaNistP256, EcdsaNistP384, EcdsaNistP521, Rsa (Some Sha512),
                 Rsa (Some Sha256), Rsa None],
       pf_cipher = CIPHER_ORDER, pf_mac = SAFE_HMAC_ORDER, pf_compression = COMPRESSION_ORDER \<rparr>"

section \<open>Selection\<close>

text \<open>
  The nested loops of the two \<open>select\<close> functions: the outer list is the client's, the inner the
  server's, and \<open>both_first_choice\<close> turns false after the first unsuccessful comparison. The
  result is taken from our own list.
\<close>

datatype role = Server | Client

fun select_inner :: "('c \<Rightarrow> 's \<Rightarrow> bool) \<Rightarrow> 'c \<Rightarrow> 's list \<Rightarrow> bool \<Rightarrow> (bool \<times> 's) option \<times> bool" where
  "select_inner eq c [] both_first = (None, both_first)"
| "select_inner eq c (s # ss) both_first =
     (if eq c s then (Some (both_first, s), both_first) else select_inner eq c ss False)"

fun select_outer :: "('c \<Rightarrow> 's \<Rightarrow> bool) \<Rightarrow> 'c list \<Rightarrow> 's list \<Rightarrow> bool \<Rightarrow> (bool \<times> 'c \<times> 's) option" where
  "select_outer eq [] ss both_first = None"
| "select_outer eq (c # cs) ss both_first =
     (case select_inner eq c ss both_first of
        (Some (b, s), _) \<Rightarrow> Some (b, c, s)
      | (None, b) \<Rightarrow> select_outer eq cs ss b)"

definition server_select ::
  "('a \<Rightarrow> rstring) \<Rightarrow> 'a list \<Rightarrow> rstring list \<Rightarrow> AlgorithmKind \<Rightarrow> (bool \<times> 'a) res" where
  "server_select name server_list client_list kind =
     (case select_outer (\<lambda>c s. c = name s) client_list server_list True of
        Some (b, c, s) \<Rightarrow> Inr (b, s)
      | None \<Rightarrow> Inl (E_NoCommonAlgo kind (map name server_list) client_list))"

definition client_select ::
  "('a \<Rightarrow> rstring) \<Rightarrow> 'a list \<Rightarrow> rstring list \<Rightarrow> AlgorithmKind \<Rightarrow> (bool \<times> 'a) res" where
  "client_select name client_list server_list kind =
     (case select_outer (\<lambda>c s. s = name c) client_list server_list True of
        Some (b, c, s) \<Rightarrow> Inr (b, c)
      | None \<Rightarrow> Inl (E_NoCommonAlgo kind (map name client_list) server_list))"

fun select :: "role \<Rightarrow> ('a \<Rightarrow> rstring) \<Rightarrow> 'a list \<Rightarrow> rstring list \<Rightarrow> AlgorithmKind \<Rightarrow> (bool \<times> 'a) res" where
  "select Server = server_select"
| "select Client = client_select"

section \<open>Reading and writing KEXINIT\<close>

definition select_mac ::
  "role \<Rightarrow> codec \<Rightarrow> bool \<Rightarrow> rstring list \<Rightarrow> bytes \<Rightarrow> (rstring \<times> bytes) res" where
  "select_mac role C need_mac pref_mac r =
     bindR (name_list_decode C r) (\<lambda>(l, r).
       (case select role id pref_mac l AK_Mac of
          Inr (_, m) \<Rightarrow> Inr (m, r)
        | Inl e \<Rightarrow> if need_mac then Inl e else Inr (NAME_NONE, r)))"

definition select_compression ::
  "role \<Rightarrow> codec \<Rightarrow> rstring list \<Rightarrow> bytes \<Rightarrow> (Compression \<times> bytes) res" where
  "select_compression role C pref_compression r =
     bindR (name_list_decode C r) (\<lambda>(l, r).
     bindR (select role id pref_compression l AK_Compression) (\<lambda>(_, c). Inr (Compression_new c, r)))"

definition local_kexes_no_ext :: "Preferred \<Rightarrow> rstring list" where
  "local_kexes_no_ext pref = filter (\<lambda>k. k \<notin> set KEX_EXTENSION_NAMES) (pf_kex pref)"

definition remote_kexes_no_ext :: "rstring list \<Rightarrow> rstring list" where
  "remote_kexes_no_ext kex_list =
     filter (\<lambda>k. case kex_name_try_from k of
                   Some k' \<Rightarrow> k' \<notin> set KEX_EXTENSION_NAMES
                 | None \<Rightarrow> True) kex_list"

definition strict_kex_requested :: "role \<Rightarrow> Preferred \<Rightarrow> bool" where
  "strict_kex_requested role pref =
     ((if role = Server then EXTENSION_OPENSSH_STRICT_KEX_AS_SERVER
       else EXTENSION_OPENSSH_STRICT_KEX_AS_CLIENT) \<in> set (pf_kex pref))"

definition strict_kex_provided :: "role \<Rightarrow> rstring list \<Rightarrow> bool" where
  "strict_kex_provided role kex_list =
     is_ok (select role id
       [if role = Server then EXTENSION_OPENSSH_STRICT_KEX_AS_CLIENT
        else EXTENSION_OPENSSH_STRICT_KEX_AS_SERVER] kex_list AK_Kex)"

definition cipher_needs_mac :: "rstring \<Rightarrow> bool" where
  "cipher_needs_mac name = (case map_of CIPHERS name of Some c \<Rightarrow> needs_mac c | None \<Rightarrow> False)"

definition read_kex ::
  "role \<Rightarrow> codec \<Rightarrow> (Algorithm \<Rightarrow> rstring) \<Rightarrow> bytes \<Rightarrow> Preferred \<Rightarrow> PrivateKey list option \<Rightarrow>
     KexCause \<Rightarrow> Names res" where
  "read_kex role C N buffer pref available_host_keys cause =
     (if length buffer < 17 then Inl E_Inconsistent
      else
     bindR (name_list_decode C (drop 17 buffer)) (\<lambda>(kex_list, r).
     bindR (select role id (local_kexes_no_ext pref) (remote_kexes_no_ext kex_list) AK_Kex)
       (\<lambda>(kex_both_first, kex_algorithm).
     bindR (name_list_decode C r) (\<lambda>(key_list, r).
     bindR (select role N
              (case available_host_keys of
                 Some keys \<Rightarrow> possible_host_key_algos_for_keys pref keys
               | None \<Rightarrow> pf_key pref) key_list AK_Key) (\<lambda>(key_both_first, key_algorithm).
     bindR (name_list_decode C r) (\<lambda>(cipher_list, r).
     bindR (select role id (pf_cipher pref) cipher_list AK_Cipher) (\<lambda>(_, cipher).
     bindR (d_string C r) (\<lambda>(_, r).
     bindR (select_mac role C (cipher_needs_mac cipher) (pf_mac pref) r) (\<lambda>(client_mac, r).
     bindR (select_mac role C (cipher_needs_mac cipher) (pf_mac pref) r) (\<lambda>(server_mac, r).
     bindR (select_compression role C (pf_compression pref) r) (\<lambda>(client_compression, r).
     bindR (select_compression role C (pf_compression pref) r) (\<lambda>(server_compression, r).
     bindR (d_string C r) (\<lambda>(_, r).
     bindR (d_string C r) (\<lambda>(_, r).
     bindR (d_u8 r) (\<lambda>(follows, r).
     bindR (d_u32 C r) (\<lambda>(_, r).
     bindR (ensure_end r) (\<lambda>_.
       Inr \<lparr> nm_kex = kex_algorithm, nm_key = key_algorithm, nm_cipher = cipher,
             nm_client_mac = client_mac, nm_server_mac = server_mac,
             nm_server_compression = server_compression,
             nm_client_compression = client_compression,
             nm_ignore_guessed = (follows \<noteq> 0 \<and> \<not> (kex_both_first \<and> key_both_first)),
             nm_strict_kex = ((strict_kex_requested role pref \<and> strict_kex_provided role kex_list) \<or>
                              is_strict_rekey cause) \<rparr>)))))))))))))))))"

text \<open>
  The KEXINIT payload of \<open>write_kex\<close>; the sixteen random cookie bytes are an argument, and the
  empty language lists are the package's encoding of an empty vector of strings, a zero length.
\<close>

definition kex_names_to_send :: "Preferred \<Rightarrow> PrivateKey list option \<Rightarrow> rstring list" where
  "kex_names_to_send prefs server_keys =
     filter (\<lambda>k. k \<notin> set (if server_keys \<noteq> None
                then [EXTENSION_SUPPORT_AS_CLIENT, EXTENSION_OPENSSH_STRICT_KEX_AS_CLIENT]
                else [EXTENSION_SUPPORT_AS_SERVER, EXTENSION_OPENSSH_STRICT_KEX_AS_SERVER])) (pf_kex prefs)"

definition key_names_to_send ::
  "(Algorithm \<Rightarrow> rstring) \<Rightarrow> Preferred \<Rightarrow> PrivateKey list option \<Rightarrow> rstring list" where
  "key_names_to_send N prefs server_keys =
     (case server_keys of
        Some keys \<Rightarrow>
          map N (filter (\<lambda>algo. \<exists>k \<in> set keys. is_key_compatible_with_algo k algo) (pf_key prefs))
      | None \<Rightarrow> map N (pf_key prefs))"

definition kexinit_payload ::
  "codec \<Rightarrow> (Algorithm \<Rightarrow> rstring) \<Rightarrow> bytes \<Rightarrow> Preferred \<Rightarrow> PrivateKey list option \<Rightarrow> bytes" where
  "kexinit_payload C N cookie prefs server_keys =
     KEXINIT # cookie @
     name_list_encode C (kex_names_to_send prefs server_keys) @
     name_list_encode C (key_names_to_send N prefs server_keys) @
     name_list_encode C (pf_cipher prefs) @ name_list_encode C (pf_cipher prefs) @
     name_list_encode C (pf_mac prefs) @ name_list_encode C (pf_mac prefs) @
     name_list_encode C (pf_compression prefs) @ name_list_encode C (pf_compression prefs) @
     u32_encode C 0 @ u32_encode C 0 @ 0 # u32_encode C 0"

definition write_kex ::
  "env \<Rightarrow> (Algorithm \<Rightarrow> rstring) \<Rightarrow> bytes \<Rightarrow> Preferred \<Rightarrow> PrivateKey list option \<Rightarrow> PacketWriter \<Rightarrow>
     (bytes \<times> PacketWriter) res" where
  "write_kex E N cookie prefs server_keys w =
     packet_bytes E (Inr (kexinit_payload (cdc E) N cookie prefs server_keys)) w"

section \<open>Selection by the client's preference\<close>

lemma select_inner_spec:
  "select_inner eq c ss b =
     (case find (eq c) ss of
        Some s \<Rightarrow> (Some (b \<and> eq c (hd ss), s), b \<and> eq c (hd ss))
      | None \<Rightarrow> (None, b \<and> ss = []))"
proof (induction ss arbitrary: b)
  case (Cons s ss)
  then show ?case by (cases "eq c s") (auto split: option.splits)
qed simp

lemma select_outer_spec:
  "select_outer eq cs ss b =
     (case find (\<lambda>c. \<exists>s \<in> set ss. eq c s) cs of
        Some c \<Rightarrow> Some (b \<and> eq (hd cs) (hd ss), c, the (find (eq c) ss))
      | None \<Rightarrow> None)"
proof (induction cs arbitrary: b)
  case (Cons c cs)
  show ?case
  proof (cases "find (eq c) ss")
    case None
    then have no: "\<not> (\<exists>s \<in> set ss. eq c s)" by (auto simp: find_None_iff)
    show ?thesis
    proof (cases ss)
      case Nil
      have "find (\<lambda>c. False) cs = None" by (simp add: find_None_iff)
      with Nil Cons.IH [of b] show ?thesis by simp
    next
      case (Cons s ss')
      with no have "\<not> eq c (hd ss)" by simp
      with None no Cons show ?thesis using Cons.IH [of False]
        by (auto simp: select_inner_spec split: option.splits)
    qed
  next
    case (Some s)
    then have "\<exists>s \<in> set ss. eq c s" by (auto simp: find_Some_iff intro: nth_mem)
    with Some show ?thesis by (simp add: select_inner_spec)
  qed
qed simp

definition first_common :: "rstring list \<Rightarrow> rstring list \<Rightarrow> rstring option" where
  "first_common cs ss = find (\<lambda>c. c \<in> set ss) cs"

lemma first_common_None [simp]: "first_common cs ss = None \<longleftrightarrow> set cs \<inter> set ss = {}"
  by (auto simp: first_common_def find_None_iff)

lemma first_common_Some:
  "first_common cs ss = Some x \<Longrightarrow>
     \<exists>ys zs. cs = ys @ x # zs \<and> x \<in> set ss \<and> set ys \<inter> set ss = {}"
proof (induction cs)
  case (Cons c cs)
  show ?case
  proof (cases "c \<in> set ss")
    case True
    with Cons.prems show ?thesis by (intro exI [of _ "[]"] exI [of _ cs]) (simp add: first_common_def)
  next
    case False
    with Cons obtain ys zs where "cs = ys @ x # zs" "x \<in> set ss" "set ys \<inter> set ss = {}"
      by (auto simp: first_common_def)
    with False show ?thesis by (intro exI [of _ "c # ys"] exI [of _ zs]) auto
  qed
qed (simp add: first_common_def)

lemma first_common_in: "first_common cs ss = Some x \<Longrightarrow> x \<in> set cs \<and> x \<in> set ss"
  using first_common_Some [of cs ss x] by auto

lemma find_filter_imp: "(\<And>x. P x \<Longrightarrow> Q x) \<Longrightarrow> find P (filter Q xs) = find P xs"
  by (induction xs) auto

text \<open>
  The contract of the \<open>Select\<close> trait: \<open>client\<close> and \<open>server\<close> say which of the two lists, our own and
  the peer's, is the client's and which the server's.
\<close>

locale algorithm_select =
  fixes sel :: "('a \<Rightarrow> rstring) \<Rightarrow> 'a list \<Rightarrow> rstring list \<Rightarrow> AlgorithmKind \<Rightarrow> (bool \<times> 'a) res"
    and client server :: "rstring list \<Rightarrow> rstring list \<Rightarrow> rstring list"
  assumes lists: "{client a b, server a b} = {a, b}"
    and sel_Inr: "sel name own peer k = Inr (f, x) \<Longrightarrow>
        x \<in> set own \<and>
        first_common (client (map name own) peer) (server (map name own) peer) = Some (name x) \<and>
        f = (hd (map name own) = hd peer)"
    and sel_Inl: "sel name own peer k = Inl e \<longleftrightarrow>
        name ` set own \<inter> set peer = {} \<and> e = E_NoCommonAlgo k (map name own) peer"
begin

lemma sel_common: "sel name own peer k = Inr (f, x) \<Longrightarrow> x \<in> set own \<and> name x \<in> set peer"
  using sel_Inr [of name own peer k f x] lists [of "map name own" peer]
  by (auto simp: doubleton_eq_iff dest: first_common_in)

lemma sel_ok_iff: "is_ok (sel name own peer k) \<longleftrightarrow> name ` set own \<inter> set peer \<noteq> {}"
  using sel_Inl [of name own peer k] by (cases "sel name own peer k") (auto simp: is_ok_def)

lemma sel_iff:
  assumes "inj_on name (set own)"
  shows "sel name own peer k = Inr (f, x) \<longleftrightarrow>
     x \<in> set own \<and>
     first_common (client (map name own) peer) (server (map name own) peer) = Some (name x) \<and>
     f = (hd (map name own) = hd peer)" (is "?l \<longleftrightarrow> ?r")
proof
  assume r: ?r
  have "name x \<in> set (client (map name own) peer) \<inter> set (server (map name own) peer)"
    using first_common_Some [of _ _ "name x"] r by fastforce
  then have "is_ok (sel name own peer k)"
    using lists [of "map name own" peer] r by (auto simp: sel_ok_iff doubleton_eq_iff)
  then obtain f' x' where eq: "sel name own peer k = Inr (f', x')" by (auto simp: is_ok_iff)
  from sel_Inr [OF eq] r assms have "x' = x" "f' = f" by (auto dest: inj_onD)
  with eq show ?l by simp
qed (rule sel_Inr)

end

interpretation server_sel: algorithm_select server_select "\<lambda>own peer. peer" "\<lambda>own peer. own"
proof unfold_locales
  fix name :: "'a \<Rightarrow> rstring" and own peer k f x
  assume eq: "server_select name own peer k = Inr (f, x)"
  from eq obtain c where c: "find (\<lambda>c. \<exists>s \<in> set own. c = name s) peer = Some c"
    and x: "x = the (find (\<lambda>s. c = name s) own)" and f: "f = (hd peer = name (hd own))"
    by (auto simp: server_select_def select_outer_spec split: option.splits)
  from c have "\<exists>s \<in> set own. c = name s" by (auto simp: find_Some_iff)
  then have "find (\<lambda>s. c = name s) own \<noteq> None" by (auto simp: find_None_iff)
  with x have "find (\<lambda>s. c = name s) own = Some x" by auto
  then have "c = name x" "x \<in> set own" by (auto simp: find_Some_iff)
  moreover from this have "own \<noteq> []" by auto
  ultimately show "x \<in> set own \<and> first_common peer (map name own) = Some (name x) \<and>
      f = (hd (map name own) = hd peer)"
    using c f by (auto simp: first_common_def image_iff hd_map)
next
  fix name :: "'a \<Rightarrow> rstring" and own peer k e
  show "server_select name own peer k = Inl e \<longleftrightarrow>
      name ` set own \<inter> set peer = {} \<and> e = E_NoCommonAlgo k (map name own) peer"
    by (auto simp: server_select_def select_outer_spec find_None_iff find_Some_iff image_iff
        split: option.splits) (metis imageI disjoint_iff nth_mem)
qed auto

interpretation client_sel: algorithm_select client_select "\<lambda>own peer. own" "\<lambda>own peer. peer"
proof unfold_locales
  fix name :: "'a \<Rightarrow> rstring" and own peer k f x
  assume eq: "client_select name own peer k = Inr (f, x)"
  then have c: "find (\<lambda>c. name c \<in> set peer) own = Some x" and f: "f = (hd peer = name (hd own))"
    by (auto simp: client_select_def select_outer_spec split: option.splits)
  then have "x \<in> set own" "own \<noteq> []" by (auto simp: find_Some_iff)
  moreover have "first_common (map name own) peer = Some (name x)"
    using c unfolding first_common_def by (induction own) (auto split: if_splits)
  ultimately show "x \<in> set own \<and> first_common (map name own) peer = Some (name x) \<and>
      f = (hd (map name own) = hd peer)"
    using f by (auto simp: hd_map)
next
  fix name :: "'a \<Rightarrow> rstring" and own peer k e
  show "client_select name own peer k = Inl e \<longleftrightarrow>
      name ` set own \<inter> set peer = {} \<and> e = E_NoCommonAlgo k (map name own) peer"
    by (auto simp: client_select_def select_outer_spec find_None_iff find_Some_iff image_iff
        split: option.splits) (metis imageI disjoint_iff nth_mem)
qed auto

section \<open>Two peers reading each other's KEXINIT\<close>

lemma remote_kexes_no_ext_id [simp]: "remote_kexes_no_ext l = l"
proof -
  have "set ALL_KEX_ALGORITHMS \<inter> set KEX_EXTENSION_NAMES = {}"
    by (simp add: ALL_KEX_ALGORITHMS_def KEX_EXTENSION_NAMES_def del: str_simps)
  then have "k' \<notin> set KEX_EXTENSION_NAMES" if "kex_name_try_from k = Some k'" for k k'
    using that by (auto simp: kex_name_try_from_def find_Some_iff disjoint_iff nth_mem)
  then show ?thesis
    by (auto simp: remote_kexes_no_ext_def filter_id_conv split: option.splits)
qed

definition sendable :: "rstring list \<Rightarrow> bool" where
  "sendable l = (name_list_ok l \<and> length (as_encoded_string l) \<le> MAX_NAME_LIST_BYTES)"

definition sendable_prefs :: "(Algorithm \<Rightarrow> rstring) \<Rightarrow> Preferred \<Rightarrow> PrivateKey list option \<Rightarrow> bool" where
  "sendable_prefs N p keys =
     (sendable (kex_names_to_send p keys) \<and> sendable (key_names_to_send N p keys) \<and>
      sendable (pf_cipher p) \<and> sendable (pf_mac p) \<and> sendable (pf_compression p))"

text \<open>What \<open>read_kex\<close> computes once the peer's lists are known.\<close>

definition mac_or_none :: "role \<Rightarrow> bool \<Rightarrow> rstring list \<Rightarrow> rstring list \<Rightarrow> rstring res" where
  "mac_or_none role need own peer =
     (case select role id own peer AK_Mac of
        Inr (_, m) \<Rightarrow> Inr m
      | Inl e \<Rightarrow> if need then Inl e else Inr NAME_NONE)"

definition negotiate ::
  "role \<Rightarrow> (Algorithm \<Rightarrow> rstring) \<Rightarrow> Preferred \<Rightarrow> PrivateKey list option \<Rightarrow> KexCause \<Rightarrow>
     rstring list \<Rightarrow> rstring list \<Rightarrow> Preferred \<Rightarrow> Names res" where
  "negotiate role N pref avail cause kex_list key_list peer =
     bindR (select role id (local_kexes_no_ext pref) kex_list AK_Kex) (\<lambda>(_, kex).
     bindR (select role N (case avail of Some keys \<Rightarrow> possible_host_key_algos_for_keys pref keys
                                       | None \<Rightarrow> pf_key pref) key_list AK_Key) (\<lambda>(_, key).
     bindR (select role id (pf_cipher pref) (pf_cipher peer) AK_Cipher) (\<lambda>(_, cipher).
     bindR (mac_or_none role (cipher_needs_mac cipher) (pf_mac pref) (pf_mac peer)) (\<lambda>mac.
     bindR (select role id (pf_compression pref) (pf_compression peer) AK_Compression) (\<lambda>(_, c).
       Inr \<lparr> nm_kex = kex, nm_key = key, nm_cipher = cipher, nm_client_mac = mac,
             nm_server_mac = mac, nm_server_compression = Compression_new c,
             nm_client_compression = Compression_new c, nm_ignore_guessed = False,
             nm_strict_kex = ((strict_kex_requested role pref \<and> strict_kex_provided role kex_list) \<or>
                              is_strict_rekey cause) \<rparr>)))))"

lemma bindR_twice: "bindR m (\<lambda>x. bindR m (\<lambda>y. f x y)) = bindR m (\<lambda>x. f x x)"
  by (cases m) simp_all

context ssh_codec
begin

lemma name_list_round [simp]:
  "sendable l \<Longrightarrow> name_list_decode C (name_list_encode C l @ r) = Inr (l, r)"
  by (simp add: name_list_decode_iff sendable_def)

lemma name_list_as_string [simp]:
  "sendable l \<Longrightarrow> d_string C (name_list_encode C l @ r) = Inr (as_encoded_string l, r)"
  by (simp add: d_string_iff name_list_encode_def sendable_def utf8_valid_ascii name_list_ok_ascii
      max_string_def MAX_NAME_LIST_BYTES_def)

lemma empty_list_as_string [simp]: "d_string C (u32_encode C 0 @ r) = Inr ([], r)"
  using bytes_layout [of "[]"] by (simp add: d_string_iff)

lemma select_mac_round:
  "sendable l \<Longrightarrow> select_mac role C need own (name_list_encode C l @ r) =
     bindR (mac_or_none role need own l) (\<lambda>m. Inr (m, r))"
  by (simp add: select_mac_def mac_or_none_def split: sum.splits prod.splits)

lemma select_compression_round:
  "sendable l \<Longrightarrow> select_compression role C own (name_list_encode C l @ r) =
     bindR (select role id own l AK_Compression) (\<lambda>(_, c). Inr (Compression_new c, r))"
  by (simp add: select_compression_def)

lemma read_kex_payload:
  assumes "length cookie = 16" "sendable_prefs N peer keys"
  shows "read_kex role C N (kexinit_payload C N cookie peer keys) pref avail cause =
    negotiate role N pref avail cause (kex_names_to_send peer keys) (key_names_to_send N peer keys) peer"
proof -
  have d: "drop 17 (kexinit_payload C N cookie peer keys) = 
     name_list_encode C (kex_names_to_send peer keys) @
     name_list_encode C (key_names_to_send N peer keys) @
     name_list_encode C (pf_cipher peer) @ name_list_encode C (pf_cipher peer) @
     name_list_encode C (pf_mac peer) @ name_list_encode C (pf_mac peer) @
     name_list_encode C (pf_compression peer) @ name_list_encode C (pf_compression peer) @
     u32_encode C 0 @ u32_encode C 0 @ 0 # u32_encode C 0 @ []"
    and l: "\<not> length (kexinit_payload C N cookie peer keys) < 17"
    using assms(1) by (simp_all add: kexinit_payload_def)
  show ?thesis
    using assms(2) l unfolding read_kex_def d negotiate_def sendable_prefs_def
    by (simp add: select_mac_round select_compression_round bindR_assoc bindR_twice
        case_prod_unfold d_u8_def ensure_end_def)
qed

end

definition chosen :: "(bool \<times> 'a) res \<Rightarrow> 'a option" where
  "chosen r = (case r of Inl _ \<Rightarrow> None | Inr (_, x) \<Rightarrow> Some x)"

lemma chosen_Some: "chosen m = Some x \<longleftrightarrow> (\<exists>f. m = Inr (f, x))"
  by (auto simp: chosen_def split: sum.splits)

lemma bind_chosen: "bindR m (\<lambda>(_, x). f x) = Inr y \<longleftrightarrow> (\<exists>x. chosen m = Some x \<and> f x = Inr y)"
  by (auto simp: chosen_def split: sum.splits)

lemma bind_mac_or_none:
  "bindR (mac_or_none role need own peer) f = Inr y \<longleftrightarrow>
     (case chosen (select role id own peer AK_Mac) of
        Some m \<Rightarrow> f m = Inr y | None \<Rightarrow> \<not> need \<and> f NAME_NONE = Inr y)"
  by (auto simp: mac_or_none_def chosen_def split: sum.splits)

lemma chosen_server:
  "inj_on name (set own) \<Longrightarrow> chosen (server_select name own peer k) = Some x \<longleftrightarrow>
     x \<in> set own \<and> first_common peer (map name own) = Some (name x)"
  by (simp add: chosen_Some server_sel.sel_iff)

lemma chosen_client:
  "inj_on name (set own) \<Longrightarrow> chosen (client_select name own peer k) = Some x \<longleftrightarrow>
     x \<in> set own \<and> first_common (map name own) peer = Some (name x)"
  by (simp add: chosen_Some client_sel.sel_iff)

lemma chosen_id:
  "chosen (server_select id ss cs k) = first_common cs ss"
  "chosen (client_select id cs ss k) = first_common cs ss"
proof -
  have "chosen (server_select id ss cs k) = Some x \<longleftrightarrow> first_common cs ss = Some x"
    "chosen (client_select id cs ss k) = Some x \<longleftrightarrow> first_common cs ss = Some x" for x
    by (auto simp: chosen_server chosen_client dest: first_common_in)
  then show "chosen (server_select id ss cs k) = first_common cs ss"
    "chosen (client_select id cs ss k) = first_common cs ss"
    by (metis option.exhaust)+
qed

lemma kex_choice_agrees:
  "first_common (kex_names_to_send pc None) (local_kexes_no_ext ps) =
   first_common (local_kexes_no_ext pc) (kex_names_to_send ps (Some keys))"
proof -
  have "first_common (kex_names_to_send pc None) (local_kexes_no_ext ps) =
     find (\<lambda>c. c \<in> set (local_kexes_no_ext ps)) (pf_kex pc)"
    unfolding first_common_def kex_names_to_send_def
    by (rule find_filter_imp) (simp add: local_kexes_no_ext_def KEX_EXTENSION_NAMES_def del: str_simps)
  also have "\<dots> = find (\<lambda>c. c \<in> set (local_kexes_no_ext ps)) (local_kexes_no_ext pc)"
    unfolding local_kexes_no_ext_def by (rule find_filter_imp [symmetric]) simp
  also have "\<dots> = first_common (local_kexes_no_ext pc) (kex_names_to_send ps (Some keys))"
    unfolding first_common_def
    by (rule find_cong) (auto simp: local_kexes_no_ext_def kex_names_to_send_def KEX_EXTENSION_NAMES_def
        simp del: str_simps)
  finally show ?thesis .
qed

lemma key_choice_agrees:
  assumes "inj N"
  shows "chosen (server_select N (possible_host_key_algos_for_keys ps keys) (key_names_to_send N pc None) AK_Key) =
    chosen (client_select N (pf_key pc) (key_names_to_send N ps (Some keys)) AK_Key)"
proof -
  have i: "inj_on N A" for A using assms by (rule inj_on_subset) simp
  have "chosen (server_select N (possible_host_key_algos_for_keys ps keys) (key_names_to_send N pc None) AK_Key) = Some x \<longleftrightarrow>
    chosen (client_select N (pf_key pc) (key_names_to_send N ps (Some keys)) AK_Key) = Some x" for x
    using assms first_common_in [of "map N (pf_key pc)" "map N (possible_host_key_algos_for_keys ps keys)" "N x"]
    by (auto simp: chosen_server chosen_client i key_names_to_send_def
        possible_host_key_algos_for_keys_def inj_image_mem_iff)
  then show ?thesis by (metis option.exhaust)
qed

lemma strict_agrees:
  "strict_kex_requested Server ps \<and> strict_kex_provided Server (kex_names_to_send pc None) \<longleftrightarrow>
   strict_kex_requested Client pc \<and> strict_kex_provided Client (kex_names_to_send ps (Some keys))"
  by (auto simp: strict_kex_requested_def strict_kex_provided_def server_sel.sel_ok_iff
      client_sel.sel_ok_iff kex_names_to_send_def simp del: str_simps)

lemma negotiate_agrees:
  assumes "inj N"
  shows "negotiate Server N ps (Some keys) cause (kex_names_to_send pc None) (key_names_to_send N pc None) pc = Inr nm
    \<longleftrightarrow> negotiate Client N pc None cause (kex_names_to_send ps (Some keys)) (key_names_to_send N ps (Some keys)) ps = Inr nm"
  using key_choice_agrees [OF assms, of ps keys pc] strict_agrees [of ps pc keys]
    kex_choice_agrees [of pc ps keys]
  by (simp add: negotiate_def bind_chosen chosen_id bind_mac_or_none del: str_simps cong: option.case_cong)

text \<open>A concrete naming of the host key algorithms and two small preference lists.\<close>

fun demo_alg_name :: "Algorithm \<Rightarrow> rstring" where
  "demo_alg_name Ed25519 = str ''ssh-ed25519''"
| "demo_alg_name EcdsaNistP256 = str ''ecdsa-sha2-nistp256''"
| "demo_alg_name EcdsaNistP384 = str ''ecdsa-sha2-nistp384''"
| "demo_alg_name EcdsaNistP521 = str ''ecdsa-sha2-nistp521''"
| "demo_alg_name (Rsa None) = str ''ssh-rsa''"
| "demo_alg_name (Rsa (Some Sha256)) = str ''rsa-sha2-256''"
| "demo_alg_name (Rsa (Some Sha512)) = str ''rsa-sha2-512''"
| "demo_alg_name (OtherAlgorithm s) = str ''other:'' @ s"

lemma demo_alg_name_inj: "inj demo_alg_name"
proof (rule injI)
  fix x y assume "demo_alg_name x = demo_alg_name y"
  then show "x = y"
    by (cases x rule: demo_alg_name.cases; cases y rule: demo_alg_name.cases) simp_all
qed

definition demo_client_prefs :: Preferred where
  "demo_client_prefs =
     \<lparr> pf_kex = [CURVE25519, EXTENSION_OPENSSH_STRICT_KEX_AS_CLIENT], pf_key = [Rsa None, Ed25519],
       pf_cipher = [str ''aes256-ctr''], pf_mac = [str ''hmac-sha2-256''],
       pf_compression = [str ''none''] \<rparr>"

definition demo_server_prefs :: Preferred where
  "demo_server_prefs =
     \<lparr> pf_kex = [DH_G14_SHA256, CURVE25519, EXTENSION_OPENSSH_STRICT_KEX_AS_SERVER],
       pf_key = [Ed25519], pf_cipher = [str ''aes256-ctr''], pf_mac = [str ''hmac-sha2-256''],
       pf_compression = [str ''none''] \<rparr>"

definition demo_host_key :: PrivateKey where
  "demo_host_key = \<lparr> pk_algorithm = Ed25519, pk_blob = [1] \<rparr>"

lemma demo_prefs_sendable:
  "sendable_prefs demo_alg_name demo_client_prefs None"
  "sendable_prefs demo_alg_name demo_server_prefs (Some [demo_host_key])"
  by (simp_all add: sendable_prefs_def sendable_def demo_client_prefs_def demo_server_prefs_def
      demo_host_key_def kex_names_to_send_def key_names_to_send_def name_list_ok_def name_ok_def
      is_ascii_def MAX_NAME_LIST_ENTRIES_def MAX_NAME_LIST_BYTES_def as_encoded_string_def)

section \<open>Properties\<close>

text \<open>
  C32. Given the client's and the server's name lists, the server's and the client's selection
  both succeed or both fail. When they succeed they return the same name and the same flag: the
  name is the first of the client's list that the server supports, and the flag says whether the
  two first choices coincide.
\<close>

theorem select_roles_agree:
  "(server_select id ss cs k = Inr (f, x) \<longleftrightarrow> client_select id cs ss k = Inr (f, x)) \<and>
   (server_select id ss cs k = Inr (f, x) \<longrightarrow>
     (\<exists>ys zs. cs = ys @ x # zs \<and> x \<in> set ss \<and> set ys \<inter> set ss = {}) \<and> (f \<longleftrightarrow> hd cs = hd ss))"
proof (intro conjI impI)
  show "server_select id ss cs k = Inr (f, x) \<longleftrightarrow> client_select id cs ss k = Inr (f, x)"
    by (auto simp: server_sel.sel_iff client_sel.sel_iff dest: first_common_in)
  assume eq: "server_select id ss cs k = Inr (f, x)"
  then have "first_common cs ss = Some x" and f: "f \<longleftrightarrow> hd ss = hd cs"
    using server_sel.sel_Inr [OF eq] by auto
  then show "\<exists>ys zs. cs = ys @ x # zs \<and> x \<in> set ss \<and> set ys \<inter> set ss = {}"
    by (blast dest: first_common_Some)
  show "f \<longleftrightarrow> hd cs = hd ss" using f by auto
qed

theorem select_roles_agree_witness:
  "client_select id [str ''a'', str ''b''] [str ''c'', str ''b''] AK_Cipher = Inr (False, str ''b'')"
  using select_roles_agree [of "[str ''c'', str ''b'']" "[str ''a'', str ''b'']" AK_Cipher False "str ''b''"]
  by (simp add: server_select_def)

text \<open>
  C6. Two peers that read each other's KEXINIT negotiate the same result: if a client with
  preferences \<open>pc\<close> and a server with preferences \<open>ps\<close> and host keys \<open>keys\<close> send the payloads
  \<open>write_kex\<close> builds, then reading succeeds on the one side exactly when it succeeds on the other, and
  gives both the same key exchange, host key, cipher, MAC and compression algorithms, the same
  strict-mode flag and no guessed packet to ignore. The lists must fit the bounds of a name list,
  and different host key algorithms must have different names.
\<close>

theorem negotiation_agreement:
  assumes "ssh_codec C" "inj N" "length cookie_c = 16" "length cookie_s = 16"
    and "sendable_prefs N pc None" "sendable_prefs N ps (Some keys)"
  shows "read_kex Server C N (kexinit_payload C N cookie_c pc None) ps (Some keys) cause = Inr nm \<longleftrightarrow>
         read_kex Client C N (kexinit_payload C N cookie_s ps (Some keys)) pc None cause = Inr nm"
  using assms negotiate_agrees [OF assms(2)] by (simp add: ssh_codec.read_kex_payload)

theorem negotiation_agreement_witness:
  "read_kex Client rfc4251 demo_alg_name
     (kexinit_payload rfc4251 demo_alg_name (replicate 16 3) demo_server_prefs (Some [demo_host_key]))
     demo_client_prefs None KC_Initial =
   Inr \<lparr> nm_kex = CURVE25519, nm_key = Ed25519, nm_cipher = str ''aes256-ctr'',
         nm_client_mac = str ''hmac-sha2-256'', nm_server_mac = str ''hmac-sha2-256'',
         nm_server_compression = Compression_None, nm_client_compression = Compression_None,
         nm_ignore_guessed = False, nm_strict_kex = True \<rparr>"
proof -
  have "read_kex Server rfc4251 demo_alg_name
     (kexinit_payload rfc4251 demo_alg_name (replicate 16 5) demo_client_prefs None)
     demo_server_prefs (Some [demo_host_key]) KC_Initial =
   Inr \<lparr> nm_kex = CURVE25519, nm_key = Ed25519, nm_cipher = str ''aes256-ctr'',
         nm_client_mac = str ''hmac-sha2-256'', nm_server_mac = str ''hmac-sha2-256'',
         nm_server_compression = Compression_None, nm_client_compression = Compression_None,
         nm_ignore_guessed = False, nm_strict_kex = True \<rparr>"
    by (simp add: rfc.read_kex_payload demo_prefs_sendable negotiate_def)
       (simp add: demo_client_prefs_def demo_server_prefs_def demo_host_key_def kex_names_to_send_def
          key_names_to_send_def server_select_def local_kexes_no_ext_def KEX_EXTENSION_NAMES_def
          possible_host_key_algos_for_keys_def mac_or_none_def Compression_new_def
          strict_kex_requested_def strict_kex_provided_def)
  then show ?thesis
    by (subst negotiation_agreement [OF rfc4251_codec demo_alg_name_inj _ _ demo_prefs_sendable, symmetric])
       simp_all
qed

end
