(* ===== verification/Kex.thy ===== *)
theory Kex
  imports Negotiation
begin

text \<open>
  The parts of \<open>kex/mod.rs\<close> every key exchange method shares: the state of a session's key
  exchange, the encoding of the shared secret, and the derivation of the six keys of a
  connection. The hash function of the method is the parameter \<open>H\<close>. The properties: the derivation loop
  returns, and equals the key stream of RFC 4253; a client and a server that agree on
  the secret, the hash and the algorithms build ciphers that understand each other; the shared
  secret is encoded as the shortest non-negative integer.
\<close>

section \<open>The state of a key exchange\<close>

datatype 'k SessionKexState = Kex_Idle | Kex_InProgress 'k | Kex_Taken

fun kex_active :: "'k SessionKexState \<Rightarrow> bool" where
  "kex_active Kex_Idle = False"
| "kex_active (Kex_InProgress _) = True"
| "kex_active Kex_Taken = True"

text \<open>\<open>take\<close> returns the old state and what is left behind.\<close>

fun kex_take :: "'k SessionKexState \<Rightarrow> 'k SessionKexState \<times> 'k SessionKexState" where
  "kex_take Kex_Idle = (Kex_Idle, Kex_Idle)"
| "kex_take s = (s, Kex_Taken)"

section \<open>The shared secret\<close>

fun skip_zeros :: "bytes \<Rightarrow> bytes" where
  "skip_zeros [] = []"
| "skip_zeros (b # s) = (if b = 0 then skip_zeros s else b # s)"

definition encode_mpint :: "codec \<Rightarrow> bytes \<Rightarrow> bytes" where
  "encode_mpint C s =
     (case skip_zeros s of
        [] \<Rightarrow> u32_encode C 0
      | b # t \<Rightarrow>
          if b AND 0x80 \<noteq> 0
          then u32_encode C (of_nat (length (b # t) + 1)) @ 0 # b # t
          else u32_encode C (of_nat (length (b # t))) @ b # t)"

datatype SharedSecret = Secret_Mpint bytes | Secret_String bytes

definition secret_from_mpint :: "codec \<Rightarrow> bytes \<Rightarrow> SharedSecret" where
  "secret_from_mpint C b = Secret_Mpint (encode_mpint C b)"

definition secret_from_string :: "codec \<Rightarrow> bytes \<Rightarrow> SharedSecret" where
  "secret_from_string C b = Secret_String (bytes_encode C b)"

fun secret_as_bytes :: "SharedSecret \<Rightarrow> bytes" where
  "secret_as_bytes (Secret_Mpint v) = v"
| "secret_as_bytes (Secret_String v) = v"

section \<open>Key derivation\<close>

text \<open>
  The extension loop of \<open>compute_key\<close>: it ends as soon as the key is long enough, and it would run
  for ever with a hash function of no output.
\<close>

partial_function (option) compute_key_loop :: "(bytes \<Rightarrow> bytes) \<Rightarrow> bytes \<Rightarrow> nat \<Rightarrow> bytes \<Rightarrow> bytes option" where
  "compute_key_loop H prefix len key =
     (if length key < len then compute_key_loop H prefix len (key @ H (prefix @ key))
      else Some key)"

definition secret_prefix :: "SharedSecret option \<Rightarrow> bytes \<Rightarrow> bytes" where
  "secret_prefix shared_secret exchange_hash =
     (case shared_secret of Some shared \<Rightarrow> secret_as_bytes shared | None \<Rightarrow> []) @ exchange_hash"

definition compute_key ::
  "(bytes \<Rightarrow> bytes) \<Rightarrow> SharedSecret option \<Rightarrow> bytes \<Rightarrow> bytes \<Rightarrow> u8 \<Rightarrow> nat \<Rightarrow> bytes res" where
  "compute_key H shared_secret session_id exchange_hash c len =
     (let prefix = secret_prefix shared_secret exchange_hash in
      case compute_key_loop H prefix len (H (prefix @ [c] @ session_id)) of
        Some key \<Rightarrow> Inr (resize len key)
      | None \<Rightarrow> Inl Diverged)"

record CipherPair =
  local_to_remote :: SealingKey
  remote_to_local :: OpeningKey

definition compute_keys ::
  "crypto \<Rightarrow> (bytes \<Rightarrow> bytes) \<Rightarrow> SharedSecret option \<Rightarrow> bytes \<Rightarrow> bytes \<Rightarrow> rstring \<Rightarrow> rstring \<Rightarrow> rstring \<Rightarrow>
     bool \<Rightarrow> CipherPair res" where
  "compute_keys K H shared_secret session_id exchange_hash cipher_name remote_to_local_mac local_to_remote_mac is_server =
     bindR (ok_or E_UnknownAlgo (map_of CIPHERS cipher_name)) (\<lambda>cipher.
     bindR (ok_or E_UnknownAlgo (map_of MACS remote_to_local_mac)) (\<lambda>r_mac.
     bindR (ok_or E_UnknownAlgo (map_of MACS local_to_remote_mac)) (\<lambda>l_mac.
     (let derive = compute_key H shared_secret session_id exchange_hash;
          (l, r) = if is_server then (68, 67) else (67, 68);
          (l_nonce, r_nonce) = if is_server then (66, 65) else (65, 66);
          (l_mac_key, r_mac_key) = if is_server then (70, 69) else (69, 70) in
     bindR (derive l (cipher_key_len K cipher)) (\<lambda>key.
     bindR (derive l_nonce (cipher_nonce_len K cipher)) (\<lambda>nonce.
     bindR (derive l_mac_key (mac_alg_key_len l_mac)) (\<lambda>mac.
     bindR (make_sealing_key K cipher key nonce mac l_mac) (\<lambda>lr.
     bindR (derive r (cipher_key_len K cipher)) (\<lambda>key.
     bindR (derive r_nonce (cipher_nonce_len K cipher)) (\<lambda>nonce.
     bindR (derive r_mac_key (mac_alg_key_len r_mac)) (\<lambda>mac.
     bindR (make_opening_key K cipher key nonce mac r_mac) (\<lambda>rl.
       Inr \<lparr> local_to_remote = lr, remote_to_local = rl \<rparr>))))))))))))"

section \<open>Lemmas\<close>

text \<open>The key stream of RFC 4253, section 7.2: \<open>K1\<close>, then each block the hash of all the blocks before it.\<close>

fun key_stream :: "(bytes \<Rightarrow> bytes) \<Rightarrow> bytes \<Rightarrow> bytes \<Rightarrow> nat \<Rightarrow> bytes" where
  "key_stream H prefix k1 0 = k1"
| "key_stream H prefix k1 (Suc n) =
     key_stream H prefix k1 n @ H (prefix @ key_stream H prefix k1 n)"

text \<open>What the packages promise of a hash function: a non-empty output of a fixed length.\<close>

definition hash_ok :: "(bytes \<Rightarrow> bytes) \<Rightarrow> nat \<Rightarrow> bool" where
  "hash_ok H hl = ((\<forall>x. length (H x) = hl) \<and> 0 < hl)"

lemma key_stream_length:
  "hash_ok H hl \<Longrightarrow> length (key_stream H p k1 n) = length k1 + n * hl"
  by (induction n) (simp_all add: hash_ok_def)

lemma key_stream_prefix:
  "m \<le> n \<Longrightarrow> \<exists>r. key_stream H p k1 n = key_stream H p k1 m @ r"
proof (induction n)
  case (Suc n)
  then show ?case by (cases "m = Suc n") auto
qed simp

lemma compute_key_loop_stream:
  assumes H: "hash_ok H hl"
  shows "\<exists>n. compute_key_loop H p len (key_stream H p k1 m) = Some (key_stream H p k1 n) \<and>
     len \<le> length (key_stream H p k1 n) \<and> m \<le> n"
proof (induction "len - length (key_stream H p k1 m)" arbitrary: m rule: less_induct)
  case less
  show ?case
  proof (cases "length (key_stream H p k1 m) < len")
    case True
    then have "len - length (key_stream H p k1 (Suc m)) < len - length (key_stream H p k1 m)"
      using H by (auto simp: hash_ok_def)
    from less.hyps [OF this] obtain n where
      "compute_key_loop H p len (key_stream H p k1 (Suc m)) = Some (key_stream H p k1 n)"
      "len \<le> length (key_stream H p k1 n)" "Suc m \<le> n" by blast
    with True show ?thesis
      by (subst compute_key_loop.simps) (auto intro!: exI [of _ n])
  next
    case False
    then show ?thesis
      by (subst compute_key_loop.simps) (auto intro!: exI [of _ m])
  qed
qed

lemma compute_key_stream:
  assumes H: "hash_ok H hl" and n: "len \<le> (n + 1) * hl"
  shows "compute_key H ss sid eh c len =
    Inr (take len (key_stream H (secret_prefix ss eh) (H (secret_prefix ss eh @ c # sid)) n))"
proof -
  let ?p = "secret_prefix ss eh" let ?k = "H (?p @ c # sid)"
  obtain m where m: "compute_key_loop H ?p len ?k = Some (key_stream H ?p ?k m)"
      "len \<le> length (key_stream H ?p ?k m)"
    using compute_key_loop_stream [OF H, where p = ?p and len = len and ?k1.0 = ?k and m = 0] by auto
  have l: "length (key_stream H ?p ?k n) = (n + 1) * hl" using H by (simp add: key_stream_length [OF H]) (simp add: hash_ok_def)
  have "take len (key_stream H ?p ?k m) = take len (key_stream H ?p ?k n)"
    using key_stream_prefix [of m n H ?p ?k] key_stream_prefix [of n m H ?p ?k] m(2) n l
    by (cases "m \<le> n") auto
  with m show ?thesis by (simp add: compute_key_def resize_def Let_def)
qed

lemma compute_key_total:
  assumes "hash_ok H hl"
  obtains key where "compute_key H ss sid eh c len = Inr key" "length key = len"
proof -
  have "len \<le> (len + 1) * hl" using assms by (cases hl) (simp_all add: hash_ok_def)
  from compute_key_stream [OF assms this, where ss = ss and sid = sid and eh = eh and c = c] this that show thesis
    using assms by (simp add: key_stream_length [OF assms]) (simp add: hash_ok_def)
qed

lemma make_keys_in_sync:
  assumes "length k = cipher_key_len K c" "length n = cipher_nonce_len K c" "length m = mac_alg_key_len mac"
  obtains sk ok where "make_sealing_key K c k n m mac = Inr sk" "make_opening_key K c k n m mac = Inr ok"
    "in_sync sk ok"
proof -
  obtain mc where "make_mac mac m = Inr mc" using assms(3) by (cases mac) auto
  with assms that show thesis by (cases c) auto
qed

definition be_value :: "bytes \<Rightarrow> nat" where
  "be_value s = foldl (\<lambda>v b. 256 * v + unat b) 0 s"

lemma be_value_skip_zeros: "be_value (skip_zeros s) = be_value s"
  by (induction s) (simp_all add: be_value_def)

lemma skip_zeros_hd: "skip_zeros s = b # t \<Longrightarrow> b \<noteq> 0"
  by (induction s) (auto split: if_splits)

lemma skip_zeros_length: "length (skip_zeros s) \<le> length s"
  by (induction s) simp_all

lemma and_0x80_zero: "b AND 0x80 = 0 \<longleftrightarrow> b < 0x80" for b :: u8
proof -
  have "b AND 2 ^ 7 = 0 \<longleftrightarrow> \<not> bit (unat b) 7"
    by (simp only: and_exp_eq_0_iff_not_bit) (simp add: bit_unsigned_iff)
  also have "\<dots> \<longleftrightarrow> even (unat b div 128)" by (simp add: bit_iff_odd)
  also have "\<dots> \<longleftrightarrow> unat b < 128"
    using unsigned_less [of b, where 'a = nat] by (cases "unat b < 128") (simp_all add: le_div_geq)
  finally show ?thesis by (simp add: word_less_nat_alt)
qed

lemma keys_of_role:
  assumes H: "hash_ok H hl"
    and c: "map_of CIPHERS cn = Some c" "map_of MACS mr = Some macr" "map_of MACS ml = Some macl"
  shows "\<exists>sk ok sk' ok'.
    compute_keys K H ss sid eh cn mr ml True = Inr \<lparr> local_to_remote = sk, remote_to_local = ok' \<rparr> \<and>
    compute_keys K H ss sid eh cn ml mr False = Inr \<lparr> local_to_remote = sk', remote_to_local = ok \<rparr> \<and>
    in_sync sk ok \<and> in_sync sk' ok'"
proof -
  let ?d = "compute_key H ss sid eh"
  obtain k1 n1 m1 where 1: "?d 68 (cipher_key_len K c) = Inr k1" "length k1 = cipher_key_len K c"
    "?d 66 (cipher_nonce_len K c) = Inr n1" "length n1 = cipher_nonce_len K c"
    "?d 70 (mac_alg_key_len macl) = Inr m1" "length m1 = mac_alg_key_len macl"
    by (metis compute_key_total [OF H])
  obtain k2 n2 m2 where 2: "?d 67 (cipher_key_len K c) = Inr k2" "length k2 = cipher_key_len K c"
    "?d 65 (cipher_nonce_len K c) = Inr n2" "length n2 = cipher_nonce_len K c"
    "?d 69 (mac_alg_key_len macr) = Inr m2" "length m2 = mac_alg_key_len macr"
    by (metis compute_key_total [OF H])
  from 1 obtain sk ok where "make_sealing_key K c k1 n1 m1 macl = Inr sk"
    "make_opening_key K c k1 n1 m1 macl = Inr ok" "in_sync sk ok" by (metis make_keys_in_sync)
  moreover from 2 obtain sk' ok' where "make_sealing_key K c k2 n2 m2 macr = Inr sk'"
    "make_opening_key K c k2 n2 m2 macr = Inr ok'" "in_sync sk' ok'" by (metis make_keys_in_sync)
  ultimately show ?thesis using 1 2 c by (simp add: compute_keys_def ok_or_def)
qed

section \<open>Properties\<close>

text \<open>
  C21. The derivation of a key returns for every hash function with a non-empty fixed-length output, and its result
  is the prefix of the requested length of the key stream of RFC 4253: the hash of the secret,
  the exchange hash, the letter and the session id, extended block by block.
\<close>

theorem compute_key_is_rfc4253:
  assumes "hash_ok H hl" "len \<le> (n + 1) * hl"
  shows "compute_key H ss sid eh c len =
    Inr (take len (key_stream H (secret_prefix ss eh) (H (secret_prefix ss eh @ c # sid)) n))"
  by (rule compute_key_stream [OF assms])

theorem compute_key_is_rfc4253_witness:
  "compute_key (\<lambda>x. replicate 4 (of_nat (length x))) None [1, 2] [3] 65 6 = Inr [4, 4, 4, 4, 5, 5]"
  using compute_key_is_rfc4253 [of "\<lambda>x. replicate 4 (of_nat (length x))" 4 6 1 None "[1, 2]" "[3]" 65]
  by (simp add: secret_prefix_def hash_ok_def numeral_eq_Suc)

text \<open>
  C11. Key agreement gives compatible ciphers: for every cipher and every pair of MACs of the tables, a server
  and a client that hold the same secret, exchange hash and session id both build their cipher pair,
  and the sealing key of each side is in step with the opening key of the other.
\<close>

theorem compute_keys_crosswise:
  assumes "hash_ok H hl"
    and "cn \<in> fst ` set CIPHERS" "client_mac \<in> fst ` set MACS" "server_mac \<in> fst ` set MACS"
  shows "\<exists>s c. compute_keys K H ss sid eh cn client_mac server_mac True = Inr s \<and>
    compute_keys K H ss sid eh cn server_mac client_mac False = Inr c \<and>
    in_sync (local_to_remote s) (remote_to_local c) \<and>
    in_sync (local_to_remote c) (remote_to_local s)"
proof -
  obtain c macr macl where "map_of CIPHERS cn = Some c" "map_of MACS client_mac = Some macr"
    "map_of MACS server_mac = Some macl"
    using assms(2-4) by (metis map_of_eq_None_iff not_None_eq)
  from keys_of_role [OF assms(1) this, of K ss sid eh] show ?thesis by fastforce
qed

theorem compute_keys_crosswise_witness:
  "\<exists>s c. compute_keys demo_crypto (\<lambda>x. replicate 4 7) None [1] [2] (str ''aes256-ctr'')
      (str ''hmac-sha2-256'') (str ''hmac-sha2-512'') True = Inr s \<and>
    compute_keys demo_crypto (\<lambda>x. replicate 4 7) None [1] [2] (str ''aes256-ctr'')
      (str ''hmac-sha2-512'') (str ''hmac-sha2-256'') False = Inr c \<and>
    in_sync (local_to_remote s) (remote_to_local c) \<and>
    in_sync (local_to_remote c) (remote_to_local s)"
  by (rule compute_keys_crosswise [where hl = 4]) (simp_all add: CIPHERS_def MACS_def hash_ok_def)

text \<open>
  C36. The shared secret is encoded as the shortest multiple-precision integer: the encoding is the
  SSH string of bytes with the same big-endian value as the input, whose first byte is below
  128, so that the number reads as non-negative, and is zero only when the next byte needs it.
\<close>

theorem encode_mpint_canonical:
  assumes "ssh_codec C"
  shows "\<exists>m. encode_mpint C s = bytes_encode C m \<and> be_value m = be_value s \<and>
    length m \<le> length s + 1 \<and>
    (case m of [] \<Rightarrow> True | [b] \<Rightarrow> 0 < b \<and> b < 128 | b # b' # _ \<Rightarrow> b < 128 \<and> (b = 0 \<longrightarrow> 128 \<le> b'))"
proof (cases "skip_zeros s")
  case Nil
  then show ?thesis
    using be_value_skip_zeros [of s] by (intro exI [of _ "[]"])
      (simp add: encode_mpint_def ssh_codec.bytes_layout [OF assms])
next
  case (Cons b t)
  have v: "be_value (b # t) = be_value s" and b: "b \<noteq> 0" and l: "length (b # t) \<le> length s"
    using be_value_skip_zeros [of s] skip_zeros_hd [OF Cons] skip_zeros_length [of s] Cons by simp_all
  show ?thesis
  proof (cases "b AND 0x80 = 0")
    case True
    with Cons v b l show ?thesis by (intro exI [of _ "b # t"])
      (auto simp: encode_mpint_def ssh_codec.bytes_layout [OF assms] and_0x80_zero word_gt_0
        split: list.splits)
  next
    case False
    with Cons v b l show ?thesis by (intro exI [of _ "0 # b # t"])
      (auto simp: encode_mpint_def ssh_codec.bytes_layout [OF assms] and_0x80_zero be_value_def)
  qed
qed

theorem encode_mpint_canonical_witness:
  "\<exists>m. encode_mpint rfc4251 [0, 200, 1] = bytes_encode rfc4251 m \<and> be_value m = be_value [0, 200, 1]"
  using encode_mpint_canonical [OF rfc4251_codec, of "[0, 200, 1]"] by blast

end
