(* ===== verification/DhGroups.thy ===== *)
theory DhGroups
  imports Kex
begin

text \<open>
  The Diffie-Hellman groups of \<open>kex/dh/groups.rs\<close>, the group exchange parameters of
  \<open>client/mod.rs\<close> and the group a server picks by default. The property: the default
  choice can exceed the requested maximum although a built-in group fits the request.
\<close>

section \<open>Groups\<close>

record DhGroup =
  dg_prime :: bytes
  dg_generator :: bytes

fun first_nonzero :: "bytes \<Rightarrow> nat option" where
  "first_nonzero [] = None"
| "first_nonzero (b # bs) = (if b \<noteq> 0 then Some 0 else map_option Suc (first_nonzero bs))"

definition bit_size :: "DhGroup \<Rightarrow> nat" where
  "bit_size g =
     (case first_nonzero (dg_prime g) of
        None \<Rightarrow> 0
      | Some fsb_idx \<Rightarrow> (length (dg_prime g) - fsb_idx) * 8)"

definition DH_GROUP1 :: DhGroup where
  "DH_GROUP1 = \<lparr> dg_prime = concat (map to_be_bytes
      [
       0xFFFFFFFF, 0xFFFFFFFF, 0xC90FDAA2, 0x2168C234, 0xC4C6628B, 0x80DC1CD1, 0x29024E08, 0x8A67CC74,
       0x020BBEA6, 0x3B139B22, 0x514A0879, 0x8E3404DD, 0xEF9519B3, 0xCD3A431B, 0x302B0A6D, 0xF25F1437,
       0x4FE1356D, 0x6D51C245, 0xE485B576, 0x625E7EC6, 0xF44C42E9, 0xA637ED6B, 0x0BFF5CB6, 0xF406B7ED,
       0xEE386BFB, 0x5A899FA5, 0xAE9F2411, 0x7C4B1FE6, 0x49286651, 0xECE65381, 0xFFFFFFFF, 0xFFFFFFFF
      ]), dg_generator = [2] \<rparr>"

definition DH_GROUP14 :: DhGroup where
  "DH_GROUP14 = \<lparr> dg_prime = concat (map to_be_bytes
      [
       0xFFFFFFFF, 0xFFFFFFFF, 0xC90FDAA2, 0x2168C234, 0xC4C6628B, 0x80DC1CD1, 0x29024E08, 0x8A67CC74,
       0x020BBEA6, 0x3B139B22, 0x514A0879, 0x8E3404DD, 0xEF9519B3, 0xCD3A431B, 0x302B0A6D, 0xF25F1437,
       0x4FE1356D, 0x6D51C245, 0xE485B576, 0x625E7EC6, 0xF44C42E9, 0xA637ED6B, 0x0BFF5CB6, 0xF406B7ED,
       0xEE386BFB, 0x5A899FA5, 0xAE9F2411, 0x7C4B1FE6, 0x49286651, 0xECE45B3D, 0xC2007CB8, 0xA163BF05,
       0x98DA4836, 0x1C55D39A, 0x69163FA8, 0xFD24CF5F, 0x83655D23, 0xDCA3AD96, 0x1C62F356, 0x208552BB,
       0x9ED52907, 0x7096966D, 0x670C354E, 0x4ABC9804, 0xF1746C08, 0xCA18217C, 0x32905E46, 0x2E36CE3B,
       0xE39E772C, 0x180E8603, 0x9B2783A2, 0xEC07A28F, 0xB5C55DF0, 0x6F4C52C9, 0xDE2BCBF6, 0x95581718,
       0x3995497C, 0xEA956AE5, 0x15D22618, 0x98FA0510, 0x15728E5A, 0x8AACAA68, 0xFFFFFFFF, 0xFFFFFFFF
      ]), dg_generator = [2] \<rparr>"

definition DH_GROUP15 :: DhGroup where
  "DH_GROUP15 = \<lparr> dg_prime = concat (map to_be_bytes
      [
       0xFFFFFFFF, 0xFFFFFFFF, 0xC90FDAA2, 0x2168C234, 0xC4C6628B, 0x80DC1CD1, 0x29024E08, 0x8A67CC74,
       0x020BBEA6, 0x3B139B22, 0x514A0879, 0x8E3404DD, 0xEF9519B3, 0xCD3A431B, 0x302B0A6D, 0xF25F1437,
       0x4FE1356D, 0x6D51C245, 0xE485B576, 0x625E7EC6, 0xF44C42E9, 0xA637ED6B, 0x0BFF5CB6, 0xF406B7ED,
       0xEE386BFB, 0x5A899FA5, 0xAE9F2411, 0x7C4B1FE6, 0x49286651, 0xECE45B3D, 0xC2007CB8, 0xA163BF05,
       0x98DA4836, 0x1C55D39A, 0x69163FA8, 0xFD24CF5F, 0x83655D23, 0xDCA3AD96, 0x1C62F356, 0x208552BB,
       0x9ED52907, 0x7096966D, 0x670C354E, 0x4ABC9804, 0xF1746C08, 0xCA18217C, 0x32905E46, 0x2E36CE3B,
       0xE39E772C, 0x180E8603, 0x9B2783A2, 0xEC07A28F, 0xB5C55DF0, 0x6F4C52C9, 0xDE2BCBF6, 0x95581718,
       0x3995497C, 0xEA956AE5, 0x15D22618, 0x98FA0510, 0x15728E5A, 0x8AAAC42D, 0xAD33170D, 0x04507A33,
       0xA85521AB, 0xDF1CBA64, 0xECFB8504, 0x58DBEF0A, 0x8AEA7157, 0x5D060C7D, 0xB3970F85, 0xA6E1E4C7,
       0xABF5AE8C, 0xDB0933D7, 0x1E8C94E0, 0x4A25619D, 0xCEE3D226, 0x1AD2EE6B, 0xF12FFA06, 0xD98A0864,
       0xD8760273, 0x3EC86A64, 0x521F2B18, 0x177B200C, 0xBBE11757, 0x7A615D6C, 0x770988C0, 0xBAD946E2,
       0x08E24FA0, 0x74E5AB31, 0x43DB5BFC, 0xE0FD108E, 0x4B82D120, 0xA93AD2CA, 0xFFFFFFFF, 0xFFFFFFFF
      ]), dg_generator = [2] \<rparr>"

definition DH_GROUP16 :: DhGroup where
  "DH_GROUP16 = \<lparr> dg_prime = concat (map to_be_bytes
      [
       0xFFFFFFFF, 0xFFFFFFFF, 0xC90FDAA2, 0x2168C234, 0xC4C6628B, 0x80DC1CD1, 0x29024E08, 0x8A67CC74,
       0x020BBEA6, 0x3B139B22, 0x514A0879, 0x8E3404DD, 0xEF9519B3, 0xCD3A431B, 0x302B0A6D, 0xF25F1437,
       0x4FE1356D, 0x6D51C245, 0xE485B576, 0x625E7EC6, 0xF44C42E9, 0xA637ED6B, 0x0BFF5CB6, 0xF406B7ED,
       0xEE386BFB, 0x5A899FA5, 0xAE9F2411, 0x7C4B1FE6, 0x49286651, 0xECE45B3D, 0xC2007CB8, 0xA163BF05,
       0x98DA4836, 0x1C55D39A, 0x69163FA8, 0xFD24CF5F, 0x83655D23, 0xDCA3AD96, 0x1C62F356, 0x208552BB,
       0x9ED52907, 0x7096966D, 0x670C354E, 0x4ABC9804, 0xF1746C08, 0xCA18217C, 0x32905E46, 0x2E36CE3B,
       0xE39E772C, 0x180E8603, 0x9B2783A2, 0xEC07A28F, 0xB5C55DF0, 0x6F4C52C9, 0xDE2BCBF6, 0x95581718,
       0x3995497C, 0xEA956AE5, 0x15D22618, 0x98FA0510, 0x15728E5A, 0x8AAAC42D, 0xAD33170D, 0x04507A33,
       0xA85521AB, 0xDF1CBA64, 0xECFB8504, 0x58DBEF0A, 0x8AEA7157, 0x5D060C7D, 0xB3970F85, 0xA6E1E4C7,
       0xABF5AE8C, 0xDB0933D7, 0x1E8C94E0, 0x4A25619D, 0xCEE3D226, 0x1AD2EE6B, 0xF12FFA06, 0xD98A0864,
       0xD8760273, 0x3EC86A64, 0x521F2B18, 0x177B200C, 0xBBE11757, 0x7A615D6C, 0x770988C0, 0xBAD946E2,
       0x08E24FA0, 0x74E5AB31, 0x43DB5BFC, 0xE0FD108E, 0x4B82D120, 0xA9210801, 0x1A723C12, 0xA787E6D7,
       0x88719A10, 0xBDBA5B26, 0x99C32718, 0x6AF4E23C, 0x1A946834, 0xB6150BDA, 0x2583E9CA, 0x2AD44CE8,
       0xDBBBC2DB, 0x04DE8EF9, 0x2E8EFC14, 0x1FBECAA6, 0x287C5947, 0x4E6BC05D, 0x99B2964F, 0xA090C3A2,
       0x233BA186, 0x515BE7ED, 0x1F612970, 0xCEE2D7AF, 0xB81BDD76, 0x2170481C, 0xD0069127, 0xD5B05AA9,
       0x93B4EA98, 0x8D8FDDC1, 0x86FFB7DC, 0x90A6C08F, 0x4DF435C9, 0x34063199, 0xFFFFFFFF, 0xFFFFFFFF
      ]), dg_generator = [2] \<rparr>"

definition DH_GROUP17 :: DhGroup where
  "DH_GROUP17 = \<lparr> dg_prime = concat (map to_be_bytes
      [
       0xFFFFFFFF, 0xFFFFFFFF, 0xC90FDAA2, 0x2168C234, 0xC4C6628B, 0x80DC1CD1, 0x29024E08, 0x8A67CC74,
       0x020BBEA6, 0x3B139B22, 0x514A0879, 0x8E3404DD, 0xEF9519B3, 0xCD3A431B, 0x302B0A6D, 0xF25F1437,
       0x4FE1356D, 0x6D51C245, 0xE485B576, 0x625E7EC6, 0xF44C42E9, 0xA637ED6B, 0x0BFF5CB6, 0xF406B7ED,
       0xEE386BFB, 0x5A899FA5, 0xAE9F2411, 0x7C4B1FE6, 0x49286651, 0xECE45B3D, 0xC2007CB8, 0xA163BF05,
       0x98DA4836, 0x1C55D39A, 0x69163FA8, 0xFD24CF5F, 0x83655D23, 0xDCA3AD96, 0x1C62F356, 0x208552BB,
       0x9ED52907, 0x7096966D, 0x670C354E, 0x4ABC9804, 0xF1746C08, 0xCA18217C, 0x32905E46, 0x2E36CE3B,
       0xE39E772C, 0x180E8603, 0x9B2783A2, 0xEC07A28F, 0xB5C55DF0, 0x6F4C52C9, 0xDE2BCBF6, 0x95581718,
       0x3995497C, 0xEA956AE5, 0x15D22618, 0x98FA0510, 0x15728E5A, 0x8AAAC42D, 0xAD33170D, 0x04507A33,
       0xA85521AB, 0xDF1CBA64, 0xECFB8504, 0x58DBEF0A, 0x8AEA7157, 0x5D060C7D, 0xB3970F85, 0xA6E1E4C7,
       0xABF5AE8C, 0xDB0933D7, 0x1E8C94E0, 0x4A25619D, 0xCEE3D226, 0x1AD2EE6B, 0xF12FFA06, 0xD98A0864,
       0xD8760273, 0x3EC86A64, 0x521F2B18, 0x177B200C, 0xBBE11757, 0x7A615D6C, 0x770988C0, 0xBAD946E2,
       0x08E24FA0, 0x74E5AB31, 0x43DB5BFC, 0xE0FD108E, 0x4B82D120, 0xA9210801, 0x1A723C12, 0xA787E6D7,
       0x88719A10, 0xBDBA5B26, 0x99C32718, 0x6AF4E23C, 0x1A946834, 0xB6150BDA, 0x2583E9CA, 0x2AD44CE8,
       0xDBBBC2DB, 0x04DE8EF9, 0x2E8EFC14, 0x1FBECAA6, 0x287C5947, 0x4E6BC05D, 0x99B2964F, 0xA090C3A2,
       0x233BA186, 0x515BE7ED, 0x1F612970, 0xCEE2D7AF, 0xB81BDD76, 0x2170481C, 0xD0069127, 0xD5B05AA9,
       0x93B4EA98, 0x8D8FDDC1, 0x86FFB7DC, 0x90A6C08F, 0x4DF435C9, 0x34028492, 0x36C3FAB4, 0xD27C7026,
       0xC1D4DCB2, 0x602646DE, 0xC9751E76, 0x3DBA37BD, 0xF8FF9406, 0xAD9E530E, 0xE5DB382F, 0x413001AE,
       0xB06A53ED, 0x9027D831, 0x179727B0, 0x865A8918, 0xDA3EDBEB, 0xCF9B14ED, 0x44CE6CBA, 0xCED4BB1B,
       0xDB7F1447, 0xE6CC254B, 0x33205151, 0x2BD7AF42, 0x6FB8F401, 0x378CD2BF, 0x5983CA01, 0xC64B92EC,
       0xF032EA15, 0xD1721D03, 0xF482D7CE, 0x6E74FEF6, 0xD55E702F, 0x46980C82, 0xB5A84031, 0x900B1C9E,
       0x59E7C97F, 0xBEC7E8F3, 0x23A97A7E, 0x36CC88BE, 0x0F1D45B7, 0xFF585AC5, 0x4BD407B2, 0x2B4154AA,
       0xCC8F6D7E, 0xBF48E1D8, 0x14CC5ED2, 0x0F8037E0, 0xA79715EE, 0xF29BE328, 0x06A1D58B, 0xB7C5DA76,
       0xF550AA3D, 0x8A1FBFF0, 0xEB19CCB1, 0xA313D55C, 0xDA56C9EC, 0x2EF29632, 0x387FE8D7, 0x6E3C0468,
       0x043E8F66, 0x3F4860EE, 0x12BF2D5B, 0x0B7474D6, 0xE694F91E, 0x6DCC4024, 0xFFFFFFFF, 0xFFFFFFFF
      ]), dg_generator = [2] \<rparr>"

definition DH_GROUP18 :: DhGroup where
  "DH_GROUP18 = \<lparr> dg_prime = concat (map to_be_bytes
      [
       0xFFFFFFFF, 0xFFFFFFFF, 0xC90FDAA2, 0x2168C234, 0xC4C6628B, 0x80DC1CD1, 0x29024E08, 0x8A67CC74,
       0x020BBEA6, 0x3B139B22, 0x514A0879, 0x8E3404DD, 0xEF9519B3, 0xCD3A431B, 0x302B0A6D, 0xF25F1437,
       0x4FE1356D, 0x6D51C245, 0xE485B576, 0x625E7EC6, 0xF44C42E9, 0xA637ED6B, 0x0BFF5CB6, 0xF406B7ED,
       0xEE386BFB, 0x5A899FA5, 0xAE9F2411, 0x7C4B1FE6, 0x49286651, 0xECE45B3D, 0xC2007CB8, 0xA163BF05,
       0x98DA4836, 0x1C55D39A, 0x69163FA8, 0xFD24CF5F, 0x83655D23, 0xDCA3AD96, 0x1C62F356, 0x208552BB,
       0x9ED52907, 0x7096966D, 0x670C354E, 0x4ABC9804, 0xF1746C08, 0xCA18217C, 0x32905E46, 0x2E36CE3B,
       0xE39E772C, 0x180E8603, 0x9B2783A2, 0xEC07A28F, 0xB5C55DF0, 0x6F4C52C9, 0xDE2BCBF6, 0x95581718,
       0x3995497C, 0xEA956AE5, 0x15D22618, 0x98FA0510, 0x15728E5A, 0x8AAAC42D, 0xAD33170D, 0x04507A33,
       0xA85521AB, 0xDF1CBA64, 0xECFB8504, 0x58DBEF0A, 0x8AEA7157, 0x5D060C7D, 0xB3970F85, 0xA6E1E4C7,
       0xABF5AE8C, 0xDB0933D7, 0x1E8C94E0, 0x4A25619D, 0xCEE3D226, 0x1AD2EE6B, 0xF12FFA06, 0xD98A0864,
       0xD8760273, 0x3EC86A64, 0x521F2B18, 0x177B200C, 0xBBE11757, 0x7A615D6C, 0x770988C0, 0xBAD946E2,
       0x08E24FA0, 0x74E5AB31, 0x43DB5BFC, 0xE0FD108E, 0x4B82D120, 0xA9210801, 0x1A723C12, 0xA787E6D7,
       0x88719A10, 0xBDBA5B26, 0x99C32718, 0x6AF4E23C, 0x1A946834, 0xB6150BDA, 0x2583E9CA, 0x2AD44CE8,
       0xDBBBC2DB, 0x04DE8EF9, 0x2E8EFC14, 0x1FBECAA6, 0x287C5947, 0x4E6BC05D, 0x99B2964F, 0xA090C3A2,
       0x233BA186, 0x515BE7ED, 0x1F612970, 0xCEE2D7AF, 0xB81BDD76, 0x2170481C, 0xD0069127, 0xD5B05AA9,
       0x93B4EA98, 0x8D8FDDC1, 0x86FFB7DC, 0x90A6C08F, 0x4DF435C9, 0x34028492, 0x36C3FAB4, 0xD27C7026,
       0xC1D4DCB2, 0x602646DE, 0xC9751E76, 0x3DBA37BD, 0xF8FF9406, 0xAD9E530E, 0xE5DB382F, 0x413001AE,
       0xB06A53ED, 0x9027D831, 0x179727B0, 0x865A8918, 0xDA3EDBEB, 0xCF9B14ED, 0x44CE6CBA, 0xCED4BB1B,
       0xDB7F1447, 0xE6CC254B, 0x33205151, 0x2BD7AF42, 0x6FB8F401, 0x378CD2BF, 0x5983CA01, 0xC64B92EC,
       0xF032EA15, 0xD1721D03, 0xF482D7CE, 0x6E74FEF6, 0xD55E702F, 0x46980C82, 0xB5A84031, 0x900B1C9E,
       0x59E7C97F, 0xBEC7E8F3, 0x23A97A7E, 0x36CC88BE, 0x0F1D45B7, 0xFF585AC5, 0x4BD407B2, 0x2B4154AA,
       0xCC8F6D7E, 0xBF48E1D8, 0x14CC5ED2, 0x0F8037E0, 0xA79715EE, 0xF29BE328, 0x06A1D58B, 0xB7C5DA76,
       0xF550AA3D, 0x8A1FBFF0, 0xEB19CCB1, 0xA313D55C, 0xDA56C9EC, 0x2EF29632, 0x387FE8D7, 0x6E3C0468,
       0x043E8F66, 0x3F4860EE, 0x12BF2D5B, 0x0B7474D6, 0xE694F91E, 0x6DBE1159, 0x74A3926F, 0x12FEE5E4,
       0x38777CB6, 0xA932DF8C, 0xD8BEC4D0, 0x73B931BA, 0x3BC832B6, 0x8D9DD300, 0x741FA7BF, 0x8AFC47ED,
       0x2576F693, 0x6BA42466, 0x3AAB639C, 0x5AE4F568, 0x3423B474, 0x2BF1C978, 0x238F16CB, 0xE39D652D,
       0xE3FDB8BE, 0xFC848AD9, 0x22222E04, 0xA4037C07, 0x13EB57A8, 0x1A23F0C7, 0x3473FC64, 0x6CEA306B,
       0x4BCBC886, 0x2F8385DD, 0xFA9D4B7F, 0xA2C087E8, 0x79683303, 0xED5BDD3A, 0x062B3CF5, 0xB3A278A6,
       0x6D2A13F8, 0x3F44F82D, 0xDF310EE0, 0x74AB6A36, 0x4597E899, 0xA0255DC1, 0x64F31CC5, 0x0846851D,
       0xF9AB4819, 0x5DED7EA1, 0xB1D510BD, 0x7EE74D73, 0xFAF36BC3, 0x1ECFA268, 0x359046F4, 0xEB879F92,
       0x4009438B, 0x481C6CD7, 0x889A002E, 0xD5EE382B, 0xC9190DA6, 0xFC026E47, 0x9558E447, 0x5677E9AA,
       0x9E3050E2, 0x765694DF, 0xC81F56E8, 0x80B96E71, 0x60C980DD, 0x98EDD3DF, 0xFFFFFFFF, 0xFFFFFFFF
      ]), dg_generator = [2] \<rparr>"

definition BUILTIN_SAFE_DH_GROUPS :: "DhGroup list" where
  "BUILTIN_SAFE_DH_GROUPS = [DH_GROUP14, DH_GROUP16]"

section \<open>Group exchange parameters\<close>

record GexParams =
  min_group_size :: nat
  preferred_group_size :: nat
  max_group_size :: nat

datatype ValidationKind = ClientConfig | PeerRequest

definition gex_validate :: "GexParams \<Rightarrow> ValidationKind \<Rightarrow> unit res" where
  "gex_validate g kind =
     (if kind = ClientConfig \<and> min_group_size g < 2048
      then Inl (E_InvalidConfig (str ''min_group_size must be at least 2048 bits. We got '' @
             show_nat (min_group_size g) @ str '' bits''))
      else if kind = PeerRequest \<and> max_group_size g < 2048
      then Inl (E_InvalidConfig (str ''max_group_size must be at least 2048 bits. We got '' @
             show_nat (max_group_size g) @ str '' bits''))
      else if preferred_group_size g < min_group_size g
      then Inl (E_InvalidConfig
             (str ''preferred_group_size must be at least as large as min_group_size. We have preferred_group_size = '' @
              show_nat (preferred_group_size g) @ str '' < min_group_size = '' @
              show_nat (min_group_size g)))
      else if max_group_size g < preferred_group_size g
      then Inl (E_InvalidConfig
             (str ''max_group_size must be at least as large as preferred_group_size. We have max_group_size = '' @
              show_nat (max_group_size g) @ str '' < preferred_group_size = '' @
              show_nat (preferred_group_size g)))
      else Inr ())"

definition gex_build :: "nat \<Rightarrow> nat \<Rightarrow> nat \<Rightarrow> ValidationKind \<Rightarrow> GexParams res" where
  "gex_build mn preferred mx kind =
     (let this = \<lparr> min_group_size = mn, preferred_group_size = preferred, max_group_size = mx \<rparr>
      in bindR (gex_validate this kind) (\<lambda>_. Inr this))"

definition gex_for_client_config :: "nat \<Rightarrow> nat \<Rightarrow> nat \<Rightarrow> GexParams res" where
  "gex_for_client_config mn preferred mx = gex_build mn preferred mx ClientConfig"

definition gex_from_peer_request :: "nat \<Rightarrow> nat \<Rightarrow> nat \<Rightarrow> GexParams res" where
  "gex_from_peer_request mn preferred mx = gex_build mn preferred mx PeerRequest"

definition GexParams_default :: GexParams where
  "GexParams_default = \<lparr> min_group_size = 3072, preferred_group_size = 8192, max_group_size = 8192 \<rparr>"

definition gex_encode :: "codec \<Rightarrow> GexParams \<Rightarrow> bytes" where
  "gex_encode C g =
     u32_encode C (of_nat (min_group_size g)) @ u32_encode C (of_nat (preferred_group_size g)) @
     u32_encode C (of_nat (max_group_size g))"

definition gex_decode :: "codec \<Rightarrow> bytes \<Rightarrow> (GexParams \<times> bytes) res" where
  "gex_decode C r =
     bindR (d_u32 C r) (\<lambda>(mn, r).
     bindR (d_u32 C r) (\<lambda>(preferred, r).
     bindR (d_u32 C r) (\<lambda>(mx, r).
     bindR (gex_from_peer_request (unat mn) (unat preferred) (unat mx)) (\<lambda>g. Inr (g, r)))))"

text \<open>The default body of the handler's \<open>lookup_dh_gex_group\<close>: two passes over the built-in groups.\<close>

definition lookup_dh_gex_group :: "GexParams \<Rightarrow> DhGroup option" where
  "lookup_dh_gex_group gex_params =
     (let best_group =
            (case find (\<lambda>g. min_group_size gex_params \<le> bit_size g \<and>
                            bit_size g \<le> max_group_size gex_params) BUILTIN_SAFE_DH_GROUPS of
               Some g \<Rightarrow> g | None \<Rightarrow> DH_GROUP14);
          best_group =
            (case find (\<lambda>g. preferred_group_size gex_params < bit_size g) BUILTIN_SAFE_DH_GROUPS of
               Some g \<Rightarrow> g | None \<Rightarrow> best_group)
      in Some best_group)"

section \<open>Lemmas\<close>

lemma bit_size_hd: "dg_prime g = b # bs \<Longrightarrow> b \<noteq> 0 \<Longrightarrow> bit_size g = 8 * length (dg_prime g)"
  by (simp add: bit_size_def)

lemma length_concat_be: "length (concat (map to_be_bytes ws)) = 4 * length ws"
  by (induction ws) (simp_all add: to_be_bytes_def)

lemma to_be_bytes_max: "to_be_bytes 0xFFFFFFFF = [0xFF, 0xFF, 0xFF, 0xFF]"
  by (simp add: to_be_bytes_def)

lemma group_sizes: "bit_size DH_GROUP14 = 2048" "bit_size DH_GROUP16 = 4096"
  by (simp_all add: bit_size_def DH_GROUP14_def DH_GROUP16_def to_be_bytes_max length_concat_be)

lemma gex_from_peer_request_iff:
  "gex_from_peer_request mn pref mx = Inr g \<longleftrightarrow>
     g = \<lparr> min_group_size = mn, preferred_group_size = pref, max_group_size = mx \<rparr> \<and>
     2048 \<le> mx \<and> mn \<le> pref \<and> pref \<le> mx"
  by (auto simp: gex_from_peer_request_def gex_build_def gex_validate_def Let_def)

context ssh_codec
begin

lemma gex_decode_encode:
  assumes "min_group_size g < 2 ^ 32" "preferred_group_size g < 2 ^ 32" "max_group_size g < 2 ^ 32"
  shows "gex_decode C (gex_encode C g @ r) =
    bindR (gex_from_peer_request (min_group_size g) (preferred_group_size g) (max_group_size g)) (\<lambda>g. Inr (g, r))"
  using assms by (simp add: gex_decode_def gex_encode_def unat_of_nat)

end

section \<open>Properties\<close>

text \<open>
  C40. A group exchange request that passes validation, asks for at least 2048 bits and for at most fewer
  than 4096, is answered by the default handler with the 4096-bit group, which lies
  above the requested maximum although the built-in 2048-bit group lies inside the requested range.
\<close>

theorem default_group_exceeds_maximum:
  assumes "gex_from_peer_request mn pref mx = Inr g" "mn \<le> 2048" "2048 \<le> pref" "mx < 4096"
  shows "\<exists>group. lookup_dh_gex_group g = Some group \<and> max_group_size g < bit_size group \<and>
    min_group_size g \<le> bit_size DH_GROUP14 \<and> bit_size DH_GROUP14 \<le> max_group_size g"
  using assms
  by (auto simp: gex_from_peer_request_iff lookup_dh_gex_group_def BUILTIN_SAFE_DH_GROUPS_def group_sizes)

theorem default_group_exceeds_maximum_witness:
  "\<exists>group. lookup_dh_gex_group \<lparr> min_group_size = 2048, preferred_group_size = 2048, max_group_size = 3072 \<rparr> =
     Some group \<and> 3072 < bit_size group"
  using default_group_exceeds_maximum [of 2048 2048 3072
      "\<lparr> min_group_size = 2048, preferred_group_size = 2048, max_group_size = 3072 \<rparr>"]
  by (simp add: gex_from_peer_request_iff) blast

end
