(* ===== verification/KexAlgs.thy ===== *)
theory KexAlgs
  imports DhGroups
begin

text \<open>
  The key exchange methods: finite-field Diffie-Hellman (\<open>kex/dh/mod.rs\<close>, \<open>kex/dh/groups.rs\<close>), Curve25519
  (\<open>kex/curve25519.rs\<close>), the NIST curves (\<open>kex/ecdh_nistp.rs\<close>), the ML-KEM hybrid
  (\<open>kex/hybrid_mlkem.rs\<close>) and \<open>none\<close> (\<open>kex/none.rs\<close>), and the trait that dispatches on them
  (\<open>kex/mod.rs\<close>). Number, curve, KEM and hash packages are the record \<open>kexlib\<close>; the random bytes
  an operation draws are arguments. The trait's contract is the locale \<open>kex_method\<close>: when the server accepts
  the client's message, the client accepts the server's ephemeral value and both hold the same secret.
\<close>

section \<open>The packages\<close>

datatype kex_hash = KH_Sha1 | KH_Sha256 | KH_Sha384 | KH_Sha512

datatype nist_curve = NistP256 | NistP384 | NistP521

record kexlib =
  digest :: "kex_hash \<Rightarrow> bytes \<Rightarrow> bytes"
  big_from_bytes_be :: "bytes \<Rightarrow> nat"
  big_to_bytes_be :: "nat \<Rightarrow> bytes"
  big_modpow :: "nat \<Rightarrow> nat \<Rightarrow> nat \<Rightarrow> nat"
  random_biguint_range :: "bytes \<Rightarrow> nat \<Rightarrow> nat \<Rightarrow> nat"
  x25519_public :: "bytes \<Rightarrow> bytes"
  x25519_mult :: "bytes \<Rightarrow> bytes \<Rightarrow> bytes"
  ec_public :: "nist_curve \<Rightarrow> bytes \<Rightarrow> bytes"
  ec_from_sec1 :: "nist_curve \<Rightarrow> bytes \<Rightarrow> bytes option"
  ec_diffie_hellman :: "nist_curve \<Rightarrow> bytes \<Rightarrow> bytes \<Rightarrow> bytes"
  kem_generate :: "bytes \<Rightarrow> bytes \<times> bytes"
  kem_public_ok :: "bytes \<Rightarrow> bool"
  kem_encapsulate :: "bytes \<Rightarrow> bytes \<Rightarrow> bytes \<times> bytes"
  kem_decapsulate :: "bytes \<Rightarrow> bytes \<Rightarrow> bytes"

record Exchange =
  client_id :: bytes
  server_id :: bytes
  client_kex_init :: bytes
  server_kex_init :: bytes
  client_ephemeral :: bytes
  server_ephemeral :: bytes
  gex :: "(GexParams \<times> DhGroup) option"

definition Exchange_new :: "bytes \<Rightarrow> bytes \<Rightarrow> Exchange" where
  "Exchange_new cid sid =
     \<lparr> client_id = cid, server_id = sid, client_kex_init = [], server_kex_init = [],
       client_ephemeral = [], server_ephemeral = [], gex = None \<rparr>"

type_synonym randomness = "bytes \<times> bytes"

section \<open>Finite-field Diffie-Hellman\<close>

record DH =
  dh_prime_num :: nat
  dh_generator :: nat
  dh_private_key :: nat
  dh_public_key :: nat
  dh_shared_secret :: nat

definition DH_new :: "kexlib \<Rightarrow> DhGroup \<Rightarrow> DH" where
  "DH_new L grp =
     \<lparr> dh_prime_num = big_from_bytes_be L (dg_prime grp),
       dh_generator = big_from_bytes_be L (dg_generator grp),
       dh_private_key = 0, dh_public_key = 0, dh_shared_secret = 0 \<rparr>"

text \<open>Subtracting one from the prime panics when it is zero; an empty range to draw from panics too.\<close>

definition prime_minus_one :: "DH \<Rightarrow> nat res" where
  "prime_minus_one dh = (if dh_prime_num dh = 0 then Inl Panicked else Inr (dh_prime_num dh - 1))"

definition generate_private_key :: "kexlib \<Rightarrow> bytes \<Rightarrow> bool \<Rightarrow> DH \<Rightarrow> DH res" where
  "generate_private_key L rnd is_server dh =
     bindR (prime_minus_one dh) (\<lambda>p1.
       (let q = p1 div 2; lo = (if is_server then 1 else 2) in
        if lo < q then Inr (dh\<lparr> dh_private_key := random_biguint_range L rnd lo q \<rparr>)
        else Inl Panicked))"

definition dh_modpow :: "kexlib \<Rightarrow> DH \<Rightarrow> nat \<Rightarrow> nat res" where
  "dh_modpow L dh base =
     (if dh_prime_num dh = 0 then Inl Panicked
      else Inr (big_modpow L base (dh_private_key dh) (dh_prime_num dh)))"

definition generate_public_key :: "kexlib \<Rightarrow> DH \<Rightarrow> DH res" where
  "generate_public_key L dh =
     bindR (dh_modpow L dh (dh_generator dh)) (\<lambda>y. Inr (dh\<lparr> dh_public_key := y \<rparr>))"

definition dh_compute_shared_secret :: "kexlib \<Rightarrow> nat \<Rightarrow> DH \<Rightarrow> DH res" where
  "dh_compute_shared_secret L other dh =
     bindR (dh_modpow L dh other) (\<lambda>y. Inr (dh\<lparr> dh_shared_secret := y \<rparr>))"

definition validate_shared_secret :: "DH \<Rightarrow> nat \<Rightarrow> bool res" where
  "validate_shared_secret dh shared = bindR (prime_minus_one dh) (\<lambda>p1. Inr (1 < shared \<and> shared < p1))"

definition validate_public_key :: "DH \<Rightarrow> nat \<Rightarrow> bool res" where
  "validate_public_key dh y = bindR (prime_minus_one dh) (\<lambda>p1. Inr (1 < y \<and> y < p1))"

definition biguint_to_mpint :: "kexlib \<Rightarrow> nat \<Rightarrow> bytes" where
  "biguint_to_mpint L n =
     (let bs = big_to_bytes_be L n in
      (case bs of b # _ \<Rightarrow> if 0x7F < b then [0] else [] | [] \<Rightarrow> []) @ bs)"

record DhGroupKex =
  dhk_dh :: "DH option"
  dhk_shared_secret :: "bytes option"
  dhk_is_dh_gex :: bool

definition DhGroupKex_new :: "kexlib \<Rightarrow> DhGroup option \<Rightarrow> DhGroupKex" where
  "DhGroupKex_new L grp =
     \<lparr> dhk_dh = map_option (DH_new L) grp, dhk_shared_secret = None, dhk_is_dh_gex = (grp = None) \<rparr>"

text \<open>A check that turns a failed validation into an error.\<close>

definition require :: "bool res \<Rightarrow> error \<Rightarrow> unit res" where
  "require c e = bindR c (\<lambda>b. if b then Inr () else Inl e)"

definition dhk_gex_init :: "codec \<Rightarrow> GexParams \<Rightarrow> bytes" where
  "dhk_gex_init C g =
     KEX_DH_GEX_REQUEST # u32_encode C (of_nat (min_group_size g)) @
     u32_encode C (of_nat (preferred_group_size g)) @ u32_encode C (of_nat (max_group_size g))"

definition dhk_set_group :: "kexlib \<Rightarrow> DhGroup \<Rightarrow> DhGroupKex \<Rightarrow> DhGroupKex" where
  "dhk_set_group L grp k = k\<lparr> dhk_dh := Some (DH_new L grp) \<rparr>"

text \<open>The length field of an init message; reading it panics on fewer than four bytes.\<close>

definition init_pubkey_len :: "codec \<Rightarrow> bytes \<Rightarrow> nat res" where
  "init_pubkey_len C payload =
     (if length payload < 5 then Inl Panicked else Inr (unat (be_read_u32 C (drop 1 payload))))"

definition dhk_server_dh ::
  "kexlib \<Rightarrow> codec \<Rightarrow> bytes \<Rightarrow> DhGroupKex \<Rightarrow> Exchange \<Rightarrow> bytes \<Rightarrow> (DhGroupKex \<times> Exchange) res" where
  "dhk_server_dh L C rnd k ex payload =
     bindR (ok_or E_Inconsistent (dhk_dh k)) (\<lambda>dh.
     if take 1 payload \<noteq> [KEX_ECDH_INIT] \<and> take 1 payload \<noteq> [KEX_DH_GEX_INIT] then Inl E_Inconsistent
     else bindR (init_pubkey_len C payload) (\<lambda>pubkey_len.
     if length payload < 5 + pubkey_len then Inl E_Inconsistent
     else (let client_pubkey = take pubkey_len (drop 5 payload) in
     bindR (generate_private_key L rnd True dh) (\<lambda>dh.
     bindR (generate_public_key L dh) (\<lambda>dh.
     bindR (require (validate_public_key dh (dh_public_key dh)) E_Inconsistent) (\<lambda>_.
     (let ex = ex\<lparr> server_ephemeral := biguint_to_mpint L (dh_public_key dh) \<rparr>;
          decoded_client_pubkey = big_from_bytes_be L client_pubkey in
     bindR (require (validate_public_key dh decoded_client_pubkey) E_Inconsistent) (\<lambda>_.
     bindR (dh_compute_shared_secret L decoded_client_pubkey dh) (\<lambda>dh.
     bindR (require (validate_shared_secret dh (dh_shared_secret dh)) E_Inconsistent) (\<lambda>_.
       Inr (k\<lparr> dhk_dh := Some dh,
               dhk_shared_secret := Some (biguint_to_mpint L (dh_shared_secret dh)) \<rparr>, ex)))))))))))"

definition dhk_client_dh ::
  "kexlib \<Rightarrow> codec \<Rightarrow> bytes \<Rightarrow> DhGroupKex \<Rightarrow> (DhGroupKex \<times> bytes \<times> bytes) res" where
  "dhk_client_dh L C rnd k =
     bindR (ok_or E_Inconsistent (dhk_dh k)) (\<lambda>dh.
     bindR (generate_private_key L rnd False dh) (\<lambda>dh.
     bindR (generate_public_key L dh) (\<lambda>dh.
     bindR (require (validate_public_key dh (dh_public_key dh)) E_Inconsistent) (\<lambda>_.
     (let encoded_pubkey = biguint_to_mpint L (dh_public_key dh) in
      Inr (k\<lparr> dhk_dh := Some dh \<rparr>, encoded_pubkey,
           (if dhk_is_dh_gex k then KEX_DH_GEX_INIT else KEX_ECDH_INIT) #
           bytes_encode C encoded_pubkey))))))"

definition dhk_compute_shared_secret :: "kexlib \<Rightarrow> bytes \<Rightarrow> DhGroupKex \<Rightarrow> DhGroupKex res" where
  "dhk_compute_shared_secret L remote k =
     bindR (ok_or E_Inconsistent (dhk_dh k)) (\<lambda>dh.
     (let remote_pubkey = big_from_bytes_be L remote in
     bindR (require (validate_public_key dh remote_pubkey) E_Inconsistent) (\<lambda>_.
     bindR (dh_compute_shared_secret L remote_pubkey dh) (\<lambda>dh.
     bindR (require (validate_shared_secret dh (dh_shared_secret dh)) E_Inconsistent) (\<lambda>_.
       Inr (k\<lparr> dhk_dh := Some dh,
               dhk_shared_secret := Some (biguint_to_mpint L (dh_shared_secret dh)) \<rparr>))))))"

text \<open>The part of the exchange hash every method starts with.\<close>

definition exchange_prefix :: "codec \<Rightarrow> bytes \<Rightarrow> Exchange \<Rightarrow> bytes" where
  "exchange_prefix C key ex =
     bytes_encode C (client_id ex) @ bytes_encode C (server_id ex) @
     bytes_encode C (client_kex_init ex) @ bytes_encode C (server_kex_init ex) @ key"

definition exchange_ephemerals :: "codec \<Rightarrow> Exchange \<Rightarrow> bytes" where
  "exchange_ephemerals C ex =
     bytes_encode C (client_ephemeral ex) @ bytes_encode C (server_ephemeral ex)"

definition dhk_exchange_hash :: "kexlib \<Rightarrow> codec \<Rightarrow> kex_hash \<Rightarrow> DhGroupKex \<Rightarrow> bytes \<Rightarrow> Exchange \<Rightarrow> bytes" where
  "dhk_exchange_hash L C h k key ex =
     digest L h (exchange_prefix C key ex @
       (case gex ex of
          Some (gex_params, dh_group) \<Rightarrow>
            gex_encode C gex_params @
            bytes_encode C (biguint_to_mpint L (big_from_bytes_be L (dg_prime dh_group))) @
            bytes_encode C (biguint_to_mpint L (big_from_bytes_be L (dg_generator dh_group)))
        | None \<Rightarrow> []) @
       exchange_ephemerals C ex @
       (case dhk_shared_secret k of Some shared \<Rightarrow> bytes_encode C shared | None \<Rightarrow> []))"

section \<open>Curve25519\<close>

record Curve25519Kex =
  cvk_local_secret :: "bytes option"
  cvk_shared_secret :: "bytes option"

definition zero_point :: bytes where
  "zero_point = replicate 32 0"

definition cvk_server_dh ::
  "kexlib \<Rightarrow> codec \<Rightarrow> bytes \<Rightarrow> Curve25519Kex \<Rightarrow> Exchange \<Rightarrow> bytes \<Rightarrow> (Curve25519Kex \<times> Exchange) res" where
  "cvk_server_dh L C rnd k ex payload =
     (if take 1 payload \<noteq> [KEX_ECDH_INIT] then Inl E_Inconsistent
      else bindR (init_pubkey_len C payload) (\<lambda>pubkey_len.
      if pubkey_len \<noteq> 32 then Inl E_Kex
      else if length payload < 5 + pubkey_len then Inl E_Inconsistent
      else (let client_pubkey = take 32 (drop 5 payload) in
      if client_pubkey = zero_point then Inl E_Kex
      else Inr (k\<lparr> cvk_shared_secret := Some (x25519_mult L rnd client_pubkey) \<rparr>,
                ex\<lparr> server_ephemeral := x25519_public L rnd \<rparr>))))"

definition cvk_client_dh ::
  "kexlib \<Rightarrow> codec \<Rightarrow> bytes \<Rightarrow> Curve25519Kex \<Rightarrow> (Curve25519Kex \<times> bytes \<times> bytes) res" where
  "cvk_client_dh L C rnd k =
     Inr (k\<lparr> cvk_local_secret := Some rnd \<rparr>, x25519_public L rnd,
          KEX_ECDH_INIT # bytes_encode C (x25519_public L rnd))"

definition cvk_compute_shared_secret :: "kexlib \<Rightarrow> bytes \<Rightarrow> Curve25519Kex \<Rightarrow> Curve25519Kex res" where
  "cvk_compute_shared_secret L remote k =
     bindR (ok_or E_KexInit (cvk_local_secret k)) (\<lambda>local_secret.
     if length remote \<noteq> 32 then Inl E_Kex
     else if remote = zero_point then Inl E_Kex
     else Inr (k\<lparr> cvk_local_secret := None,
                  cvk_shared_secret := Some (x25519_mult L local_secret remote) \<rparr>))"

definition mpint_exchange_hash ::
  "kexlib \<Rightarrow> codec \<Rightarrow> kex_hash \<Rightarrow> bytes option \<Rightarrow> bytes \<Rightarrow> Exchange \<Rightarrow> bytes" where
  "mpint_exchange_hash L C h shared_secret key ex =
     digest L h (exchange_prefix C key ex @ exchange_ephemerals C ex @
       (case shared_secret of Some shared \<Rightarrow> encode_mpint C shared | None \<Rightarrow> []))"

section \<open>The NIST curves\<close>

record EcdhNistPKex =
  eck_local_secret :: "bytes option"
  eck_shared_secret :: "bytes option"

definition eck_server_dh ::
  "kexlib \<Rightarrow> codec \<Rightarrow> nist_curve \<Rightarrow> bytes \<Rightarrow> EcdhNistPKex \<Rightarrow> Exchange \<Rightarrow> bytes \<Rightarrow> (EcdhNistPKex \<times> Exchange) res" where
  "eck_server_dh L C cv rnd k ex payload =
     (if take 1 payload \<noteq> [KEX_ECDH_INIT] then Inl E_Inconsistent
      else bindR (init_pubkey_len C payload) (\<lambda>pubkey_len.
      if length payload < 5 + pubkey_len then Inl E_Inconsistent
      else bindR (ok_or E_Inconsistent (ec_from_sec1 L cv (take pubkey_len (drop 5 payload)))) (\<lambda>client_pubkey.
      Inr (k\<lparr> eck_shared_secret := Some (ec_diffie_hellman L cv rnd client_pubkey) \<rparr>,
           ex\<lparr> server_ephemeral := ec_public L cv rnd \<rparr>))))"

definition eck_client_dh ::
  "kexlib \<Rightarrow> codec \<Rightarrow> nist_curve \<Rightarrow> bytes \<Rightarrow> EcdhNistPKex \<Rightarrow> (EcdhNistPKex \<times> bytes \<times> bytes) res" where
  "eck_client_dh L C cv rnd k =
     Inr (k\<lparr> eck_local_secret := Some rnd \<rparr>, ec_public L cv rnd,
          KEX_ECDH_INIT # bytes_encode C (ec_public L cv rnd))"

definition eck_compute_shared_secret ::
  "kexlib \<Rightarrow> nist_curve \<Rightarrow> bytes \<Rightarrow> EcdhNistPKex \<Rightarrow> EcdhNistPKex res" where
  "eck_compute_shared_secret L cv remote k =
     bindR (ok_or E_KexInit (eck_local_secret k)) (\<lambda>local_secret.
     bindR (ok_or E_KexInit (ec_from_sec1 L cv remote)) (\<lambda>pubkey.
       Inr (k\<lparr> eck_local_secret := None,
               eck_shared_secret := Some (ec_diffie_hellman L cv local_secret pubkey) \<rparr>)))"

section \<open>The ML-KEM hybrid\<close>

definition MLKEM768_PUBLIC_KEY_SIZE :: nat where "MLKEM768_PUBLIC_KEY_SIZE = 1184"
definition MLKEM768_CIPHERTEXT_SIZE :: nat where "MLKEM768_CIPHERTEXT_SIZE = 1088"
definition X25519_PUBLIC_KEY_SIZE :: nat where "X25519_PUBLIC_KEY_SIZE = 32"

record MlKem768X25519Kex =
  mlkem_secret :: "bytes option"
  x25519_secret :: "bytes option"
  k_pq :: "bytes option"
  k_cl :: "bytes option"

definition mlk_server_dh ::
  "kexlib \<Rightarrow> codec \<Rightarrow> randomness \<Rightarrow> MlKem768X25519Kex \<Rightarrow> Exchange \<Rightarrow> bytes \<Rightarrow>
     (MlKem768X25519Kex \<times> Exchange) res" where
  "mlk_server_dh L C rnd k ex payload =
     (if take 1 payload \<noteq> [KEX_HYBRID_INIT] then Inl E_Inconsistent
      else bindR (init_pubkey_len C payload) (\<lambda>c_init_len.
      if length payload < 5 + c_init_len then Inl E_Inconsistent
      else if c_init_len \<noteq> MLKEM768_PUBLIC_KEY_SIZE + X25519_PUBLIC_KEY_SIZE then Inl E_Kex
      else (let c_init = take c_init_len (drop 5 payload);
                c_pk2 = take MLKEM768_PUBLIC_KEY_SIZE c_init;
                c_pk1 = drop MLKEM768_PUBLIC_KEY_SIZE c_init in
      if \<not> kem_public_ok L c_pk2 then Inl E_Kex
      else (let (s_ct2, k_pq_shared_secret) = kem_encapsulate L (fst rnd) c_pk2 in
      Inr (k\<lparr> k_pq := Some k_pq_shared_secret, k_cl := Some (x25519_mult L (snd rnd) c_pk1) \<rparr>,
           ex\<lparr> server_ephemeral := s_ct2 @ x25519_public L (snd rnd) \<rparr>)))))"

definition mlk_client_dh ::
  "kexlib \<Rightarrow> codec \<Rightarrow> randomness \<Rightarrow> MlKem768X25519Kex \<Rightarrow> (MlKem768X25519Kex \<times> bytes \<times> bytes) res" where
  "mlk_client_dh L C rnd k =
     (let (sk, pk) = kem_generate L (fst rnd); c_init = pk @ x25519_public L (snd rnd) in
      Inr (k\<lparr> mlkem_secret := Some sk, x25519_secret := Some (snd rnd) \<rparr>, c_init,
           KEX_HYBRID_INIT # bytes_encode C c_init))"

definition mlk_compute_shared_secret :: "kexlib \<Rightarrow> bytes \<Rightarrow> MlKem768X25519Kex \<Rightarrow> MlKem768X25519Kex res" where
  "mlk_compute_shared_secret L remote k =
     (if length remote \<noteq> MLKEM768_CIPHERTEXT_SIZE + X25519_PUBLIC_KEY_SIZE then Inl E_Kex
      else (let s_ct2 = take MLKEM768_CIPHERTEXT_SIZE remote; s_pk1 = drop MLKEM768_CIPHERTEXT_SIZE remote in
      bindR (ok_or E_KexInit (mlkem_secret k)) (\<lambda>sk.
      bindR (ok_or E_KexInit (x25519_secret k)) (\<lambda>xs.
        Inr \<lparr> mlkem_secret = None, x25519_secret = None, k_pq = Some (kem_decapsulate L sk s_ct2),
              k_cl = Some (x25519_mult L xs s_pk1) \<rparr>))))"

definition mlk_combined :: "kexlib \<Rightarrow> MlKem768X25519Kex \<Rightarrow> bytes res" where
  "mlk_combined L k =
     bindR (ok_or E_KexInit (k_pq k)) (\<lambda>pq.
     bindR (ok_or E_KexInit (k_cl k)) (\<lambda>cl. Inr (digest L KH_Sha256 (pq @ cl))))"

definition mlk_exchange_hash ::
  "kexlib \<Rightarrow> codec \<Rightarrow> MlKem768X25519Kex \<Rightarrow> bytes \<Rightarrow> Exchange \<Rightarrow> bytes res" where
  "mlk_exchange_hash L C k key ex =
     bindR (mlk_combined L k) (\<lambda>kk.
       Inr (digest L KH_Sha256 (exchange_prefix C key ex @ exchange_ephemerals C ex @ bytes_encode C kk)))"

section \<open>Dispatch\<close>

datatype KexAlgorithm =
    KA_DhGroup kex_hash DhGroupKex
  | KA_Curve25519 Curve25519Kex
  | KA_EcdhNistP nist_curve EcdhNistPKex
  | KA_MlKem768X25519 MlKem768X25519Kex
  | KA_None

fun skip_exchange :: "KexAlgorithm \<Rightarrow> bool" where
  "skip_exchange KA_None = True"
| "skip_exchange _ = False"

fun is_dh_gex :: "KexAlgorithm \<Rightarrow> bool" where
  "is_dh_gex (KA_DhGroup h k) = dhk_is_dh_gex k"
| "is_dh_gex _ = False"

fun client_dh_gex_init :: "codec \<Rightarrow> GexParams \<Rightarrow> KexAlgorithm \<Rightarrow> bytes res" where
  "client_dh_gex_init C g (KA_DhGroup h k) = Inr (dhk_gex_init C g)"
| "client_dh_gex_init C g _ = Inl E_KexInit"

fun dh_gex_set_group :: "kexlib \<Rightarrow> DhGroup \<Rightarrow> KexAlgorithm \<Rightarrow> KexAlgorithm res" where
  "dh_gex_set_group L grp (KA_DhGroup h k) = Inr (KA_DhGroup h (dhk_set_group L grp k))"
| "dh_gex_set_group L grp _ = Inl E_KexInit"

fun server_dh ::
  "kexlib \<Rightarrow> codec \<Rightarrow> randomness \<Rightarrow> KexAlgorithm \<Rightarrow> Exchange \<Rightarrow> bytes \<Rightarrow> (KexAlgorithm \<times> Exchange) res" where
  "server_dh L C rnd (KA_DhGroup h k) ex payload =
     bindR (dhk_server_dh L C (fst rnd) k ex payload) (\<lambda>(k, ex). Inr (KA_DhGroup h k, ex))"
| "server_dh L C rnd (KA_Curve25519 k) ex payload =
     bindR (cvk_server_dh L C (fst rnd) k ex payload) (\<lambda>(k, ex). Inr (KA_Curve25519 k, ex))"
| "server_dh L C rnd (KA_EcdhNistP cv k) ex payload =
     bindR (eck_server_dh L C cv (fst rnd) k ex payload) (\<lambda>(k, ex). Inr (KA_EcdhNistP cv k, ex))"
| "server_dh L C rnd (KA_MlKem768X25519 k) ex payload =
     bindR (mlk_server_dh L C rnd k ex payload) (\<lambda>(k, ex). Inr (KA_MlKem768X25519 k, ex))"
| "server_dh L C rnd KA_None ex payload = Inr (KA_None, ex)"

text \<open>\<open>client_dh\<close> returns the new state, the new client ephemeral value and the message; \<open>none\<close> leaves the value \<open>eph\<close> alone.\<close>

fun client_dh ::
  "kexlib \<Rightarrow> codec \<Rightarrow> randomness \<Rightarrow> bytes \<Rightarrow> KexAlgorithm \<Rightarrow> (KexAlgorithm \<times> bytes \<times> bytes) res" where
  "client_dh L C rnd eph (KA_DhGroup h k) =
     bindR (dhk_client_dh L C (fst rnd) k) (\<lambda>(k, r). Inr (KA_DhGroup h k, r))"
| "client_dh L C rnd eph (KA_Curve25519 k) =
     bindR (cvk_client_dh L C (fst rnd) k) (\<lambda>(k, r). Inr (KA_Curve25519 k, r))"
| "client_dh L C rnd eph (KA_EcdhNistP cv k) =
     bindR (eck_client_dh L C cv (fst rnd) k) (\<lambda>(k, r). Inr (KA_EcdhNistP cv k, r))"
| "client_dh L C rnd eph (KA_MlKem768X25519 k) =
     bindR (mlk_client_dh L C rnd k) (\<lambda>(k, r). Inr (KA_MlKem768X25519 k, r))"
| "client_dh L C rnd eph KA_None = Inr (KA_None, eph, [])"

fun compute_shared_secret :: "kexlib \<Rightarrow> bytes \<Rightarrow> KexAlgorithm \<Rightarrow> KexAlgorithm res" where
  "compute_shared_secret L remote (KA_DhGroup h k) =
     bindR (dhk_compute_shared_secret L remote k) (\<lambda>k. Inr (KA_DhGroup h k))"
| "compute_shared_secret L remote (KA_Curve25519 k) =
     bindR (cvk_compute_shared_secret L remote k) (\<lambda>k. Inr (KA_Curve25519 k))"
| "compute_shared_secret L remote (KA_EcdhNistP cv k) =
     bindR (eck_compute_shared_secret L cv remote k) (\<lambda>k. Inr (KA_EcdhNistP cv k))"
| "compute_shared_secret L remote (KA_MlKem768X25519 k) =
     bindR (mlk_compute_shared_secret L remote k) (\<lambda>k. Inr (KA_MlKem768X25519 k))"
| "compute_shared_secret L remote KA_None = Inr KA_None"

fun nist_hash :: "nist_curve \<Rightarrow> kex_hash" where
  "nist_hash NistP256 = KH_Sha256"
| "nist_hash NistP384 = KH_Sha384"
| "nist_hash NistP521 = KH_Sha512"

fun compute_exchange_hash :: "kexlib \<Rightarrow> codec \<Rightarrow> KexAlgorithm \<Rightarrow> bytes \<Rightarrow> Exchange \<Rightarrow> bytes res" where
  "compute_exchange_hash L C (KA_DhGroup h k) key ex = Inr (dhk_exchange_hash L C h k key ex)"
| "compute_exchange_hash L C (KA_Curve25519 k) key ex =
     Inr (mpint_exchange_hash L C KH_Sha256 (cvk_shared_secret k) key ex)"
| "compute_exchange_hash L C (KA_EcdhNistP cv k) key ex =
     Inr (mpint_exchange_hash L C (nist_hash cv) (eck_shared_secret k) key ex)"
| "compute_exchange_hash L C (KA_MlKem768X25519 k) key ex = mlk_exchange_hash L C k key ex"
| "compute_exchange_hash L C KA_None key ex = Inr []"

fun kex_compute_keys ::
  "kexlib \<Rightarrow> codec \<Rightarrow> crypto \<Rightarrow> KexAlgorithm \<Rightarrow> bytes \<Rightarrow> bytes \<Rightarrow> rstring \<Rightarrow> rstring \<Rightarrow> rstring \<Rightarrow> bool \<Rightarrow>
     CipherPair res" where
  "kex_compute_keys L C K (KA_DhGroup h k) sid eh =
     compute_keys K (digest L h) (map_option (secret_from_mpint C) (dhk_shared_secret k)) sid eh"
| "kex_compute_keys L C K (KA_Curve25519 k) sid eh =
     compute_keys K (digest L KH_Sha256) (map_option (secret_from_mpint C) (cvk_shared_secret k)) sid eh"
| "kex_compute_keys L C K (KA_EcdhNistP cv k) sid eh =
     compute_keys K (digest L (nist_hash cv)) (map_option (secret_from_mpint C) (eck_shared_secret k)) sid eh"
| "kex_compute_keys L C K (KA_MlKem768X25519 k) sid eh =
     (\<lambda>cn rm lm is_server. bindR (mlk_combined L k) (\<lambda>kk.
        compute_keys K (digest L KH_Sha256) (Some (secret_from_string C kk)) sid eh cn rm lm is_server))"
| "kex_compute_keys L C K KA_None sid eh = compute_keys K (digest L KH_Sha256) None sid eh"

definition KEXES :: "kexlib \<Rightarrow> (rstring \<times> KexAlgorithm) list" where
  "KEXES L =
     (let dh = (\<lambda>h g. KA_DhGroup h (DhGroupKex_new L g));
          curve = KA_Curve25519 \<lparr> cvk_local_secret = None, cvk_shared_secret = None \<rparr>;
          ecdh = (\<lambda>cv. KA_EcdhNistP cv \<lparr> eck_local_secret = None, eck_shared_secret = None \<rparr>) in
      [(MLKEM768X25519_SHA256, KA_MlKem768X25519
          \<lparr> mlkem_secret = None, x25519_secret = None, k_pq = None, k_cl = None \<rparr>),
       (CURVE25519, curve), (CURVE25519_PRE_RFC_8731, curve),
       (DH_GEX_SHA1, dh KH_Sha1 None), (DH_GEX_SHA256, dh KH_Sha256 None),
       (DH_G18_SHA512, dh KH_Sha512 (Some DH_GROUP18)), (DH_G17_SHA512, dh KH_Sha512 (Some DH_GROUP17)),
       (DH_G16_SHA512, dh KH_Sha512 (Some DH_GROUP16)), (DH_G15_SHA512, dh KH_Sha512 (Some DH_GROUP15)),
       (DH_G14_SHA256, dh KH_Sha256 (Some DH_GROUP14)), (DH_G14_SHA1, dh KH_Sha1 (Some DH_GROUP14)),
       (DH_G1_SHA1, dh KH_Sha1 (Some DH_GROUP1)),
       (ECDH_SHA2_NISTP256, ecdh NistP256), (ECDH_SHA2_NISTP384, ecdh NistP384),
       (ECDH_SHA2_NISTP521, ecdh NistP521), (NAME_NONE, KA_None)])"

section \<open>What the packages promise\<close>

definition kexlib_ok :: "kexlib \<Rightarrow> bool" where
  "kexlib_ok L \<longleftrightarrow>
     (\<forall>h. \<exists>hl. hash_ok (digest L h) hl) \<and>
     (\<forall>b. big_from_bytes_be L b = be_value b) \<and>
     (\<forall>n. be_value (big_to_bytes_be L n) = n \<and> (0 < n \<longrightarrow> big_to_bytes_be L n \<noteq> [] \<and> hd (big_to_bytes_be L n) \<noteq> 0)) \<and>
     (\<forall>b e m. 0 < m \<longrightarrow> big_modpow L b e m = b ^ e mod m) \<and>
     (\<forall>a. length (x25519_public L a) = 32) \<and>
     (\<forall>a b. x25519_mult L a (x25519_public L b) = x25519_mult L b (x25519_public L a)) \<and>
     (\<forall>cv a b. \<exists>pa pb. ec_from_sec1 L cv (ec_public L cv a) = Some pa \<and>
        ec_from_sec1 L cv (ec_public L cv b) = Some pb \<and>
        ec_diffie_hellman L cv a pb = ec_diffie_hellman L cv b pa) \<and>
     (\<forall>r sk pk. kem_generate L r = (sk, pk) \<longrightarrow>
        length pk = MLKEM768_PUBLIC_KEY_SIZE \<and> kem_public_ok L pk \<and>
        (\<forall>r' ct ss. kem_encapsulate L r' pk = (ct, ss) \<longrightarrow>
           length ct = MLKEM768_CIPHERTEXT_SIZE \<and> kem_decapsulate L sk ct = ss))"

lemma kexlib_okD:
  assumes "kexlib_ok L"
  shows "\<exists>hl. hash_ok (digest L h) hl"
    "big_from_bytes_be L b = be_value b"
    "be_value (big_to_bytes_be L n) = n"
    "0 < n \<Longrightarrow> big_to_bytes_be L n \<noteq> [] \<and> hd (big_to_bytes_be L n) \<noteq> 0"
    "0 < m \<Longrightarrow> big_modpow L c e m = c ^ e mod m"
    "length (x25519_public L x) = 32"
    "x25519_mult L x (x25519_public L y) = x25519_mult L y (x25519_public L x)"
  using assms by (simp_all add: kexlib_ok_def)

lemma kexlib_ok_ec:
  assumes "kexlib_ok L"
  obtains pa pb where "ec_from_sec1 L cv (ec_public L cv x) = Some pa"
    "ec_from_sec1 L cv (ec_public L cv y) = Some pb"
    "ec_diffie_hellman L cv x pb = ec_diffie_hellman L cv y pa"
  using assms unfolding kexlib_ok_def by metis

lemma kexlib_ok_kem:
  assumes "kexlib_ok L" "kem_generate L r = (sk, pk)"
  shows "length pk = MLKEM768_PUBLIC_KEY_SIZE" "kem_public_ok L pk"
    "kem_encapsulate L r' pk = (ct, ss) \<Longrightarrow> length ct = MLKEM768_CIPHERTEXT_SIZE \<and> kem_decapsulate L sk ct = ss"
  using assms by (auto simp: kexlib_ok_def)

lemma be_value_Cons0: "be_value (0 # b) = be_value b"
  by (simp add: be_value_def)

lemma biguint_mpint_value: "kexlib_ok L \<Longrightarrow> be_value (biguint_to_mpint L n) = n"
  using kexlib_okD(3) [of L n]
  by (auto simp: biguint_to_mpint_def Let_def be_value_Cons0 split: list.splits)

text \<open>
  The packages \<open>ssh_encoding\<close> and \<open>byteorder\<close> write the same bytes for a number: the init messages are
  written with the one and read with the other.
\<close>

locale ssh_codec_be = ssh_codec +
  assumes u32_be: "u32_encode C n = to_be_bytes n"
begin

lemma init_message:
  assumes "length eph \<le> max_string"
  shows "init_pubkey_len C (t # bytes_encode C eph) = Inr (length eph)"
    "take (length eph) (drop 5 (t # bytes_encode C eph)) = eph"
    "\<not> length (t # bytes_encode C eph) < 5 + length eph"
proof -
  have "unat (of_nat (length eph) :: u32) = length eph"
    using assms by (simp add: unat_of_nat max_string_def)
  then show "init_pubkey_len C (t # bytes_encode C eph) = Inr (length eph)"
    by (simp add: init_pubkey_len_def bytes_layout u32_be be_read)
  show "take (length eph) (drop 5 (t # bytes_encode C eph)) = eph"
    using drop_Suc_Cons [of 4 t "bytes_encode C eph"] by (simp add: bytes_layout u32_be)
  show "\<not> length (t # bytes_encode C eph) < 5 + length eph"
    by (simp add: bytes_layout u32_be)
qed

end

interpretation rfc_be: ssh_codec_be rfc4251
  by unfold_locales (simp add: rfc4251_def)

section \<open>The contract of a key exchange method\<close>

text \<open>
  \<open>fresh\<close> says that a state is one a client and a server both start from; \<open>secret\<close> reads the shared
  secret of a state that has one.
\<close>

locale kex_method =
  fixes cdh :: "randomness \<Rightarrow> 'k \<Rightarrow> ('k \<times> bytes \<times> bytes) res"
    and sdh :: "randomness \<Rightarrow> 'k \<Rightarrow> Exchange \<Rightarrow> bytes \<Rightarrow> ('k \<times> Exchange) res"
    and css :: "bytes \<Rightarrow> 'k \<Rightarrow> 'k res"
    and secret :: "'k \<Rightarrow> bytes option"
    and init :: "'k \<Rightarrow> u8"
    and enc :: "bytes \<Rightarrow> bytes"
  assumes client_message: "cdh rc k = Inr (kc, eph, m) \<Longrightarrow> m = init k # enc eph"
    and server_exchange: "sdh rs k ex m = Inr (ks, ex') \<Longrightarrow>
        ex' = ex\<lparr> server_ephemeral := server_ephemeral ex' \<rparr> \<and> secret ks \<noteq> None"
    and agreement: "cdh rc k = Inr (kc, eph, m) \<Longrightarrow> length eph \<le> max_string \<Longrightarrow>
        sdh rs k ex m = Inr (ks, ex') \<Longrightarrow> server_ephemeral ex' \<noteq> zero_point \<Longrightarrow>
        \<exists>kc'. css (server_ephemeral ex') kc = Inr kc' \<and> secret kc' = secret ks"
begin

lemma agreed_secret:
  assumes "cdh rc k = Inr (kc, eph, m)" "length eph \<le> max_string"
    and "sdh rs k ex m = Inr (ks, ex')" "server_ephemeral ex' \<noteq> zero_point"
  obtains kc' z where "css (server_ephemeral ex') kc = Inr kc'" "secret kc' = Some z" "secret ks = Some z"
  using agreement [OF assms] server_exchange [OF assms(3)] by (cases "secret ks") auto

end

text \<open>The laws of the packages together; every method satisfies the contract under them.\<close>

locale kex_setting = ssh_codec_be +
  fixes L :: kexlib
  assumes lib: "kexlib_ok L"
begin

lemma modpow_exchange:
  assumes "0 < p"
  shows "big_modpow L (big_modpow L g a p) b p = big_modpow L (big_modpow L g b p) a p"
  using assms by (simp add: kexlib_okD(5) [OF lib] power_mod mult.commute flip: power_mult)

lemma from_mpint [simp]: "big_from_bytes_be L (biguint_to_mpint L n) = n"
  by (simp add: kexlib_okD(2) [OF lib] biguint_mpint_value [OF lib])

end

lemma require_Inr [res_simps]: "require c e = Inr u \<longleftrightarrow> c = Inr True"
  by (auto simp: require_def bindR_Inr_iff split: if_splits)

lemma prime_minus_one_Inr [res_simps]:
  "prime_minus_one dh = Inr p \<longleftrightarrow> 0 < dh_prime_num dh \<and> p = dh_prime_num dh - 1"
  by (auto simp: prime_minus_one_def)

lemma validate_Inr [res_simps]:
  "validate_public_key dh y = Inr True \<longleftrightarrow> 0 < dh_prime_num dh \<and> 1 < y \<and> y < dh_prime_num dh - 1"
  "validate_shared_secret dh y = Inr True \<longleftrightarrow> 0 < dh_prime_num dh \<and> 1 < y \<and> y < dh_prime_num dh - 1"
  by (auto simp: validate_public_key_def validate_shared_secret_def res_simps)

lemma generate_private_key_Inr:
  "generate_private_key L rnd srv dh = Inr dh' \<Longrightarrow>
     \<exists>a. dh' = dh\<lparr> dh_private_key := a \<rparr> \<and> 0 < dh_prime_num dh"
  by (auto simp: generate_private_key_def res_simps Let_def split: if_splits)

lemma dh_modpow_pos: "0 < dh_prime_num dh \<Longrightarrow>
    dh_modpow L dh y = Inr (big_modpow L y (dh_private_key dh) (dh_prime_num dh))"
  by (simp add: dh_modpow_def)

lemma dhk_client_dh_Inr:
  assumes "dhk_client_dh L C rnd k = Inr (k', eph, m)"
  obtains dh a y where "dhk_dh k = Some dh" "0 < dh_prime_num dh"
    "y = big_modpow L (dh_generator dh) a (dh_prime_num dh)"
    "k' = k\<lparr> dhk_dh := Some (dh\<lparr> dh_private_key := a, dh_public_key := y \<rparr>) \<rparr>"
    "eph = biguint_to_mpint L y"
    "m = (if dhk_is_dh_gex k then KEX_DH_GEX_INIT else KEX_ECDH_INIT) # bytes_encode C eph"
proof -
  from assms obtain dh dh1 dh2 where 1: "dhk_dh k = Some dh" "generate_private_key L rnd False dh = Inr dh1"
    "generate_public_key L dh1 = Inr dh2"
    and r: "k' = k\<lparr> dhk_dh := Some dh2 \<rparr>" "eph = biguint_to_mpint L (dh_public_key dh2)"
    "m = (if dhk_is_dh_gex k then KEX_DH_GEX_INIT else KEX_ECDH_INIT) # bytes_encode C eph"
    by (auto simp: dhk_client_dh_def res_simps Let_def)
  from generate_private_key_Inr [OF 1(2)] obtain a where a: "dh1 = dh\<lparr> dh_private_key := a \<rparr>" "0 < dh_prime_num dh"
    by blast
  from 1(3) a have "dh2 = dh\<lparr> dh_private_key := a,
      dh_public_key := big_modpow L (dh_generator dh) a (dh_prime_num dh) \<rparr>"
    by (simp add: generate_public_key_def dh_modpow_pos)
  with that [OF 1(1) a(2) refl] r show thesis by simp
qed

lemma dhk_server_dh_Inr:
  assumes "dhk_server_dh L C rnd k ex m = Inr (k', ex')"
  obtains dh b y n z where "dhk_dh k = Some dh" "0 < dh_prime_num dh"
    "init_pubkey_len C m = Inr n"
    "y = big_modpow L (dh_generator dh) b (dh_prime_num dh)" "1 < y" "y < dh_prime_num dh - 1"
    "z = big_modpow L (big_from_bytes_be L (take n (drop 5 m))) b (dh_prime_num dh)"
    "1 < z" "z < dh_prime_num dh - 1"
    "dhk_shared_secret k' = Some (biguint_to_mpint L z)"
    "ex' = ex\<lparr> server_ephemeral := biguint_to_mpint L y \<rparr>"
proof -
  from assms obtain dh n dh1 dh2 dh3 where 1: "dhk_dh k = Some dh" "init_pubkey_len C m = Inr n"
    "generate_private_key L rnd True dh = Inr dh1" "generate_public_key L dh1 = Inr dh2"
    "validate_public_key dh2 (dh_public_key dh2) = Inr True"
    "dh_compute_shared_secret L (big_from_bytes_be L (take n (drop 5 m))) dh2 = Inr dh3"
    "validate_shared_secret dh3 (dh_shared_secret dh3) = Inr True"
    and r: "dhk_shared_secret k' = Some (biguint_to_mpint L (dh_shared_secret dh3))"
    "ex' = ex\<lparr> server_ephemeral := biguint_to_mpint L (dh_public_key dh2) \<rparr>"
    by (auto simp: dhk_server_dh_def res_simps Let_def split: if_splits)
  from generate_private_key_Inr [OF 1(3)] obtain b where b: "dh1 = dh\<lparr> dh_private_key := b \<rparr>" "0 < dh_prime_num dh"
    by blast
  from 1(4) b have dh2: "dh2 = dh\<lparr> dh_private_key := b,
      dh_public_key := big_modpow L (dh_generator dh) b (dh_prime_num dh) \<rparr>"
    by (simp add: generate_public_key_def dh_modpow_pos)
  from 1(6) b have dh3: "dh3 = dh2\<lparr> dh_shared_secret :=
      big_modpow L (big_from_bytes_be L (take n (drop 5 m))) b (dh_prime_num dh) \<rparr>"
    unfolding dh2 by (simp add: dh_compute_shared_secret_def dh_modpow_pos)
  from 1(5,7) show thesis
    by (intro that [OF 1(1) b(2) 1(2) refl _ _ refl]) (simp_all add: dh2 dh3 r res_simps)
qed

lemma dhk_client_accepts:
  assumes "dhk_dh k = Some dh" "0 < dh_prime_num dh" "1 < y" "y < dh_prime_num dh - 1"
    and "big_from_bytes_be L e = y"
    and "z = big_modpow L y (dh_private_key dh) (dh_prime_num dh)" "1 < z" "z < dh_prime_num dh - 1"
  shows "\<exists>k'. dhk_compute_shared_secret L e k = Inr k' \<and>
    dhk_shared_secret k' = Some (biguint_to_mpint L z)"
  using assms by (simp add: dhk_compute_shared_secret_def res_simps Let_def require_def
      validate_public_key_def validate_shared_secret_def prime_minus_one_def
      dh_compute_shared_secret_def dh_modpow_def)

sublocale kex_setting < dh: kex_method "\<lambda>r. dhk_client_dh L C (fst r)" "\<lambda>r. dhk_server_dh L C (fst r)"
  "dhk_compute_shared_secret L" dhk_shared_secret
  "\<lambda>k. if dhk_is_dh_gex k then KEX_DH_GEX_INIT else KEX_ECDH_INIT" "bytes_encode C"
proof unfold_locales
  fix rc k kc eph m
  assume "dhk_client_dh L C (fst rc) k = Inr (kc, eph, m)"
  then show "m = (if dhk_is_dh_gex k then KEX_DH_GEX_INIT else KEX_ECDH_INIT) # bytes_encode C eph"
    by (rule dhk_client_dh_Inr)
next
  fix rs k ex m ks ex'
  assume "dhk_server_dh L C (fst rs) k ex m = Inr (ks, ex')"
  then show "ex' = ex\<lparr> server_ephemeral := server_ephemeral ex' \<rparr> \<and> dhk_shared_secret ks \<noteq> None"
    by (rule dhk_server_dh_Inr) simp
next
  fix rc k kc eph m rs ex ks ex'
  assume c: "dhk_client_dh L C (fst rc) k = Inr (kc, eph, m)" and l: "length eph \<le> max_string"
    and s: "dhk_server_dh L C (fst rs) k ex m = Inr (ks, ex')"
  from dhk_client_dh_Inr [OF c] obtain dh a where 1: "dhk_dh k = Some dh" "0 < dh_prime_num dh"
    "kc = k\<lparr> dhk_dh := Some (dh\<lparr> dh_private_key := a,
       dh_public_key := big_modpow L (dh_generator dh) a (dh_prime_num dh) \<rparr>) \<rparr>"
    "eph = biguint_to_mpint L (big_modpow L (dh_generator dh) a (dh_prime_num dh))"
    "m = (if dhk_is_dh_gex k then KEX_DH_GEX_INIT else KEX_ECDH_INIT) # bytes_encode C eph" by metis
  from dhk_server_dh_Inr [OF s] obtain dh' b y n z where 2: "dhk_dh k = Some dh'"
    "init_pubkey_len C m = Inr n"
    "y = big_modpow L (dh_generator dh') b (dh_prime_num dh')" "1 < y" "y < dh_prime_num dh' - 1"
    "z = big_modpow L (big_from_bytes_be L (take n (drop 5 m))) b (dh_prime_num dh')"
    "1 < z" "z < dh_prime_num dh' - 1" "dhk_shared_secret ks = Some (biguint_to_mpint L z)"
    "ex' = ex\<lparr> server_ephemeral := biguint_to_mpint L y \<rparr>" by metis
  have "z = big_modpow L y a (dh_prime_num dh)"
    using 1 2 init_message [OF l] by (simp add: modpow_exchange [OF 1(2)])
  then show "\<exists>kc'. dhk_compute_shared_secret L (server_ephemeral ex') kc = Inr kc' \<and>
      dhk_shared_secret kc' = dhk_shared_secret ks"
    using dhk_client_accepts [of kc "dh\<lparr> dh_private_key := a,
       dh_public_key := big_modpow L (dh_generator dh) a (dh_prime_num dh) \<rparr>" y L "biguint_to_mpint L y" z] 1 2
    by simp
qed

sublocale kex_setting < curve: kex_method "\<lambda>r. cvk_client_dh L C (fst r)" "\<lambda>r. cvk_server_dh L C (fst r)"
  "cvk_compute_shared_secret L" cvk_shared_secret "\<lambda>_. KEX_ECDH_INIT" "bytes_encode C"
proof unfold_locales
  fix rc k kc eph m rs ex ks ex'
  assume c: "cvk_client_dh L C (fst rc) k = Inr (kc, eph, m)" and l: "length eph \<le> max_string"
    and s: "cvk_server_dh L C (fst rs) k ex m = Inr (ks, ex')" "server_ephemeral ex' \<noteq> zero_point"
  then have 1: "kc = k\<lparr> cvk_local_secret := Some (fst rc) \<rparr>" "eph = x25519_public L (fst rc)"
    "m = KEX_ECDH_INIT # bytes_encode C eph"
    by (auto simp: cvk_client_dh_def)
  have "take 32 (drop 5 m) = eph"
    using init_message(2) [OF l] 1 kexlib_okD(6) [OF lib, of "fst rc"] by simp
  then have "cvk_shared_secret ks = Some (x25519_mult L (fst rs) eph)"
    "server_ephemeral ex' = x25519_public L (fst rs)"
    using s by (auto simp: cvk_server_dh_def res_simps Let_def split: if_splits)
  then show "\<exists>kc'. cvk_compute_shared_secret L (server_ephemeral ex') kc = Inr kc' \<and>
      cvk_shared_secret kc' = cvk_shared_secret ks"
    using s(2) kexlib_okD(7) [OF lib, of "fst rc" "fst rs"]
    by (simp add: cvk_compute_shared_secret_def 1 kexlib_okD(6) [OF lib])
qed (auto simp: cvk_client_dh_def cvk_server_dh_def res_simps Let_def split: if_splits)

sublocale kex_setting < ecdh: kex_method "\<lambda>r. eck_client_dh L C cv (fst r)" "\<lambda>r. eck_server_dh L C cv (fst r)"
  "eck_compute_shared_secret L cv" eck_shared_secret "\<lambda>_. KEX_ECDH_INIT" "bytes_encode C" for cv
proof unfold_locales
  fix rc k kc eph m rs ex ks ex'
  assume c: "eck_client_dh L C cv (fst rc) k = Inr (kc, eph, m)" and l: "length eph \<le> max_string"
    and s: "eck_server_dh L C cv (fst rs) k ex m = Inr (ks, ex')"
  obtain pa pb where p: "ec_from_sec1 L cv (ec_public L cv (fst rc)) = Some pa"
    "ec_from_sec1 L cv (ec_public L cv (fst rs)) = Some pb"
    "ec_diffie_hellman L cv (fst rc) pb = ec_diffie_hellman L cv (fst rs) pa"
    using kexlib_ok_ec [OF lib] by metis
  from c have 1: "kc = k\<lparr> eck_local_secret := Some (fst rc) \<rparr>" "eph = ec_public L cv (fst rc)"
    "m = KEX_ECDH_INIT # bytes_encode C eph"
    by (auto simp: eck_client_dh_def)
  have "eck_shared_secret ks = Some (ec_diffie_hellman L cv (fst rs) pa)"
    "server_ephemeral ex' = ec_public L cv (fst rs)"
    using s init_message [OF l, of KEX_ECDH_INIT] p
    by (auto simp: 1 eck_server_dh_def res_simps split: if_splits)
  then show "\<exists>kc'. eck_compute_shared_secret L cv (server_ephemeral ex') kc = Inr kc' \<and>
      eck_shared_secret kc' = eck_shared_secret ks"
    by (simp add: eck_compute_shared_secret_def 1 p)
qed (auto simp: eck_client_dh_def eck_server_dh_def res_simps split: if_splits)

text \<open>The secret of the hybrid method is the hash of its two parts.\<close>

definition mlk_secret :: "kexlib \<Rightarrow> MlKem768X25519Kex \<Rightarrow> bytes option" where
  "mlk_secret L k = (case mlk_combined L k of Inr z \<Rightarrow> Some z | Inl _ \<Rightarrow> None)"

lemma mlk_secret_eq:
  "mlk_secret L k = (case (k_pq k, k_cl k) of (Some a, Some b) \<Rightarrow> Some (digest L KH_Sha256 (a @ b)) | _ \<Rightarrow> None)"
  by (auto simp: mlk_secret_def mlk_combined_def split: option.splits)

sublocale kex_setting < mlkem: kex_method "mlk_client_dh L C" "mlk_server_dh L C"
  "mlk_compute_shared_secret L" "mlk_secret L" "\<lambda>_. KEX_HYBRID_INIT" "bytes_encode C"
proof unfold_locales
  fix rc k kc eph m rs ex ks ex'
  assume c: "mlk_client_dh L C rc k = Inr (kc, eph, m)" and l: "length eph \<le> max_string"
    and s: "mlk_server_dh L C rs k ex m = Inr (ks, ex')"
  obtain sk pk where g: "kem_generate L (fst rc) = (sk, pk)" by (cases "kem_generate L (fst rc)")
  obtain ct ss where e: "kem_encapsulate L (fst rs) pk = (ct, ss)" by (cases "kem_encapsulate L (fst rs) pk")
  note kem = kexlib_ok_kem [OF lib g] kexlib_ok_kem(3) [OF lib g e]
  from c have 1: "kc = k\<lparr> mlkem_secret := Some sk, x25519_secret := Some (snd rc) \<rparr>"
    "eph = pk @ x25519_public L (snd rc)" "m = KEX_HYBRID_INIT # bytes_encode C eph"
    by (auto simp: mlk_client_dh_def g Let_def)
  have "take MLKEM768_PUBLIC_KEY_SIZE eph = pk" "drop MLKEM768_PUBLIC_KEY_SIZE eph = x25519_public L (snd rc)"
    using kem(1) by (simp_all add: 1)
  then have ks: "ks = k\<lparr> k_pq := Some ss, k_cl := Some (x25519_mult L (snd rs) (x25519_public L (snd rc))) \<rparr>"
    and ex: "server_ephemeral ex' = ct @ x25519_public L (snd rs)"
    using s init_message [OF l, of KEX_HYBRID_INIT] kem(2) e unfolding 1(3)
    by (auto simp: mlk_server_dh_def res_simps Let_def split: if_splits)
  show "\<exists>kc'. mlk_compute_shared_secret L (server_ephemeral ex') kc = Inr kc' \<and>
      mlk_secret L kc' = mlk_secret L ks"
    using kem kexlib_okD(7) [OF lib, of "snd rc" "snd rs"]
    by (simp add: mlk_compute_shared_secret_def ex ks 1 mlk_secret_eq X25519_PUBLIC_KEY_SIZE_def
        kexlib_okD(6) [OF lib])
qed (auto simp: mlk_client_dh_def mlk_server_dh_def mlk_secret_eq res_simps Let_def
      split: if_splits prod.splits)

section \<open>Agreement of the dispatched methods\<close>

text \<open>Two states of the same method that hold the same secret.\<close>

fun same_secret :: "kexlib \<Rightarrow> KexAlgorithm \<Rightarrow> KexAlgorithm \<Rightarrow> bool" where
  "same_secret L (KA_DhGroup h k) (KA_DhGroup h' k') =
     (h = h' \<and> dhk_is_dh_gex k = dhk_is_dh_gex k' \<and> dhk_shared_secret k = dhk_shared_secret k')"
| "same_secret L (KA_Curve25519 k) (KA_Curve25519 k') = (cvk_shared_secret k = cvk_shared_secret k')"
| "same_secret L (KA_EcdhNistP cv k) (KA_EcdhNistP cv' k') =
     (cv = cv' \<and> eck_shared_secret k = eck_shared_secret k')"
| "same_secret L (KA_MlKem768X25519 k) (KA_MlKem768X25519 k') =
     (mlk_secret L k = mlk_secret L k' \<and> mlk_secret L k \<noteq> None)"
| "same_secret L KA_None KA_None = True"
| "same_secret L _ _ = False"

lemma mlk_combined_secret:
  "mlk_secret L k = mlk_secret L k' \<Longrightarrow> mlk_secret L k \<noteq> None \<Longrightarrow> mlk_combined L k = mlk_combined L k'"
  by (auto simp: mlk_secret_def split: sum.splits)

lemma same_secret_hash:
  "same_secret L k k' \<Longrightarrow> compute_exchange_hash L C k key ex = compute_exchange_hash L C k' key ex"
  by (cases "(L, k, k')" rule: same_secret.cases)
     (auto simp: dhk_exchange_hash_def mlk_exchange_hash_def dest: mlk_combined_secret)

lemma same_secret_keys:
  "same_secret L k k' \<Longrightarrow> kex_compute_keys L C K k sid eh = kex_compute_keys L C K k' sid eh"
  by (cases "(L, k, k')" rule: same_secret.cases) (auto dest: mlk_combined_secret)

lemma gex_flag_kept:
  "dhk_client_dh L C rnd k = Inr (k', eph, m) \<Longrightarrow> dhk_is_dh_gex k' = dhk_is_dh_gex k"
  "dhk_server_dh L C rnd k ex p = Inr (k', ex') \<Longrightarrow> dhk_is_dh_gex k' = dhk_is_dh_gex k"
  "dhk_compute_shared_secret L e k = Inr k' \<Longrightarrow> dhk_is_dh_gex k' = dhk_is_dh_gex k"
  by (auto simp: dhk_client_dh_def dhk_server_dh_def dhk_compute_shared_secret_def res_simps Let_def
      split: if_splits)

context kex_setting
begin

lemma client_dh_message:
  assumes "client_dh L C rc eph0 k = Inr (kc, eph, m)" "\<not> skip_exchange k"
  shows "m = (if is_dh_gex k then KEX_DH_GEX_INIT else KEX_ECDH_INIT) # bytes_encode C eph"
    "is_dh_gex kc = is_dh_gex k" "\<not> skip_exchange kc"
proof -
  show "m = (if is_dh_gex k then KEX_DH_GEX_INIT else KEX_ECDH_INIT) # bytes_encode C eph"
    using assms by (cases k) (auto simp: bindR_Inr_iff dest: dh.client_message curve.client_message
        ecdh.client_message mlkem.client_message)
  show "is_dh_gex kc = is_dh_gex k" "\<not> skip_exchange kc"
    using assms by (cases k; auto simp: bindR_Inr_iff dest: gex_flag_kept)+
qed

lemma server_dh_exchange:
  assumes "server_dh L C rs k ex m = Inr (ks, ex')" "\<not> skip_exchange k"
  shows "ex' = ex\<lparr> server_ephemeral := server_ephemeral ex' \<rparr>" "is_dh_gex ks = is_dh_gex k"
    "\<not> skip_exchange ks"
  using assms by (cases k; auto simp: bindR_Inr_iff dest: gex_flag_kept dh.server_exchange
      curve.server_exchange ecdh.server_exchange mlkem.server_exchange)+

lemma kex_agree:
  assumes c: "client_dh L C rc eph0 k = Inr (kc, eph, m)" and k: "\<not> skip_exchange k"
    and l: "length eph \<le> max_string" and s: "server_dh L C rs k ex m = Inr (ks, ex')"
    and z: "server_ephemeral ex' \<noteq> zero_point"
  shows "\<exists>kc'. compute_shared_secret L (server_ephemeral ex') kc = Inr kc' \<and> same_secret L kc' ks"
proof (cases k)
  case (KA_DhGroup h k1)
  with c s obtain kc1 ks1 where 1: "dhk_client_dh L C (fst rc) k1 = Inr (kc1, eph, m)" "kc = KA_DhGroup h kc1"
    "dhk_server_dh L C (fst rs) k1 ex m = Inr (ks1, ex')" "ks = KA_DhGroup h ks1"
    by (auto simp: bindR_Inr_iff)
  from dh.agreement [OF 1(1) l 1(3) z] obtain kc' where
    2: "dhk_compute_shared_secret L (server_ephemeral ex') kc1 = Inr kc'"
      "dhk_shared_secret kc' = dhk_shared_secret ks1" by blast
  with gex_flag_kept(1) [OF 1(1)] gex_flag_kept(2) [OF 1(3)] gex_flag_kept(3) [OF 2(1)]
  show ?thesis by (simp add: 1)
next
  case (KA_Curve25519 k1)
  with c s obtain kc1 ks1 where 1: "cvk_client_dh L C (fst rc) k1 = Inr (kc1, eph, m)" "kc = KA_Curve25519 kc1"
    "cvk_server_dh L C (fst rs) k1 ex m = Inr (ks1, ex')" "ks = KA_Curve25519 ks1"
    by (auto simp: bindR_Inr_iff)
  with curve.agreement [OF 1(1) l 1(3) z] show ?thesis by auto
next
  case (KA_EcdhNistP cv k1)
  with c s obtain kc1 ks1 where 1: "eck_client_dh L C cv (fst rc) k1 = Inr (kc1, eph, m)" "kc = KA_EcdhNistP cv kc1"
    "eck_server_dh L C cv (fst rs) k1 ex m = Inr (ks1, ex')" "ks = KA_EcdhNistP cv ks1"
    by (auto simp: bindR_Inr_iff)
  with ecdh.agreement [OF 1(1) l 1(3) z] show ?thesis by auto
next
  case (KA_MlKem768X25519 k1)
  with c s obtain kc1 ks1 where 1: "mlk_client_dh L C rc k1 = Inr (kc1, eph, m)" "kc = KA_MlKem768X25519 kc1"
    "mlk_server_dh L C rs k1 ex m = Inr (ks1, ex')" "ks = KA_MlKem768X25519 ks1"
    by (auto simp: bindR_Inr_iff)
  with mlkem.agreement [OF 1(1) l 1(3) z] mlkem.server_exchange [OF 1(3)] show ?thesis by auto
qed (use k in simp)

end

section \<open>A concrete instance of the packages\<close>

fun be_digits :: "nat \<Rightarrow> bytes" where
  "be_digits n = (if n < 256 then [of_nat n] else be_digits (n div 256) @ [of_nat (n mod 256)])"

declare be_digits.simps [simp del]

lemma be_value_snoc: "be_value (xs @ [b]) = 256 * be_value xs + unat b"
  by (simp add: be_value_def)

lemma be_value_digits: "be_value (be_digits n) = n"
proof (induction n rule: be_digits.induct)
  case (1 n)
  then show ?case
    by (subst be_digits.simps) (auto simp: be_value_snoc be_value_def unat_of_nat)
qed

lemma be_digits_hd: "0 < n \<Longrightarrow> be_digits n \<noteq> [] \<and> hd (be_digits n) \<noteq> 0"
proof (induction n rule: be_digits.induct)
  case (1 n)
  show ?case
  proof (cases "n < 256")
    case True
    then have "unat (of_nat n :: u8) = n" by (simp add: unat_of_nat)
    with True 1(2) show ?thesis by (subst (1 2) be_digits.simps) auto
  next
    case False
    with 1 show ?thesis by (subst (1 2) be_digits.simps) (auto simp: div_greater_zero_iff)
  qed
qed

definition pad32 :: "bytes \<Rightarrow> bytes" where
  "pad32 s = take 32 (s @ replicate 32 0)"

definition demo_mult :: "bytes \<Rightarrow> bytes \<Rightarrow> bytes" where
  "demo_mult a p = map2 (\<lambda>x y. x XOR y) (pad32 a) p"

lemma length_pad32 [simp]: "length (pad32 s) = 32"
  by (simp add: pad32_def)

lemma demo_mult_commute: "demo_mult a (pad32 b) = demo_mult b (pad32 a)"
  by (rule nth_equalityI) (simp_all add: demo_mult_def xor.commute)

definition demo_kexlib :: kexlib where
  "demo_kexlib =
     \<lparr> digest = (\<lambda>h x. replicate 4 (of_nat (length x))), big_from_bytes_be = be_value,
       big_to_bytes_be = be_digits, big_modpow = (\<lambda>b e m. b ^ e mod m),
       random_biguint_range = (\<lambda>r lo hi. lo), x25519_public = pad32, x25519_mult = demo_mult,
       ec_public = (\<lambda>cv. pad32), ec_from_sec1 = (\<lambda>cv. Some), ec_diffie_hellman = (\<lambda>cv. demo_mult),
       kem_generate = (\<lambda>r. ([1], replicate MLKEM768_PUBLIC_KEY_SIZE 2)), kem_public_ok = (\<lambda>_. True),
       kem_encapsulate = (\<lambda>r pk. (replicate MLKEM768_CIPHERTEXT_SIZE 3, [9])),
       kem_decapsulate = (\<lambda>sk ct. [9]) \<rparr>"

lemma demo_kexlib_ok: "kexlib_ok demo_kexlib"
proof -
  have "hash_ok (\<lambda>x. replicate 4 (of_nat (length x) :: u8)) 4" by (simp add: hash_ok_def)
  then show ?thesis
    unfolding kexlib_ok_def demo_kexlib_def
    by (auto simp: be_value_digits be_digits_hd demo_mult_commute)
qed

interpretation demo_kex: kex_setting rfc4251 demo_kexlib
  by unfold_locales (rule demo_kexlib_ok)

lemma mpint_encodings:
  assumes "ssh_codec C" "kexlib_ok L" "0 < n"
  shows "encode_mpint C (biguint_to_mpint L n) = bytes_encode C (biguint_to_mpint L n)"
proof -
  obtain b bs where b: "big_to_bytes_be L n = b # bs" "b \<noteq> 0"
    using kexlib_okD(4) [OF assms(2,3)] by (cases "big_to_bytes_be L n") auto
  have "0x7F < b \<longleftrightarrow> b AND 0x80 \<noteq> 0"
    by (simp add: and_0x80_zero word_less_nat_alt) arith
  with b show ?thesis
    by (simp add: biguint_to_mpint_def encode_mpint_def ssh_codec.bytes_layout [OF assms(1)])
qed

text \<open>
  What RFC 4253 (section 8) and RFC 4419 hash before the secret: the identifications, the key exchange init messages, the host
  key, the parameters and the group of a group exchange, and the two ephemeral values. One hash function belongs to a method.
\<close>

definition hashed_fields :: "kexlib \<Rightarrow> codec \<Rightarrow> KexAlgorithm \<Rightarrow> bytes \<Rightarrow> Exchange \<Rightarrow> bytes" where
  "hashed_fields L C k key ex =
     concat (map (bytes_encode C) [client_id ex, server_id ex, client_kex_init ex, server_kex_init ex]) @ key @
     (case (k, gex ex) of
        (KA_DhGroup _ _, Some (params, grp)) \<Rightarrow>
          gex_encode C params @ bytes_encode C (biguint_to_mpint L (big_from_bytes_be L (dg_prime grp))) @
          bytes_encode C (biguint_to_mpint L (big_from_bytes_be L (dg_generator grp)))
      | _ \<Rightarrow> []) @
     concat (map (bytes_encode C) [client_ephemeral ex, server_ephemeral ex])"

fun method_hash :: "KexAlgorithm \<Rightarrow> kex_hash" where
  "method_hash (KA_DhGroup h _) = h"
| "method_hash (KA_EcdhNistP cv _) = nist_hash cv"
| "method_hash _ = KH_Sha256"

text \<open>The secret a method has computed, as it is hashed and as keys are derived from it.\<close>

definition one_encoding :: "kexlib \<Rightarrow> codec \<Rightarrow> KexAlgorithm \<Rightarrow> SharedSecret \<Rightarrow> bool" where
  "one_encoding L C k S \<longleftrightarrow>
     (\<forall>key ex. compute_exchange_hash L C k key ex = Inr (digest L (method_hash k) (hashed_fields L C k key ex @ secret_as_bytes S))) \<and>
     (\<forall>K sid eh. kex_compute_keys L C K k sid eh = compute_keys K (digest L (method_hash k)) (Some S) sid eh)"

lemma one_encoding_dh:
  assumes "ssh_codec C" "kexlib_ok L" "dhk_shared_secret d = Some (biguint_to_mpint L n)" "0 < n"
  shows "one_encoding L C (KA_DhGroup h d) (Secret_Mpint (bytes_encode C (biguint_to_mpint L n)))"
  using assms(3) mpint_encodings [OF assms(1,2,4)]
  by (simp add: one_encoding_def dhk_exchange_hash_def hashed_fields_def exchange_prefix_def exchange_ephemerals_def
      secret_from_mpint_def split: option.split)

lemma one_encoding_curve:
  assumes "cvk_shared_secret c = Some b"
  shows "one_encoding L C (KA_Curve25519 c) (Secret_Mpint (encode_mpint C b))"
  using assms by (simp add: one_encoding_def mpint_exchange_hash_def hashed_fields_def exchange_prefix_def
      exchange_ephemerals_def secret_from_mpint_def)

lemma one_encoding_nist:
  assumes "eck_shared_secret e = Some b"
  shows "one_encoding L C (KA_EcdhNistP cv e) (Secret_Mpint (encode_mpint C b))"
  using assms by (simp add: one_encoding_def mpint_exchange_hash_def hashed_fields_def exchange_prefix_def
      exchange_ephemerals_def secret_from_mpint_def)

lemma one_encoding_hybrid:
  assumes "k_pq m = Some pq" "k_cl m = Some cl"
  shows "one_encoding L C (KA_MlKem768X25519 m) (Secret_String (bytes_encode C (digest L KH_Sha256 (pq @ cl))))"
  using assms by (simp add: one_encoding_def mlk_exchange_hash_def mlk_combined_def hashed_fields_def exchange_prefix_def
      exchange_ephemerals_def secret_from_string_def fun_eq_iff)

lemma dhk_secret_valid:
  assumes "dhk_compute_shared_secret L remote d0 = Inr d \<or> (\<exists>ex'. dhk_server_dh L C rnd d0 ex payload = Inr (d, ex'))"
  shows "\<exists>dh. dhk_dh d = Some dh \<and> 1 < dh_shared_secret dh \<and> dh_shared_secret dh < dh_prime_num dh - 1 \<and>
    dhk_shared_secret d = Some (biguint_to_mpint L (dh_shared_secret dh))"
  using assms by (auto simp: dhk_compute_shared_secret_def dhk_server_dh_def Let_def require_def validate_shared_secret_def
      prime_minus_one_def res_simps split: if_splits)

section \<open>Properties\<close>

text \<open>
  C12. Every key exchange method agrees: if a client and a server start from the same state of a method that
  exchanges keys and the server accepts the client's message, then the client
  accepts the server's ephemeral value (unless it is the all-zero point), and from then on both
  compute the same exchange hash for every transcript and derive the same keys.
\<close>

theorem kex_methods_agree:
  assumes "kex_setting C L" "\<not> skip_exchange k"
    and "client_dh L C rc eph0 k = Inr (kc, eph, m)" "length eph \<le> max_string"
    and "server_dh L C rs k ex m = Inr (ks, ex')" "server_ephemeral ex' \<noteq> zero_point"
  shows "\<exists>kc'. compute_shared_secret L (server_ephemeral ex') kc = Inr kc' \<and>
    (\<forall>key t. compute_exchange_hash L C kc' key t = compute_exchange_hash L C ks key t) \<and>
    (\<forall>K sid eh. kex_compute_keys L C K kc' sid eh = kex_compute_keys L C K ks sid eh)"
  using kex_setting.kex_agree [OF assms(1,3,2,4-6)] same_secret_hash same_secret_keys by blast

theorem kex_methods_agree_witness:
  "\<exists>kc kc' ks ex' eph m.
     client_dh demo_kexlib rfc4251 ([5], []) [] (KA_Curve25519 \<lparr> cvk_local_secret = None, cvk_shared_secret = None \<rparr>) =
       Inr (kc, eph, m) \<and>
     server_dh demo_kexlib rfc4251 ([6], []) (KA_Curve25519 \<lparr> cvk_local_secret = None, cvk_shared_secret = None \<rparr>)
       (Exchange_new [] []) m = Inr (ks, ex') \<and>
     compute_shared_secret demo_kexlib (server_ephemeral ex') kc = Inr kc' \<and>
     compute_exchange_hash demo_kexlib rfc4251 kc' [] ex' = compute_exchange_hash demo_kexlib rfc4251 ks [] ex'"
proof -
  let ?k = "KA_Curve25519 \<lparr> cvk_local_secret = None, cvk_shared_secret = None \<rparr>"
  let ?m = "KEX_ECDH_INIT # bytes_encode rfc4251 (pad32 [5])"
  have x: "x25519_public demo_kexlib = pad32" by (simp add: demo_kexlib_def)
  have n: "pad32 [b] \<noteq> zero_point" if "b \<noteq> 0" for b
    using that by (simp add: pad32_def zero_point_def numeral_eq_Suc)
  have c: "client_dh demo_kexlib rfc4251 ([5], []) [] ?k =
    Inr (KA_Curve25519 \<lparr> cvk_local_secret = Some [5], cvk_shared_secret = None \<rparr>, pad32 [5], ?m)"
    by (simp add: cvk_client_dh_def x)
  have l: "length (pad32 [5]) \<le> max_string" by (simp add: max_string_def)
  have "init_pubkey_len rfc4251 ?m = Inr 32" "take 32 (drop 5 ?m) = pad32 [5]" "\<not> length ?m < 37"
    using rfc_be.init_message [OF l, of KEX_ECDH_INIT] by simp_all
  then have s: "server_dh demo_kexlib rfc4251 ([6], []) ?k (Exchange_new [] []) ?m =
    Inr (KA_Curve25519 \<lparr> cvk_local_secret = None, cvk_shared_secret = Some (x25519_mult demo_kexlib [6] (pad32 [5])) \<rparr>,
      (Exchange_new [] [])\<lparr> server_ephemeral := pad32 [6] \<rparr>)"
    using n [of 5] by (simp add: cvk_server_dh_def x)
  show ?thesis
    using kex_methods_agree [OF demo_kex.kex_setting_axioms _ c l s] n [of 6] c s by auto
qed

text \<open>
  C37. The secret has one encoding: once a role has computed the secret of a method (the client from the server's value, the
  server from the client's message), the exchange hash is the method's hash of the fields RFC 4253 and RFC 4419 list, in their
  order, followed by the encoded secret, and the keys are derived with the same hash from the same encoded secret. For
  a Diffie-Hellman group, fixed or negotiated, where the code encodes it in two ways, it is the canonical multiple-precision
  integer of the validated number.
\<close>

theorem secret_one_encoding:
  assumes "ssh_codec C" "kexlib_ok L" "\<not> skip_exchange k"
    and "compute_shared_secret L remote k0 = Inr k \<or> server_dh L C rnd k0 ex0 payload = Inr (k, ex1)"
  shows "\<exists>S. (\<forall>key ex. compute_exchange_hash L C k key ex =
        Inr (digest L (method_hash k) (hashed_fields L C k key ex @ secret_as_bytes S))) \<and>
      (\<forall>K sid eh. kex_compute_keys L C K k sid eh = compute_keys K (digest L (method_hash k)) (Some S) sid eh) \<and>
      (\<forall>h d. k = KA_DhGroup h d \<longrightarrow> (\<exists>dh. dhk_dh d = Some dh \<and> 1 < dh_shared_secret dh \<and>
        dh_shared_secret dh < dh_prime_num dh - 1 \<and>
        secret_as_bytes S = bytes_encode C (biguint_to_mpint L (dh_shared_secret dh))))"
proof (cases k)
  case (KA_DhGroup h d)
  with assms(4) obtain d0 where "dhk_compute_shared_secret L remote d0 = Inr d \<or>
      (\<exists>ex'. dhk_server_dh L C (fst rnd) d0 ex0 payload = Inr (d, ex'))"
    by (cases k0) (auto simp: res_simps)
  from dhk_secret_valid [OF this] obtain dh where d: "dhk_dh d = Some dh" "1 < dh_shared_secret dh"
    "dh_shared_secret dh < dh_prime_num dh - 1" "dhk_shared_secret d = Some (biguint_to_mpint L (dh_shared_secret dh))" by blast
  let ?S = "Secret_Mpint (bytes_encode C (biguint_to_mpint L (dh_shared_secret dh)))"
  have "one_encoding L C k ?S"
    unfolding KA_DhGroup by (rule one_encoding_dh [OF assms(1,2) d(4)]) (use d(2) in simp)
  with d KA_DhGroup show ?thesis unfolding one_encoding_def by (intro exI [of _ ?S]) simp
next
  case (KA_Curve25519 c)
  with assms(4) obtain b where "cvk_shared_secret c = Some b"
    by (cases k0) (auto simp: res_simps cvk_compute_shared_secret_def cvk_server_dh_def Let_def split: if_splits)
  from one_encoding_curve [OF this, of L C] KA_Curve25519 show ?thesis unfolding one_encoding_def by blast
next
  case (KA_EcdhNistP cv e)
  with assms(4) obtain b where "eck_shared_secret e = Some b"
    by (cases k0) (auto simp: res_simps eck_compute_shared_secret_def eck_server_dh_def Let_def split: if_splits)
  from one_encoding_nist [OF this, of L C cv] KA_EcdhNistP show ?thesis unfolding one_encoding_def by blast
next
  case (KA_MlKem768X25519 m)
  with assms(4) obtain pq cl where "k_pq m = Some pq" "k_cl m = Some cl"
    by (cases k0) (auto simp: res_simps mlk_compute_shared_secret_def mlk_server_dh_def Let_def split_beta split: if_splits)
  from one_encoding_hybrid [OF this, of L C] KA_MlKem768X25519 show ?thesis unfolding one_encoding_def by blast
next
  case KA_None
  with assms(3) show ?thesis by simp
qed

theorem secret_one_encoding_witness:
  "\<exists>k. compute_shared_secret demo_kexlib [2] (KA_DhGroup KH_Sha256 \<lparr> dhk_dh = Some \<lparr> dh_prime_num = 1019, dh_generator = 2,
      dh_private_key = 3, dh_public_key = 8, dh_shared_secret = 0 \<rparr>, dhk_shared_secret = None, dhk_is_dh_gex = False \<rparr>) = Inr k \<and>
     (\<exists>S. compute_exchange_hash demo_kexlib rfc4251 k [] (Exchange_new [] []) = Inr (digest demo_kexlib KH_Sha256
        (hashed_fields demo_kexlib rfc4251 k [] (Exchange_new [] []) @ secret_as_bytes S)) \<and>
      secret_as_bytes S = bytes_encode rfc4251 (biguint_to_mpint demo_kexlib 8))"
proof -
  let ?dh = "\<lparr> dh_prime_num = 1019, dh_generator = 2, dh_private_key = 3, dh_public_key = 8, dh_shared_secret = 0 \<rparr>"
  let ?d = "\<lparr> dhk_dh = Some ?dh, dhk_shared_secret = None, dhk_is_dh_gex = False \<rparr>"
  let ?d' = "?d\<lparr> dhk_dh := Some (?dh\<lparr> dh_shared_secret := 8 \<rparr>), dhk_shared_secret := Some (biguint_to_mpint demo_kexlib 8) \<rparr>"
  have "big_from_bytes_be demo_kexlib [2] = 2" "big_modpow demo_kexlib 2 3 1019 = 8"
    using kexlib_okD(2) [OF demo_kexlib_ok, of "[2]"] kexlib_okD(5) [OF demo_kexlib_ok, of 1019 2 3] by (simp_all add: be_value_def)
  then have c: "compute_shared_secret demo_kexlib [2] (KA_DhGroup KH_Sha256 ?d) = Inr (KA_DhGroup KH_Sha256 ?d')"
    by (simp add: dhk_compute_shared_secret_def Let_def require_def validate_public_key_def validate_shared_secret_def
        prime_minus_one_def dh_compute_shared_secret_def dh_modpow_def)
  from secret_one_encoding [OF rfc4251_codec demo_kexlib_ok _ disjI1 [OF c]] obtain S where
    "\<forall>key ex. compute_exchange_hash demo_kexlib rfc4251 (KA_DhGroup KH_Sha256 ?d') key ex = Inr (digest demo_kexlib KH_Sha256
       (hashed_fields demo_kexlib rfc4251 (KA_DhGroup KH_Sha256 ?d') key ex @ secret_as_bytes S))"
    "secret_as_bytes S = bytes_encode rfc4251 (biguint_to_mpint demo_kexlib 8)" by auto
  with c show ?thesis by blast
qed

end
