(* ===== verification/Handshake.thy ===== *)
theory Handshake
  imports KexAlgs
begin

text \<open>
  The two handshake state machines: \<open>server/kex.rs\<close> and \<open>client/kex.rs\<close>. A step takes an incoming
  packet, a place to write packets to, and returns the next state or the new keys. The writer is an
  argument \<open>emit\<close>: the program uses \<open>PacketWriter::write_packet\<close>, and writing to a list of payloads
  gives the messages themselves. The host key package is the record \<open>hostlib\<close>. The property: a client and
  a server that exchange the messages they write to each other end with the same session id, the same
  algorithms and ciphers in step in both directions.
\<close>

section \<open>Definitions shared by both sides\<close>

type_synonym PublicKey = bytes

record hostlib =
  public_key_to_bytes :: "PrivateKey \<Rightarrow> bytes option"
  parse_public_key :: "bytes \<Rightarrow> PublicKey option"
  public_key_bytes :: "PublicKey \<Rightarrow> bytes option"
  try_sign :: "PrivateKey \<Rightarrow> HashAlg option \<Rightarrow> bytes \<Rightarrow> bytes option"
  signature_decode :: "bytes \<Rightarrow> (bytes \<times> bytes) option"
  signature_verify :: "PublicKey \<Rightarrow> bytes \<Rightarrow> bytes \<Rightarrow> bool"
  mpint_decode :: "bytes \<Rightarrow> (bytes \<times> bytes) option"

record kexenv =
  ke_codec :: codec
  ke_crypto :: crypto
  ke_lib :: kexlib
  ke_host :: hostlib
  ke_names :: "Algorithm \<Rightarrow> rstring"

record IncomingSshPacket =
  in_buffer :: bytes
  in_seqn :: u32

record NewKeys =
  nk_exchange :: Exchange
  nk_names :: Names
  nk_kex :: KexAlgorithm
  nk_key :: nat
  nk_cipher :: CipherPair
  nk_session_id :: bytes

datatype 'k KexProgress = NeedsReply 'k bool | Done "PublicKey option" NewKeys

type_synonym 'w emit = "bytes \<Rightarrow> 'w \<Rightarrow> 'w res"

text \<open>The key of \<open>PrivateKeyWithHashAlg::new\<close> ignores the hash for keys that are not RSA keys.\<close>

definition effective_hash_alg :: "PrivateKey \<Rightarrow> HashAlg option \<Rightarrow> HashAlg option" where
  "effective_hash_alg key hash_alg = (if is_rsa (pk_algorithm key) then hash_alg else None)"

definition sign_with_hash_alg :: "hostlib \<Rightarrow> PrivateKey \<Rightarrow> HashAlg option \<Rightarrow> bytes \<Rightarrow> bytes option" where
  "sign_with_hash_alg H key hash_alg = try_sign H key (effective_hash_alg key hash_alg)"

text \<open>The violation of strict key exchange when KEXINIT is not the first packet; \<open>usize\<close> subtraction wraps at zero.\<close>

definition check_first_seqn :: "Names \<Rightarrow> KexCause \<Rightarrow> u32 \<Rightarrow> unit res" where
  "check_first_seqn names cause seqn =
     (if nm_strict_kex names \<and> \<not> is_rekey cause \<and> seqn \<noteq> 1
      then Inl (strict_kex_violation KEXINIT (if seqn = 0 then 2 ^ 64 - 1 else unat seqn - 1))
      else Inr ())"

definition kex_new_keys ::
  "kexenv \<Rightarrow> bool \<Rightarrow> bytes \<Rightarrow> KexAlgorithm \<Rightarrow> Names \<Rightarrow> Exchange \<Rightarrow> bytes option \<Rightarrow> NewKeys res" where
  "kex_new_keys X is_server hash kex names exchange session_id =
     (let session_id_ref = (case session_id of Some sid \<Rightarrow> sid | None \<Rightarrow> hash);
          (remote_mac, local_mac) =
            (if is_server then (nm_client_mac names, nm_server_mac names)
             else (nm_server_mac names, nm_client_mac names)) in
      bindR (kex_compute_keys (ke_lib X) (ke_codec X) (ke_crypto X) kex session_id_ref hash
               (nm_cipher names) remote_mac local_mac is_server) (\<lambda>c.
        Inr \<lparr> nk_exchange = exchange, nk_names = names, nk_kex = kex, nk_key = 0, nk_cipher = c,
              nk_session_id = session_id_ref \<rparr>))"

section \<open>The server\<close>

record kex_config =
  preferred :: Preferred
  host_keys :: "PrivateKey list"

datatype ServerKexState =
    SKS_Created
  | SKS_WaitingForGexRequest Names KexAlgorithm
  | SKS_WaitingForDhInit Names KexAlgorithm
  | SKS_WaitingForNewKeys NewKeys

record ServerKex =
  sk_exchange :: Exchange
  sk_cause :: KexCause
  sk_state :: ServerKexState
  sk_config :: kex_config

definition ServerKex_new :: "kex_config \<Rightarrow> bytes \<Rightarrow> SshId \<Rightarrow> KexCause \<Rightarrow> ServerKex" where
  "ServerKex_new config client_sshid server_sshid cause =
     \<lparr> sk_exchange = Exchange_new client_sshid (as_kex_hash_bytes server_sshid), sk_cause = cause,
       sk_state = SKS_Created, sk_config = config \<rparr>"

definition server_kexinit ::
  "env \<Rightarrow> (Algorithm \<Rightarrow> rstring) \<Rightarrow> bytes \<Rightarrow> ServerKex \<Rightarrow> PacketWriter \<Rightarrow> (ServerKex \<times> PacketWriter) res" where
  "server_kexinit E N cookie self output =
     bindR (write_kex E N cookie (preferred (sk_config self)) (Some (host_keys (sk_config self))) output)
       (\<lambda>(payload, output).
          Inr (self\<lparr> sk_exchange := (sk_exchange self)\<lparr> server_kex_init := payload \<rparr> \<rparr>, output))"

definition server_step_created ::
  "kexenv \<Rightarrow> 'w emit \<Rightarrow> ServerKex \<Rightarrow> IncomingSshPacket \<Rightarrow> 'w \<Rightarrow> (ServerKex KexProgress \<times> 'w) res" where
  "server_step_created X emit self input out =
     (if take 1 (in_buffer input) \<noteq> [KEXINIT] then Inl E_KexInit
      else (let ex = (sk_exchange self)\<lparr> client_kex_init := in_buffer input \<rparr> in
      bindR (read_kex Server (ke_codec X) (ke_names X) (in_buffer input) (preferred (sk_config self))
               (Some (host_keys (sk_config self))) (sk_cause self)) (\<lambda>names.
      bindR (check_first_seqn names (sk_cause self) (in_seqn input)) (\<lambda>_.
      bindR (ok_or E_UnknownAlgo (map_of (KEXES (ke_lib X)) (nm_kex names))) (\<lambda>kex.
      if skip_exchange kex then
        bindR (kex_new_keys X True [] kex names ex (cause_session_id (sk_cause self))) (\<lambda>newkeys.
        bindR (emit [NEWKEYS] out) (\<lambda>out. Inr (Done None newkeys, out)))
      else
        (let state = (if is_dh_gex kex then SKS_WaitingForGexRequest names kex
                      else SKS_WaitingForDhInit names kex)
         in Inr (NeedsReply (self\<lparr> sk_exchange := ex, sk_state := state \<rparr>) False, out)))))))"

definition server_step_gex ::
  "kexenv \<Rightarrow> (GexParams \<Rightarrow> DhGroup option res) \<Rightarrow> 'w emit \<Rightarrow> ServerKex \<Rightarrow> Names \<Rightarrow> KexAlgorithm \<Rightarrow>
     IncomingSshPacket \<Rightarrow> 'w \<Rightarrow> (ServerKex KexProgress \<times> 'w) res" where
  "server_step_gex X lookup emit self names kex input out =
     (if take 1 (in_buffer input) \<noteq> [KEX_DH_GEX_REQUEST] then Inl E_KexInit
      else
      bindR (gex_decode (ke_codec X) (drop 1 (in_buffer input))) (\<lambda>(gex_params, r).
      bindR (ensure_end r) (\<lambda>_.
      bindR (lookup gex_params) (\<lambda>found.
      bindR (ok_or E_Kex found) (\<lambda>dh_group.
      (let L = ke_lib X;
           prime = biguint_to_mpint L (big_from_bytes_be L (dg_prime dh_group));
           generator = biguint_to_mpint L (big_from_bytes_be L (dg_generator dh_group));
           ex = (sk_exchange self)\<lparr> gex := Some (gex_params, dh_group) \<rparr> in
      bindR (dh_gex_set_group L dh_group kex) (\<lambda>kex.
      bindR (emit (KEX_DH_GEX_GROUP # bytes_encode (ke_codec X) prime @ bytes_encode (ke_codec X) generator) out) (\<lambda>out.
        Inr (NeedsReply (self\<lparr> sk_exchange := ex, sk_state := SKS_WaitingForDhInit names kex \<rparr>) False, out)))))))))"

definition server_step_dh ::
  "kexenv \<Rightarrow> 'w emit \<Rightarrow> randomness \<Rightarrow> ServerKex \<Rightarrow> Names \<Rightarrow> KexAlgorithm \<Rightarrow> IncomingSshPacket \<Rightarrow> 'w \<Rightarrow>
     (ServerKex KexProgress \<times> 'w) res" where
  "server_step_dh X emit rnd self names kex input out =
     (if nm_ignore_guessed names then
        Inr (NeedsReply (self\<lparr> sk_state := SKS_WaitingForDhInit (names\<lparr> nm_ignore_guessed := False \<rparr>) kex \<rparr>) False, out)
      else if take 1 (in_buffer input) \<noteq> [if is_dh_gex kex then KEX_DH_GEX_INIT else KEX_ECDH_INIT] then Inl E_KexInit
      else (let C = ke_codec X; H = ke_host X in
      bindR (d_bytes C (drop 1 (in_buffer input))) (\<lambda>(eph, r).
      bindR (ensure_end r) (\<lambda>_.
      (let ex = (sk_exchange self)\<lparr> client_ephemeral := client_ephemeral (sk_exchange self) @ eph \<rparr> in
      bindR (server_dh (ke_lib X) C rnd kex ex (in_buffer input)) (\<lambda>(kex, ex).
      bindR (ok_or E_UnknownKey
               (find (\<lambda>key. is_key_compatible_with_algo key (nm_key names)) (host_keys (sk_config self)))) (\<lambda>key.
      bindR (ok_or E_SshKey (public_key_to_bytes H key)) (\<lambda>pubkey.
      bindR (compute_exchange_hash (ke_lib X) C kex (bytes_encode C pubkey) ex) (\<lambda>hash.
      bindR (ok_or E_SshKey (sign_with_hash_alg H key
               (case nm_key names of Rsa h \<Rightarrow> h | _ \<Rightarrow> None) hash)) (\<lambda>signature.
      bindR (emit ((if is_dh_gex kex then KEX_DH_GEX_REPLY else KEX_ECDH_REPLY) #
               bytes_encode C pubkey @ bytes_encode C (server_ephemeral ex) @ bytes_encode C signature) out) (\<lambda>out.
      bindR (emit [NEWKEYS] out) (\<lambda>out.
      bindR (kex_new_keys X True hash kex names ex (cause_session_id (sk_cause self))) (\<lambda>newkeys.
        Inr (NeedsReply (self\<lparr> sk_exchange := ex, sk_state := SKS_WaitingForNewKeys newkeys \<rparr>)
               (nm_strict_kex (nk_names newkeys) \<or> is_strict_rekey (sk_cause self)), out))))))))))))))"

definition server_step_newkeys ::
  "NewKeys \<Rightarrow> IncomingSshPacket \<Rightarrow> 'w \<Rightarrow> (ServerKex KexProgress \<times> 'w) res" where
  "server_step_newkeys newkeys input out =
     (if take 1 (in_buffer input) \<noteq> [NEWKEYS] then Inl E_Kex
      else bindR (ensure_end (drop 1 (in_buffer input))) (\<lambda>_. Inr (Done None newkeys, out)))"

definition server_step ::
  "kexenv \<Rightarrow> (GexParams \<Rightarrow> DhGroup option res) \<Rightarrow> 'w emit \<Rightarrow> randomness \<Rightarrow> ServerKex \<Rightarrow>
     IncomingSshPacket option \<Rightarrow> 'w \<Rightarrow> (ServerKex KexProgress \<times> 'w) res" where
  "server_step X lookup emit rnd self input out =
     (case input of
        None \<Rightarrow> Inl E_KexInit
      | Some input \<Rightarrow>
          (case sk_state self of
             SKS_Created \<Rightarrow> server_step_created X emit self input out
           | SKS_WaitingForGexRequest names kex \<Rightarrow> server_step_gex X lookup emit self names kex input out
           | SKS_WaitingForDhInit names kex \<Rightarrow> server_step_dh X emit rnd self names kex input out
           | SKS_WaitingForNewKeys newkeys \<Rightarrow> server_step_newkeys newkeys input out))"

section \<open>The client\<close>

record client_kex_config =
  cl_preferred :: Preferred
  cl_gex :: GexParams

datatype ClientKexState =
    CKS_Created
  | CKS_WaitingForGexReply Names KexAlgorithm
  | CKS_WaitingForDhReply Names KexAlgorithm
  | CKS_WaitingForNewKeys PublicKey NewKeys

record ClientKex =
  ck_exchange :: Exchange
  ck_cause :: KexCause
  ck_state :: ClientKexState
  ck_config :: client_kex_config

definition ClientKex_new :: "client_kex_config \<Rightarrow> SshId \<Rightarrow> bytes \<Rightarrow> KexCause \<Rightarrow> ClientKex" where
  "ClientKex_new config client_sshid server_sshid cause =
     \<lparr> ck_exchange = Exchange_new (as_kex_hash_bytes client_sshid) server_sshid, ck_cause = cause,
       ck_state = CKS_Created, ck_config = config \<rparr>"

definition client_kexinit ::
  "env \<Rightarrow> (Algorithm \<Rightarrow> rstring) \<Rightarrow> bytes \<Rightarrow> ClientKex \<Rightarrow> PacketWriter \<Rightarrow> (ClientKex \<times> PacketWriter) res" where
  "client_kexinit E N cookie self output =
     bindR (write_kex E N cookie (cl_preferred (ck_config self)) None output)
       (\<lambda>(payload, output).
          Inr (self\<lparr> ck_exchange := (ck_exchange self)\<lparr> client_kex_init := payload \<rparr> \<rparr>, output))"

definition client_step_created ::
  "kexenv \<Rightarrow> 'w emit \<Rightarrow> randomness \<Rightarrow> ClientKex \<Rightarrow> IncomingSshPacket \<Rightarrow> 'w \<Rightarrow> (ClientKex KexProgress \<times> 'w) res" where
  "client_step_created X emit rnd self input out =
     (if take 1 (in_buffer input) \<noteq> [KEXINIT] then Inl E_KexInit
      else (let ex = (ck_exchange self)\<lparr> server_kex_init := in_buffer input \<rparr> in
      bindR (read_kex Client (ke_codec X) (ke_names X) (in_buffer input) (cl_preferred (ck_config self))
               None (ck_cause self)) (\<lambda>names.
      bindR (check_first_seqn names (ck_cause self) (in_seqn input)) (\<lambda>_.
      bindR (ok_or E_UnknownAlgo (map_of (KEXES (ke_lib X)) (nm_kex names))) (\<lambda>kex.
      if skip_exchange kex then
        bindR (kex_new_keys X False [] kex names ex (cause_session_id (ck_cause self))) (\<lambda>newkeys.
        bindR (emit [NEWKEYS] out) (\<lambda>out. Inr (Done None newkeys, out)))
      else if is_dh_gex kex then
        bindR (client_dh_gex_init (ke_codec X) (cl_gex (ck_config self)) kex) (\<lambda>m.
        bindR (emit m out) (\<lambda>out.
          Inr (NeedsReply (self\<lparr> ck_exchange := ex, ck_state := CKS_WaitingForGexReply names kex \<rparr>) False, out)))
      else
        bindR (client_dh (ke_lib X) (ke_codec X) rnd (client_ephemeral ex) kex) (\<lambda>(kex, eph, m).
        bindR (emit m out) (\<lambda>out.
          Inr (NeedsReply (self\<lparr> ck_exchange := ex\<lparr> client_ephemeral := eph \<rparr>,
                                 ck_state := CKS_WaitingForDhReply names kex \<rparr>) False, out))))))))"

definition client_step_gex ::
  "kexenv \<Rightarrow> 'w emit \<Rightarrow> randomness \<Rightarrow> ClientKex \<Rightarrow> Names \<Rightarrow> KexAlgorithm \<Rightarrow> IncomingSshPacket \<Rightarrow> 'w \<Rightarrow>
     (ClientKex KexProgress \<times> 'w) res" where
  "client_step_gex X emit rnd self names kex input out =
     (if take 1 (in_buffer input) \<noteq> [KEX_DH_GEX_GROUP] then Inl E_KexInit
      else
      bindR (ok_or (E_SshEncoding EncDecode) (mpint_decode (ke_host X) (drop 1 (in_buffer input)))) (\<lambda>(prime, r).
      bindR (ok_or (E_SshEncoding EncDecode) (mpint_decode (ke_host X) r)) (\<lambda>(generator, r).
      bindR (ensure_end r) (\<lambda>_.
      (let grp = \<lparr> dg_prime = prime, dg_generator = generator \<rparr>; g = cl_gex (ck_config self) in
      if bit_size grp < min_group_size g \<or> max_group_size g < bit_size grp then Inl E_KexInit
      else (let ex = (ck_exchange self)\<lparr> gex := Some (g, grp) \<rparr> in
      bindR (dh_gex_set_group (ke_lib X) grp kex) (\<lambda>kex.
      bindR (client_dh (ke_lib X) (ke_codec X) rnd (client_ephemeral ex) kex) (\<lambda>(kex, eph, m).
      bindR (emit m out) (\<lambda>out.
        Inr (NeedsReply (self\<lparr> ck_exchange := ex\<lparr> client_ephemeral := eph \<rparr>,
                               ck_state := CKS_WaitingForDhReply names kex \<rparr>) False, out))))))))))"

definition client_step_dh ::
  "kexenv \<Rightarrow> 'w emit \<Rightarrow> ClientKex \<Rightarrow> Names \<Rightarrow> KexAlgorithm \<Rightarrow> IncomingSshPacket \<Rightarrow> 'w \<Rightarrow>
     (ClientKex KexProgress \<times> 'w) res" where
  "client_step_dh X emit self names kex input out =
     (if nm_ignore_guessed names then
        Inr (NeedsReply (self\<lparr> ck_state := CKS_WaitingForDhReply (names\<lparr> nm_ignore_guessed := False \<rparr>) kex \<rparr>) False, out)
      else if take 1 (in_buffer input) \<noteq> [if is_dh_gex kex then KEX_DH_GEX_REPLY else KEX_ECDH_REPLY] then Inl E_KexInit
      else (let C = ke_codec X; H = ke_host X in
      bindR (d_bytes C (drop 1 (in_buffer input))) (\<lambda>(key_bytes, r).
      bindR (ok_or E_SshKey (parse_public_key H key_bytes)) (\<lambda>server_host_key.
      bindR (d_bytes C r) (\<lambda>(eph, r).
      (let ex = (ck_exchange self)\<lparr> server_ephemeral := server_ephemeral (ck_exchange self) @ eph \<rparr> in
      bindR (compute_shared_secret (ke_lib X) (server_ephemeral ex) kex) (\<lambda>kex.
      bindR (ok_or E_SshKey (public_key_bytes H server_host_key)) (\<lambda>pubkey.
      bindR (compute_exchange_hash (ke_lib X) C kex (bytes_encode C pubkey) ex) (\<lambda>hash.
      bindR (d_bytes C r) (\<lambda>(signature, r).
      bindR (ok_or E_SshKey (signature_decode H signature)) (\<lambda>(sig, signature_rest).
      bindR (ensure_end signature_rest) (\<lambda>_.
      bindR (ensure_end r) (\<lambda>_.
      if \<not> signature_verify H server_host_key hash sig then Inl E_WrongServerSig
      else
      bindR (kex_new_keys X False hash kex names ex (cause_session_id (ck_cause self))) (\<lambda>newkeys.
      bindR (emit [NEWKEYS] out) (\<lambda>out.
        Inr (NeedsReply (self\<lparr> ck_exchange := ex, ck_state := CKS_WaitingForNewKeys server_host_key newkeys \<rparr>)
               (nm_strict_kex (nk_names newkeys) \<or> is_strict_rekey (ck_cause self)), out))))))))))))))))"

definition client_step_newkeys ::
  "PublicKey \<Rightarrow> NewKeys \<Rightarrow> IncomingSshPacket \<Rightarrow> 'w \<Rightarrow> (ClientKex KexProgress \<times> 'w) res" where
  "client_step_newkeys server_host_key newkeys input out =
     (if take 1 (in_buffer input) \<noteq> [NEWKEYS] then Inl E_Kex
      else bindR (ensure_end (drop 1 (in_buffer input))) (\<lambda>_. Inr (Done (Some server_host_key) newkeys, out)))"

definition client_step ::
  "kexenv \<Rightarrow> 'w emit \<Rightarrow> randomness \<Rightarrow> ClientKex \<Rightarrow> IncomingSshPacket option \<Rightarrow> 'w \<Rightarrow>
     (ClientKex KexProgress \<times> 'w) res" where
  "client_step X emit rnd self input out =
     (case input of
        None \<Rightarrow> Inl E_KexInit
      | Some input \<Rightarrow>
          (case ck_state self of
             CKS_Created \<Rightarrow> client_step_created X emit rnd self input out
           | CKS_WaitingForGexReply names kex \<Rightarrow> client_step_gex X emit rnd self names kex input out
           | CKS_WaitingForDhReply names kex \<Rightarrow> client_step_dh X emit self names kex input out
           | CKS_WaitingForNewKeys key newkeys \<Rightarrow> client_step_newkeys key newkeys input out))"

text \<open>The writer of the program, and a writer that records payloads.\<close>

definition packet_emit :: "env \<Rightarrow> PacketWriter emit" where
  "packet_emit E p w = write_packet E (Inr p) w"

definition log_emit :: "bytes list emit" where
  "log_emit p ps = Inr (ps @ [p])"

section \<open>Lemmas\<close>

text \<open>
  What the host key package promises: a public key survives serialisation, and a signature made with a key
  decodes and verifies under its public key.
\<close>

definition hostlib_ok :: "hostlib \<Rightarrow> bool" where
  "hostlib_ok H \<longleftrightarrow>
     (\<forall>key pub. public_key_to_bytes H key = Some pub \<longrightarrow>
        (\<exists>pk. parse_public_key H pub = Some pk \<and> public_key_bytes H pk = Some pub \<and>
           (\<forall>alg m sg. try_sign H key alg m = Some sg \<longrightarrow>
              (\<exists>sig. signature_decode H sg = Some (sig, []) \<and> signature_verify H pk m sig))))"

text \<open>An integer that was written as a length and its canonical bytes is read back, if it is read at all, as these bytes.\<close>

definition mpint_ok :: "kexenv \<Rightarrow> bool" where
  "mpint_ok X \<longleftrightarrow>
     (\<forall>n r b r'. length (biguint_to_mpint (ke_lib X) n) \<le> max_string \<longrightarrow>
        mpint_decode (ke_host X) (bytes_encode (ke_codec X) (biguint_to_mpint (ke_lib X) n) @ r) = Some (b, r') \<longrightarrow>
        b = biguint_to_mpint (ke_lib X) n \<and> r' = r)"

lemma log_emit_Inr [res_simps]: "log_emit p ps = Inr qs \<longleftrightarrow> qs = ps @ [p]"
  by (auto simp: log_emit_def)

lemma compute_keys_sync:
  assumes "hash_ok H hl" "compute_keys K H ss sid eh cn cm sm True = Inr s"
  shows "\<exists>c. compute_keys K H ss sid eh cn sm cm False = Inr c \<and>
    in_sync (local_to_remote s) (remote_to_local c) \<and> in_sync (local_to_remote c) (remote_to_local s)"
proof -
  from assms(2) obtain c macr macl where "map_of CIPHERS cn = Some c" "map_of MACS cm = Some macr"
    "map_of MACS sm = Some macl"
    unfolding compute_keys_def by (auto simp only: bindR_Inr_iff ok_or_Inr_iff)
  from keys_of_role [OF assms(1) this, of K ss sid eh] assms(2) show ?thesis by fastforce
qed

lemma kex_keys_sync:
  assumes "kexlib_ok L" "same_secret L kc ks" "kex_compute_keys L C K ks sid eh cn cm sm True = Inr s"
  shows "\<exists>c. kex_compute_keys L C K kc sid eh cn sm cm False = Inr c \<and>
    in_sync (local_to_remote s) (remote_to_local c) \<and> in_sync (local_to_remote c) (remote_to_local s)"
proof -
  obtain hl where h: "\<And>h. hash_ok (digest L h) (hl h)" using kexlib_okD(1) [OF assms(1)] by metis
  show ?thesis
    unfolding same_secret_keys [OF assms(2)]
    using assms(3) compute_keys_sync [OF h] by (cases ks) (auto simp: bindR_Inr_iff)
qed

lemma new_keys_sync:
  assumes "kexlib_ok (ke_lib X)" "same_secret (ke_lib X) kc ks"
    and "kex_new_keys X True hash ks names ex sid = Inr news"
  shows "\<exists>newc. kex_new_keys X False hash kc names ex' sid = Inr newc \<and>
    nk_session_id newc = nk_session_id news \<and> nk_names newc = names \<and> nk_names news = names \<and>
    in_sync (local_to_remote (nk_cipher news)) (remote_to_local (nk_cipher newc)) \<and>
    in_sync (local_to_remote (nk_cipher newc)) (remote_to_local (nk_cipher news))"
proof -
  from assms(3) obtain s where 1: "kex_compute_keys (ke_lib X) (ke_codec X) (ke_crypto X) ks
      (case sid of Some sid \<Rightarrow> sid | None \<Rightarrow> hash) hash (nm_cipher names) (nm_client_mac names)
      (nm_server_mac names) True = Inr s"
    and 2: "news = \<lparr> nk_exchange = ex, nk_names = names, nk_kex = ks, nk_key = 0, nk_cipher = s,
      nk_session_id = (case sid of Some sid \<Rightarrow> sid | None \<Rightarrow> hash) \<rparr>"
    by (auto simp: kex_new_keys_def Let_def bindR_Inr_iff)
  from kex_keys_sync [OF assms(1,2) 1] show ?thesis by (auto simp: kex_new_keys_def 2)
qed

lemma new_keys_names: "kex_new_keys X srv hash k names ex sid = Inr nk \<Longrightarrow> nk_names nk = names"
  by (auto simp: kex_new_keys_def Let_def bindR_Inr_iff split: if_splits)

text \<open>What a server that answers an init message has done.\<close>

lemma server_step_dh_Inr:
  assumes "server_step_dh X log_emit rnd self names kex \<lparr> in_buffer = m, in_seqn = n \<rparr> [] = Inr (NeedsReply s2 r2, [reply, final])"
    and "\<not> nm_ignore_guessed names" "sk_exchange self = ex0" "client_ephemeral ex0 = []"
  obtains eph ex kex' key pubkey hash signature newkeys where
    "d_bytes (ke_codec X) (drop 1 m) = Inr (eph, [])"
    "server_dh (ke_lib X) (ke_codec X) rnd kex (ex0\<lparr> client_ephemeral := eph \<rparr>) m = Inr (kex', ex)"
    "public_key_to_bytes (ke_host X) key = Some pubkey"
    "compute_exchange_hash (ke_lib X) (ke_codec X) kex' (bytes_encode (ke_codec X) pubkey) ex = Inr hash"
    "sign_with_hash_alg (ke_host X) key
       (case nm_key names of Rsa h \<Rightarrow> h | _ \<Rightarrow> None) hash = Some signature"
    "kex_new_keys X True hash kex' names ex (cause_session_id (sk_cause self)) = Inr newkeys"
    "reply = (if is_dh_gex kex' then KEX_DH_GEX_REPLY else KEX_ECDH_REPLY) #
       bytes_encode (ke_codec X) pubkey @ bytes_encode (ke_codec X) (server_ephemeral ex) @
       bytes_encode (ke_codec X) signature" "final = [NEWKEYS]"
    "s2 = self\<lparr> sk_exchange := ex, sk_state := SKS_WaitingForNewKeys newkeys \<rparr>"
    "r2 = (nm_strict_kex (nk_names newkeys) \<or> is_strict_rekey (sk_cause self))"
  using assms unfolding server_step_dh_def
  by (auto simp: Let_def res_simps split: if_splits)

lemma bytes_encode_inj:
  "ssh_codec C \<Longrightarrow> bytes_encode C x = bytes_encode C y \<Longrightarrow> x = y"
  using ssh_codec.bytes_layout [of C] ssh_codec.u32_length [of C] by (simp add: append_eq_append_conv)

text \<open>
  Transcripts that are hashed the same: a group that was negotiated may be written down with different bytes by the two
  roles, but has the same numbers.
\<close>

definition same_gex :: "codec \<Rightarrow> Exchange \<Rightarrow> Exchange \<Rightarrow> bool" where
  "same_gex C ex ex' \<longleftrightarrow> ex' = ex\<lparr> gex := gex ex' \<rparr> \<and>
     rel_option (\<lambda>(p, g) (p', g'). gex_encode C p = gex_encode C p' \<and> be_value (dg_prime g) = be_value (dg_prime g') \<and>
       be_value (dg_generator g) = be_value (dg_generator g')) (gex ex) (gex ex')"

lemma same_gex_refl [simp]: "same_gex C ex ex"
  by (cases "gex ex") (auto simp: same_gex_def)

lemma same_gex_fields:
  assumes "same_gex C ex ex'"
  shows "client_id ex' = client_id ex" "server_id ex' = server_id ex" "client_kex_init ex' = client_kex_init ex"
    "server_kex_init ex' = server_kex_init ex" "client_ephemeral ex' = client_ephemeral ex"
    "server_ephemeral ex' = server_ephemeral ex"
proof -
  from assms have "ex' = ex\<lparr> gex := gex ex' \<rparr>" by (simp add: same_gex_def)
  then show "client_id ex' = client_id ex" "server_id ex' = server_id ex" "client_kex_init ex' = client_kex_init ex"
    "server_kex_init ex' = server_kex_init ex" "client_ephemeral ex' = client_ephemeral ex"
    "server_ephemeral ex' = server_ephemeral ex" by (cases ex; cases ex'; simp)+
qed

lemma same_gex_hash:
  assumes "kexlib_ok L" "same_gex C ex ex'"
  shows "compute_exchange_hash L C k key ex' = compute_exchange_hash L C k key ex"
proof -
  have "rel_option (\<lambda>(p, g) (p', g'). gex_encode C p = gex_encode C p' \<and> be_value (dg_prime g) = be_value (dg_prime g') \<and>
       be_value (dg_generator g) = be_value (dg_generator g')) (gex ex) (gex ex')"
    using assms(2) by (simp add: same_gex_def)
  then show ?thesis
    by (cases k; cases "gex ex"; cases "gex ex'") (auto simp: dhk_exchange_hash_def mpint_exchange_hash_def mlk_exchange_hash_def
        exchange_prefix_def exchange_ephemerals_def same_gex_fields [OF assms(2)] kexlib_okD(2) [OF assms(1)])
qed

lemma same_gex_server: "same_gex C ex ex' \<Longrightarrow> same_gex C (ex\<lparr> server_ephemeral := e \<rparr>) (ex'\<lparr> server_ephemeral := e \<rparr>)"
  "same_gex C ex ex' \<Longrightarrow> same_gex C (ex\<lparr> client_ephemeral := e \<rparr>) (ex'\<lparr> client_ephemeral := e \<rparr>)"
  by (cases ex; cases ex'; simp add: same_gex_def)+

text \<open>A client that receives the reply of such a server accepts it and derives matching keys.\<close>

lemma client_step_dh_accepts:
  assumes "ssh_codec (ke_codec X)" "hostlib_ok (ke_host X)" "kexlib_ok (ke_lib X)"
    and "public_key_to_bytes (ke_host X) key = Some pubkey"
    and "compute_exchange_hash (ke_lib X) (ke_codec X) ks (bytes_encode (ke_codec X) pubkey) ex = Inr hash"
    and "sign_with_hash_alg (ke_host X) key alg hash = Some signature"
    and "kex_new_keys X True hash ks names ex sid = Inr news"
    and m: "in_buffer input = (if is_dh_gex kc then KEX_DH_GEX_REPLY else KEX_ECDH_REPLY) #
       bytes_encode (ke_codec X) pubkey @ bytes_encode (ke_codec X) (server_ephemeral ex) @
       bytes_encode (ke_codec X) signature"
    and l: "length (in_buffer input) \<le> max_string"
    and kc: "compute_shared_secret (ke_lib X) (server_ephemeral ex) kc = Inr kc'" "same_secret (ke_lib X) kc' ks"
    and c: "same_gex (ke_codec X) ex ex'" "ck_exchange c = ex'\<lparr> server_ephemeral := [] \<rparr>" "cause_session_id (ck_cause c) = sid"
    and "\<not> nm_ignore_guessed names"
  shows "\<exists>pk newc. client_step_dh X log_emit c names kc input [] =
      Inr (NeedsReply (c\<lparr> ck_exchange := ex', ck_state := CKS_WaitingForNewKeys pk newc \<rparr>)
        (nm_strict_kex names \<or> is_strict_rekey (ck_cause c)), [[NEWKEYS]]) \<and>
    public_key_bytes (ke_host X) pk = Some pubkey \<and>
    nk_session_id newc = nk_session_id news \<and> nk_names newc = nk_names news \<and>
    in_sync (local_to_remote (nk_cipher news)) (remote_to_local (nk_cipher newc)) \<and>
    in_sync (local_to_remote (nk_cipher newc)) (remote_to_local (nk_cipher news))"
proof -
  obtain pk sig where pk: "parse_public_key (ke_host X) pubkey = Some pk" "public_key_bytes (ke_host X) pk = Some pubkey"
    "signature_decode (ke_host X) signature = Some (sig, [])" "signature_verify (ke_host X) pk hash sig"
    using assms(2,4,6) unfolding hostlib_ok_def sign_with_hash_alg_def by metis
  have len: "length pubkey \<le> max_string" "length (server_ephemeral ex) \<le> max_string" "length signature \<le> max_string"
    using l by (simp_all add: m ssh_codec.bytes_length [OF assms(1)])
  have hash: "compute_exchange_hash (ke_lib X) (ke_codec X) kc' (bytes_encode (ke_codec X) pubkey) ex' = Inr hash"
    using same_secret_hash [OF kc(2)] same_gex_hash [OF assms(3) c(1)] assms(5) by simp
  have eph: "ex'\<lparr> server_ephemeral := server_ephemeral ex \<rparr> = ex'"
    using same_gex_fields(6) [OF c(1)] by (cases ex') simp
  obtain newc where n: "kex_new_keys X False hash kc' names ex' sid = Inr newc"
    "nk_session_id newc = nk_session_id news" "nk_names newc = names" "nk_names news = names"
    "in_sync (local_to_remote (nk_cipher news)) (remote_to_local (nk_cipher newc))"
    "in_sync (local_to_remote (nk_cipher newc)) (remote_to_local (nk_cipher news))"
    using new_keys_sync [OF assms(3) kc(2) assms(7), of ex'] by blast
  have "client_step_dh X log_emit c names kc input [] =
      Inr (NeedsReply (c\<lparr> ck_exchange := ex', ck_state := CKS_WaitingForNewKeys pk newc \<rparr>)
        (nm_strict_kex names \<or> is_strict_rekey (ck_cause c)), [[NEWKEYS]])"
    using assms(15) ssh_codec.d_bytes_round [OF assms(1) len(3), of "[]"] unfolding client_step_dh_def m
    by (simp add: c len pk kc hash n eph ssh_codec.d_bytes_round [OF assms(1)] ensure_end_def log_emit_def Let_def)
  with pk n show ?thesis by auto
qed

lemma negotiate_no_guess: "negotiate r N p av cause kl al peer = Inr nm \<Longrightarrow> \<not> nm_ignore_guessed nm"
  by (auto simp: negotiate_def res_simps)

lemma read_kex_both:
  assumes "ssh_codec C" "inj N" "length cookie_c = 16" "length cookie_s = 16"
    and "sendable_prefs N pc None" "sendable_prefs N ps (Some keys)"
    and "read_kex Server C N (kexinit_payload C N cookie_c pc None) ps (Some keys) cause = Inr names"
    and "read_kex Client C N (kexinit_payload C N cookie_s ps (Some keys)) pc None cause = Inr names'"
  shows "names' = names" "\<not> nm_ignore_guessed names"
  using assms negotiate_agrees [OF assms(2), of ps keys cause pc names]
    negotiate_no_guess [of Server N ps "Some keys" cause "kex_names_to_send pc None" _ pc names]
  by (auto simp: ssh_codec.read_kex_payload)

lemma server_created_Inr:
  assumes "server_step_created X log_emit s input [] = Inr (NeedsReply s1 q, outs)"
  obtains names k where "read_kex Server (ke_codec X) (ke_names X) (in_buffer input) (preferred (sk_config s))
      (Some (host_keys (sk_config s))) (sk_cause s) = Inr names"
    "map_of (KEXES (ke_lib X)) (nm_kex names) = Some k" "\<not> skip_exchange k"
    "s1 = s\<lparr> sk_exchange := (sk_exchange s)\<lparr> client_kex_init := in_buffer input \<rparr>,
             sk_state := (if is_dh_gex k then SKS_WaitingForGexRequest names k else SKS_WaitingForDhInit names k) \<rparr>"
  using assms by (auto simp: server_step_created_def Let_def res_simps split: if_splits)

lemma client_created_Inr:
  assumes "client_step_created X log_emit rc c input [] = Inr (NeedsReply c1 q, outs)"
    and "read_kex Client (ke_codec X) (ke_names X) (in_buffer input) (cl_preferred (ck_config c)) None (ck_cause c) = Inr names"
    and "map_of (KEXES (ke_lib X)) (nm_kex names) = Some k" "\<not> is_dh_gex k"
  obtains kc eph m where
    "client_dh (ke_lib X) (ke_codec X) rc (client_ephemeral (ck_exchange c)) k = Inr (kc, eph, m)" "outs = [m]"
    "c1 = c\<lparr> ck_exchange := (ck_exchange c)\<lparr> server_kex_init := in_buffer input, client_ephemeral := eph \<rparr>,
             ck_state := CKS_WaitingForDhReply names kc \<rparr>"
  using assms by (auto simp: client_step_created_def Let_def res_simps split: if_splits)

lemma client_created_read:
  assumes "client_step_created X log_emit rc c input [] = Inr (NeedsReply c1 q, outs)"
  obtains names where "read_kex Client (ke_codec X) (ke_names X) (in_buffer input) (cl_preferred (ck_config c)) None (ck_cause c) = Inr names"
  using assms by (auto simp: client_step_created_def Let_def res_simps split: if_splits)

lemma client_created_gex:
  assumes "client_step_created X log_emit rc c input [] = Inr (NeedsReply c1 q, outs)"
    and "read_kex Client (ke_codec X) (ke_names X) (in_buffer input) (cl_preferred (ck_config c)) None (ck_cause c) = Inr names"
    and "map_of (KEXES (ke_lib X)) (nm_kex names) = Some k" "is_dh_gex k"
  shows "outs = [dhk_gex_init (ke_codec X) (cl_gex (ck_config c))]"
    "c1 = c\<lparr> ck_exchange := (ck_exchange c)\<lparr> server_kex_init := in_buffer input \<rparr>, ck_state := CKS_WaitingForGexReply names k \<rparr>"
  using assms by (cases k; auto simp: client_step_created_def Let_def res_simps split: if_splits)+

text \<open>
  The round in which a group is negotiated, for the methods that have one: the server answers the client's request
  with a group, and the client answers that with its init message. Other methods go on at once.
\<close>

definition group_round ::
  "kexenv \<Rightarrow> (GexParams \<Rightarrow> DhGroup option res) \<Rightarrow> randomness \<Rightarrow> randomness \<Rightarrow> u32 \<Rightarrow> u32 \<Rightarrow>
     ServerKex \<Rightarrow> ClientKex \<Rightarrow> bytes \<Rightarrow> (ServerKex \<times> ClientKex \<times> bytes \<times> bytes list) res" where
  "group_round X lookup rs rc n n' s c m =
     (case sk_state s of
        SKS_WaitingForGexRequest _ _ \<Rightarrow>
          bindR (server_step X lookup log_emit rs s (Some \<lparr> in_buffer = m, in_seqn = n \<rparr>) []) (\<lambda>(p, outs).
            case (p, outs) of
              (NeedsReply s' _, [grp]) \<Rightarrow>
                bindR (client_step X log_emit rc c (Some \<lparr> in_buffer = grp, in_seqn = n' \<rparr>) []) (\<lambda>(p, outs).
                  case (p, outs) of
                    (NeedsReply c' _, [init]) \<Rightarrow> Inr (s', c', init, [grp])
                  | _ \<Rightarrow> Inl E_Kex)
            | _ \<Rightarrow> Inl E_Kex)
      | _ \<Rightarrow> Inr (s, c, m, []))"

lemma group_round_gex:
  assumes "group_round X lookup rs rc n n' s c m = Inr (s', c', init, grps)" "sk_state s = SKS_WaitingForGexRequest names k"
  shows "\<exists>q q' grp. grps = [grp] \<and>
    server_step X lookup log_emit rs s (Some \<lparr> in_buffer = m, in_seqn = n \<rparr>) [] = Inr (NeedsReply s' q, [grp]) \<and>
    client_step X log_emit rc c (Some \<lparr> in_buffer = grp, in_seqn = n' \<rparr>) [] = Inr (NeedsReply c' q', [init])"
  using assms by (auto simp: group_round_def bindR_def
      split: sum.split_asm prod.split_asm KexProgress.split_asm list.split_asm)

lemma gex_params_round:
  assumes "ssh_codec C" "gex_decode C (drop 1 (dhk_gex_init C g)) = Inr (g', r)"
  shows "gex_encode C g' = gex_encode C g"
proof -
  have "drop 1 (dhk_gex_init C g) = gex_encode C g @ []" by (simp add: dhk_gex_init_def gex_encode_def)
  with assms(2) ssh_codec.d_u32_round [OF assms(1)] ssh_codec.d_u32_round [OF assms(1), of _ "[]", simplified] show ?thesis
    by (auto simp: gex_decode_def gex_encode_def gex_from_peer_request_def gex_build_def Let_def res_simps)
qed

text \<open>After the group both roles have the same method state, and transcripts that are hashed the same.\<close>

lemma gex_phase:
  assumes X: "ssh_codec (ke_codec X)" "kexlib_ok (ke_lib X)" "mpint_ok X"
    and S: "server_step_gex X lookup log_emit s names k
        \<lparr> in_buffer = dhk_gex_init (ke_codec X) (cl_gex (ck_config c)), in_seqn = n \<rparr> [] = Inr (NeedsReply s' q, [grp])"
    and C: "client_step_gex X log_emit rc c names k \<lparr> in_buffer = grp, in_seqn = n' \<rparr> [] = Inr (NeedsReply c' q', [init])"
    and l: "length grp \<le> max_string" and e: "ck_exchange c = sk_exchange s"
  shows "\<exists>k' ex ex' kc eph. sk_state s' = SKS_WaitingForDhInit names k' \<and> sk_exchange s' = ex \<and> same_gex (ke_codec X) ex ex' \<and>
    ex = (sk_exchange s)\<lparr> gex := gex ex \<rparr> \<and> sk_cause s' = sk_cause s \<and> \<not> skip_exchange k' \<and>
    client_dh (ke_lib X) (ke_codec X) rc (client_ephemeral (ck_exchange c)) k' = Inr (kc, eph, init) \<and>
    ck_exchange c' = ex'\<lparr> client_ephemeral := eph \<rparr> \<and> ck_cause c' = ck_cause c \<and> ck_state c' = CKS_WaitingForDhReply names kc"
proof -
  let ?L = "ke_lib X" let ?C = "ke_codec X"
  let ?mp = "\<lambda>b. biguint_to_mpint ?L (big_from_bytes_be ?L b)"
  from S obtain g r dg ks where s: "gex_decode ?C (drop 1 (dhk_gex_init ?C (cl_gex (ck_config c)))) = Inr (g, r)"
    "dh_gex_set_group ?L dg k = Inr ks"
    "grp = KEX_DH_GEX_GROUP # bytes_encode ?C (?mp (dg_prime dg)) @ bytes_encode ?C (?mp (dg_generator dg))"
    "s' = s\<lparr> sk_exchange := (sk_exchange s)\<lparr> gex := Some (g, dg) \<rparr>, sk_state := SKS_WaitingForDhInit names ks \<rparr>"
    by (auto simp: server_step_gex_def Let_def res_simps split: if_splits)
  have len: "length (?mp (dg_prime dg)) \<le> max_string" "length (?mp (dg_generator dg)) \<le> max_string"
    using l by (simp_all add: s(3) ssh_codec.bytes_length [OF X(1)])
  from C obtain prime generator r1 r2 kc0 kc eph where
    d: "mpint_decode (ke_host X) (drop 1 grp) = Some (prime, r1)" "mpint_decode (ke_host X) r1 = Some (generator, r2)"
    and k: "dh_gex_set_group ?L \<lparr> dg_prime = prime, dg_generator = generator \<rparr> k = Inr kc0"
      "client_dh ?L ?C rc (client_ephemeral (ck_exchange c)) kc0 = Inr (kc, eph, init)"
      "c' = c\<lparr> ck_exchange := (ck_exchange c)\<lparr> gex := Some (cl_gex (ck_config c), \<lparr> dg_prime = prime, dg_generator = generator \<rparr>),
         client_ephemeral := eph \<rparr>, ck_state := CKS_WaitingForDhReply names kc \<rparr>"
    by (auto simp: client_step_gex_def Let_def res_simps split: if_splits)
  have p: "prime = ?mp (dg_prime dg)" "r1 = bytes_encode ?C (?mp (dg_generator dg))"
    using X(3) len(1) d(1) unfolding mpint_ok_def s(3) by auto
  have q: "generator = ?mp (dg_generator dg)"
    using X(3) len(2) d(2) unfolding mpint_ok_def p(2) by (metis append_Nil2)
  have v: "be_value prime = be_value (dg_prime dg)" "be_value generator = be_value (dg_generator dg)"
    unfolding p(1) q by (simp_all add: biguint_mpint_value [OF X(2)] kexlib_okD(2) [OF X(2)])
  have kc0: "kc0 = ks" "\<not> skip_exchange ks"
    using s(2) k(1) v by (cases k; auto simp: dhk_set_group_def DH_new_def kexlib_okD(2) [OF X(2)])+
  let ?ex = "(sk_exchange s)\<lparr> gex := Some (g, dg) \<rparr>"
  let ?ex' = "(sk_exchange s)\<lparr> gex := Some (cl_gex (ck_config c), \<lparr> dg_prime = prime, dg_generator = generator \<rparr>) \<rparr>"
  have "same_gex ?C ?ex ?ex'"
    using v gex_params_round [OF X(1) s(1)] by (simp add: same_gex_def)
  with s(4) k kc0 e show ?thesis
    by (intro exI [of _ ks] exI [of _ ?ex] exI [of _ ?ex'] exI [of _ kc] exI [of _ eph]) simp
qed

text \<open>
  The exchange proper: both sides have transcripts \<open>ex0\<close> and \<open>ex1\<close> that are hashed the same, the client has sent
  the init message, and the server has answered it.
\<close>

lemma dh_phase:
  assumes X: "kex_setting (ke_codec X) (ke_lib X)" "hostlib_ok (ke_host X)"
    and cd: "client_dh (ke_lib X) (ke_codec X) rc eph0 k = Inr (kc, eph, m)" "\<not> skip_exchange k"
    and e: "client_ephemeral ex0 = []" "server_ephemeral ex0 = []" "\<not> nm_ignore_guessed names"
    and S: "server_step_dh X log_emit rs s names k \<lparr> in_buffer = m, in_seqn = n3 \<rparr> [] =
        Inr (NeedsReply s2 reset, [reply, final])" "sk_exchange s = ex0"
      "server_ephemeral (sk_exchange s2) \<noteq> zero_point" "length reply \<le> max_string"
    and c: "same_gex (ke_codec X) ex0 ex1" "ck_exchange c = ex1\<lparr> client_ephemeral := eph \<rparr>" "ck_cause c = sk_cause s"
  shows "\<exists>pk newc news ex. final = [NEWKEYS] \<and>
    client_step_dh X log_emit c names kc \<lparr> in_buffer = reply, in_seqn = n4 \<rparr> [] =
      Inr (NeedsReply (c\<lparr> ck_exchange := ex, ck_state := CKS_WaitingForNewKeys pk newc \<rparr>) reset, [[NEWKEYS]]) \<and>
    sk_state s2 = SKS_WaitingForNewKeys news \<and>
    nk_session_id newc = nk_session_id news \<and> nk_names newc = nk_names news \<and>
    in_sync (local_to_remote (nk_cipher news)) (remote_to_local (nk_cipher newc)) \<and>
    in_sync (local_to_remote (nk_cipher newc)) (remote_to_local (nk_cipher news))"
proof -
  have codec: "ssh_codec (ke_codec X)" and lib: "kexlib_ok (ke_lib X)"
    using X(1) by (simp_all add: kex_setting_def ssh_codec_be_def kex_setting_axioms_def)
  note cm = kex_setting.client_dh_message [OF X(1) cd]
  obtain eph' ex ks key pubkey hash signature news where s2:
    "d_bytes (ke_codec X) (drop 1 m) = Inr (eph', [])"
    "server_dh (ke_lib X) (ke_codec X) rs k (ex0\<lparr> client_ephemeral := eph' \<rparr>) m = Inr (ks, ex)"
    "public_key_to_bytes (ke_host X) key = Some pubkey"
    "compute_exchange_hash (ke_lib X) (ke_codec X) ks (bytes_encode (ke_codec X) pubkey) ex = Inr hash"
    "sign_with_hash_alg (ke_host X) key
       (case nm_key names of Rsa h \<Rightarrow> h | _ \<Rightarrow> None) hash = Some signature"
    "kex_new_keys X True hash ks names ex (cause_session_id (sk_cause s)) = Inr news"
    "reply = (if is_dh_gex ks then KEX_DH_GEX_REPLY else KEX_ECDH_REPLY) #
       bytes_encode (ke_codec X) pubkey @ bytes_encode (ke_codec X) (server_ephemeral ex) @
       bytes_encode (ke_codec X) signature" "final = [NEWKEYS]"
    "s2 = s\<lparr> sk_exchange := ex, sk_state := SKS_WaitingForNewKeys news \<rparr>"
    "reset = (nm_strict_kex (nk_names news) \<or> is_strict_rekey (sk_cause s))"
    by (rule server_step_dh_Inr [OF S(1) e(3) S(2) e(1)]) blast
  have eph: "eph' = eph" "length eph \<le> max_string"
    using s2(1) cm(1) by (auto simp: ssh_codec.d_bytes_iff [OF codec] dest: bytes_encode_inj [OF codec])
  note se = kex_setting.server_dh_exchange [OF X(1) s2(2) cd(2)]
  obtain kc' where kc: "compute_shared_secret (ke_lib X) (server_ephemeral ex) kc = Inr kc'"
    "same_secret (ke_lib X) kc' ks"
    using kex_setting.kex_agree [OF X(1) cd eph(2) s2(2)] S(3) s2(9) by auto
  let ?ex' = "ex1\<lparr> client_ephemeral := eph, server_ephemeral := server_ephemeral ex \<rparr>"
  have "same_gex (ke_codec X) (ex0\<lparr> client_ephemeral := eph, server_ephemeral := server_ephemeral ex \<rparr>) ?ex'"
    using same_gex_server [OF same_gex_server(2) [OF c(1)]] by blast
  then have ex: "same_gex (ke_codec X) ex ?ex'"
    using se(1) by (simp add: eph(1))
  have ex': "ck_exchange c = ?ex'\<lparr> server_ephemeral := [] \<rparr>"
    using c(2) e(2) same_gex_fields(6) [OF c(1)] by (cases ex1) simp
  have m: "in_buffer \<lparr> in_buffer = reply, in_seqn = n4 \<rparr> = (if is_dh_gex kc then KEX_DH_GEX_REPLY else KEX_ECDH_REPLY) #
       bytes_encode (ke_codec X) pubkey @ bytes_encode (ke_codec X) (server_ephemeral ex) @
       bytes_encode (ke_codec X) signature"
    and l: "length (in_buffer \<lparr> in_buffer = reply, in_seqn = n4 \<rparr>) \<le> max_string"
    and sid: "cause_session_id (ck_cause c) = cause_session_id (sk_cause s)"
    using s2(7) cm(2) se(2) S(4) c(3) by simp_all
  show ?thesis
    using client_step_dh_accepts [OF codec X(2) lib s2(3-6) m l kc ex ex' sid e(3)] new_keys_names [OF s2(6)] s2(8-10) c(3)
    by auto
qed

section \<open>A concrete exchange\<close>

definition demo_hostlib :: hostlib where
  "demo_hostlib =
     \<lparr> public_key_to_bytes = (\<lambda>key. Some (pk_blob key)), parse_public_key = Some, public_key_bytes = Some,
       try_sign = (\<lambda>key alg m. Some [7]), signature_decode = (\<lambda>s. Some (s, [])),
       signature_verify = (\<lambda>pk m sig. sig = [7]), mpint_decode = bytes_decode rfc4251 \<rparr>"

lemma demo_hostlib_ok: "hostlib_ok demo_hostlib"
  by (simp add: hostlib_ok_def demo_hostlib_def)

definition demo_kexenv :: kexenv where
  "demo_kexenv =
     \<lparr> ke_codec = rfc4251, ke_crypto = demo_crypto, ke_lib = demo_kexlib, ke_host = demo_hostlib,
       ke_names = demo_alg_name \<rparr>"

lemma demo_mpint_ok: "mpint_ok demo_kexenv"
  using rfc.bytes_round unfolding mpint_ok_def demo_kexenv_def demo_hostlib_def by auto

lemma demo_kexenv_simps [simp]:
  "ke_codec demo_kexenv = rfc4251" "ke_crypto demo_kexenv = demo_crypto" "ke_lib demo_kexenv = demo_kexlib"
  "ke_host demo_kexenv = demo_hostlib" "ke_names demo_kexenv = demo_alg_name"
  by (simp_all add: demo_kexenv_def)

definition demo_names :: Names where
  "demo_names = \<lparr> nm_kex = CURVE25519, nm_key = Ed25519, nm_cipher = str ''aes256-ctr'',
     nm_client_mac = str ''hmac-sha2-256'', nm_server_mac = str ''hmac-sha2-256'',
     nm_server_compression = Compression_None, nm_client_compression = Compression_None,
     nm_ignore_guessed = False, nm_strict_kex = True \<rparr>"

definition demo_pc :: bytes where
  "demo_pc = kexinit_payload rfc4251 demo_alg_name (replicate 16 5) demo_client_prefs None"

definition demo_ps :: bytes where
  "demo_ps = kexinit_payload rfc4251 demo_alg_name (replicate 16 3) demo_server_prefs (Some [demo_host_key])"

lemma demo_negotiated:
  "read_kex Server rfc4251 demo_alg_name demo_pc demo_server_prefs (Some [demo_host_key]) KC_Initial = Inr demo_names"
  "read_kex Client rfc4251 demo_alg_name demo_ps demo_client_prefs None KC_Initial = Inr demo_names"
proof -
  have n: "negotiate Server demo_alg_name demo_server_prefs (Some [demo_host_key]) KC_Initial
      (kex_names_to_send demo_client_prefs None) (key_names_to_send demo_alg_name demo_client_prefs None)
      demo_client_prefs = Inr demo_names"
    by (simp add: negotiate_def)
       (simp add: demo_client_prefs_def demo_server_prefs_def demo_host_key_def kex_names_to_send_def
          key_names_to_send_def server_select_def local_kexes_no_ext_def KEX_EXTENSION_NAMES_def
          possible_host_key_algos_for_keys_def mac_or_none_def Compression_new_def demo_names_def
          strict_kex_requested_def strict_kex_provided_def)
  then show "read_kex Server rfc4251 demo_alg_name demo_pc demo_server_prefs (Some [demo_host_key]) KC_Initial = Inr demo_names"
    by (simp add: demo_pc_def rfc.read_kex_payload demo_prefs_sendable)
  show "read_kex Client rfc4251 demo_alg_name demo_ps demo_client_prefs None KC_Initial = Inr demo_names"
    using n negotiate_agrees [OF demo_alg_name_inj]
    by (simp add: demo_ps_def rfc.read_kex_payload demo_prefs_sendable)
qed

abbreviation demo_curve :: KexAlgorithm where
  "demo_curve \<equiv> KA_Curve25519 \<lparr> cvk_local_secret = None, cvk_shared_secret = None \<rparr>"

lemma demo_kex: "map_of (KEXES demo_kexlib) (nm_kex demo_names) = Some demo_curve"
  by (simp add: KEXES_def demo_names_def Let_def del: str_simps)

definition demo_server :: ServerKex where
  "demo_server = ServerKex_new \<lparr> preferred = demo_server_prefs, host_keys = [demo_host_key] \<rparr>
     (as_kex_hash_bytes (SshId_Standard [65])) (SshId_Standard [66]) KC_Initial"

definition demo_client :: ClientKex where
  "demo_client = ClientKex_new \<lparr> cl_preferred = demo_client_prefs, cl_gex = GexParams_default \<rparr>
     (SshId_Standard [65]) (as_kex_hash_bytes (SshId_Standard [66])) KC_Initial"

definition demo_transcript :: Exchange where
  "demo_transcript = (Exchange_new [65] [66])\<lparr> client_kex_init := demo_pc, server_kex_init := demo_ps \<rparr>"

lemma demo_kexinit_first: "take (Suc 0) demo_pc = [KEXINIT]" "take (Suc 0) demo_ps = [KEXINIT]"
  by (simp_all add: demo_pc_def demo_ps_def kexinit_payload_def)

lemma demo_server_created:
  "server_step demo_kexenv lookup log_emit rs (demo_server\<lparr> sk_exchange := (sk_exchange demo_server)\<lparr> server_kex_init := demo_ps \<rparr> \<rparr>)
     (Some \<lparr> in_buffer = demo_pc, in_seqn = 1 \<rparr>) [] =
   Inr (NeedsReply (demo_server\<lparr> sk_exchange := demo_transcript, sk_state := SKS_WaitingForDhInit demo_names demo_curve \<rparr>) False, [])"
  by (simp add: server_step_def server_step_created_def demo_server_def ServerKex_new_def demo_negotiated
      demo_kexinit_first check_first_seqn_def demo_kex demo_transcript_def Exchange_new_def)

lemma demo_client_created:
  "client_step demo_kexenv log_emit ([5], []) (demo_client\<lparr> ck_exchange := (ck_exchange demo_client)\<lparr> client_kex_init := demo_pc \<rparr> \<rparr>)
     (Some \<lparr> in_buffer = demo_ps, in_seqn = 1 \<rparr>) [] =
   Inr (NeedsReply (demo_client\<lparr> ck_exchange := demo_transcript\<lparr> client_ephemeral := pad32 [5] \<rparr>,
     ck_state := CKS_WaitingForDhReply demo_names (KA_Curve25519 \<lparr> cvk_local_secret = Some [5], cvk_shared_secret = None \<rparr>) \<rparr>) False,
     [KEX_ECDH_INIT # bytes_encode rfc4251 (pad32 [5])])"
  by (simp add: client_step_def client_step_created_def demo_client_def ClientKex_new_def demo_negotiated
      demo_kexinit_first check_first_seqn_def demo_kex demo_transcript_def Exchange_new_def cvk_client_dh_def log_emit_def)
     (simp add: demo_kexlib_def)

lemma demo_server_answer:
  "\<exists>s2 reset reply final.
     server_step demo_kexenv lookup log_emit ([6], [])
       (demo_server\<lparr> sk_exchange := demo_transcript, sk_state := SKS_WaitingForDhInit demo_names demo_curve \<rparr>)
       (Some \<lparr> in_buffer = KEX_ECDH_INIT # bytes_encode rfc4251 (pad32 [5]), in_seqn = 2 \<rparr>) [] =
       Inr (NeedsReply s2 reset, [reply, final]) \<and>
     server_ephemeral (sk_exchange s2) \<noteq> zero_point \<and> length reply \<le> max_string"
proof -
  let ?m = "KEX_ECDH_INIT # bytes_encode rfc4251 (pad32 [5])"
  have x: "x25519_public demo_kexlib = pad32" by (simp add: demo_kexlib_def)
  have n: "pad32 [b] \<noteq> zero_point" if "b \<noteq> 0" for b
    using that by (simp add: pad32_def zero_point_def numeral_eq_Suc)
  have l: "length (pad32 [5]) \<le> max_string" by (simp add: max_string_def)
  have im: "init_pubkey_len rfc4251 ?m = Inr 32" "take 32 (drop 5 ?m) = pad32 [5]" "\<not> length ?m < 37"
    using rfc_be.init_message [OF l, of KEX_ECDH_INIT] by simp_all
  have dr: "drop 4 (bytes_encode rfc4251 (pad32 [5])) = pad32 [5]" by simp
  have d: "d_bytes rfc4251 (bytes_encode rfc4251 (pad32 [5])) = Inr (pad32 [5], [])"
    using rfc.d_bytes_round [OF l, of "[]"] by simp
  define h where "h = mpint_exchange_hash demo_kexlib rfc4251 KH_Sha256 (Some (x25519_mult demo_kexlib [6] (pad32 [5])))
    (bytes_encode rfc4251 [1]) (demo_transcript\<lparr> client_ephemeral := pad32 [5], server_ephemeral := pad32 [6] \<rparr>)"
  obtain hl where hl: "hash_ok (digest demo_kexlib KH_Sha256) hl" using kexlib_okD(1) [OF demo_kexlib_ok] by blast
  obtain c mc where "map_of CIPHERS (str ''aes256-ctr'') = Some c" "map_of MACS (str ''hmac-sha2-256'') = Some mc"
    by (simp add: CIPHERS_def MACS_def)
  then obtain pair where pair: "kex_compute_keys demo_kexlib rfc4251 demo_crypto
      (KA_Curve25519 \<lparr> cvk_local_secret = None, cvk_shared_secret = Some (x25519_mult demo_kexlib [6] (pad32 [5])) \<rparr>) h h
      (str ''aes256-ctr'') (str ''hmac-sha2-256'') (str ''hmac-sha2-256'') True = Inr pair"
    using keys_of_role [OF hl, where K = demo_crypto] by (simp del: str_simps) metis
  show ?thesis
    using n [of 5] n [of 6] pair
    by (simp add: server_step_def server_step_dh_def Let_def demo_names_def d ensure_end_def cvk_server_dh_def im dr x
        demo_server_def ServerKex_new_def demo_host_key_def demo_hostlib_def sign_with_hash_alg_def log_emit_def kex_new_keys_def
        demo_transcript_def Exchange_new_def h_def rfc.bytes_length max_string_def del: str_simps rfc4251_simps) blast
qed

section \<open>Properties\<close>

lemma group_round_phase:
  assumes X: "ssh_codec (ke_codec X)" "kexlib_ok (ke_lib X)" "mpint_ok X"
    and C: "client_step_created X log_emit rc c \<lparr> in_buffer = ps, in_seqn = n2 \<rparr> [] = Inr (NeedsReply c1 q2, [m])"
      "read_kex Client (ke_codec X) (ke_names X) ps (cl_preferred (ck_config c)) None (ck_cause c) = Inr names"
    and k: "map_of (KEXES (ke_lib X)) (nm_kex names) = Some k" "\<not> skip_exchange k"
    and s: "sk_state s1 = (if is_dh_gex k then SKS_WaitingForGexRequest names k else SKS_WaitingForDhInit names k)"
      "(ck_exchange c)\<lparr> server_kex_init := ps \<rparr> = sk_exchange s1" "sk_cause s1 = ck_cause c"
    and G: "group_round X lookup rs rc1 n n' s1 c1 m = Inr (s2, c2, init, grps)" "list_all (\<lambda>m. length m \<le> max_string) grps"
  shows "\<exists>k' ex' rc' kc eph. sk_state s2 = SKS_WaitingForDhInit names k' \<and> same_gex (ke_codec X) (sk_exchange s2) ex' \<and>
    sk_exchange s2 = (sk_exchange s1)\<lparr> gex := gex (sk_exchange s2) \<rparr> \<and> sk_cause s2 = ck_cause c \<and> \<not> skip_exchange k' \<and>
    client_dh (ke_lib X) (ke_codec X) rc' (client_ephemeral (sk_exchange s1)) k' = Inr (kc, eph, init) \<and>
    ck_exchange c2 = ex'\<lparr> client_ephemeral := eph \<rparr> \<and> ck_cause c2 = ck_cause c \<and> ck_state c2 = CKS_WaitingForDhReply names kc"
proof (cases "is_dh_gex k")
  case True
  note c1 = client_created_gex [OF C(1) _ k(1) True, simplified, OF C(2)]
  from group_round_gex [OF G(1)] s(1) True obtain q q' grp where grps: "grps = [grp]"
    and g: "server_step X lookup log_emit rs s1 (Some \<lparr> in_buffer = m, in_seqn = n \<rparr>) [] = Inr (NeedsReply s2 q, [grp])"
      "client_step X log_emit rc1 c1 (Some \<lparr> in_buffer = grp, in_seqn = n' \<rparr>) [] = Inr (NeedsReply c2 q', [init])"
    by auto
  have e: "ck_exchange c1 = sk_exchange s1" "ck_config c1 = ck_config c" "ck_cause c1 = ck_cause c"
    using s(2) by (simp_all add: c1)
  have gc: "client_step_gex X log_emit rc1 c1 names k \<lparr> in_buffer = grp, in_seqn = n' \<rparr> [] = Inr (NeedsReply c2 q', [init])"
    using g(2) by (simp add: client_step_def c1)
  have gs: "server_step_gex X lookup log_emit s1 names k \<lparr> in_buffer = dhk_gex_init (ke_codec X) (cl_gex (ck_config c1)), in_seqn = n \<rparr> [] =
      Inr (NeedsReply s2 q, [grp])"
    using g(1) s(1) True c1(1) e(2) by (simp add: server_step_def)
  have "length grp \<le> max_string" using G(2) grps by simp
  from gex_phase [OF X gs gc this e(1)] show ?thesis
    unfolding e(1,3) s(3) by blast
next
  case False
  obtain kc eph where
    cd: "client_dh (ke_lib X) (ke_codec X) rc (client_ephemeral (ck_exchange c)) k = Inr (kc, eph, m)"
    and c1: "c1 = c\<lparr> ck_exchange := (ck_exchange c)\<lparr> server_kex_init := ps, client_ephemeral := eph \<rparr>,
             ck_state := CKS_WaitingForDhReply names kc \<rparr>"
    by (rule client_created_Inr [OF C(1) _ k(1) False]) (use C(2) in auto)
  from G(1) s(1) False have g: "s2 = s1" "c2 = c1" "init = m" by (simp_all add: group_round_def)
  have "ck_exchange c1 = (sk_exchange s1)\<lparr> client_ephemeral := eph \<rparr>" "client_ephemeral (sk_exchange s1) = client_ephemeral (ck_exchange c)"
    by (simp_all add: c1 flip: s(2))
  with cd c1 g s False k(2) show ?thesis
    by (intro exI [of _ k] exI [of _ "sk_exchange s1"] exI [of _ rc] exI [of _ kc] exI [of _ eph]) simp
qed

text \<open>After the KEXINIT payloads both roles have negotiated the same and have the same transcript.\<close>

lemma created_phase:
  assumes X: "ssh_codec (ke_codec X)" "inj (ke_names X)"
    and p: "length cookie_c = 16" "length cookie_s = 16" "sendable_prefs (ke_names X) (cl_preferred ccfg) None"
      "sendable_prefs (ke_names X) (preferred scfg) (Some (host_keys scfg))"
      "pc = kexinit_payload (ke_codec X) (ke_names X) cookie_c (cl_preferred ccfg) None"
      "ps = kexinit_payload (ke_codec X) (ke_names X) cookie_s (preferred scfg) (Some (host_keys scfg))"
    and c0: "c0 = (ClientKex_new ccfg cid (as_kex_hash_bytes sid) cause)\<lparr> ck_exchange :=
      (ck_exchange (ClientKex_new ccfg cid (as_kex_hash_bytes sid) cause))\<lparr> client_kex_init := pc \<rparr> \<rparr>"
    and s0: "s0 = (ServerKex_new scfg (as_kex_hash_bytes cid) sid cause)\<lparr> sk_exchange :=
      (sk_exchange (ServerKex_new scfg (as_kex_hash_bytes cid) sid cause))\<lparr> server_kex_init := ps \<rparr> \<rparr>"
    and S1: "server_step_created X log_emit s0 \<lparr> in_buffer = pc, in_seqn = n1 \<rparr> [] = Inr (NeedsReply s1 q1, outs1)"
    and C1: "client_step_created X log_emit rc c0 \<lparr> in_buffer = ps, in_seqn = n2 \<rparr> [] = Inr (NeedsReply c1 q2, outs2)"
  shows "\<exists>names k. read_kex Client (ke_codec X) (ke_names X) ps (cl_preferred (ck_config c0)) None (ck_cause c0) = Inr names \<and>
    \<not> nm_ignore_guessed names \<and> map_of (KEXES (ke_lib X)) (nm_kex names) = Some k \<and> \<not> skip_exchange k \<and>
    sk_state s1 = (if is_dh_gex k then SKS_WaitingForGexRequest names k else SKS_WaitingForDhInit names k) \<and>
    (ck_exchange c0)\<lparr> server_kex_init := ps \<rparr> = sk_exchange s1 \<and> sk_cause s1 = ck_cause c0 \<and>
    client_ephemeral (sk_exchange s1) = [] \<and> server_ephemeral (sk_exchange s1) = []"
proof -
  obtain names k where
    s1: "read_kex Server (ke_codec X) (ke_names X) pc (preferred scfg) (Some (host_keys scfg)) cause = Inr names"
      "map_of (KEXES (ke_lib X)) (nm_kex names) = Some k" "\<not> skip_exchange k"
      "s1 = s0\<lparr> sk_exchange := (sk_exchange s0)\<lparr> client_kex_init := pc \<rparr>,
        sk_state := (if is_dh_gex k then SKS_WaitingForGexRequest names k else SKS_WaitingForDhInit names k) \<rparr>"
    by (rule server_created_Inr [OF S1], rule that) (simp_all add: s0 ServerKex_new_def)
  obtain names' where "read_kex Client (ke_codec X) (ke_names X) ps (cl_preferred ccfg) None cause = Inr names'"
    by (rule client_created_read [OF C1]) (simp add: c0 ClientKex_new_def)
  with read_kex_both [OF X p(1-4), of cause names names'] s1(1)
  have "read_kex Client (ke_codec X) (ke_names X) ps (cl_preferred (ck_config c0)) None (ck_cause c0) = Inr names"
    "\<not> nm_ignore_guessed names"
    by (simp_all add: p c0 ClientKex_new_def)
  moreover have "sk_state s1 = (if is_dh_gex k then SKS_WaitingForGexRequest names k else SKS_WaitingForDhInit names k)"
      "(ck_exchange c0)\<lparr> server_kex_init := ps \<rparr> = sk_exchange s1" "sk_cause s1 = ck_cause c0"
      "client_ephemeral (sk_exchange s1) = []" "server_ephemeral (sk_exchange s1) = []"
    unfolding s1(4) by (simp_all add: s0 c0 ServerKex_new_def ClientKex_new_def Exchange_new_def)
  ultimately show ?thesis using s1(2,3) by blast
qed

text \<open>
  C1. A key exchange ends in agreement: let a client and a server exchange KEXINIT payloads that lead to a method with an
  exchange (any but \<open>none\<close>). For a method with group exchange let the server answer the request with a group that the
  client accepts. Let the server answer the client's init message, and let its ephemeral value not be the all-zero point and its
  messages fit a string. Then the client accepts the reply (and the signature in it) and answers with NEWKEYS; on receiving
  the other side's NEWKEYS both finish; and they hold the same session id, the same negotiated algorithms, and ciphers that are
  in step in both directions. Both reset their sequence numbers or neither does.
\<close>

theorem handshake_agreement:
  assumes X: "kex_setting (ke_codec X) (ke_lib X)" "hostlib_ok (ke_host X)" "mpint_ok X" "inj (ke_names X)"
    and p: "length cookie_c = 16" "length cookie_s = 16" "sendable_prefs (ke_names X) (cl_preferred ccfg) None"
      "sendable_prefs (ke_names X) (preferred scfg) (Some (host_keys scfg))"
      "pc = kexinit_payload (ke_codec X) (ke_names X) cookie_c (cl_preferred ccfg) None"
      "ps = kexinit_payload (ke_codec X) (ke_names X) cookie_s (preferred scfg) (Some (host_keys scfg))"
    and c0: "c0 = (ClientKex_new ccfg cid (as_kex_hash_bytes sid) cause)"
    and s0: "s0 = (ServerKex_new scfg (as_kex_hash_bytes cid) sid cause)"
    and S1: "server_step X lookup log_emit rs0 (s0\<lparr> sk_exchange := (sk_exchange s0)\<lparr> server_kex_init := ps \<rparr> \<rparr>)
        (Some \<lparr> in_buffer = pc, in_seqn = n1 \<rparr>) [] = Inr (NeedsReply s1 q1, outs1)"
    and C1: "client_step X log_emit rc (c0\<lparr> ck_exchange := (ck_exchange c0)\<lparr> client_kex_init := pc \<rparr> \<rparr>)
        (Some \<lparr> in_buffer = ps, in_seqn = n2 \<rparr>) [] = Inr (NeedsReply c1 q2, [m])"
    and G: "group_round X lookup rs1 rc1 n n' s1 c1 m = Inr (s2, c2, init, groups)" "list_all (\<lambda>m. length m \<le> max_string) groups"
    and S2: "server_step X lookup log_emit rs s2 (Some \<lparr> in_buffer = init, in_seqn = n3 \<rparr>) [] =
        Inr (NeedsReply s3 reset, [reply, final])"
      "server_ephemeral (sk_exchange s3) \<noteq> zero_point" "length reply \<le> max_string"
  shows "\<exists>c3 pk newc news. final = [NEWKEYS] \<and>
    client_step X log_emit rc' c2 (Some \<lparr> in_buffer = reply, in_seqn = n4 \<rparr>) [] = Inr (NeedsReply c3 reset, [[NEWKEYS]]) \<and>
    client_step X log_emit rc' c3 (Some \<lparr> in_buffer = [NEWKEYS], in_seqn = n5 \<rparr>) [] = Inr (Done (Some pk) newc, []) \<and>
    server_step X lookup log_emit rs s3 (Some \<lparr> in_buffer = [NEWKEYS], in_seqn = n6 \<rparr>) [] = Inr (Done None news, []) \<and>
    nk_session_id newc = nk_session_id news \<and> nk_names newc = nk_names news \<and>
    in_sync (local_to_remote (nk_cipher news)) (remote_to_local (nk_cipher newc)) \<and>
    in_sync (local_to_remote (nk_cipher newc)) (remote_to_local (nk_cipher news))"
proof -
  have codec: "ssh_codec (ke_codec X)" and lib: "kexlib_ok (ke_lib X)"
    using X(1) by (simp_all add: kex_setting_def ssh_codec_be_def kex_setting_axioms_def)
  let ?s0 = "s0\<lparr> sk_exchange := (sk_exchange s0)\<lparr> server_kex_init := ps \<rparr> \<rparr>"
  let ?c0 = "c0\<lparr> ck_exchange := (ck_exchange c0)\<lparr> client_kex_init := pc \<rparr> \<rparr>"
  have S1': "server_step_created X log_emit ?s0 \<lparr> in_buffer = pc, in_seqn = n1 \<rparr> [] = Inr (NeedsReply s1 q1, outs1)"
    using S1(1) by (simp add: server_step_def s0 ServerKex_new_def)
  have C1': "client_step_created X log_emit rc ?c0 \<lparr> in_buffer = ps, in_seqn = n2 \<rparr> [] = Inr (NeedsReply c1 q2, [m])"
    using C1 by (simp add: client_step_def c0 ClientKex_new_def)
  from created_phase [OF codec X(4) p _ _ S1' C1'] obtain names k where
    rc: "read_kex Client (ke_codec X) (ke_names X) ps (cl_preferred (ck_config ?c0)) None (ck_cause ?c0) = Inr names"
      "\<not> nm_ignore_guessed names" and k: "map_of (KEXES (ke_lib X)) (nm_kex names) = Some k" "\<not> skip_exchange k"
    and e: "sk_state s1 = (if is_dh_gex k then SKS_WaitingForGexRequest names k else SKS_WaitingForDhInit names k)"
      "(ck_exchange ?c0)\<lparr> server_kex_init := ps \<rparr> = sk_exchange s1" "sk_cause s1 = ck_cause ?c0"
      "client_ephemeral (sk_exchange s1) = []" "server_ephemeral (sk_exchange s1) = []"
    unfolding c0 s0 by blast
  from group_round_phase [OF codec lib X(3) C1' rc(1) k e(1-3) G] obtain k' ex' rcd kc eph where
    g: "sk_state s2 = SKS_WaitingForDhInit names k'" "same_gex (ke_codec X) (sk_exchange s2) ex'"
      "sk_exchange s2 = (sk_exchange s1)\<lparr> gex := gex (sk_exchange s2) \<rparr>" "sk_cause s2 = ck_cause ?c0" "\<not> skip_exchange k'"
      "client_dh (ke_lib X) (ke_codec X) rcd (client_ephemeral (sk_exchange s1)) k' = Inr (kc, eph, init)"
      "ck_exchange c2 = ex'\<lparr> client_ephemeral := eph \<rparr>" "ck_cause c2 = ck_cause ?c0" "ck_state c2 = CKS_WaitingForDhReply names kc"
    by blast
  have e2: "client_ephemeral (sk_exchange s2) = []" "server_ephemeral (sk_exchange s2) = []"
    using e(4,5) arg_cong [OF g(3), of client_ephemeral] arg_cong [OF g(3), of server_ephemeral] by simp_all
  have S2': "server_step_dh X log_emit rs s2 names k' \<lparr> in_buffer = init, in_seqn = n3 \<rparr> [] =
      Inr (NeedsReply s3 reset, [reply, final])" "ck_cause c2 = sk_cause s2"
    using S2(1) g(1,4,8) by (simp_all add: server_step_def)
  from dh_phase [OF X(1,2) g(6,5) e2 rc(2) S2'(1) refl S2(2,3) g(2,7) S2'(2), of n4]
  obtain pk newc news ex where r: "final = [NEWKEYS]"
    "client_step_dh X log_emit c2 names kc \<lparr> in_buffer = reply, in_seqn = n4 \<rparr> [] =
      Inr (NeedsReply (c2\<lparr> ck_exchange := ex, ck_state := CKS_WaitingForNewKeys pk newc \<rparr>) reset, [[NEWKEYS]])"
    "sk_state s3 = SKS_WaitingForNewKeys news"
    "nk_session_id newc = nk_session_id news \<and> nk_names newc = nk_names news \<and>
    in_sync (local_to_remote (nk_cipher news)) (remote_to_local (nk_cipher newc)) \<and>
    in_sync (local_to_remote (nk_cipher newc)) (remote_to_local (nk_cipher news))" by metis
  with g(9) show ?thesis
    by (intro exI [of _ "c2\<lparr> ck_exchange := ex, ck_state := CKS_WaitingForNewKeys pk newc \<rparr>"]
        exI [of _ pk] exI [of _ newc] exI [of _ news])
       (simp add: client_step_def server_step_def client_step_newkeys_def server_step_newkeys_def ensure_end_def)
qed

theorem handshake_agreement_witness:
  "\<exists>s2 reset reply final c2 pk newc news.
     server_step demo_kexenv (\<lambda>_. Inr None) log_emit ([6], [])
       (demo_server\<lparr> sk_exchange := demo_transcript, sk_state := SKS_WaitingForDhInit demo_names demo_curve \<rparr>)
       (Some \<lparr> in_buffer = KEX_ECDH_INIT # bytes_encode rfc4251 (pad32 [5]), in_seqn = 2 \<rparr>) [] =
       Inr (NeedsReply s2 reset, [reply, final]) \<and>
     client_step demo_kexenv log_emit ([], [])
       (demo_client\<lparr> ck_exchange := demo_transcript\<lparr> client_ephemeral := pad32 [5] \<rparr>,
          ck_state := CKS_WaitingForDhReply demo_names (KA_Curve25519 \<lparr> cvk_local_secret = Some [5], cvk_shared_secret = None \<rparr>) \<rparr>)
       (Some \<lparr> in_buffer = reply, in_seqn = 2 \<rparr>) [] = Inr (NeedsReply c2 reset, [[NEWKEYS]]) \<and>
     client_step demo_kexenv log_emit ([], []) c2 (Some \<lparr> in_buffer = [NEWKEYS], in_seqn = 3 \<rparr>) [] = Inr (Done (Some pk) newc, []) \<and>
     server_step demo_kexenv (\<lambda>_. Inr None) log_emit ([6], []) s2 (Some \<lparr> in_buffer = [NEWKEYS], in_seqn = 3 \<rparr>) [] = Inr (Done None news, []) \<and>
     nk_session_id newc = nk_session_id news \<and>
     in_sync (local_to_remote (nk_cipher news)) (remote_to_local (nk_cipher newc))"
proof -
  obtain s2 reset reply final where a: "server_step demo_kexenv (\<lambda>_. Inr None) log_emit ([6], [])
       (demo_server\<lparr> sk_exchange := demo_transcript, sk_state := SKS_WaitingForDhInit demo_names demo_curve \<rparr>)
       (Some \<lparr> in_buffer = KEX_ECDH_INIT # bytes_encode rfc4251 (pad32 [5]), in_seqn = 2 \<rparr>) [] =
       Inr (NeedsReply s2 reset, [reply, final])"
     "server_ephemeral (sk_exchange s2) \<noteq> zero_point" "length reply \<le> max_string"
    using demo_server_answer [of "\<lambda>_. Inr None"] by metis
  have p: "demo_pc = kexinit_payload (ke_codec demo_kexenv) (ke_names demo_kexenv) (replicate 16 5)
      (cl_preferred \<lparr> cl_preferred = demo_client_prefs, cl_gex = GexParams_default \<rparr>) None"
    "demo_ps = kexinit_payload (ke_codec demo_kexenv) (ke_names demo_kexenv) (replicate 16 3)
      (preferred \<lparr> preferred = demo_server_prefs, host_keys = [demo_host_key] \<rparr>)
      (Some (host_keys \<lparr> preferred = demo_server_prefs, host_keys = [demo_host_key] \<rparr>))"
    by (simp_all add: demo_pc_def demo_ps_def)
  have X: "kex_setting (ke_codec demo_kexenv) (ke_lib demo_kexenv)" "hostlib_ok (ke_host demo_kexenv)"
    "mpint_ok demo_kexenv" "inj (ke_names demo_kexenv)"
    using demo_kex.kex_setting_axioms demo_hostlib_ok demo_mpint_ok demo_alg_name_inj by simp_all
  have g: "group_round demo_kexenv (\<lambda>_. Inr None) ([], []) ([], []) 0 0
      (demo_server\<lparr> sk_exchange := demo_transcript, sk_state := SKS_WaitingForDhInit demo_names demo_curve \<rparr>) c m = Inr
      (demo_server\<lparr> sk_exchange := demo_transcript, sk_state := SKS_WaitingForDhInit demo_names demo_curve \<rparr>, c, m, [])" for c m
    by (simp add: group_round_def)
  show ?thesis
    using handshake_agreement [OF X _ _ _ _ p demo_client_def demo_server_def demo_server_created demo_client_created g _ a,
        where rc' = "([], [])" and ?n4.0 = 2 and ?n5.0 = 3 and ?n6.0 = 3] demo_prefs_sendable a(1)
    by (simp del: rfc4251_simps) metis
qed

end
