(* ===== verification/Auth.thy ===== *)
theory Auth
  imports Handshake
begin

text \<open>
  The data of user authentication: \<open>auth.rs\<close>. A method set is the list of methods the code keeps. The
  property: the operations on method sets keep them free of duplicates, and a method set survives the
  name list it is sent as.
\<close>

section \<open>Methods\<close>

datatype MethodKind = MK_None | MK_Password | MK_PublicKey | MK_HostBased | MK_KeyboardInteractive

primrec method_name :: "MethodKind \<Rightarrow> rstring" where
  "method_name MK_None = str ''none''"
| "method_name MK_Password = str ''password''"
| "method_name MK_PublicKey = str ''publickey''"
| "method_name MK_HostBased = str ''hostbased''"
| "method_name MK_KeyboardInteractive = str ''keyboard-interactive''"

definition method_from_str :: "rstring \<Rightarrow> MethodKind option" where
  "method_from_str b =
     (if b = str ''none'' then Some MK_None
      else if b = str ''password'' then Some MK_Password
      else if b = str ''publickey'' then Some MK_PublicKey
      else if b = str ''hostbased'' then Some MK_HostBased
      else if b = str ''keyboard-interactive'' then Some MK_KeyboardInteractive
      else None)"

type_synonym MethodSet = "MethodKind list"

definition method_set_all :: MethodSet where
  "method_set_all = [MK_None, MK_Password, MK_PublicKey, MK_HostBased, MK_KeyboardInteractive]"

definition method_set_remove :: "MethodKind \<Rightarrow> MethodSet \<Rightarrow> MethodSet" where
  "method_set_remove method ms = filter (\<lambda>x. x \<noteq> method) ms"

definition method_set_push :: "MethodKind \<Rightarrow> MethodSet \<Rightarrow> MethodSet" where
  "method_set_push method ms = method_set_remove method ms @ [method]"

definition method_set_from_slice :: "MethodKind list \<Rightarrow> MethodSet" where
  "method_set_from_slice value = fold method_set_push value []"

definition method_set_to_name_list :: "MethodSet \<Rightarrow> NameList" where
  "method_set_to_name_list ms = map method_name ms"

definition method_set_from_name_list :: "NameList \<Rightarrow> MethodSet" where
  "method_set_from_name_list nl = List.map_filter method_from_str nl"

datatype AuthResult = AR_Success | AR_Failure MethodSet bool

definition auth_result_success :: "AuthResult \<Rightarrow> bool" where
  "auth_result_success r = (case r of AR_Success \<Rightarrow> True | _ \<Rightarrow> False)"

section \<open>Requests\<close>

type_synonym Certificate = bytes

datatype Method =
    M_None
  | M_Password rstring
  | M_PublicKey PrivateKey "HashAlg option"
  | M_OpenSshCertificate PrivateKey Certificate
  | M_FuturePublicKey PublicKey "HashAlg option"
  | M_FutureCertificate Certificate "HashAlg option"
  | M_KeyboardInteractive rstring

record AuthPrincipal =
  ap_user :: rstring
  ap_service :: rstring

datatype CurrentRequest =
    CR_PublicKey bytes bytes bool
  | CR_KeyboardInteractive rstring

record AuthRequest =
  ar_initial_methods :: MethodSet
  ar_methods :: MethodSet
  ar_partial_success :: bool
  ar_current :: "CurrentRequest option"
  ar_principal :: "AuthPrincipal option"
  ar_rejection_count :: nat

definition AuthRequest_server :: "MethodSet \<Rightarrow> AuthRequest" where
  "AuthRequest_server methods =
     \<lparr> ar_initial_methods = methods, ar_methods = methods, ar_partial_success = False, ar_current = None,
       ar_principal = None, ar_rejection_count = 0 \<rparr>"

definition AuthRequest_new :: "Method \<Rightarrow> AuthRequest" where
  "AuthRequest_new method =
     (case method of
        M_KeyboardInteractive submethods \<Rightarrow>
          \<lparr> ar_initial_methods = method_set_all, ar_methods = method_set_all, ar_partial_success = False,
            ar_current = Some (CR_KeyboardInteractive submethods), ar_principal = None, ar_rejection_count = 0 \<rparr>
      | _ \<Rightarrow>
          \<lparr> ar_initial_methods = method_set_all, ar_methods = method_set_all, ar_partial_success = False,
            ar_current = None, ar_principal = None, ar_rejection_count = 0 \<rparr>)"

definition bind_or_reset_principal :: "rstring \<Rightarrow> rstring \<Rightarrow> AuthRequest \<Rightarrow> bool \<times> AuthRequest" where
  "bind_or_reset_principal user service self =
     (let reset = (True, self\<lparr> ar_principal := Some \<lparr> ap_user = user, ap_service = service \<rparr>,
                        ar_methods := ar_initial_methods self, ar_partial_success := False, ar_current := None \<rparr>)
      in case ar_principal self of
           Some bound \<Rightarrow> if ap_user bound = user \<and> ap_service bound = service then (False, self) else reset
         | None \<Rightarrow> reset)"

section \<open>Lemmas\<close>

lemma method_from_name [simp]: "method_from_str (method_name m) = Some m"
  by (cases m) (simp_all add: method_from_str_def del: str_simps)

lemma method_set_push_set [simp]: "set (method_set_push m ms) = insert m (set ms)"
  by (auto simp: method_set_push_def method_set_remove_def)

lemma method_set_push_distinct: "distinct ms \<Longrightarrow> distinct (method_set_push m ms)"
  by (simp add: method_set_push_def method_set_remove_def)

lemma method_set_fold_push:
  "distinct ms \<Longrightarrow> distinct (fold method_set_push value ms) \<and> set (fold method_set_push value ms) = set value \<union> set ms"
  by (induction "value" arbitrary: ms) (auto simp: method_set_push_distinct)

lemma method_set_names: "method_set_from_name_list (method_set_to_name_list ms) = ms"
  by (induction ms) (simp_all add: method_set_from_name_list_def method_set_to_name_list_def List.map_filter_def)

lemma method_name_ok: "name_ok (method_name m) \<and> comma \<notin> set (method_name m)"
  by (cases m) (simp_all add: name_ok_def is_ascii_def)

lemma method_name_length: "length (method_name m) \<le> 20"
  by (cases m) simp_all

lemma method_set_length:
  assumes "distinct (ms :: MethodSet)"
  shows "length ms \<le> 5"
proof -
  have "set ms \<subseteq> {MK_None, MK_Password, MK_PublicKey, MK_HostBased, MK_KeyboardInteractive}"
    using MethodKind.exhaust by auto
  then have "card (set ms) \<le> card {MK_None, MK_Password, MK_PublicKey, MK_HostBased, MK_KeyboardInteractive}"
    by (intro card_mono) auto
  then show ?thesis
    using assms by (simp add: distinct_card)
qed

lemma join_methods_length: "length (join_with c (map method_name ms)) \<le> 21 * length ms"
proof (induction ms)
  case (Cons m ms)
  then show ?case
    using method_name_length [of m] by (cases ms) auto
qed simp

lemma method_set_sendable:
  assumes "distinct ms"
  shows "name_list_ok (method_set_to_name_list ms)"
    "length (as_encoded_string (method_set_to_name_list ms)) \<le> MAX_NAME_LIST_BYTES"
  using method_set_length [OF assms] join_methods_length [of comma ms] method_name_ok
  by (simp_all add: name_list_ok_def method_set_to_name_list_def list_all_iff as_encoded_string_def
      MAX_NAME_LIST_ENTRIES_def MAX_NAME_LIST_BYTES_def)

lemma bind_principal:
  "bind_or_reset_principal user service a = (reset, a') \<Longrightarrow>
     ar_principal a' = Some \<lparr> ap_user = user, ap_service = service \<rparr> \<and> (reset \<longrightarrow> ar_current a' = None)"
  by (auto simp: bind_or_reset_principal_def Let_def split: option.splits if_splits)

section \<open>Round trip\<close>

text \<open>
  A method set made from any list of methods has no duplicates and the same methods, and it survives
  the wire: the name list it is sent as in USERAUTH_FAILURE decodes to a list that gives the same set, in
  the same order.
\<close>

lemma method_set_on_wire:
  assumes "ssh_codec C"
  shows "distinct (method_set_from_slice ks) \<and> set (method_set_from_slice ks) = set ks \<and>
    (\<exists>nl. name_list_decode C (name_list_encode C (method_set_to_name_list (method_set_from_slice ks)) @ r) = Inr (nl, r) \<and>
       method_set_from_name_list nl = method_set_from_slice ks)"
  using method_set_fold_push [of "[]" ks] method_set_sendable [of "method_set_from_slice ks"]
  by (auto simp: method_set_from_slice_def ssh_codec.name_list_decode_iff [OF assms] method_set_names)

end
