(* ===== verification/Session.thy ===== *)
theory Session
  imports Auth
begin

text \<open>
  The state both roles share after the first key exchange: \<open>session.rs\<close>. The channel table of
  \<open>Encrypted\<close> is a map from channel numbers, the packets to send are framed in its write buffer or go
  straight to the packet writer. Where the code has one function for each of the two destinations, the
  destination is an argument here and both functions are instances. The iteration order of the channel
  table is an argument, since a hash map does not promise one; the clock is an argument as well.
\<close>

section \<open>State\<close>

datatype EncryptedState =
    ES_WaitingAuthServiceRequest bool bool
  | ES_WaitingAuthRequest AuthRequest
  | ES_InitCompression
  | ES_Authenticated

record Encrypted =
  enc_state :: EncryptedState
  enc_exchange :: "Exchange option"
  enc_kex :: KexAlgorithm
  enc_key :: nat
  enc_client_mac :: rstring
  enc_server_mac :: rstring
  enc_session_id :: bytes
  enc_channels :: "u32 \<rightharpoonup> ChannelParams"
  enc_last_channel_id :: u32
  enc_write :: bytes
  enc_write_cursor :: nat
  enc_last_rekey :: instant
  enc_server_compression :: Compression
  enc_client_compression :: Compression
  enc_decompress :: Decompress
  enc_rekey_wanted :: bool
  enc_received_extensions :: "rstring list"
  enc_extension_info_awaiters :: "rstring \<rightharpoonup> nat list"

record CommonSession =
  cs_auth_user :: rstring
  cs_remote_sshid :: bytes
  cs_encrypted :: "Encrypted option"
  cs_auth_method :: "Method option"
  cs_auth_attempts :: nat
  cs_packet_writer :: PacketWriter
  cs_remote_to_local :: OpeningKey
  cs_wants_reply :: bool
  cs_disconnected :: bool
  cs_buffer :: bytes
  cs_strict_kex :: bool
  cs_alive_timeouts :: nat
  cs_received_data :: bool

datatype ChannelFlushResult =
    CF_Incomplete nat
  | CF_Complete nat bool bool

fun flush_wrote :: "ChannelFlushResult \<Rightarrow> nat" where
  "flush_wrote (CF_Incomplete wrote) = wrote"
| "flush_wrote (CF_Complete wrote _ _) = wrote"

definition flush_complete :: "nat \<Rightarrow> ChannelParams \<Rightarrow> ChannelFlushResult \<times> ChannelParams" where
  "flush_complete wrote ch =
     (case take_pending_controls ch of ((eof, cl), ch) \<Rightarrow> (CF_Complete wrote eof cl, ch))"

section \<open>Keys\<close>

definition session_newkeys :: "NewKeys \<Rightarrow> CommonSession \<Rightarrow> CommonSession" where
  "session_newkeys nk self =
     (case cs_encrypted self of
        None \<Rightarrow> self
      | Some enc \<Rightarrow>
          (let w = set_cipher (local_to_remote (nk_cipher nk)) (cs_packet_writer self) in
           self\<lparr> cs_encrypted := Some (enc\<lparr> enc_exchange := Some (nk_exchange nk), enc_kex := nk_kex nk,
                     enc_key := nk_key nk, enc_client_mac := nm_client_mac (nk_names nk),
                     enc_server_mac := nm_server_mac (nk_names nk),
                     enc_decompress := init_decompress (enc_server_compression enc) (enc_decompress enc) \<rparr>),
                 cs_remote_to_local := remote_to_local (nk_cipher nk),
                 cs_packet_writer := w\<lparr> pw_compress := init_compress (enc_client_compression enc) (pw_compress w) \<rparr>,
                 cs_strict_kex := (cs_strict_kex self \<or> nm_strict_kex (nk_names nk)) \<rparr>))"

definition session_encrypted :: "instant \<Rightarrow> EncryptedState \<Rightarrow> NewKeys \<Rightarrow> CommonSession \<Rightarrow> CommonSession" where
  "session_encrypted now state nk self =
     (let cc = nm_client_compression (nk_names nk); sc = nm_server_compression (nk_names nk);
          w = set_cipher (local_to_remote (nk_cipher nk)) (cs_packet_writer self) in
      self\<lparr> cs_encrypted := Some \<lparr> enc_state = state, enc_exchange = Some (nk_exchange nk), enc_kex = nk_kex nk,
                enc_key = nk_key nk, enc_client_mac = nm_client_mac (nk_names nk),
                enc_server_mac = nm_server_mac (nk_names nk), enc_session_id = nk_session_id nk,
                enc_channels = Map.empty, enc_last_channel_id = 1, enc_write = [], enc_write_cursor = 0,
                enc_last_rekey = now, enc_server_compression = sc, enc_client_compression = cc,
                enc_decompress = (if is_deferred sc then Decompress_None else init_decompress sc Decompress_None),
                enc_rekey_wanted = False, enc_received_extensions = [],
                enc_extension_info_awaiters = Map.empty \<rparr>,
            cs_remote_to_local := remote_to_local (nk_cipher nk),
            cs_packet_writer := (if is_deferred cc then w else w\<lparr> pw_compress := init_compress cc (pw_compress w) \<rparr>),
            cs_strict_kex := nm_strict_kex (nk_names nk) \<rparr>)"

text \<open>A message goes to the write buffer of the encrypted state, or to the raw output buffer before that.\<close>

definition push_message :: "codec \<Rightarrow> bytes \<Rightarrow> CommonSession \<Rightarrow> CommonSession" where
  "push_message C p self =
     (case cs_encrypted self of
        Some enc \<Rightarrow> self\<lparr> cs_encrypted := Some (enc\<lparr> enc_write := push_packet C (enc_write enc) p \<rparr>) \<rparr>
      | None \<Rightarrow>
          (let w = cs_packet_writer self; b = pw_write_buffer w in
           self\<lparr> cs_packet_writer := w\<lparr> pw_write_buffer := b\<lparr> sb_buffer := push_packet C (sb_buffer b) p \<rparr> \<rparr> \<rparr>))"

definition session_disconnect ::
  "codec \<Rightarrow> Disconnect \<Rightarrow> rstring \<Rightarrow> rstring \<Rightarrow> CommonSession \<Rightarrow> CommonSession" where
  "session_disconnect C reason description language_tag self =
     (if cs_disconnected self then self
      else push_message C (DISCONNECT # u32_encode C (disconnect_code reason) @ bytes_encode C description @
             bytes_encode C language_tag) (self\<lparr> cs_disconnected := True \<rparr>))"

definition session_debug :: "codec \<Rightarrow> bool \<Rightarrow> rstring \<Rightarrow> rstring \<Rightarrow> CommonSession \<Rightarrow> CommonSession" where
  "session_debug C always_display message language_tag self =
     push_message C (DEBUG # (if always_display then 1 else 0) # bytes_encode C message @
       bytes_encode C language_tag) self"

definition session_reset_seqn :: "CommonSession \<Rightarrow> CommonSession" where
  "session_reset_seqn self = self\<lparr> cs_packet_writer := reset_seqn (cs_packet_writer self) \<rparr>"

section \<open>Sending on a channel\<close>

definition data_payload :: "codec \<Rightarrow> u32 \<Rightarrow> u32 option \<Rightarrow> bytes \<Rightarrow> bytes" where
  "data_payload C recipient a chunk =
     (case a of
        None \<Rightarrow> CHANNEL_DATA # u32_encode C recipient @ bytes_encode C chunk
      | Some ext \<Rightarrow> CHANNEL_EXTENDED_DATA # u32_encode C recipient @ u32_encode C ext @ bytes_encode C chunk)"

function (sequential) data_loop ::
  "codec \<Rightarrow> 'w emit \<Rightarrow> u32 option \<Rightarrow> nat \<Rightarrow> bytes \<Rightarrow> 'w \<Rightarrow> ChannelParams \<Rightarrow> ('w \<times> ChannelParams) res" where
  "data_loop C em a max_packet_size [] w ch = Inr (w, ch)"
| "data_loop C em a 0 buf w ch = Inl Diverged"
| "data_loop C em a max_packet_size buf w ch =
     (let off = min (length buf) max_packet_size in
      bindR (em (data_payload C (recipient_channel ch) a (take off buf)) w) (\<lambda>w.
      data_loop C em a max_packet_size (drop off buf) w
        (ch\<lparr> recipient_window_size := recipient_window_size ch - of_nat off \<rparr>)))"
  by pat_completeness auto
termination by (relation "measure (\<lambda>(C, em, a, n, buf, w, ch). length buf)") auto

definition send_within_window ::
  "codec \<Rightarrow> 'w emit \<Rightarrow> bytes \<Rightarrow> u32 option \<Rightarrow> nat \<Rightarrow> 'w \<Rightarrow> ChannelParams \<Rightarrow> (nat \<times> 'w \<times> ChannelParams) res" where
  "send_within_window C em buf0 a from w ch =
     (if from \<ge> length buf0 then Inr (0, w, ch)
      else let end = min (length buf0) (from + unat (recipient_window_size ch));
               buf = take (end - from) (drop from buf0);
               max_packet_size = unat (recipient_maximum_packet_size ch) in
        if max_packet_size = 0 then Inl E_Inconsistent
        else bindR (data_loop C em a max_packet_size buf w ch) (\<lambda>(w, ch). Inr (length buf, w, ch)))"

definition push_emit :: "codec \<Rightarrow> bytes emit" where
  "push_emit C p write = Inr (push_packet C write p)"

definition data_noqueue ::
  "codec \<Rightarrow> bytes \<Rightarrow> u32 option \<Rightarrow> nat \<Rightarrow> bytes \<Rightarrow> ChannelParams \<Rightarrow> (nat \<times> bytes \<times> ChannelParams) res" where
  "data_noqueue C = send_within_window C (push_emit C)"

definition data_noqueue_direct ::
  "env \<Rightarrow> bytes \<Rightarrow> u32 option \<Rightarrow> nat \<Rightarrow> PacketWriter \<Rightarrow> ChannelParams \<Rightarrow> (nat \<times> PacketWriter \<times> ChannelParams) res" where
  "data_noqueue_direct E = send_within_window (cdc E) (packet_emit E)"

text \<open>
  A destination for data: the write buffer alone, or the packet writer while the write buffer is empty and
  the write buffer otherwise.
\<close>

type_synonym 'w sender = "bytes \<Rightarrow> u32 option \<Rightarrow> nat \<Rightarrow> 'w \<Rightarrow> ChannelParams \<Rightarrow> (nat \<times> 'w \<times> ChannelParams) res"

definition send_direct_or_push :: "env \<Rightarrow> (bytes \<times> PacketWriter) sender" where
  "send_direct_or_push E buf0 a from = (\<lambda>(write, writer) ch.
     if write = []
     then bindR (data_noqueue_direct E buf0 a from writer ch) (\<lambda>(n, writer, ch). Inr (n, (write, writer), ch))
     else bindR (data_noqueue (cdc E) buf0 a from write ch) (\<lambda>(n, write, ch). Inr (n, (write, writer), ch)))"

fun flush_loop ::
  "'w sender \<Rightarrow> pending_item list \<Rightarrow> nat \<Rightarrow> 'w \<Rightarrow> ChannelParams \<Rightarrow> (ChannelFlushResult \<times> 'w \<times> ChannelParams) res" where
  "flush_loop send [] pending_size w ch =
     (case flush_complete pending_size (ch\<lparr> pending_data := [] \<rparr>) of (r, ch) \<Rightarrow> Inr (r, w, ch))"
| "flush_loop send ((buf, a, from) # rest) pending_size w ch =
     bindR (send buf a from w (ch\<lparr> pending_data := rest \<rparr>)) (\<lambda>(size, w, ch).
       if from + size < length buf
       then Inr (CF_Incomplete (pending_size + size), w, ch\<lparr> pending_data := (buf, a, from + size) # rest \<rparr>)
       else flush_loop send rest (pending_size + size) w ch)"

definition flush_channel ::
  "codec \<Rightarrow> bytes \<Rightarrow> ChannelParams \<Rightarrow> (ChannelFlushResult \<times> bytes \<times> ChannelParams) res" where
  "flush_channel C write ch = flush_loop (data_noqueue C) (pending_data ch) 0 write ch"

definition flush_channel_with_writer ::
  "env \<Rightarrow> bytes \<times> PacketWriter \<Rightarrow> ChannelParams \<Rightarrow>
     (ChannelFlushResult \<times> (bytes \<times> PacketWriter) \<times> ChannelParams) res" where
  "flush_channel_with_writer E ww ch = flush_loop (send_direct_or_push E) (pending_data ch) 0 ww ch"

section \<open>The channel table\<close>

definition channel_byte :: "codec \<Rightarrow> u32 \<Rightarrow> u8 \<Rightarrow> Encrypted \<Rightarrow> Encrypted" where
  "channel_byte C channel m self =
     (case enc_channels self channel of
        Some ch \<Rightarrow> self\<lparr> enc_write := push_packet C (enc_write self) (m # u32_encode C (recipient_channel ch)) \<rparr>
      | None \<Rightarrow> self)"

definition has_pending_data :: "Encrypted \<Rightarrow> u32 \<Rightarrow> bool" where
  "has_pending_data self channel =
     (case enc_channels self channel of Some ch \<Rightarrow> pending_data ch \<noteq> [] | None \<Rightarrow> False)"

definition update_channel :: "u32 \<Rightarrow> (ChannelParams \<Rightarrow> ChannelParams) \<Rightarrow> Encrypted \<Rightarrow> Encrypted" where
  "update_channel channel f self = self\<lparr> enc_channels := (enc_channels self)(channel := map_option f (enc_channels self channel)) \<rparr>"

definition remove_channel :: "u32 \<Rightarrow> Encrypted \<Rightarrow> Encrypted" where
  "remove_channel channel self = self\<lparr> enc_channels := (enc_channels self)(channel := None) \<rparr>"

definition channel_eof :: "codec \<Rightarrow> u32 \<Rightarrow> Encrypted \<Rightarrow> Encrypted" where
  "channel_eof C channel self =
     (if has_pending_data self channel then update_channel channel (\<lambda>ch. ch\<lparr> pending_eof := True \<rparr>) self
      else channel_byte C channel CHANNEL_EOF self)"

definition channel_close :: "codec \<Rightarrow> u32 \<Rightarrow> Encrypted \<Rightarrow> Encrypted" where
  "channel_close C channel self =
     (if has_pending_data self channel then update_channel channel (\<lambda>ch. ch\<lparr> pending_close := True \<rparr>) self
      else remove_channel channel (channel_byte C channel CHANNEL_CLOSE self))"

definition close_discarding_pending :: "codec \<Rightarrow> u32 \<Rightarrow> Encrypted \<Rightarrow> Encrypted" where
  "close_discarding_pending C channel self =
     remove_channel channel (channel_byte C channel CHANNEL_CLOSE
       (update_channel channel (\<lambda>ch. ch\<lparr> pending_data := [], pending_eof := False, pending_close := False \<rparr>) self))"

definition enc_sender_window_size :: "Encrypted \<Rightarrow> u32 \<Rightarrow> nat" where
  "enc_sender_window_size self channel =
     (case enc_channels self channel of Some ch \<Rightarrow> unat (sender_window_size ch) | None \<Rightarrow> 0)"

definition consume_recv_window :: "u32 \<Rightarrow> nat \<Rightarrow> Encrypted \<Rightarrow> Encrypted" where
  "consume_recv_window channel len self =
     update_channel channel (\<lambda>ch. if of_nat len \<le> sender_window_size ch
       then ch\<lparr> sender_window_size := sender_window_size ch - of_nat len \<rparr> else ch) self"

definition maybe_grant_recv_window :: "codec \<Rightarrow> u32 \<Rightarrow> u32 \<Rightarrow> u32 \<Rightarrow> Encrypted \<Rightarrow> bool \<times> Encrypted" where
  "maybe_grant_recv_window C channel target undelivered self =
     (let ceiling = saturating_sub target undelivered in
      case enc_channels self channel of
        Some ch \<Rightarrow>
          if sender_window_size ch < ceiling div 2
          then (True, update_channel channel (\<lambda>ch. ch\<lparr> sender_window_size := ceiling \<rparr>)
                  (self\<lparr> enc_write := push_packet C (enc_write self)
                     (CHANNEL_WINDOW_ADJUST # u32_encode C (recipient_channel ch) @
                      u32_encode C (ceiling - sender_window_size ch)) \<rparr>))
          else (False, self)
      | None \<Rightarrow> (False, self))"

fun handle_flushed_channel :: "codec \<Rightarrow> u32 \<Rightarrow> ChannelFlushResult \<Rightarrow> Encrypted \<Rightarrow> Encrypted" where
  "handle_flushed_channel C channel (CF_Complete wrote eof cl) self =
     (let self = (if eof then channel_eof C channel self else self)
      in if cl then channel_close C channel self else self)"
| "handle_flushed_channel C channel (CF_Incomplete wrote) self = self"

definition flush_pending :: "codec \<Rightarrow> u32 \<Rightarrow> Encrypted \<Rightarrow> (nat \<times> Encrypted) res" where
  "flush_pending C channel self =
     (case enc_channels self channel of
        None \<Rightarrow> Inr (0, self)
      | Some ch \<Rightarrow>
          bindR (flush_channel C (enc_write self) ch) (\<lambda>(r, write, ch).
            Inr (flush_wrote r, handle_flushed_channel C channel r
              (self\<lparr> enc_write := write, enc_channels := (enc_channels self)(channel \<mapsto> ch) \<rparr>))))"

definition flush_pending_with_writer ::
  "env \<Rightarrow> u32 \<Rightarrow> Encrypted \<Rightarrow> PacketWriter \<Rightarrow> (nat \<times> Encrypted \<times> PacketWriter) res" where
  "flush_pending_with_writer E channel self writer =
     (case enc_channels self channel of
        None \<Rightarrow> Inr (0, self, writer)
      | Some ch \<Rightarrow>
          bindR (flush_channel_with_writer E (enc_write self, writer) ch) (\<lambda>(r, (write, writer), ch).
            Inr (flush_wrote r, handle_flushed_channel (cdc E) channel r
              (self\<lparr> enc_write := write, enc_channels := (enc_channels self)(channel \<mapsto> ch) \<rparr>), writer)))"

fun flush_all_pending :: "codec \<Rightarrow> u32 list \<Rightarrow> Encrypted \<Rightarrow> Encrypted res" where
  "flush_all_pending C [] self = Inr self"
| "flush_all_pending C (channel_id # ids) self =
     bindR (flush_pending C channel_id self) (\<lambda>(_, self). flush_all_pending C ids self)"

fun flush_all_pending_with_writer ::
  "env \<Rightarrow> u32 list \<Rightarrow> Encrypted \<Rightarrow> PacketWriter \<Rightarrow> (Encrypted \<times> PacketWriter) res" where
  "flush_all_pending_with_writer E [] self writer = Inr (self, writer)"
| "flush_all_pending_with_writer E (channel_id # ids) self writer =
     bindR (flush_pending_with_writer E channel_id self writer) (\<lambda>(_, self, writer).
       flush_all_pending_with_writer E ids self writer)"

definition item_bytes :: "pending_item \<Rightarrow> nat" where
  "item_bytes i = (case i of (buf, a, from) \<Rightarrow> length buf - from)"

definition pending_data_bytes :: "Encrypted \<Rightarrow> u32 \<Rightarrow> nat" where
  "pending_data_bytes self channel =
     (case enc_channels self channel of Some ch \<Rightarrow> sum_list (map item_bytes (pending_data ch)) | None \<Rightarrow> 0)"

definition channel_exists :: "Encrypted \<Rightarrow> u32 \<Rightarrow> bool" where
  "channel_exists self channel \<longleftrightarrow> enc_channels self channel \<noteq> None"

text \<open>What \<open>data\<close>, \<open>extended_data\<close> and their variants with a writer do to the channel they find.\<close>

definition queue_or_send ::
  "'w sender \<Rightarrow> u32 option \<Rightarrow> bytes \<Rightarrow> bool \<Rightarrow> 'w \<Rightarrow> ChannelParams \<Rightarrow> ('w \<times> ChannelParams) res" where
  "queue_or_send send a buf0 is_rekeying w ch =
     (if \<not> confirmed ch then Inl E_WrongChannel
      else if pending_data ch \<noteq> [] \<or> is_rekeying
      then Inr (w, ch\<lparr> pending_data := pending_data ch @ [(buf0, a, 0)] \<rparr>)
      else bindR (send buf0 a 0 w ch) (\<lambda>(buf_len, w, ch).
        Inr (w, if buf_len < length buf0 then ch\<lparr> pending_data := pending_data ch @ [(buf0, a, buf_len)] \<rparr> else ch)))"

definition send_on_channel :: "codec \<Rightarrow> u32 option \<Rightarrow> u32 \<Rightarrow> bytes \<Rightarrow> bool \<Rightarrow> Encrypted \<Rightarrow> Encrypted res" where
  "send_on_channel C a channel buf0 is_rekeying self =
     (case enc_channels self channel of
        Some ch \<Rightarrow>
          bindR (queue_or_send (data_noqueue C) a buf0 is_rekeying (enc_write self) ch) (\<lambda>(write, ch).
            Inr (self\<lparr> enc_write := write, enc_channels := (enc_channels self)(channel \<mapsto> ch) \<rparr>))
      | None \<Rightarrow> Inr self)"

definition channel_data :: "codec \<Rightarrow> u32 \<Rightarrow> bytes \<Rightarrow> bool \<Rightarrow> Encrypted \<Rightarrow> Encrypted res" where
  "channel_data C = send_on_channel C None"

definition extended_data :: "codec \<Rightarrow> u32 \<Rightarrow> u32 \<Rightarrow> bytes \<Rightarrow> bool \<Rightarrow> Encrypted \<Rightarrow> Encrypted res" where
  "extended_data C channel ext = send_on_channel C (Some ext) channel"

definition send_on_channel_with_writer ::
  "env \<Rightarrow> u32 option \<Rightarrow> u32 \<Rightarrow> bytes \<Rightarrow> bool \<Rightarrow> Encrypted \<Rightarrow> PacketWriter \<Rightarrow> (Encrypted \<times> PacketWriter) res" where
  "send_on_channel_with_writer E a channel buf0 is_rekeying self writer =
     (case enc_channels self channel of
        Some ch \<Rightarrow>
          bindR (queue_or_send (send_direct_or_push E) a buf0 is_rekeying (enc_write self, writer) ch) (\<lambda>((write, writer), ch).
            Inr (self\<lparr> enc_write := write, enc_channels := (enc_channels self)(channel \<mapsto> ch) \<rparr>, writer))
      | None \<Rightarrow> Inr (self, writer))"

definition data_with_writer ::
  "env \<Rightarrow> u32 \<Rightarrow> bytes \<Rightarrow> bool \<Rightarrow> Encrypted \<Rightarrow> PacketWriter \<Rightarrow> (Encrypted \<times> PacketWriter) res" where
  "data_with_writer E = send_on_channel_with_writer E None"

definition extended_data_with_writer ::
  "env \<Rightarrow> u32 \<Rightarrow> u32 \<Rightarrow> bytes \<Rightarrow> bool \<Rightarrow> Encrypted \<Rightarrow> PacketWriter \<Rightarrow> (Encrypted \<times> PacketWriter) res" where
  "extended_data_with_writer E channel ext = send_on_channel_with_writer E (Some ext) channel"

section \<open>Flushing the write buffer\<close>

text \<open>An index out of range panics.\<close>

function flush_writes :: "env \<Rightarrow> bytes \<Rightarrow> nat \<Rightarrow> PacketWriter \<Rightarrow> PacketWriter res" where
  "flush_writes E write cursor writer =
     (if cursor < length write then
        if length write < cursor + 4 then Inl Panicked
        else let len = unat (be_read_u32 (cdc E) (drop cursor write)) in
          if length write < cursor + 4 + len then Inl Panicked
          else bindR (packet_raw E (take len (drop (cursor + 4) write)) writer) (\<lambda>writer.
            flush_writes E write (cursor + 4 + len) writer)
      else Inr writer)"
  by pat_completeness auto
termination by (relation "measure (\<lambda>(E, write, cursor, writer). length write - cursor)") auto

declare flush_writes.simps [simp del]

definition enc_flush ::
  "env \<Rightarrow> instant \<Rightarrow> Limits \<Rightarrow> Encrypted \<Rightarrow> PacketWriter \<Rightarrow> (bool \<times> Encrypted \<times> PacketWriter) res" where
  "enc_flush E now limits self writer =
     bindR (flush_writes E (enc_write self) (enc_write_cursor self) writer) (\<lambda>writer.
       let self = self\<lparr> enc_write_cursor := 0, enc_write := [] \<rparr> in
       if skip_exchange (enc_kex self) then Inr (False, self, writer)
       else Inr (enc_rekey_wanted self \<or> sb_bytes (pw_write_buffer writer) \<ge> rekey_write_limit limits \<or>
                   now - enc_last_rekey self \<ge> rekey_time_limit limits,
                 self\<lparr> enc_rekey_wanted := False \<rparr>, writer))"

section \<open>New channels\<close>

text \<open>The search for a free channel number does not return when every number is taken.\<close>

partial_function (option) next_channel_id :: "(u32 \<rightharpoonup> ChannelParams) \<Rightarrow> u32 \<Rightarrow> u32 option" where
  "next_channel_id channels last_id =
     (if channels (last_id + 1) \<noteq> None then next_channel_id channels (last_id + 1) else Some (last_id + 1))"

definition new_channel_id :: "Encrypted \<Rightarrow> (u32 \<times> Encrypted) option" where
  "new_channel_id self =
     map_option (\<lambda>i. (i, self\<lparr> enc_last_channel_id := i \<rparr>)) (next_channel_id (enc_channels self) (enc_last_channel_id self))"

definition new_channel :: "u32 \<Rightarrow> u32 \<Rightarrow> Encrypted \<Rightarrow> (u32 \<times> Encrypted) option" where
  "new_channel window_size maxpacket self =
     map_option (\<lambda>i. (i, self\<lparr> enc_last_channel_id := i,
         enc_channels := (enc_channels self)(i \<mapsto>
           \<lparr> recipient_channel = 0, sender_channel = i, recipient_window_size = 0, sender_window_size = window_size,
             recipient_maximum_packet_size = 0, sender_maximum_packet_size = maxpacket, confirmed = False,
             wants_reply = False, pending_data = [], pending_eof = False, pending_close = False \<rparr>) \<rparr>))
       (next_channel_id (enc_channels self) (enc_last_channel_id self))"

section \<open>What is sent\<close>

text \<open>Packets framed in the write buffer, and a list of payloads written one after the other.\<close>

definition frames :: "codec \<Rightarrow> bytes list \<Rightarrow> bytes" where
  "frames C ps = concat (map (push_packet C []) ps)"

primrec emit_all :: "'w emit \<Rightarrow> bytes list \<Rightarrow> 'w \<Rightarrow> 'w res" where
  "emit_all em [] w = Inr w"
| "emit_all em (p # ps) w = bindR (em p w) (emit_all em ps)"

fun chunks :: "nat \<Rightarrow> 'a list \<Rightarrow> 'a list list" where
  "chunks n xs = (if n = 0 \<or> xs = [] then [] else take n xs # chunks n (drop n xs))"

declare chunks.simps [simp del]

datatype chan_event = Sent "u32 option" bytes | SentEof | SentClose

fun event_payload :: "codec \<Rightarrow> u32 \<Rightarrow> chan_event \<Rightarrow> bytes" where
  "event_payload C recipient (Sent a chunk) = data_payload C recipient a chunk"
| "event_payload C recipient SentEof = CHANNEL_EOF # u32_encode C recipient"
| "event_payload C recipient SentClose = CHANNEL_CLOSE # u32_encode C recipient"

text \<open>The bytes of a channel, each with the kind of data it belongs to: sent, and queued.\<close>

type_synonym tagged = "(u32 option \<times> u8) list"

definition tag :: "u32 option \<Rightarrow> bytes \<Rightarrow> tagged" where
  "tag a buf = map (Pair a) buf"

definition sent_stream :: "chan_event list \<Rightarrow> tagged" where
  "sent_stream evs = concat (map (\<lambda>e. case e of Sent a c \<Rightarrow> tag a c | _ \<Rightarrow> []) evs)"

definition queued_stream :: "pending_item list \<Rightarrow> tagged" where
  "queued_stream items = concat (map (\<lambda>(buf, a, from). tag a (drop from buf)) items)"

text \<open>The events, the window and the queue after sending what a window admits.\<close>

fun drain :: "nat \<Rightarrow> nat \<Rightarrow> pending_item list \<Rightarrow> chan_event list \<times> nat \<times> pending_item list" where
  "drain m window [] = ([], window, [])"
| "drain m window ((buf, a, from) # rest) =
     (let now = take window (drop from buf) in
      if from + length now < length buf
      then (map (Sent a) (chunks m now), window - length now, (buf, a, from + length now) # rest)
      else case drain m (window - length now) rest of (evs, window, left) \<Rightarrow>
        (map (Sent a) (chunks m now) @ evs, window, left))"

lemma emit_all_append: "emit_all em (ps @ qs) w = bindR (emit_all em ps w) (emit_all em qs)"
  by (induction ps arbitrary: w) (simp_all add: bindR_def split: sum.split)

lemma emit_all_push: "emit_all (push_emit C) ps buf = Inr (buf @ frames C ps)"
  by (induction ps arbitrary: buf) (simp_all add: push_emit_def frames_def push_packet_def)

lemma frames_simps [simp]:
  "frames C [] = []" "frames C (p # ps) = push_packet C [] p @ frames C ps"
  "frames C (ps @ qs) = frames C ps @ frames C qs"
  by (simp_all add: frames_def)

lemma push_packet_frames: "push_packet C write p = write @ frames C [p]"
  by (simp add: push_packet_def)

lemma concat_chunks: "0 < n \<Longrightarrow> concat (chunks n xs) = xs"
  by (induction n xs rule: chunks.induct) (simp add: chunks.simps)

lemma chunks_bounds: "c \<in> set (chunks n xs) \<Longrightarrow> c \<noteq> [] \<and> length c \<le> n"
  by (induction n xs rule: chunks.induct) (subst (asm) (2) chunks.simps, auto split: if_splits)

lemma tag_simps [simp]: "length (tag a xs) = length xs" "tag a [] = []" "tag a (xs @ ys) = tag a xs @ tag a ys"
  by (simp_all add: tag_def)

lemma sent_stream_simps [simp]:
  "sent_stream [] = []" "sent_stream (xs @ ys) = sent_stream xs @ sent_stream ys"
  "sent_stream (Sent a c # evs) = tag a c @ sent_stream evs" "sent_stream (SentEof # evs) = sent_stream evs"
  "sent_stream (SentClose # evs) = sent_stream evs"
  by (simp_all add: sent_stream_def)

lemma queued_stream_simps [simp]:
  "queued_stream [] = []" "queued_stream (xs @ ys) = queued_stream xs @ queued_stream ys"
  "queued_stream ((buf, a, from) # items) = tag a (drop from buf) @ queued_stream items"
  by (simp_all add: queued_stream_def)

lemma sent_stream_Sent: "sent_stream (map (Sent a) cs) = tag a (concat cs)"
  by (induction cs) simp_all

lemma sent_stream_chunks [simp]: "0 < m \<Longrightarrow> sent_stream (map (Sent a) (chunks m xs)) = tag a xs"
  by (simp add: sent_stream_Sent concat_chunks)

lemma drain_stream:
  assumes "0 < m" "drain m window items = (evs, window', left)"
  shows "sent_stream evs @ queued_stream left = queued_stream items \<and> window' + length (sent_stream evs) = window \<and>
    (left \<noteq> [] \<longrightarrow> window' = 0) \<and>
    (\<forall>e\<in>set evs. \<exists>a c. e = Sent a c \<and> c \<noteq> [] \<and> length c \<le> m)"
  using assms
proof (induction m window items arbitrary: evs window' left rule: drain.induct)
  case (2 m window buf a start rest)
  have split: "tag a (take window (drop start buf)) @ tag a (drop (start + window) buf) = tag a (drop start buf)"
    using append_take_drop_id [of window "drop start buf"] by (simp add: add.commute flip: tag_simps(3))
  have bounds: "\<forall>e\<in>set (map (Sent a) (chunks m xs)). \<exists>a c. e = Sent a c \<and> c \<noteq> [] \<and> length c \<le> m" for xs
    using chunks_bounds by fastforce
  show ?case
  proof (cases "start + length (take window (drop start buf)) < length buf")
    case True
    then have len: "length (take window (drop start buf)) = window" "start + window < length buf"
      by auto
    then show ?thesis
      using 2(2,3) split bounds [of "take window (drop start buf)"]
      by (auto simp: Let_def simp del: length_take)
  next
    case False
    then have all: "take window (drop start buf) = drop start buf"
      by auto
    obtain evs1 w1 l1 where d: "drain m (window - length (drop start buf)) rest = (evs1, w1, l1)"
      by (cases "drain m (window - length (drop start buf)) rest")
    have "length (drop start buf) \<le> window"
      using False by auto
    then show ?thesis
      using 2(1) [OF refl, of evs1 w1 l1] 2(2,3) False d bounds [of "drop start buf"]
      by (auto simp: Let_def all)
  qed
qed auto

text \<open>The loop over packets writes the chunks of its buffer and takes their length off the window.\<close>

lemma data_loop_eq:
  assumes "0 < m"
  shows "data_loop C em a m buf w ch =
    bindR (emit_all em (map (data_payload C (recipient_channel ch) a) (chunks m buf)) w) (\<lambda>w.
      Inr (w, ch\<lparr> recipient_window_size := recipient_window_size ch - of_nat (length buf) \<rparr>))"
  using assms
proof (induction C em a m buf w ch rule: data_loop.induct)
  case (3 C em a k x xs w ch)
  let ?n = "Suc k" and ?buf = "x # xs"
  have "of_nat (length (take ?n ?buf)) + of_nat (length (drop ?n ?buf)) = (of_nat (length ?buf) :: u32)"
    by (simp only: of_nat_add [symmetric] length_append [symmetric] append_take_drop_id)
  then have "recipient_window_size ch - of_nat (min (length ?buf) ?n) - of_nat (length (drop ?n ?buf)) =
    recipient_window_size ch - of_nat (length ?buf)"
    by (simp only: length_take) (metis diff_diff_eq)
  moreover have "chunks ?n ?buf = take ?n ?buf # chunks ?n (drop ?n ?buf)"
    by (subst chunks.simps) simp
  moreover have "take (min (length ?buf) ?n) ?buf = take ?n ?buf" "drop (min (length ?buf) ?n) ?buf = drop ?n ?buf"
    by (simp_all add: min_def)
  ultimately show ?case
    using 3 by (simp add: Let_def bindR_def del: take_Suc_Cons drop_Suc_Cons length_Cons split: sum.split)
qed (simp_all add: chunks.simps)

lemma send_within_window_eq:
  assumes "0 < recipient_maximum_packet_size ch"
  shows "send_within_window C em buf0 a from w ch =
    (let now = take (unat (recipient_window_size ch)) (drop from buf0) in
     bindR (emit_all em (map (data_payload C (recipient_channel ch) a)
         (chunks (unat (recipient_maximum_packet_size ch)) now)) w) (\<lambda>w.
       Inr (length now, w, ch\<lparr> recipient_window_size := recipient_window_size ch - of_nat (length now) \<rparr>)))"
proof (cases "from < length buf0")
  case True
  have "take (min (length buf0) (from + n) - from) (drop from buf0) = take n (drop from buf0)" for n
    by (auto simp: min_def)
  moreover have "0 < unat (recipient_maximum_packet_size ch)"
    using assms by (simp add: word_less_nat_alt)
  ultimately show ?thesis
    unfolding send_within_window_def Let_def
    using True by (simp add: data_loop_eq bindR_assoc del: length_take length_drop)
next
  case False
  then show ?thesis
    by (simp add: send_within_window_def Let_def chunks.simps)
qed

lemma window_minus:
  assumes "n \<le> unat (w :: u32)"
  shows "w - of_nat n = of_nat (unat w - n)" "unat (w - of_nat n) = unat w - n"
proof -
  show "w - of_nat n = of_nat (unat w - n)"
    using assms by (simp add: of_nat_diff)
  have "unat w < 2 ^ 32"
    using unsigned_less [of w] by simp
  then have "n < 2 ^ 32"
    using assms by simp
  then show "unat (w - of_nat n) = unat w - n"
    using assms by simp
qed

text \<open>Flushing a channel writes the events of \<open>drain\<close> and leaves its window and queue.\<close>

lemma flush_loop_eq:
  assumes "0 < recipient_maximum_packet_size ch"
    and "drain (unat (recipient_maximum_packet_size ch)) (unat (recipient_window_size ch)) items = (evs, window, left)"
  shows "flush_loop (send_within_window C em) items k w ch =
    bindR (emit_all em (map (event_payload C (recipient_channel ch)) evs) w) (\<lambda>w.
      let ch' = ch\<lparr> recipient_window_size := of_nat window, pending_data := left \<rparr>;
          n = k + length (sent_stream evs) in
      if left = [] then Inr (CF_Complete n (pending_eof ch) (pending_close ch), w,
        ch'\<lparr> pending_eof := False, pending_close := False \<rparr>)
      else Inr (CF_Incomplete n, w, ch'))"
  using assms
proof (induction items arbitrary: k w ch evs)
  case Nil
  then show ?case
    by (auto simp: flush_complete_def take_pending_controls_def)
next
  case (Cons item rest)
  obtain buf a start where item: "item = (buf, a, start)"
    by (cases item)
  let ?m = "unat (recipient_maximum_packet_size ch)" and ?win = "unat (recipient_window_size ch)"
  define now where "now = take ?win (drop start buf)"
  have m: "0 < ?m"
    using Cons.prems(1) by (simp add: word_less_nat_alt)
  have win: "recipient_window_size ch - of_nat (length now) = of_nat (?win - length now)"
    "unat (of_nat (?win - length now) :: u32) = ?win - length now"
    using window_minus [of "length now" "recipient_window_size ch"] by (simp_all add: now_def)
  have send: "send_within_window C em buf a start w (ch\<lparr> pending_data := rest \<rparr>) =
    bindR (emit_all em (map (event_payload C (recipient_channel ch)) (map (Sent a) (chunks ?m now))) w) (\<lambda>w.
      Inr (length now, w, ch\<lparr> pending_data := rest, recipient_window_size := of_nat (?win - length now) \<rparr>))"
    using Cons.prems(1) win(1) by (simp add: send_within_window_eq Let_def now_def comp_def)
  show ?case
  proof (cases "start + length now < length buf")
    case True
    then show ?thesis
      using Cons.prems(2) m by (auto simp: item send Let_def bindR_assoc simp flip: now_def)
  next
    case False
    obtain evs1 where d: "drain ?m (?win - length now) rest = (evs1, window, left)"
      "evs = map (Sent a) (chunks ?m now) @ evs1"
      using Cons.prems(2) False by (auto simp: item Let_def simp flip: now_def split: prod.splits)
    show ?thesis
      using False Cons.IH [of "ch\<lparr> pending_data := rest, recipient_window_size := of_nat (?win - length now) \<rparr>" evs1]
        Cons.prems(1) d m
      by (cases "left = []") (simp_all add: item send win(2) bindR_assoc emit_all_append Let_def add.assoc)
  qed
qed

end
