(* ===== verification/Channels.thy ===== *)
theory Channels
  imports Session
begin

text \<open>
  What the channel operations of \<open>session.rs\<close> guarantee. Data goes out in order, in packets of the size and
  within the window the peer announced; end-of-file and close messages follow the data queued before them;
  over any sequence of operations no byte is lost, repeated or reordered. The two ways of sending agree, the
  receive window is never over-committed, and new channel numbers are free.
\<close>

section \<open>The write buffer\<close>

context ssh_codec
begin

lemma be_read_push: "be_read_u32 C (push_packet C [] p @ r) = of_nat (length p)"
  by (simp add: push_packet_def be_read_write)

lemma length_push: "length (push_packet C [] p) = 4 + length p"
  by (simp add: push_packet_def be_length)

end

lemma flush_writes_frames:
  assumes "ssh_codec (cdc E)" "list_all (\<lambda>p. length p < 2 ^ 32) ps"
  shows "flush_writes E (pre @ frames (cdc E) ps) (length pre) w = emit_all (packet_raw E) ps w"
  using assms(2)
proof (induction ps arbitrary: pre w)
  case Nil
  then show ?case
    by (simp add: flush_writes.simps)
next
  case (Cons p ps)
  let ?f = "push_packet (cdc E) [] p"
  have "drop (4 + length pre) (pre @ ?f @ r) = p @ r" for r
    using ssh_codec.be_length [OF assms(1)] by (simp add: push_packet_def)
  moreover have "flush_writes E (pre @ ?f @ frames (cdc E) ps) (length pre + 4 + length p) = emit_all (packet_raw E) ps"
    using Cons.IH [of "pre @ ?f"] Cons.prems by (intro ext) (simp add: ssh_codec.length_push [OF assms(1)] add.assoc)
  ultimately show ?case
    using Cons.prems ssh_codec.length_push [OF assms(1), of p]
    by (subst flush_writes.simps) (simp add: ssh_codec.be_read_push [OF assms(1)] Let_def add.commute)
qed

definition rekey_due :: "instant \<Rightarrow> Limits \<Rightarrow> Encrypted \<Rightarrow> PacketWriter \<Rightarrow> bool" where
  "rekey_due now limits e w \<longleftrightarrow> \<not> skip_exchange (enc_kex e) \<and>
     (enc_rekey_wanted e \<or> sb_bytes (pw_write_buffer w) \<ge> rekey_write_limit limits \<or>
      now - enc_last_rekey e \<ge> rekey_time_limit limits)"

definition after_flush :: "Encrypted \<Rightarrow> Encrypted" where
  "after_flush e = e\<lparr> enc_write_cursor := 0, enc_write := [],
     enc_rekey_wanted := (skip_exchange (enc_kex e) \<and> enc_rekey_wanted e) \<rparr>"

lemma enc_flush_frames:
  assumes "ssh_codec (cdc E)" "list_all (\<lambda>p. length p < 2 ^ 32) ps"
    and "enc_write e = frames (cdc E) ps" "enc_write_cursor e = 0"
  shows "enc_flush E now limits e w =
    bindR (emit_all (packet_raw E) ps w) (\<lambda>w. Inr (rekey_due now limits e w, after_flush e, w))"
  using flush_writes_frames [OF assms(1,2), of "[]"] assms(3,4)
  by (cases e; cases "skip_exchange (enc_kex e)") (simp_all add: enc_flush_def Let_def rekey_due_def after_flush_def)

section \<open>Both ways to send\<close>

lemma packet_raw_forget:
  assumes "forget v = forget w"
  shows "map_sum id forget (packet_raw E p v) = map_sum id forget (packet_raw E p w)"
proof -
  have "packet_raw E p (w\<lparr> pw_packet_buffer := [] \<rparr>) = packet_raw E p (v\<lparr> pw_packet_buffer := [] \<rparr>)"
    using assms by (simp add: forget_def)
  then show ?thesis
    unfolding packet_raw_packet_buffer by (cases "packet_raw E p v"; cases "packet_raw E p w") (simp_all add: forget_def)
qed

lemma emit_all_forget:
  assumes "ssh_codec (cdc E)" "crypto_ok (cry E)" "list_all (\<lambda>p. 1 + length p + MAXIMUM_PADDING_LEN < 2 ^ 32) ps"
    and "forget v = forget w"
  shows "map_sum id forget (emit_all (packet_emit E) ps v) = map_sum id forget (emit_all (packet_raw E) ps w)"
  using assms(3,4)
proof (induction ps arbitrary: v w)
  case (Cons p ps)
  have "map_sum id forget (packet_emit E p v) = map_sum id forget (packet_raw E p w)"
    using write_packet_forget [OF assms(1,2)] Cons.prems packet_raw_forget [OF Cons.prems(2)]
    by (simp add: packet_emit_def)
  then show ?case
    using Cons.IH Cons.prems(1) by (cases "packet_emit E p v"; cases "packet_raw E p w") auto
qed simp

text \<open>Sending through the write buffer and sending directly, then flushing, write the same packets.\<close>

lemma data_payload_length:
  "ssh_codec C \<Longrightarrow> length (data_payload C r a c) \<le> 13 + length c"
  by (cases a) (simp_all add: data_payload_def ssh_codec.u32_length ssh_codec.bytes_length)

lemma data_payloads_short:
  assumes "ssh_codec C" "length buf + 64 < 2 ^ 32"
  shows "list_all (\<lambda>p. 1 + length p + MAXIMUM_PADDING_LEN < 2 ^ 32) (map (data_payload C r a) (chunks m buf))"
    "list_all (\<lambda>p. length p < 2 ^ 32) (map (data_payload C r a) (chunks m buf))"
proof -
  have "length c \<le> length buf" if "c \<in> set (chunks m buf)" for c
    using that
  proof (induction m buf rule: chunks.induct)
    case (1 n xs)
    then show ?case
      by (subst (asm) (2) chunks.simps) (auto split: if_splits intro: order_trans)
  qed
  then have len: "length p \<le> 13 + length buf" if "p \<in> set (map (data_payload C r a) (chunks m buf))" for p
    using that data_payload_length [OF assms(1), of r a] by auto (meson add_le_cancel_left le_trans)
  have "1 + length p + MAXIMUM_PADDING_LEN < 2 ^ 32" "length p < 2 ^ 32"
    if "p \<in> set (map (data_payload C r a) (chunks m buf))" for p
    using assms(2) len [OF that] by (simp_all add: packet_consts)
  then show "list_all (\<lambda>p. 1 + length p + MAXIMUM_PADDING_LEN < 2 ^ 32) (map (data_payload C r a) (chunks m buf))"
    "list_all (\<lambda>p. length p < 2 ^ 32) (map (data_payload C r a) (chunks m buf))"
    by (simp_all add: list_all_iff)
qed

text \<open>What a call that sends data writes and leaves, whatever the destination.\<close>

definition send_plan :: "u32 option \<Rightarrow> bytes \<Rightarrow> bool \<Rightarrow> ChannelParams \<Rightarrow> (chan_event list \<times> ChannelParams) res" where
  "send_plan a buf0 rk ch =
     (if \<not> confirmed ch then Inl E_WrongChannel
      else if pending_data ch \<noteq> [] \<or> rk then Inr ([], ch\<lparr> pending_data := pending_data ch @ [(buf0, a, 0)] \<rparr>)
      else if buf0 \<noteq> [] \<and> recipient_maximum_packet_size ch = 0 then Inl E_Inconsistent
      else let now = take (unat (recipient_window_size ch)) buf0 in
        Inr (map (Sent a) (chunks (unat (recipient_maximum_packet_size ch)) now),
             ch\<lparr> recipient_window_size := recipient_window_size ch - of_nat (length now),
                 pending_data := (if length now < length buf0 then [(buf0, a, length now)] else []) \<rparr>))"

lemma queue_or_send_plan:
  "queue_or_send (send_within_window C em) a buf0 rk w ch = bindR (send_plan a buf0 rk ch) (\<lambda>(evs, ch').
     bindR (emit_all em (map (event_payload C (recipient_channel ch)) evs) w) (\<lambda>w. Inr (w, ch')))"
proof (cases "\<not> confirmed ch \<or> pending_data ch \<noteq> [] \<or> rk \<or> buf0 = []")
  case True
  then show ?thesis
    by (cases ch) (auto simp: queue_or_send_def send_plan_def send_within_window_def chunks.simps)
next
  case False
  show ?thesis
  proof (cases "recipient_maximum_packet_size ch = 0")
    case True
    then show ?thesis
      using False by (simp add: queue_or_send_def send_plan_def send_within_window_def Let_def)
  next
    case pos: False
    then have "0 < recipient_maximum_packet_size ch"
      by (simp add: word_gt_0)
    from send_within_window_eq [OF this, of C em buf0 a 0 w] show ?thesis
      using False pos by (cases ch) (simp add: queue_or_send_def send_plan_def Let_def bindR_assoc comp_def)
  qed
qed

lemma queue_or_send_direct:
  "queue_or_send (send_direct_or_push E) a buf0 rk ([], w) ch = bindR (send_plan a buf0 rk ch) (\<lambda>(evs, ch').
     bindR (emit_all (packet_emit E) (map (event_payload (cdc E) (recipient_channel ch)) evs) w) (\<lambda>w. Inr (([], w), ch')))"
proof -
  have "queue_or_send (send_direct_or_push E) a buf0 rk ([], w) ch =
    bindR (queue_or_send (data_noqueue_direct E) a buf0 rk w ch) (\<lambda>(w, ch). Inr (([], w), ch))"
    by (cases "data_noqueue_direct E buf0 a 0 w ch") (auto simp: queue_or_send_def send_direct_or_push_def)
  then show ?thesis
    by (cases "send_plan a buf0 rk ch") (auto simp: data_noqueue_direct_def queue_or_send_plan bindR_assoc)
qed

lemma queue_or_send_push:
  "queue_or_send (data_noqueue C) a buf0 rk buf ch = bindR (send_plan a buf0 rk ch) (\<lambda>(evs, ch').
     Inr (buf @ frames C (map (event_payload C (recipient_channel ch)) evs), ch'))"
  by (simp add: data_noqueue_def queue_or_send_plan emit_all_push split_def)

lemma send_plan_short:
  assumes "ssh_codec C" "length buf0 + 64 < 2 ^ 32" "send_plan a buf0 rk ch = Inr (evs, ch')"
  shows "list_all (\<lambda>p. 1 + length p + MAXIMUM_PADDING_LEN < 2 ^ 32) (map (event_payload C r) evs)"
    "list_all (\<lambda>p. length p < 2 ^ 32) (map (event_payload C r) evs)"
proof -
  have "length (take n buf0) + 64 < 2 ^ 32" for n
    using assms(2) by auto
  note short = data_payloads_short [OF assms(1) this]
  have "evs = [] \<or> evs = map (Sent a) (chunks (unat (recipient_maximum_packet_size ch)) (take (unat (recipient_window_size ch)) buf0))"
    using assms(3) by (auto simp: send_plan_def Let_def simp del: take_all take_all_iff split: if_splits)
  then show
    "list_all (\<lambda>p. 1 + length p + MAXIMUM_PADDING_LEN < 2 ^ 32) (map (event_payload C r) evs)"
    "list_all (\<lambda>p. length p < 2 ^ 32) (map (event_payload C r) evs)"
    using short by (auto simp: comp_def simp del: take_all take_all_iff)
qed

definition forget_writer :: "bool \<times> Encrypted \<times> PacketWriter \<Rightarrow> bool \<times> Encrypted \<times> PacketWriter" where
  "forget_writer r = (case r of (b, e, w) \<Rightarrow> (b, e, forget w))"

lemma rekey_due_forget:
  assumes "forget v = forget w"
  shows "rekey_due now limits e v = rekey_due now limits e w"
  using arg_cong [OF assms, of pw_write_buffer] by (simp add: forget_def rekey_due_def)

lemma bind_forget:
  assumes "map_sum id forget x = map_sum id forget y" "rekey_due now limits e = rekey_due now limits d"
    and "after_flush e = after_flush d"
  shows "map_sum id forget_writer (bindR x (\<lambda>w. Inr (rekey_due now limits e w, after_flush e, w))) =
    map_sum id forget_writer (bindR y (\<lambda>w. Inr (rekey_due now limits d w, after_flush d, w)))"
proof (cases x)
  case (Inl a)
  then show ?thesis
    using assms(1) by (cases y) simp_all
next
  case (Inr v)
  then obtain w where "y = Inr w" "forget v = forget w"
    using assms(1) by (cases y) simp_all
  then show ?thesis
    using Inr assms(2,3) rekey_due_forget [of v w now limits d] by (simp add: forget_writer_def)
qed

lemma send_with_writer_flush:
  assumes "ssh_codec (cdc E)" "crypto_ok (cry E)" "enc_write e = []" "enc_write_cursor e = 0" "length buf0 + 64 < 2 ^ 32"
  shows "map_sum id forget_writer (bindR (send_on_channel_with_writer E a i buf0 rk e w) (\<lambda>(e, w). enc_flush E now limits e w)) =
    map_sum id forget_writer (bindR (send_on_channel (cdc E) a i buf0 rk e) (\<lambda>e. enc_flush E now limits e w))"
proof (cases "enc_channels e i")
  case None
  then show ?thesis
    by (simp add: send_on_channel_def send_on_channel_with_writer_def)
next
  case (Some ch)
  show ?thesis
  proof (cases "send_plan a buf0 rk ch")
    case (Inl err)
    then show ?thesis
      by (simp add: Some assms(3) send_on_channel_def send_on_channel_with_writer_def queue_or_send_direct queue_or_send_push)
  next
    case (Inr r)
    obtain evs ch' where r: "r = (evs, ch')"
      by (cases r)
    note short = send_plan_short [OF assms(1,5) Inr [unfolded r], of "recipient_channel ch"]
    let ?ps = "map (event_payload (cdc E) (recipient_channel ch)) evs"
    let ?e = "\<lambda>buf. e\<lparr> enc_write := buf, enc_channels := (enc_channels e)(i \<mapsto> ch') \<rparr>"
    have l: "enc_flush E now limits (?e []) w' = Inr (rekey_due now limits (?e []) w', after_flush (?e []), w')" for w'
      using enc_flush_frames [OF assms(1), of "[]" "?e []"] assms(4) by simp
    have r': "enc_flush E now limits (?e (frames (cdc E) ?ps)) w = bindR (emit_all (packet_raw E) ?ps w)
        (\<lambda>w. Inr (rekey_due now limits (?e (frames (cdc E) ?ps)) w, after_flush (?e (frames (cdc E) ?ps)), w))"
      by (rule enc_flush_frames [OF assms(1) short(2)]) (simp_all add: assms(4))
    have "map_sum id forget_writer (bindR (emit_all (packet_emit E) ?ps w) (\<lambda>w. enc_flush E now limits (?e []) w)) =
      map_sum id forget_writer (enc_flush E now limits (?e (frames (cdc E) ?ps)) w)"
      unfolding l r'
      by (rule bind_forget [OF emit_all_forget [OF assms(1,2) short(1) refl]])
        (simp_all add: rekey_due_def [abs_def] after_flush_def)
    then show ?thesis
      by (simp add: Some assms(3) send_on_channel_def send_on_channel_with_writer_def queue_or_send_direct
          queue_or_send_push Inr r bindR_assoc)
  qed
qed

section \<open>Flushing a channel\<close>

definition flush_controls :: "ChannelParams \<Rightarrow> chan_event list" where
  "flush_controls ch = (if pending_eof ch then [SentEof] else []) @ (if pending_close ch then [SentClose] else [])"

lemma controls_kept:
  "ch\<lparr> recipient_window_size := x, pending_data := y, pending_eof := pending_eof ch, pending_close := pending_close ch \<rparr> =
     ch\<lparr> recipient_window_size := x, pending_data := y \<rparr>"
  by (cases ch) simp

lemma frames_Cons2: "frames C (p # q # ps) = frames C [p] @ frames C (q # ps)"
  by simp

lemma flush_pending_eq:
  assumes "enc_channels e i = Some ch" "0 < recipient_maximum_packet_size ch"
    and "drain (unat (recipient_maximum_packet_size ch)) (unat (recipient_window_size ch)) (pending_data ch) =
      (evs, window, left)"
  shows "flush_pending C i e = Inr (length (sent_stream evs),
    e\<lparr> enc_write := enc_write e @ frames C (map (event_payload C (recipient_channel ch))
          (evs @ (if left = [] then flush_controls ch else []))),
       enc_channels := (enc_channels e)(i := if left = [] \<and> pending_close ch then None
         else Some (ch\<lparr> recipient_window_size := of_nat window, pending_data := left,
                pending_eof := (left \<noteq> [] \<and> pending_eof ch), pending_close := (left \<noteq> [] \<and> pending_close ch) \<rparr>)) \<rparr>)"
proof -
  let ?f = "frames C (map (event_payload C (recipient_channel ch)) evs)"
  have flush: "flush_channel C (enc_write e) ch =
    (let ch' = ch\<lparr> recipient_window_size := of_nat window, pending_data := left \<rparr>; n = length (sent_stream evs) in
     if left = [] then Inr (CF_Complete n (pending_eof ch) (pending_close ch), enc_write e @ ?f,
       ch'\<lparr> pending_eof := False, pending_close := False \<rparr>)
     else Inr (CF_Incomplete n, enc_write e @ ?f, ch'))"
    by (simp add: flush_channel_def data_noqueue_def flush_loop_eq [OF assms(2,3)] emit_all_push)
  show ?thesis
  proof (cases "left = []")
    case True
    have "flush_pending C i e = Inr (length (sent_stream evs), handle_flushed_channel C i
      (CF_Complete (length (sent_stream evs)) (pending_eof ch) (pending_close ch))
      (e\<lparr> enc_write := enc_write e @ ?f, enc_channels := (enc_channels e)(i \<mapsto> ch\<lparr> recipient_window_size := of_nat window,
         pending_data := [], pending_eof := False, pending_close := False \<rparr>) \<rparr>))"
      using assms(1) True by (simp add: flush_pending_def flush)
    then show ?thesis
      using True by (cases "pending_eof ch"; cases "pending_close ch")
        (simp_all add: channel_eof_def channel_close_def has_pending_data_def
          channel_byte_def remove_channel_def push_packet_frames flush_controls_def frames_Cons2 del: frames_simps(2))
  next
    case False
    then show ?thesis
      using assms(1) by (simp add: flush_pending_def flush controls_kept)
  qed
qed


section \<open>Sequences of operations\<close>

text \<open>\<open>CHANNEL_WINDOW_ADJUST\<close> from the peer, before the queue is flushed.\<close>

definition window_adjust :: "u32 \<Rightarrow> u32 \<Rightarrow> Encrypted \<Rightarrow> Encrypted" where
  "window_adjust channel amount self =
     update_channel channel (\<lambda>ch. ch\<lparr> recipient_window_size := saturating_add (recipient_window_size ch) amount \<rparr>) self"

text \<open>
  The operations on one channel, with the bytes the caller hands over and the window the peer grants.
\<close>

inductive chan_step :: "codec \<Rightarrow> u32 \<Rightarrow> Encrypted \<Rightarrow> tagged \<Rightarrow> nat \<Rightarrow> Encrypted \<Rightarrow> bool" for C i where
  step_send: "enc_channels e i \<noteq> None \<Longrightarrow> send_on_channel C a i buf rk e = Inr e' \<Longrightarrow> chan_step C i e (tag a buf) 0 e'"
| step_flush: "flush_pending C i e = Inr (n, e') \<Longrightarrow> chan_step C i e [] 0 e'"
| step_adjust: "chan_step C i e [] (unat amount) (window_adjust i amount e)"
| step_eof: "chan_step C i e [] 0 (channel_eof C i e)"
| step_close: "chan_step C i e [] 0 (channel_close C i e)"

inductive chan_run :: "codec \<Rightarrow> u32 \<Rightarrow> Encrypted \<Rightarrow> tagged \<Rightarrow> nat \<Rightarrow> Encrypted \<Rightarrow> bool" for C i e0 where
  run_refl: "chan_run C i e0 [] 0 e0"
| run_step: "chan_run C i e0 acc granted e \<Longrightarrow> chan_step C i e xs n e' \<Longrightarrow> chan_run C i e0 (acc @ xs) (granted + n) e'"

inductive_cases chan_stepE: "chan_step C i e xs n e'"

text \<open>
  The state of a channel against its history: what was sent and what is queued is what was handed over,
  what was sent is within the window, and a close message is the last one and leaves nothing behind.
\<close>

definition chan_inv ::
  "codec \<Rightarrow> u32 \<Rightarrow> ChannelParams \<Rightarrow> bytes \<Rightarrow> tagged \<Rightarrow> nat \<Rightarrow> chan_event list \<Rightarrow> Encrypted \<Rightarrow> bool" where
  "chan_inv C i ch0 buf0 acc granted evs e \<longleftrightarrow>
     enc_write e = buf0 @ frames C (map (event_payload C (recipient_channel ch0)) evs) \<and>
     (case enc_channels e i of
        Some ch \<Rightarrow>
          recipient_channel ch = recipient_channel ch0 \<and>
          recipient_maximum_packet_size ch = recipient_maximum_packet_size ch0 \<and>
          sent_stream evs @ queued_stream (pending_data ch) = acc \<and>
          length (sent_stream evs) + unat (recipient_window_size ch) \<le> unat (recipient_window_size ch0) + granted \<and>
          SentClose \<notin> set evs
      | None \<Rightarrow>
          sent_stream evs = acc \<and> length acc \<le> unat (recipient_window_size ch0) + granted \<and>
          (\<exists>before. evs = before @ [SentClose] \<and> SentClose \<notin> set before))"

lemma chunks_Nil [simp]: "chunks m [] = []"
  by (simp add: chunks.simps)

lemma send_plan_cases:
  assumes "send_plan a buf rk ch = Inr (evs, ch')"
  obtains (queued) "evs = []" "ch' = ch\<lparr> pending_data := pending_data ch @ [(buf, a, 0)] \<rparr>"
  | (sent) now where "now = take (unat (recipient_window_size ch)) buf" "pending_data ch = []"
      "buf \<noteq> [] \<longrightarrow> 0 < unat (recipient_maximum_packet_size ch)"
      "evs = map (Sent a) (chunks (unat (recipient_maximum_packet_size ch)) now)"
      "ch' = ch\<lparr> recipient_window_size := recipient_window_size ch - of_nat (length now),
                 pending_data := (if length now < length buf then [(buf, a, length now)] else []) \<rparr>"
proof (cases "pending_data ch \<noteq> [] \<or> rk")
  case True
  then show thesis
    using assms queued by (simp add: send_plan_def split: if_splits)
next
  case False
  then show thesis
    using assms sent [OF refl] unfolding send_plan_def Let_def by (simp only: split: if_splits) (auto simp: unat_gt_0)
qed

lemma send_plan_stream:
  assumes "send_plan a buf rk ch = Inr (evs, ch')"
  shows "sent_stream evs @ queued_stream (pending_data ch') = queued_stream (pending_data ch) @ tag a buf \<and>
    length (sent_stream evs) + unat (recipient_window_size ch') = unat (recipient_window_size ch) \<and>
    SentClose \<notin> set evs \<and> recipient_channel ch' = recipient_channel ch \<and>
    recipient_maximum_packet_size ch' = recipient_maximum_packet_size ch"
  using assms
proof (cases rule: send_plan_cases)
  case queued
  then show ?thesis by simp
next
  case (sent now)
  have "sent_stream evs = tag a now"
    using sent(1,3) unfolding sent(4) by (cases "buf = []") simp_all
  moreover have "tag a now @ queued_stream (pending_data ch') = tag a buf"
  proof (cases "length now < length buf")
    case True
    then have "pending_data ch' = [(buf, a, unat (recipient_window_size ch))]"
      unfolding sent(1,5) by simp
    then show ?thesis
      by (simp add: sent(1) tag_def flip: map_append)
  qed (simp add: sent(1,5))
  moreover have "unat (recipient_window_size ch') = unat (recipient_window_size ch) - length now"
    "length now \<le> unat (recipient_window_size ch)"
    unfolding sent(5) using window_minus(2) [of "length now" "recipient_window_size ch"] sent(1) by simp_all
  moreover have "SentClose \<notin> set evs"
    unfolding sent(4) by auto
  ultimately show ?thesis
    using sent(2) by (simp add: sent(5))
qed

lemma saturating_add_le: "unat (saturating_add a b) \<le> unat a + unat b"
proof (cases "a \<le> - 1 - b")
  case True
  then show ?thesis
    by (simp add: saturating_add_def unat_word_ariths)
next
  case False
  then have "unat (- 1 - b) < unat a"
    by (simp add: word_less_nat_alt not_le)
  then show ?thesis
    using False by (simp add: saturating_add_def)
qed

lemma flush_controls_simps [simp]:
  "sent_stream (flush_controls ch) = []" "SentClose \<in> set (flush_controls ch) \<longleftrightarrow> pending_close ch"
  by (simp_all add: flush_controls_def)

lemma flush_pending_inv:
  assumes "chan_inv C i ch0 buf0 acc granted evs e" "0 < recipient_maximum_packet_size ch0" "enc_channels e i = Some ch"
  shows "\<exists>evs'. chan_inv C i ch0 buf0 acc granted evs' (snd (projr (flush_pending C i e)))"
proof -
  note inv = assms(1) [unfolded chan_inv_def assms(3) option.case]
  obtain new window left where d: "drain (unat (recipient_maximum_packet_size ch)) (unat (recipient_window_size ch))
      (pending_data ch) = (new, window, left)"
    using prod_cases3 by blast
  have pos: "0 < recipient_maximum_packet_size ch" "0 < unat (recipient_maximum_packet_size ch)"
    using inv assms(2) by (simp_all add: word_less_nat_alt)
  note ds = drain_stream [OF pos(2) d]
  have data: "SentClose \<notin> set new"
    using ds by blast
  have win: "unat (of_nat window :: u32) = window"
    using ds unsigned_less [of "recipient_window_size ch", where 'a = nat] by simp
  have len: "length (sent_stream evs) + (window + length (sent_stream new)) \<le> unat (recipient_window_size ch0) + granted"
    using inv ds by simp
  have acc: "sent_stream evs @ sent_stream new @ queued_stream left = acc"
    using inv ds by simp
  have "chan_inv C i ch0 buf0 acc granted (evs @ new @ (if left = [] then flush_controls ch else []))
    (snd (projr (flush_pending C i e)))"
  proof (cases "left = [] \<and> pending_close ch")
    case True
    then have "flush_controls ch = (if pending_eof ch then [SentEof] else []) @ [SentClose]"
      by (simp add: flush_controls_def)
    then show ?thesis
      using True inv len acc data by (auto simp: chan_inv_def flush_pending_eq [OF assms(3) pos(1) d])
  next
    case False
    then show ?thesis
      using inv len acc data win by (auto simp: chan_inv_def flush_pending_eq [OF assms(3) pos(1) d])
  qed
  then show ?thesis ..
qed

lemma chan_step_inv:
  assumes "chan_step C i e xs n e'" "chan_inv C i ch0 buf0 acc granted evs e" "0 < recipient_maximum_packet_size ch0"
  shows "\<exists>evs'. chan_inv C i ch0 buf0 (acc @ xs) (granted + n) evs' e'"
proof (cases "enc_channels e i")
  case None
  have "chan_inv C i ch0 buf0 (acc @ xs) (granted + n) evs e'"
    using assms(1) None assms(2)
    by (cases rule: chan_step.cases)
      (auto simp: chan_inv_def flush_pending_def window_adjust_def update_channel_def channel_eof_def channel_close_def
        has_pending_data_def channel_byte_def remove_channel_def)
  then show ?thesis ..
next
  case (Some ch)
  note inv = assms(2) [unfolded chan_inv_def Some option.case]
  show ?thesis
    using assms(1)
  proof (cases rule: chan_step.cases)
    case (step_send a buf rk)
    then obtain new ch' where plan: "send_plan a buf rk ch = Inr (new, ch')"
      "e' = e\<lparr> enc_write := enc_write e @ frames C (map (event_payload C (recipient_channel ch)) new),
               enc_channels := (enc_channels e)(i \<mapsto> ch') \<rparr>"
      using Some by (auto simp: send_on_channel_def queue_or_send_push res_simps)
    have "chan_inv C i ch0 buf0 (acc @ xs) (granted + n) (evs @ new) e'"
      using inv send_plan_stream [OF plan(1)] step_send(1,2) by (auto simp: chan_inv_def plan(2))
    then show ?thesis ..
  next
    case (step_flush m)
    then have "e' = snd (projr (flush_pending C i e))" "xs = []" "n = 0"
      by simp_all
    then show ?thesis
      using flush_pending_inv [OF assms(2,3) Some] by auto
  next
    case (step_adjust amount)
    have "chan_inv C i ch0 buf0 (acc @ xs) (granted + n) evs e'"
      using inv Some step_adjust saturating_add_le [of "recipient_window_size ch" amount]
      by (simp add: chan_inv_def window_adjust_def update_channel_def)
    then show ?thesis ..
  next
    case step_eof
    have "chan_inv C i ch0 buf0 (acc @ xs) (granted + n) (evs @ (if pending_data ch = [] then [SentEof] else [])) e'"
      using inv Some step_eof
      by (cases "pending_data ch = []") (auto simp: chan_inv_def channel_eof_def has_pending_data_def update_channel_def channel_byte_def
          push_packet_frames simp del: frames_simps(2))
    then show ?thesis ..
  next
    case step_close
    have "chan_inv C i ch0 buf0 (acc @ xs) (granted + n) (evs @ (if pending_data ch = [] then [SentClose] else [])) e'"
      using inv Some step_close
      by (cases "pending_data ch = []") (auto simp: chan_inv_def channel_close_def has_pending_data_def update_channel_def channel_byte_def
          remove_channel_def push_packet_frames simp del: frames_simps(2))
    then show ?thesis ..
  qed
qed

lemma chan_run_inv:
  assumes "chan_run C i e0 acc granted e" "enc_channels e0 i = Some ch0" "pending_data ch0 = []"
    and "0 < recipient_maximum_packet_size ch0"
  shows "\<exists>evs. chan_inv C i ch0 (enc_write e0) acc granted evs e"
  using assms(1)
proof (induction rule: chan_run.induct)
  case run_refl
  have "chan_inv C i ch0 (enc_write e0) [] 0 [] e0"
    using assms(2,3) by (simp add: chan_inv_def)
  then show ?case ..
next
  case (run_step acc granted e xs n e')
  then show ?case
    using chan_step_inv [OF run_step(2) _ assms(4)] by blast
qed

section \<open>The receive window\<close>

text \<open>
  The receive side of a channel: data within the window arrives and is counted as undelivered, the
  application takes it, and the session tops the window up.
\<close>

inductive recv_step :: "codec \<Rightarrow> u32 \<Rightarrow> u32 \<Rightarrow> Encrypted \<times> nat \<Rightarrow> nat \<Rightarrow> Encrypted \<times> nat \<Rightarrow> bool" for C i target where
  recv_data: "len \<le> enc_sender_window_size e i \<Longrightarrow> recv_step C i target (e, u) len (consume_recv_window i len e, u + len)"
| recv_deliver: "len \<le> u \<Longrightarrow> recv_step C i target (e, u) 0 (e, u - len)"
| recv_grant: "maybe_grant_recv_window C i target (of_nat u) e = (b, e') \<Longrightarrow> recv_step C i target (e, u) 0 (e', u)"

inductive recv_run :: "codec \<Rightarrow> u32 \<Rightarrow> u32 \<Rightarrow> Encrypted \<Rightarrow> nat \<Rightarrow> Encrypted \<times> nat \<Rightarrow> bool" for C i target e0 where
  recv_refl: "recv_run C i target e0 0 (e0, 0)"
| recv_more: "recv_run C i target e0 n s \<Longrightarrow> recv_step C i target s len s' \<Longrightarrow> recv_run C i target e0 (n + len) s'"

text \<open>The window a grant message announces.\<close>

definition grant_payload :: "codec \<Rightarrow> u32 \<Rightarrow> u32 \<Rightarrow> bytes" where
  "grant_payload C r amount = CHANNEL_WINDOW_ADJUST # u32_encode C r @ u32_encode C amount"

text \<open>
  The window never exceeds the target less what is undelivered, and it is the initial window and all
  announced grants less all data received.
\<close>

definition recv_inv :: "codec \<Rightarrow> u32 \<Rightarrow> u32 \<Rightarrow> Encrypted \<Rightarrow> nat \<Rightarrow> u32 list \<Rightarrow> Encrypted \<times> nat \<Rightarrow> bool" where
  "recv_inv C i target e0 received grants s \<longleftrightarrow>
     (case (enc_channels e0 i, enc_channels (fst s) i) of
        (Some ch0, Some ch) \<Rightarrow>
          recipient_channel ch = recipient_channel ch0 \<and>
          unat (sender_window_size ch) + snd s \<le> unat target \<and>
          unat (sender_window_size ch) + received = unat (sender_window_size ch0) + sum_list (map unat grants) \<and>
          enc_write (fst s) = enc_write e0 @ frames C (map (grant_payload C (recipient_channel ch0)) grants)
      | _ \<Rightarrow> False)"

lemma recv_step_inv:
  assumes "recv_step C i target s len s'" "recv_inv C i target e0 received grants s"
  shows "\<exists>grants'. recv_inv C i target e0 (received + len) grants' s'"
proof -
  obtain ch0 ch where ch: "enc_channels e0 i = Some ch0" "enc_channels (fst s) i = Some ch"
    using assms(2) by (auto simp: recv_inv_def split: option.splits)
  note inv = assms(2) [unfolded recv_inv_def ch prod.case option.case]
  show ?thesis
    using assms(1)
  proof (cases rule: recv_step.cases)
    case (recv_data e u)
    then have "len \<le> unat (sender_window_size ch)"
      using ch by (simp add: enc_sender_window_size_def)
    then have "recv_inv C i target e0 (received + len) grants s'"
      using ch inv recv_data(1,2) window_minus(2) [of len "sender_window_size ch"]
      by (simp add: recv_inv_def consume_recv_window_def update_channel_def)
    then show ?thesis ..
  next
    case (recv_deliver l u e)
    then have "recv_inv C i target e0 (received + len) grants s'"
      using ch inv by (auto simp: recv_inv_def)
    then show ?thesis ..
  next
    case (recv_grant u e b e')
    define ceiling where "ceiling = saturating_sub target (of_nat u)"
    have u: "u \<le> unat target"
      using inv recv_grant(1) by simp
    then have ceil: "unat ceiling = unat target - u"
      using unsigned_less [of target, where 'a = nat] by (simp add: ceiling_def)
    show ?thesis
    proof (cases "sender_window_size ch < ceiling div 2")
      case True
      have "unat (ceiling div 2) \<le> unat ceiling"
        by (simp add: unat_div)
      then have le: "sender_window_size ch \<le> ceiling"
        using True by (simp add: word_le_nat_alt word_less_nat_alt)
      then have amount: "unat (sender_window_size ch) + unat (ceiling - sender_window_size ch) = unat ceiling"
        by (simp add: word_le_nat_alt)
      have "e' = update_channel i (\<lambda>ch. ch\<lparr> sender_window_size := ceiling \<rparr>) (e\<lparr> enc_write := push_packet C (enc_write e)
          (grant_payload C (recipient_channel ch) (ceiling - sender_window_size ch)) \<rparr>)"
        using recv_grant(1,4) ch True
        by (simp add: maybe_grant_recv_window_def Let_def grant_payload_def flip: ceiling_def)
      moreover have "unat ceiling + received =
          unat (sender_window_size ch0) + (sum_list (map unat grants) + unat (ceiling - sender_window_size ch))"
        using inv amount by linarith
      moreover have "unat ceiling + u \<le> unat target"
        using ceil u by linarith
      ultimately have "recv_inv C i target e0 (received + len) (grants @ [ceiling - sender_window_size ch]) s'"
        using ch inv recv_grant(1-3)
        by (simp add: recv_inv_def update_channel_def push_packet_frames del: frames_simps(2))
      then show ?thesis ..
    next
      case False
      then have "e' = e"
        using recv_grant(1,4) ch by (simp add: maybe_grant_recv_window_def Let_def flip: ceiling_def)
      then show ?thesis
        using assms(2) recv_grant(1-3) by auto
    qed
  qed
qed

lemma recv_run_inv:
  assumes "recv_run C i target e0 received s" "enc_channels e0 i = Some ch0" "sender_window_size ch0 \<le> target"
  shows "\<exists>grants. recv_inv C i target e0 received grants s"
  using assms(1)
proof (induction rule: recv_run.induct)
  case recv_refl
  have "recv_inv C i target e0 0 [] (e0, 0)"
    using assms(2,3) by (simp add: recv_inv_def word_le_nat_alt)
  then show ?case ..
next
  case (recv_more n s len s')
  then show ?case
    using recv_step_inv [OF recv_more(2)] by blast
qed

section \<open>New channels\<close>

lemma next_channel_id_free:
  assumes "channels (last_id + 1 + of_nat k) = None"
  shows "\<exists>i. next_channel_id channels last_id = Some i \<and> channels i = None"
  using assms
proof (induction k arbitrary: last_id)
  case 0
  then show ?case
    by (subst next_channel_id.simps) simp
next
  case (Suc k)
  show ?case
  proof (cases "channels (last_id + 1) = None")
    case True
    then show ?thesis
      by (subst next_channel_id.simps) simp
  next
    case False
    then show ?thesis
      using Suc.IH [of "last_id + 1"] Suc.prems by (subst next_channel_id.simps) (simp add: add.commute add.left_commute)
  qed
qed

lemma next_channel_id_returns:
  assumes "dom channels \<noteq> UNIV"
  shows "\<exists>i. next_channel_id channels last_id = Some i \<and> channels i = None"
proof -
  obtain j where "channels j = None"
    using assms by blast
  then have "channels (last_id + 1 + of_nat (unat (j - last_id - 1))) = None"
    by simp
  then show ?thesis
    by (rule next_channel_id_free)
qed

section \<open>A concrete session\<close>

definition demo_channel :: ChannelParams where
  "demo_channel = \<lparr> recipient_channel = 7, sender_channel = 2, recipient_window_size = 5, sender_window_size = 100,
     recipient_maximum_packet_size = 3, sender_maximum_packet_size = 100, confirmed = True, wants_reply = False,
     pending_data = [], pending_eof = False, pending_close = False \<rparr>"

definition demo_encrypted :: Encrypted where
  "demo_encrypted = \<lparr> enc_state = ES_Authenticated, enc_exchange = None, enc_kex = KA_None, enc_key = 0,
     enc_client_mac = [], enc_server_mac = [], enc_session_id = [], enc_channels = [2 \<mapsto> demo_channel],
     enc_last_channel_id = 1, enc_write = [], enc_write_cursor = 0, enc_last_rekey = 0,
     enc_server_compression = Compression_None, enc_client_compression = Compression_None,
     enc_decompress = Decompress_None, enc_rekey_wanted = False, enc_received_extensions = [],
     enc_extension_info_awaiters = Map.empty \<rparr>"

lemma demo_session_simps [simp]:
  "enc_channels demo_encrypted = [2 \<mapsto> demo_channel]" "enc_write demo_encrypted = []" "enc_write_cursor demo_encrypted = 0"
  "enc_last_channel_id demo_encrypted = 1"
  "pending_data demo_channel = []" "recipient_maximum_packet_size demo_channel = 3" "recipient_window_size demo_channel = 5"
  "sender_window_size demo_channel = 100" "confirmed demo_channel" "recipient_channel demo_channel = 7"
  "pending_eof demo_channel = False" "pending_close demo_channel = False"
  by (simp_all add: demo_encrypted_def demo_channel_def)

section \<open>Properties\<close>





text \<open>
  C7. Over any sequence of sending, flushing, window adjustments, end-of-file and close on a channel that
  starts with an empty queue, the messages written since are channel messages whose data, followed by the
  data still queued, is exactly the data handed over, in order. No more is sent than the initial window and
  the adjustments allow. The channel is gone only after all of it was sent, and its close message is the
  last message.
\<close>

theorem channel_stream_conserved:
  assumes "chan_run C i e0 acc granted e" "enc_channels e0 i = Some ch0" "pending_data ch0 = []"
    and "0 < recipient_maximum_packet_size ch0"
  shows "\<exists>evs. enc_write e = enc_write e0 @ frames C (map (event_payload C (recipient_channel ch0)) evs) \<and>
    length (sent_stream evs) \<le> unat (recipient_window_size ch0) + granted \<and>
    (case enc_channels e i of
       Some ch \<Rightarrow> sent_stream evs @ queued_stream (pending_data ch) = acc \<and> SentClose \<notin> set evs
     | None \<Rightarrow> sent_stream evs = acc \<and> (\<exists>before. evs = before @ [SentClose] \<and> SentClose \<notin> set before))"
proof -
  obtain evs where "chan_inv C i ch0 (enc_write e0) acc granted evs e"
    using chan_run_inv [OF assms] ..
  then show ?thesis
    by (intro exI [of _ evs]) (auto simp: chan_inv_def split: option.splits)
qed

theorem channel_stream_conserved_witness:
  "\<exists>e evs. chan_run rfc4251 2 demo_encrypted (tag None [1, 2]) 0 e \<and> enc_channels e 2 = None \<and>
     enc_write e = frames rfc4251 (map (event_payload rfc4251 7) evs) \<and> sent_stream evs = tag None [1, 2]"
proof -
  obtain e1 where e1: "send_on_channel rfc4251 None 2 [1, 2] False demo_encrypted = Inr e1"
      "enc_channels e1 2 = Some (demo_channel\<lparr> recipient_window_size := 5 - 2, pending_data := [] \<rparr>)"
    by (simp add: send_on_channel_def queue_or_send_push send_plan_def Let_def)
  have "chan_run rfc4251 2 demo_encrypted ([] @ tag None [1, 2] @ []) (0 + 0 + 0) (channel_close rfc4251 2 e1)"
    unfolding append_assoc [symmetric]
    by (rule run_step [OF run_step [OF run_refl step_send [OF _ e1(1)]] step_close]) simp
  moreover have "enc_channels (channel_close rfc4251 2 e1) 2 = None"
    using e1(2) by (simp add: channel_close_def has_pending_data_def remove_channel_def)
  ultimately show ?thesis
    using channel_stream_conserved [of rfc4251 2 demo_encrypted "tag None [1, 2]" 0 "channel_close rfc4251 2 e1" demo_channel]
    by auto
qed

text \<open>
  C27. Writing channel data directly to the packet writer and queueing it in the write buffer agree: from an
  empty write buffer, either call followed by a flush fails in the same way or gives the same session state,
  the same rekey decision and, but for a scratch buffer, the same packet writer.
\<close>

theorem data_with_writer_agrees:
  assumes "ssh_codec (cdc E)" "crypto_ok (cry E)" "enc_write e = []" "enc_write_cursor e = 0" "length buf0 + 64 < 2 ^ 32"
  shows "map_sum id forget_writer (bindR (data_with_writer E i buf0 rk e w) (\<lambda>(e, w). enc_flush E now limits e w)) =
      map_sum id forget_writer (bindR (channel_data (cdc E) i buf0 rk e) (\<lambda>e. enc_flush E now limits e w)) \<and>
    map_sum id forget_writer (bindR (extended_data_with_writer E i ext buf0 rk e w) (\<lambda>(e, w). enc_flush E now limits e w)) =
      map_sum id forget_writer (bindR (extended_data (cdc E) i ext buf0 rk e) (\<lambda>e. enc_flush E now limits e w))"
  using send_with_writer_flush [OF assms]
  by (simp add: data_with_writer_def channel_data_def extended_data_with_writer_def extended_data_def)

theorem data_with_writer_agrees_witness:
  "map_sum id forget_writer (bindR (data_with_writer demo_env 2 [1, 2, 3, 4] False demo_encrypted PacketWriter_clear)
      (\<lambda>(e, w). enc_flush demo_env 0 Limits_default e w)) =
   map_sum id forget_writer (bindR (channel_data rfc4251 2 [1, 2, 3, 4] False demo_encrypted)
      (\<lambda>e. enc_flush demo_env 0 Limits_default e PacketWriter_clear))"
  using data_with_writer_agrees [of demo_env demo_encrypted "[1, 2, 3, 4]" 2 False PacketWriter_clear 0 Limits_default 0]
  by (simp add: rfc4251_codec demo_crypto_ok)

text \<open>
  C16. The receive window is never over-committed. When data arrives only within the window, the window and
  the data not yet delivered together stay within the target, and the window is the initial window and the
  announced adjustments less the data received: both sides count alike.
\<close>

theorem recv_window_bounded:
  assumes "recv_run C i target e0 received (e, undelivered)" "enc_channels e0 i = Some ch0"
    and "sender_window_size ch0 \<le> target"
  shows "\<exists>ch grants. enc_channels e i = Some ch \<and> unat (sender_window_size ch) + undelivered \<le> unat target \<and>
    unat (sender_window_size ch) + received = unat (sender_window_size ch0) + sum_list (map unat grants) \<and>
    enc_write e = enc_write e0 @ frames C (map (grant_payload C (recipient_channel ch0)) grants)"
  using recv_run_inv [OF assms] assms(2) by (auto simp: recv_inv_def split: option.splits)

theorem recv_window_bounded_witness:
  "\<exists>ch grants. enc_channels (consume_recv_window 2 60 demo_encrypted) 2 = Some ch \<and>
     unat (sender_window_size ch) + 60 \<le> 100 \<and> unat (sender_window_size ch) + 60 = 100 + sum_list (map unat grants) \<and>
     [] = frames rfc4251 (map (grant_payload rfc4251 7) grants)"
proof -
  have "recv_run rfc4251 2 100 demo_encrypted (0 + 60) (consume_recv_window 2 60 demo_encrypted, 0 + 60)"
    by (rule recv_more [OF recv_refl recv_data]) (simp add: enc_sender_window_size_def)
  from recv_window_bounded [OF this] show ?thesis
    by (auto simp: consume_recv_window_def update_channel_def)
qed

text \<open>
  C30. Opening a channel returns as long as some channel number is free, with a number that was free, and
  enters the channel unconfirmed and without a send window; no other channel changes.
\<close>

theorem new_channel_fresh:
  assumes "dom (enc_channels e) \<noteq> UNIV"
  shows "\<exists>i e' ch. new_channel window_size maxpacket e = Some (i, e') \<and> enc_channels e i = None \<and>
    enc_channels e' = (enc_channels e)(i \<mapsto> ch) \<and> sender_channel ch = i \<and> sender_window_size ch = window_size \<and>
    \<not> confirmed ch \<and> recipient_window_size ch = 0 \<and> pending_data ch = []"
proof -
  obtain i where "next_channel_id (enc_channels e) (enc_last_channel_id e) = Some i" "enc_channels e i = None"
    using next_channel_id_returns [OF assms] by blast
  then show ?thesis
    by (auto simp: new_channel_def)
qed

theorem new_channel_fresh_witness:
  "\<exists>i e'. new_channel 9 8 demo_encrypted = Some (i, e') \<and> i \<noteq> 2 \<and> enc_channels e' 2 = Some demo_channel"
proof -
  have "3 \<notin> dom (enc_channels demo_encrypted)"
    by simp
  then have "dom (enc_channels demo_encrypted) \<noteq> UNIV"
    by blast
  from new_channel_fresh [OF this, of 9 8] show ?thesis
    by (auto split: if_splits)
qed

end
