(* ===== verification/ServerAuth.thy ===== *)
theory ServerAuth
  imports Channels
begin

text \<open>
  Authentication by the server: \<open>cert.rs\<close> and the first half of \<open>server/encrypted.rs\<close>. The application is
  the record \<open>auth_handler\<close> of the callbacks it implements, with a state of its own; public keys, signatures and
  certificates are the records \<open>hostlib\<close> and \<open>authlib\<close>. The delay before a rejection is not modelled.
\<close>

section \<open>Parameters\<close>

datatype key_error = KE_AlgorithmUnknown | KE_AlgorithmUnsupported | KE_CertificateValidation | KE_Encoding | KE_Other

record authlib =
  key_data_decode :: "bytes \<Rightarrow> key_error + PublicKey"
  certificate_decode :: "bytes \<Rightarrow> key_error + Certificate"
  algorithm_new :: "rstring \<Rightarrow> key_error + Algorithm"
  algorithm_new_certificate :: "rstring \<Rightarrow> key_error + Algorithm"
  cert_valid_after :: "Certificate \<Rightarrow> instant option"
  cert_valid_before :: "Certificate \<Rightarrow> instant option"
  cert_verify_signature :: "Certificate \<Rightarrow> bool"
  cert_public_key :: "Certificate \<Rightarrow> PublicKey"
  bytes_decode_leaves :: "bytes \<Rightarrow> bytes"

text \<open>The field \<open>bytes_decode_leaves\<close> is what the reader still holds after a byte string that failed to decode.\<close>

datatype Auth =
    A_Reject "MethodSet option" bool
  | A_Accept
  | A_UnsupportedMethod
  | A_Partial rstring rstring "(rstring \<times> bool) list"

record 'h auth_handler =
  ah_banner :: "'h \<Rightarrow> (rstring option \<times> 'h) res"
  ah_none :: "rstring \<Rightarrow> 'h \<Rightarrow> (Auth \<times> 'h) res"
  ah_password :: "rstring \<Rightarrow> rstring \<Rightarrow> 'h \<Rightarrow> (Auth \<times> 'h) res"
  ah_publickey_offered :: "rstring \<Rightarrow> PublicKey \<Rightarrow> 'h \<Rightarrow> (Auth \<times> 'h) res"
  ah_publickey :: "rstring \<Rightarrow> PublicKey \<Rightarrow> 'h \<Rightarrow> (Auth \<times> 'h) res"
  ah_certificate :: "rstring \<Rightarrow> Certificate \<Rightarrow> 'h \<Rightarrow> (Auth \<times> 'h) res"
  ah_keyboard_interactive :: "rstring \<Rightarrow> rstring \<Rightarrow> bytes option list option \<Rightarrow> 'h \<Rightarrow> (Auth \<times> 'h) res"

record 'h authenv =
  ae_codec :: codec
  ae_host :: hostlib
  ae_lib :: authlib
  ae_handler :: "'h auth_handler"

section \<open>Keys and certificates\<close>

datatype PublicKeyOrCertificate = PKC_PublicKey PublicKey "HashAlg option" | PKC_Certificate Certificate

definition algorithm_hash :: "Algorithm \<Rightarrow> HashAlg option" where
  "algorithm_hash a = (case a of Rsa hash \<Rightarrow> hash | _ \<Rightarrow> None)"

definition new_certificate_ext :: "authlib \<Rightarrow> rstring \<Rightarrow> key_error + Algorithm" where
  "new_certificate_ext L algo =
     (if algo = str ''rsa-sha2-256-cert-v01@openssh.com'' then Inr (Rsa (Some Sha256))
      else if algo = str ''rsa-sha2-512-cert-v01@openssh.com'' then Inr (Rsa (Some Sha512))
      else algorithm_new_certificate L algo)"

definition pk_or_cert_decode :: "authlib \<Rightarrow> rstring \<Rightarrow> bytes \<Rightarrow> key_error + PublicKeyOrCertificate" where
  "pk_or_cert_decode L pubkey_algo buf =
     (let public_key = bindR (key_data_decode L buf) (\<lambda>key.
            bindR (algorithm_new L pubkey_algo) (\<lambda>alg. Inr (PKC_PublicKey key (algorithm_hash alg)))) in
      case new_certificate_ext L pubkey_algo of
        Inr (OtherAlgorithm _) \<Rightarrow> public_key
      | Inl KE_Encoding \<Rightarrow> public_key
      | _ \<Rightarrow> bindR (certificate_decode L buf) (\<lambda>cert. Inr (PKC_Certificate cert)))"

definition cert_usable :: "authlib \<Rightarrow> instant \<Rightarrow> Certificate \<Rightarrow> bool" where
  "cert_usable L now cert \<longleftrightarrow>
     \<not> (case cert_valid_after L cert of Some t \<Rightarrow> now < t | None \<Rightarrow> False) \<and>
     \<not> (case cert_valid_before L cert of Some t \<Rightarrow> now > t | None \<Rightarrow> False) \<and>
     cert_verify_signature L cert"

text \<open>The key a request is checked against, \<^term>\<open>None\<close> when its certificate is not usable.\<close>

fun offered_key :: "authlib \<Rightarrow> instant \<Rightarrow> PublicKeyOrCertificate \<Rightarrow> PublicKey option" where
  "offered_key L now (PKC_PublicKey key _) = Some key"
| "offered_key L now (PKC_Certificate cert) = (if cert_usable L now cert then Some (cert_public_key L cert) else None)"

section \<open>Replies\<close>

definition server_accept_service :: "codec \<Rightarrow> rstring option \<Rightarrow> MethodSet \<Rightarrow> bytes \<Rightarrow> AuthRequest \<times> bytes" where
  "server_accept_service C banner methods buffer =
     (let buffer = push_packet C buffer (SERVICE_ACCEPT # bytes_encode C (str ''ssh-userauth''));
          buffer = (case banner of
            Some b \<Rightarrow> push_packet C buffer (USERAUTH_BANNER # bytes_encode C b @ bytes_encode C [])
          | None \<Rightarrow> buffer)
      in (AuthRequest_server methods, buffer))"

definition reject_auth_request :: "codec \<Rightarrow> bytes \<Rightarrow> AuthRequest \<Rightarrow> AuthRequest \<times> bytes" where
  "reject_auth_request C buffer a =
     (a\<lparr> ar_current := None, ar_rejection_count := ar_rejection_count a + 1 \<rparr>,
      push_packet C buffer (USERAUTH_FAILURE # name_list_encode C (method_set_to_name_list (ar_methods a)) @
        [if ar_partial_success a then 1 else 0]))"

definition server_auth_request_success :: "codec \<Rightarrow> bytes \<Rightarrow> bytes" where
  "server_auth_request_success C buffer = push_packet C buffer [USERAUTH_SUCCESS]"

definition reply_userauth_info_response ::
  "codec \<Rightarrow> AuthRequest \<Rightarrow> bytes \<Rightarrow> Auth \<Rightarrow> (bool \<times> AuthRequest \<times> bytes) res" where
  "reply_userauth_info_response C a buffer auth =
     (case auth of
        A_Accept \<Rightarrow> Inr (True, a, server_auth_request_success C buffer)
      | A_Reject proceed_with_methods partial_success \<Rightarrow>
          (let a = (case proceed_with_methods of Some ms \<Rightarrow> a\<lparr> ar_methods := ms \<rparr> | None \<Rightarrow> a)
           in Inr (False, reject_auth_request C buffer (a\<lparr> ar_partial_success := partial_success \<rparr>)))
      | A_Partial name instructions prompts \<Rightarrow>
          Inr (False, a, push_packet C buffer (USERAUTH_INFO_REQUEST # bytes_encode C name @ bytes_encode C instructions @
            bytes_encode C [] @ u32_encode C (of_nat (length prompts)) @
            concat (map (\<lambda>(p, echo). bytes_encode C p @ [if echo then 1 else 0]) prompts)))
      | A_UnsupportedMethod \<Rightarrow> Inl E_UnsupportedAuthMethod)"

text \<open>The methods to proceed with after a rejection; \<open>otherwise\<close> is what happens when the handler names none.\<close>

definition after_reject :: "Auth \<Rightarrow> (AuthRequest \<Rightarrow> AuthRequest) \<Rightarrow> AuthRequest \<Rightarrow> AuthRequest" where
  "after_reject auth otherwise a =
     (case auth of A_Reject (Some ms) partial_success \<Rightarrow> a\<lparr> ar_methods := ms, ar_partial_success := partial_success \<rparr>
      | _ \<Rightarrow> otherwise a)\<lparr> ar_partial_success := False \<rparr>"

definition remove_method :: "MethodKind \<Rightarrow> AuthRequest \<Rightarrow> AuthRequest" where
  "remove_method m a = a\<lparr> ar_methods := method_set_remove m (ar_methods a) \<rparr>"

section \<open>Authentication requests\<close>

type_synonym 'h auth_outcome = "(Encrypted \<times> rstring \<times> 'h) res"

text \<open>The two ways a request ends: the client is authenticated, or gets a failure message.\<close>

definition auth_accept :: "codec \<Rightarrow> Encrypted \<Rightarrow> Encrypted" where
  "auth_accept C e = e\<lparr> enc_state := ES_InitCompression, enc_write := server_auth_request_success C (enc_write e) \<rparr>"

definition auth_reject :: "codec \<Rightarrow> AuthRequest \<Rightarrow> Encrypted \<Rightarrow> Encrypted" where
  "auth_reject C a e =
     (case reject_auth_request C (enc_write e) a of (a, buffer) \<Rightarrow>
        e\<lparr> enc_state := ES_WaitingAuthRequest a, enc_write := buffer \<rparr>)"

definition read_auth_password ::
  "'h authenv \<Rightarrow> rstring \<Rightarrow> bytes \<Rightarrow> AuthRequest \<Rightarrow> Encrypted \<Rightarrow> 'h \<Rightarrow> 'h auth_outcome" where
  "read_auth_password A user r a e h =
     (let C = ae_codec A in
      bindR (d_u8 r) (\<lambda>(change, r).
      bindR (d_string C r) (\<lambda>(password, r).
      bindR (if change \<noteq> 0 then bindR (d_string C r) (\<lambda>(_, r). Inr r) else Inr r) (\<lambda>r.
      bindR (ensure_end r) (\<lambda>_.
      bindR (if change \<noteq> 0 then Inr (A_Reject None False, h) else ah_password (ae_handler A) user password h) (\<lambda>(auth, h).
      if auth = A_Accept then Inr (auth_accept C e, user, h)
      else Inr (auth_reject C (after_reject auth (remove_method MK_Password) a) e, [], h)))))))"

definition read_auth_none ::
  "'h authenv \<Rightarrow> rstring \<Rightarrow> bytes \<Rightarrow> rstring \<Rightarrow> AuthRequest \<Rightarrow> Encrypted \<Rightarrow> 'h \<Rightarrow> 'h auth_outcome" where
  "read_auth_none A user r auth_user a e h =
     (let C = ae_codec A in
      bindR (ensure_end r) (\<lambda>_.
      bindR (ah_none (ae_handler A) user h) (\<lambda>(auth, h).
      if auth = A_Accept then Inr (auth_accept C e, auth_user, h)
      else Inr (auth_reject C (after_reject auth (remove_method MK_None) a) e, [], h))))"

definition read_auth_keyboard_interactive ::
  "'h authenv \<Rightarrow> rstring \<Rightarrow> bytes \<Rightarrow> AuthRequest \<Rightarrow> Encrypted \<Rightarrow> 'h \<Rightarrow> 'h auth_outcome" where
  "read_auth_keyboard_interactive A user r a e h =
     (let C = ae_codec A in
      bindR (d_string C r) (\<lambda>(_, r).
      bindR (d_string C r) (\<lambda>(submethods, r).
      bindR (ensure_end r) (\<lambda>_.
      (let a = a\<lparr> ar_current := Some (CR_KeyboardInteractive submethods) \<rparr> in
      bindR (ah_keyboard_interactive (ae_handler A) user submethods None h) (\<lambda>(auth, h).
      bindR (reply_userauth_info_response C a (enc_write e) auth) (\<lambda>(accepted, a, buffer).
        Inr (e\<lparr> enc_state := (if accepted then ES_InitCompression else ES_WaitingAuthRequest a), enc_write := buffer \<rparr>,
             user, h))))))))"

definition probe_matches :: "AuthRequest \<Rightarrow> bytes \<Rightarrow> bytes \<Rightarrow> bool" where
  "probe_matches a pubkey_algo pubkey_key =
     (case ar_current a of
        Some (CR_PublicKey key algo sent_pk_ok) \<Rightarrow> sent_pk_ok \<and> algo = pubkey_algo \<and> key = pubkey_key
      | _ \<Rightarrow> False)"

text \<open>A request with a signature over the session id and the packet up to the signature.\<close>

definition read_auth_pk_signed ::
  "'h authenv \<Rightarrow> bytes \<Rightarrow> rstring \<Rightarrow> rstring \<Rightarrow> bytes \<Rightarrow> PublicKeyOrCertificate \<Rightarrow> PublicKey \<Rightarrow> bytes \<Rightarrow> rstring \<Rightarrow>
     AuthRequest \<Rightarrow> Encrypted \<Rightarrow> 'h \<Rightarrow> 'h auth_outcome" where
  "read_auth_pk_signed A original_packet user pubkey_algo pubkey_key pk_or_cert pubkey r auth_user a e h =
     (let C = ae_codec A; H = ae_host A; D = ae_handler A;
          sig_init_buffer = take (length original_packet - length r) original_packet in
      bindR (d_bytes C r) (\<lambda>(encoded_signature, r).
      bindR (ok_or E_SshKey (signature_decode H encoded_signature)) (\<lambda>(sig, signature_rest).
      bindR (ensure_end signature_rest) (\<lambda>_.
      bindR (ensure_end r) (\<lambda>_.
      bindR (if probe_matches a pubkey_algo pubkey_key \<and> user = auth_user then Inr (True, auth_user, h)
             else bindR (ah_publickey_offered D user pubkey h) (\<lambda>(auth, h). Inr (auth = A_Accept, user, h)))
        (\<lambda>(is_valid, auth_user, h).
      if \<not> is_valid then Inr (auth_reject C a e, [], h)
      else if \<not> signature_verify H pubkey (bytes_encode C (enc_session_id e) @ sig_init_buffer) sig
      then Inr (auth_reject C a e, [], h)
      else bindR (case pk_or_cert of PKC_PublicKey key _ \<Rightarrow> ah_publickey D user key h
                  | PKC_Certificate cert \<Rightarrow> ah_certificate D user cert h) (\<lambda>(auth, h).
        if auth = A_Accept then Inr (auth_accept C e, auth_user, h)
        else Inr (auth_reject C (after_reject auth (\<lambda>a. a) a) e, [], h))))))))"

definition read_auth_pk_probe ::
  "'h authenv \<Rightarrow> rstring \<Rightarrow> rstring \<Rightarrow> bytes \<Rightarrow> PublicKey \<Rightarrow> bytes \<Rightarrow> AuthRequest \<Rightarrow> Encrypted \<Rightarrow> 'h \<Rightarrow> 'h auth_outcome" where
  "read_auth_pk_probe A user pubkey_algo pubkey_key pubkey r a e h =
     (let C = ae_codec A in
      bindR (ensure_end r) (\<lambda>_.
      bindR (ah_publickey_offered (ae_handler A) user pubkey h) (\<lambda>(auth, h).
      if auth = A_Accept
      then Inr (e\<lparr> enc_state := ES_WaitingAuthRequest (a\<lparr> ar_current := Some (CR_PublicKey pubkey_key pubkey_algo True) \<rparr>),
                   enc_write := push_packet C (enc_write e)
                     (USERAUTH_PK_OK # bytes_encode C pubkey_algo @ bytes_encode C pubkey_key) \<rparr>, user, h)
      else Inr (auth_reject C (after_reject auth (\<lambda>a. a) a) e, [], h))))"

definition server_read_auth_request_pk ::
  "'h authenv \<Rightarrow> instant \<Rightarrow> bytes \<Rightarrow> rstring \<Rightarrow> bytes \<Rightarrow> rstring \<Rightarrow> AuthRequest \<Rightarrow> Encrypted \<Rightarrow> 'h \<Rightarrow> 'h auth_outcome" where
  "server_read_auth_request_pk A now original_packet user r auth_user a e h =
     (let C = ae_codec A; L = ae_lib A in
      bindR (d_u8 r) (\<lambda>(is_real, r).
      bindR (d_string C r) (\<lambda>(pubkey_algo, r).
      bindR (d_bytes C r) (\<lambda>(pubkey_key, r).
      case pk_or_cert_decode L pubkey_algo pubkey_key of
        Inr pk_or_cert \<Rightarrow>
          (case offered_key L now pk_or_cert of
             None \<Rightarrow> Inr (auth_reject C a e, auth_user, h)
           | Some pubkey \<Rightarrow>
               if is_real \<noteq> 0
               then read_auth_pk_signed A original_packet user pubkey_algo pubkey_key pk_or_cert pubkey r auth_user a e h
               else read_auth_pk_probe A user pubkey_algo pubkey_key pubkey r a e h)
      | Inl err \<Rightarrow>
          (case err of
             KE_AlgorithmUnknown \<Rightarrow> Inr (auth_reject C a e, auth_user, h)
           | KE_AlgorithmUnsupported \<Rightarrow> Inr (auth_reject C a e, auth_user, h)
           | KE_CertificateValidation \<Rightarrow> Inr (auth_reject C a e, auth_user, h)
           | _ \<Rightarrow> Inl E_SshKey)))))"

text \<open>A request is only read while one is awaited; another state is a panic.\<close>

definition server_read_auth_request ::
  "'h authenv \<Rightarrow> instant \<Rightarrow> bytes \<Rightarrow> bytes \<Rightarrow> rstring \<Rightarrow> Encrypted \<Rightarrow> 'h \<Rightarrow> 'h auth_outcome" where
  "server_read_auth_request A now original_packet r auth_user e h =
     (let C = ae_codec A in
      bindR (d_string C r) (\<lambda>(user, r).
      bindR (d_string C r) (\<lambda>(service_name, r).
      bindR (d_string C r) (\<lambda>(method, r).
      if service_name \<noteq> str ''ssh-connection'' then Inl E_Inconsistent
      else case enc_state e of
        ES_WaitingAuthRequest a \<Rightarrow>
          (case bind_or_reset_principal user service_name a of (reset, a) \<Rightarrow>
             let auth_user = (if reset then [] else auth_user) in
             if method = str ''password'' then read_auth_password A user r a e h
             else if method = str ''publickey'' then server_read_auth_request_pk A now original_packet user r auth_user a e h
             else if method = str ''none'' then read_auth_none A user r auth_user a e h
             else if method = str ''keyboard-interactive'' then read_auth_keyboard_interactive A user r a e h
             else Inr (auth_reject C a e, auth_user, h))
      | _ \<Rightarrow> Inl Panicked))))"

fun decode_responses :: "codec \<Rightarrow> authlib \<Rightarrow> nat \<Rightarrow> bytes \<Rightarrow> bytes option list \<times> bytes" where
  "decode_responses C L 0 r = ([], r)"
| "decode_responses C L (Suc n) r =
     (case bytes_decode C r of
        Some (x, r) \<Rightarrow> (case decode_responses C L n r of (xs, r) \<Rightarrow> (Some x # xs, r))
      | None \<Rightarrow> (case decode_responses C L n (bytes_decode_leaves L r) of (xs, r) \<Rightarrow> (None # xs, r)))"

definition read_userauth_info_response ::
  "'h authenv \<Rightarrow> rstring \<Rightarrow> bytes \<Rightarrow> AuthRequest \<Rightarrow> bytes \<Rightarrow> 'h \<Rightarrow> (bool \<times> AuthRequest \<times> bytes \<times> 'h) res" where
  "read_userauth_info_response A user r a buffer h =
     (let C = ae_codec A in
      case ar_current a of
        Some (CR_KeyboardInteractive submethods) \<Rightarrow>
          bindR (d_u32 C r) (\<lambda>(n, r).
          (let max_responses = (length r + 3) div 4 in
          case decode_responses C (ae_lib A) (min (unat n) max_responses) r of (responses, r) \<Rightarrow>
          bindR (ensure_end r) (\<lambda>_.
          bindR (ah_keyboard_interactive (ae_handler A) user submethods (Some responses) h) (\<lambda>(auth, h).
          bindR (reply_userauth_info_response C a buffer auth) (\<lambda>(accepted, a, buffer).
            Inr (accepted, a, buffer, h))))))
      | _ \<Rightarrow> (case reject_auth_request C buffer a of (a, buffer) \<Rightarrow> Inr (False, a, buffer, h)))"

section \<open>Who is let in\<close>

text \<open>
  The reasons to let a user in: the application accepted the user by one of its callbacks, for a key or a
  certificate only with a signature by that key over the session id and the request itself.
\<close>

definition signed_request :: "codec \<Rightarrow> bytes \<Rightarrow> rstring \<Rightarrow> u8 \<Rightarrow> rstring \<Rightarrow> bytes \<Rightarrow> bytes" where
  "signed_request C session_id user flag algo blob =
     bytes_encode C session_id @ USERAUTH_REQUEST # bytes_encode C user @ bytes_encode C (str ''ssh-connection'') @
     bytes_encode C (str ''publickey'') @ flag # bytes_encode C algo @ bytes_encode C blob"

inductive lets_in :: "'h authenv \<Rightarrow> instant \<Rightarrow> bytes \<Rightarrow> rstring \<Rightarrow> 'h \<Rightarrow> bool" for A now session_id user h' where
  by_none: "ah_none (ae_handler A) user h = Inr (A_Accept, h') \<Longrightarrow> lets_in A now session_id user h'"
| by_password: "ah_password (ae_handler A) user password h = Inr (A_Accept, h') \<Longrightarrow> lets_in A now session_id user h'"
| by_keyboard: "ah_keyboard_interactive (ae_handler A) user submethods responses h = Inr (A_Accept, h') \<Longrightarrow>
    lets_in A now session_id user h'"
| by_key: "pk_or_cert_decode (ae_lib A) algo blob = Inr (PKC_PublicKey key hash) \<Longrightarrow>
    signature_verify (ae_host A) key (signed_request (ae_codec A) session_id user flag algo blob) sig \<Longrightarrow>
    ah_publickey (ae_handler A) user key h = Inr (A_Accept, h') \<Longrightarrow> lets_in A now session_id user h'"
| by_certificate: "pk_or_cert_decode (ae_lib A) algo blob = Inr (PKC_Certificate cert) \<Longrightarrow> cert_usable (ae_lib A) now cert \<Longrightarrow>
    signature_verify (ae_host A) (cert_public_key (ae_lib A) cert)
      (signed_request (ae_codec A) session_id user flag algo blob) sig \<Longrightarrow>
    ah_certificate (ae_handler A) user cert h = Inr (A_Accept, h') \<Longrightarrow> lets_in A now session_id user h'"

named_theorems auth_defs

declare auth_accept_def [auth_defs] auth_reject_def [auth_defs] reject_auth_request_def [auth_defs]
  after_reject_def [auth_defs] remove_method_def [auth_defs] server_auth_request_success_def [auth_defs]

lemma auth_reject_state [simp]: "enc_state (auth_reject C a e) = ES_WaitingAuthRequest (fst (reject_auth_request C (enc_write e) a))"
  by (simp add: auth_defs)

lemma auth_accept_simps [simp]:
  "enc_state (auth_accept C e) = ES_InitCompression"
  "enc_write (auth_accept C e) = push_packet C (enc_write e) [USERAUTH_SUCCESS]"
  "enc_channels (auth_accept C e) = enc_channels e"
  by (simp_all add: auth_defs)

lemma password_accepted:
  assumes "read_auth_password A user r a e h = Inr (e', au, h')" "enc_state e' = ES_InitCompression"
  shows "lets_in A now sid user h' \<and> e' = auth_accept (ae_codec A) e"
  using assms unfolding read_auth_password_def Let_def
  by (auto simp: res_simps split: if_splits intro: by_password)

lemma none_accepted:
  assumes "read_auth_none A user r au0 a e h = Inr (e', au, h')" "enc_state e' = ES_InitCompression"
  shows "lets_in A now sid user h' \<and> e' = auth_accept (ae_codec A) e"
  using assms unfolding read_auth_none_def Let_def
  by (auto simp: res_simps split: if_splits intro: by_none)

lemma reply_accepted:
  assumes "reply_userauth_info_response C a buf auth = Inr (True, a', buf')"
  shows "auth = A_Accept \<and> buf' = push_packet C buf [USERAUTH_SUCCESS]"
  using assms by (auto simp: reply_userauth_info_response_def auth_defs Let_def split: Auth.splits)

lemma keyboard_accepted:
  assumes "read_auth_keyboard_interactive A user r a e h = Inr (e', au, h')" "enc_state e' = ES_InitCompression"
  shows "lets_in A now sid user h' \<and> e' = auth_accept (ae_codec A) e"
  using assms unfolding read_auth_keyboard_interactive_def Let_def
  by (auto simp: res_simps auth_accept_def server_auth_request_success_def split: if_splits dest!: reply_accepted intro: by_keyboard)

lemma pk_signed_accepted:
  assumes "read_auth_pk_signed A pkt user algo blob pkc key r au0 a e h = Inr (e', au, h')" "enc_state e' = ES_InitCompression"
  shows "\<exists>sig h1. signature_verify (ae_host A) key
      (bytes_encode (ae_codec A) (enc_session_id e) @ take (length pkt - length r) pkt) sig \<and>
    (case pkc of PKC_PublicKey k _ \<Rightarrow> ah_publickey (ae_handler A) user k h1 | PKC_Certificate c \<Rightarrow> ah_certificate (ae_handler A) user c h1) =
      Inr (A_Accept, h') \<and> e' = auth_accept (ae_codec A) e"
  using assms unfolding read_auth_pk_signed_def Let_def
  by (auto simp: res_simps split: if_splits)

lemma pk_probe_waits:
  assumes "read_auth_pk_probe A user algo blob key r a e h = Inr (e', au, h')"
  shows "enc_state e' \<noteq> ES_InitCompression"
  using assms unfolding read_auth_pk_probe_def Let_def by (auto simp: res_simps split: if_splits)

lemma pk_request_cases:
  assumes "server_read_auth_request_pk A now pkt user r au0 a e h = Inr (e', au, h')"
  obtains (signed) flag r1 algo r2 blob r3 pkc key where
      "d_u8 r = Inr (flag, r1)" "d_string (ae_codec A) r1 = Inr (algo, r2)" "d_bytes (ae_codec A) r2 = Inr (blob, r3)"
      "pk_or_cert_decode (ae_lib A) algo blob = Inr pkc" "offered_key (ae_lib A) now pkc = Some key"
      "read_auth_pk_signed A pkt user algo blob pkc key r3 au0 a e h = Inr (e', au, h')"
  | (probe) algo blob key r3 where "read_auth_pk_probe A user algo blob key r3 a e h = Inr (e', au, h')"
  | (rejected) "e' = auth_reject (ae_codec A) a e" "au = au0"
proof -
  obtain flag r1 algo r2 blob r3 where d:
    "d_u8 r = Inr (flag, r1)" "d_string (ae_codec A) r1 = Inr (algo, r2)" "d_bytes (ae_codec A) r2 = Inr (blob, r3)"
    using assms by (auto simp: server_read_auth_request_pk_def Let_def res_simps)
  note body = assms [unfolded server_read_auth_request_pk_def Let_def d bindR_simps prod.case]
  show thesis
  proof (cases "pk_or_cert_decode (ae_lib A) algo blob")
    case (Inl err)
    then show thesis
      using body rejected by (cases err) auto
  next
    case (Inr pkc)
    then show thesis
      using body d rejected signed probe by (cases "offered_key (ae_lib A) now pkc"; cases "flag = 0") auto
  qed
qed

lemma d_sound:
  assumes "ssh_codec C"
  shows "d_string C r = Inr (s, r') \<Longrightarrow> r = bytes_encode C s @ r'" "d_bytes C r = Inr (s, r') \<Longrightarrow> r = bytes_encode C s @ r'"
    "d_u8 r = Inr (b, r') \<Longrightarrow> r = b # r'"
  using ssh_codec.string_iff [OF assms] ssh_codec.bytes_iff [OF assms]
  by (auto simp: decoder_defs res_simps elim!: u8_decode.elims)

lemma pk_accepted:
  assumes "ssh_codec (ae_codec A)" "enc_state e' = ES_InitCompression"
    and "server_read_auth_request_pk A now pkt user r au0 a e h = Inr (e', au, h')"
    and "pkt = USERAUTH_REQUEST # bytes_encode (ae_codec A) user @ bytes_encode (ae_codec A) (str ''ssh-connection'') @
      bytes_encode (ae_codec A) (str ''publickey'') @ r"
  shows "lets_in A now (enc_session_id e) user h' \<and> e' = auth_accept (ae_codec A) e"
proof -
  from assms(3) obtain flag r1 algo r2 blob r3 pkc key where d:
    "d_u8 r = Inr (flag, r1)" "d_string (ae_codec A) r1 = Inr (algo, r2)" "d_bytes (ae_codec A) r2 = Inr (blob, r3)"
    "pk_or_cert_decode (ae_lib A) algo blob = Inr pkc" "offered_key (ae_lib A) now pkc = Some key"
    "read_auth_pk_signed A pkt user algo blob pkc key r3 au0 a e h = Inr (e', au, h')"
    using assms(2) by (cases rule: pk_request_cases) (auto dest: pk_probe_waits)
  have "r = flag # bytes_encode (ae_codec A) algo @ bytes_encode (ae_codec A) blob @ r3"
    using d_sound [OF assms(1)] d(1-3) by metis
  then have "bytes_encode (ae_codec A) (enc_session_id e) @ take (length pkt - length r3) pkt =
    signed_request (ae_codec A) (enc_session_id e) user flag algo blob"
    by (simp add: assms(4) signed_request_def)
  then obtain sig h1 where s: "signature_verify (ae_host A) key (signed_request (ae_codec A) (enc_session_id e) user flag algo blob) sig"
    "(case pkc of PKC_PublicKey k _ \<Rightarrow> ah_publickey (ae_handler A) user k h1 | PKC_Certificate c \<Rightarrow> ah_certificate (ae_handler A) user c h1) =
      Inr (A_Accept, h')" "e' = auth_accept (ae_codec A) e"
    using pk_signed_accepted [OF d(6) assms(2)] by auto
  show ?thesis
    using s d(4,5) by (cases pkc) (auto split: if_splits intro: by_key by_certificate)
qed

text \<open>The parts of a request, and the branch that reads the rest.\<close>

lemma request_cases:
  assumes "server_read_auth_request A now pkt r au0 e h = Inr (e', au, h')"
  obtains user r1 r2 meth r3 a reset a' au1 where
    "d_string (ae_codec A) r = Inr (user, r1)" "d_string (ae_codec A) r1 = Inr (str ''ssh-connection'', r2)"
    "d_string (ae_codec A) r2 = Inr (meth, r3)" "enc_state e = ES_WaitingAuthRequest a"
    "bind_or_reset_principal user (str ''ssh-connection'') a = (reset, a')" "au1 = (if reset then [] else au0)"
    "meth = str ''password'' \<and> read_auth_password A user r3 a' e h = Inr (e', au, h') \<or>
     meth = str ''publickey'' \<and> server_read_auth_request_pk A now pkt user r3 au1 a' e h = Inr (e', au, h') \<or>
     read_auth_none A user r3 au1 a' e h = Inr (e', au, h') \<or>
     read_auth_keyboard_interactive A user r3 a' e h = Inr (e', au, h') \<or>
     e' = auth_reject (ae_codec A) a' e \<and> au = au1"
proof -
  obtain user r1 r2 meth r3 where d:
    "d_string (ae_codec A) r = Inr (user, r1)" "d_string (ae_codec A) r1 = Inr (str ''ssh-connection'', r2)"
    "d_string (ae_codec A) r2 = Inr (meth, r3)"
    using assms by (auto simp: server_read_auth_request_def Let_def res_simps split: if_splits simp del: str_simps)
  note body = assms [unfolded server_read_auth_request_def Let_def d bindR_simps prod.case]
  obtain a where a: "enc_state e = ES_WaitingAuthRequest a"
    using body by (cases "enc_state e") (auto simp del: str_simps)
  obtain reset a' where p: "bind_or_reset_principal user (str ''ssh-connection'') a = (reset, a')"
    by (cases "bind_or_reset_principal user (str ''ssh-connection'') a")
  show thesis
    using that [OF d a p refl] body a p by (auto simp del: str_simps split: if_splits)
qed

lemma request_accepted:
  assumes "ssh_codec (ae_codec A)" "server_read_auth_request A now (USERAUTH_REQUEST # r) r au0 e h = Inr (e', au, h')"
    and "enc_state e' = ES_InitCompression"
  shows "\<exists>user rest. d_string (ae_codec A) r = Inr (user, rest) \<and> lets_in A now (enc_session_id e) user h' \<and>
    e' = auth_accept (ae_codec A) e"
  using assms(2)
proof (cases rule: request_cases)
  case (1 user r1 r2 meth r3 a reset a' au1)
  have r: "r = bytes_encode (ae_codec A) user @ bytes_encode (ae_codec A) (str ''ssh-connection'') @
    bytes_encode (ae_codec A) meth @ r3"
    using 1(1-3) [THEN d_sound(1) [OF assms(1)]] by (simp del: str_simps)
  from 1(7) have "lets_in A now (enc_session_id e) user h' \<and> e' = auth_accept (ae_codec A) e"
  proof (elim disjE conjE)
    assume "meth = str ''publickey''" "server_read_auth_request_pk A now (USERAUTH_REQUEST # r) user r3 au1 a' e h = Inr (e', au, h')"
    then show ?thesis
      using pk_accepted [OF assms(1,3), of now _ user r3 au1 a' e h au h'] r by (simp del: str_simps)
  next
    assume "read_auth_password A user r3 a' e h = Inr (e', au, h')"
    then show ?thesis by (rule password_accepted [OF _ assms(3)])
  next
    assume "read_auth_none A user r3 au1 a' e h = Inr (e', au, h')"
    then show ?thesis by (rule none_accepted [OF _ assms(3)])
  next
    assume "read_auth_keyboard_interactive A user r3 a' e h = Inr (e', au, h')"
    then show ?thesis by (rule keyboard_accepted [OF _ assms(3)])
  next
    assume "e' = auth_reject (ae_codec A) a' e"
    then show ?thesis using assms(3) by simp
  qed
  then show ?thesis
    using 1(1) by blast
qed

section \<open>The principal of a conversation\<close>

text \<open>
  A conversation that is under way, a probed key or a keyboard-interactive exchange, belongs to the user of the
  last request, and that user is the one the session works with.
\<close>

fun auth_bound :: "EncryptedState \<Rightarrow> rstring \<Rightarrow> bool" where
  "auth_bound (ES_WaitingAuthRequest a) auth_user =
     (ar_current a \<noteq> None \<longrightarrow> (\<exists>p. ar_principal a = Some p \<and> ap_user p = auth_user \<and> ap_service p = str ''ssh-connection''))"
| "auth_bound _ _ = True"

lemma rejected_bound: "auth_bound (enc_state (auth_reject C a e)) au"
  by (simp add: auth_defs)

lemma after_reject_principal [simp]: "ar_principal (after_reject auth f a) = ar_principal (case auth of A_Reject (Some ms) b \<Rightarrow> a | _ \<Rightarrow> f a)"
  by (simp add: after_reject_def split: Auth.split option.split)

lemma reply_bound:
  assumes "reply_userauth_info_response C a buf auth = Inr (acc, a', buf')" "auth_bound (ES_WaitingAuthRequest a) au"
  shows "auth_bound (ES_WaitingAuthRequest a') au"
  using assms by (auto simp: reply_userauth_info_response_def auth_defs Let_def split: Auth.splits option.splits)

lemma request_bound:
  assumes "server_read_auth_request A now pkt r au0 e h = Inr (e', au, h')" "auth_bound (enc_state e) au0"
  shows "auth_bound (enc_state e') au"
  using assms(1)
proof (cases rule: request_cases)
  case (1 user r1 r2 meth r3 a reset a' au1)
  have p: "ar_principal a' = Some \<lparr> ap_user = user, ap_service = str ''ssh-connection'' \<rparr>"
    using bind_principal [OF 1(5)] by simp
  have "auth_bound (enc_state e') au" if "read_auth_password A user r3 a' e h = Inr (e', au, h')"
    using that unfolding read_auth_password_def Let_def
    by (auto simp: res_simps rejected_bound split: if_splits simp del: auth_reject_state)
  moreover have "auth_bound (enc_state e') au" if "read_auth_none A user r3 au1 a' e h = Inr (e', au, h')"
    using that unfolding read_auth_none_def Let_def
    by (auto simp: res_simps rejected_bound split: if_splits simp del: auth_reject_state)
  moreover have "auth_bound (enc_state e') au" if "read_auth_keyboard_interactive A user r3 a' e h = Inr (e', au, h')"
    using that p reply_bound unfolding read_auth_keyboard_interactive_def Let_def
    by (fastforce simp: res_simps simp del: str_simps split: if_splits)
  moreover have "auth_bound (enc_state e') au" if "server_read_auth_request_pk A now pkt user r3 au1 a' e h = Inr (e', au, h')"
    using that
  proof (cases rule: pk_request_cases)
    case signed
    then show ?thesis
      by (auto simp: read_auth_pk_signed_def Let_def res_simps rejected_bound split: if_splits simp del: auth_reject_state)
  next
    case probe
    then show ?thesis
      using p by (auto simp: read_auth_pk_probe_def Let_def res_simps rejected_bound split: if_splits simp del: auth_reject_state str_simps)
  qed (simp add: rejected_bound del: auth_reject_state)
  ultimately show ?thesis
    using 1(7) rejected_bound by blast
qed

lemma response_cases:
  assumes "read_userauth_info_response A au r a buf h = Inr (acc, a', buf', h')"
  obtains (keyboard) sm resp auth where "ar_current a = Some (CR_KeyboardInteractive sm)"
      "ah_keyboard_interactive (ae_handler A) au sm resp h = Inr (auth, h')"
      "reply_userauth_info_response (ae_codec A) a buf auth = Inr (acc, a', buf')"
  | (rejected) "(a', buf') = reject_auth_request (ae_codec A) buf a" "\<not> acc" "h' = h"
proof (cases "\<exists>sm. ar_current a = Some (CR_KeyboardInteractive sm)")
  case True
  then obtain sm where sm: "ar_current a = Some (CR_KeyboardInteractive sm)" ..
  then show thesis
    using assms keyboard by (auto simp: read_userauth_info_response_def Let_def res_simps case_prod_beta)
next
  case False
  then show thesis
    using assms rejected
    by (cases "reject_auth_request (ae_codec A) buf a"; cases "ar_current a")
      (auto simp: read_userauth_info_response_def Let_def split: CurrentRequest.splits)
qed

lemma response_bound:
  assumes "read_userauth_info_response A au r a buf h = Inr (acc, a', buf', h')" "auth_bound (ES_WaitingAuthRequest a) au"
  shows "auth_bound (ES_WaitingAuthRequest a') au"
  using assms(1)
proof (cases rule: response_cases)
  case keyboard
  then show ?thesis
    using assms(2) reply_bound by blast
qed (simp add: auth_defs)

lemma response_accepted:
  assumes "read_userauth_info_response A au r a buf h = Inr (True, a', buf', h')"
  shows "lets_in A now sid au h' \<and> ar_current a \<noteq> None \<and> buf' = push_packet (ae_codec A) buf [USERAUTH_SUCCESS]"
  using assms by (cases rule: response_cases) (auto dest!: reply_accepted intro: by_keyboard)

text \<open>The messages of a conversation, each handled as \<open>process_packet\<close> does in the state that awaits requests.\<close>

inductive auth_step :: "'h authenv \<Rightarrow> Encrypted \<times> rstring \<times> 'h \<Rightarrow> Encrypted \<times> rstring \<times> 'h \<Rightarrow> bool" for A where
  auth_request: "server_read_auth_request A now (USERAUTH_REQUEST # r) r au e h = Inr s' \<Longrightarrow> auth_step A (e, au, h) s'"
| auth_response: "enc_state e = ES_WaitingAuthRequest a \<Longrightarrow>
    read_userauth_info_response A au r a (enc_write e) h = Inr (acc, a', buf, h') \<Longrightarrow>
    auth_step A (e, au, h) (e\<lparr> enc_state := (if acc then ES_InitCompression else ES_WaitingAuthRequest a'), enc_write := buf \<rparr>, au, h')"

lemma auth_step_bound:
  assumes "auth_step A s s'" "auth_bound (enc_state (fst s)) (fst (snd s))"
  shows "auth_bound (enc_state (fst s')) (fst (snd s'))"
  using assms(1)
proof (cases rule: auth_step.cases)
  case (auth_request now r au e h)
  then show ?thesis
    using assms(2) request_bound by (cases s') fastforce
next
  case (auth_response e a au r h acc a' buf h')
  then show ?thesis
    using assms(2) response_bound by fastforce
qed

lemma auth_run_bound:
  assumes "(auth_step A)\<^sup>*\<^sup>* s s'" "auth_bound (enc_state (fst s)) (fst (snd s))"
  shows "auth_bound (enc_state (fst s')) (fst (snd s'))"
  using assms by (induction rule: rtranclp_induct) (auto dest: auth_step_bound)

section \<open>One reply per message\<close>

definition auth_reply :: "codec \<Rightarrow> bytes \<Rightarrow> bytes \<Rightarrow> EncryptedState \<Rightarrow> bool" where
  "auth_reply C before after state \<longleftrightarrow>
     (\<exists>p. after = push_packet C before p \<and>
        (if state = ES_InitCompression then p = [USERAUTH_SUCCESS]
         else hd p \<in> {USERAUTH_FAILURE, USERAUTH_PK_OK, USERAUTH_INFO_REQUEST}))"

lemma auth_replyI:
  "hd p \<in> {USERAUTH_FAILURE, USERAUTH_PK_OK, USERAUTH_INFO_REQUEST} \<Longrightarrow>
     auth_reply C buf (push_packet C buf p) (ES_WaitingAuthRequest a)"
  "auth_reply C buf (push_packet C buf [USERAUTH_SUCCESS]) ES_InitCompression"
  unfolding auth_reply_def by auto

lemma reply_accept: "auth_reply C (enc_write e) (enc_write (auth_accept C e)) (enc_state (auth_accept C e))"
  by (simp add: auth_replyI)

lemma reply_reject: "auth_reply C (enc_write e) (enc_write (auth_reject C a e)) (enc_state (auth_reject C a e))"
  by (simp add: auth_defs auth_replyI)

lemma reply_info:
  assumes "reply_userauth_info_response C a buf auth = Inr (acc, a', buf')"
  shows "auth_reply C buf buf' (if acc then ES_InitCompression else ES_WaitingAuthRequest a')"
  using assms
  by (auto simp: reply_userauth_info_response_def auth_defs Let_def auth_replyI split: Auth.splits option.splits)

lemmas reply_rules = reply_accept reply_reject reply_info

lemma request_reply:
  assumes "server_read_auth_request A now pkt r au0 e h = Inr (e', au, h')"
  shows "auth_reply (ae_codec A) (enc_write e) (enc_write e') (enc_state e') \<and> enc_channels e' = enc_channels e"
  using assms
proof (cases rule: request_cases)
  case (1 user r1 r2 meth r3 a reset a' au1)
  let ?R = "auth_reply (ae_codec A) (enc_write e) (enc_write e') (enc_state e') \<and> enc_channels e' = enc_channels e"
  have ch: "enc_channels (auth_reject C b e) = enc_channels e" for C b
    by (simp add: auth_defs)
  have "?R" if "read_auth_password A user r3 a' e h = Inr (e', au, h')"
    using that reply_rules ch unfolding read_auth_password_def Let_def
    by (auto simp: res_simps split: if_splits simp del: auth_reject_state auth_accept_simps(1,2))
  moreover have "?R" if "read_auth_none A user r3 au1 a' e h = Inr (e', au, h')"
    using that reply_rules ch unfolding read_auth_none_def Let_def
    by (auto simp: res_simps split: if_splits simp del: auth_reject_state auth_accept_simps(1,2))
  moreover have "?R" if "read_auth_keyboard_interactive A user r3 a' e h = Inr (e', au, h')"
    using that reply_info unfolding read_auth_keyboard_interactive_def Let_def by (auto simp: res_simps)
  moreover have "?R" if "server_read_auth_request_pk A now pkt user r3 au1 a' e h = Inr (e', au, h')"
    using that
  proof (cases rule: pk_request_cases)
    case signed
    then show ?thesis
      using reply_rules ch unfolding read_auth_pk_signed_def Let_def
      by (auto simp: res_simps split: if_splits simp del: auth_reject_state auth_accept_simps(1,2))
  next
    case probe
    then show ?thesis
      using reply_rules ch unfolding read_auth_pk_probe_def Let_def
      by (auto simp: res_simps auth_replyI split: if_splits simp del: auth_reject_state)
  qed (use reply_rules ch in \<open>simp del: auth_reject_state\<close>)
  ultimately show ?thesis
    using 1(7) reply_reject [of "ae_codec A" e a'] ch by (elim disjE) (auto simp del: auth_reject_state)
qed

section \<open>A concrete conversation\<close>

text \<open>An application that asks for a response and lets in everyone who answers.\<close>

definition demo_auth_handler :: "unit auth_handler" where
  "demo_auth_handler = \<lparr> ah_banner = (\<lambda>h. Inr (None, h)), ah_none = (\<lambda>u h. Inr (A_Reject None False, h)),
     ah_password = (\<lambda>u p h. Inr (A_Accept, h)), ah_publickey_offered = (\<lambda>u k h. Inr (A_Accept, h)),
     ah_publickey = (\<lambda>u k h. Inr (A_Accept, h)), ah_certificate = (\<lambda>u c h. Inr (A_Accept, h)),
     ah_keyboard_interactive = (\<lambda>u s resp h. Inr (case resp of None \<Rightarrow> A_Partial [] [] [] | Some _ \<Rightarrow> A_Accept, h)) \<rparr>"

definition demo_authlib :: authlib where
  "demo_authlib = \<lparr> key_data_decode = Inr, certificate_decode = Inr, algorithm_new = (\<lambda>a. Inr Ed25519),
     algorithm_new_certificate = (\<lambda>a. Inl KE_Encoding), cert_valid_after = (\<lambda>c. None), cert_valid_before = (\<lambda>c. None),
     cert_verify_signature = (\<lambda>c. True), cert_public_key = (\<lambda>c. c), bytes_decode_leaves = drop 4 \<rparr>"

definition demo_authenv :: "unit authenv" where
  "demo_authenv = \<lparr> ae_codec = rfc4251, ae_host = demo_hostlib, ae_lib = demo_authlib, ae_handler = demo_auth_handler \<rparr>"

lemma demo_authenv_simps [simp]:
  "ae_codec demo_authenv = rfc4251" "ae_handler demo_authenv = demo_auth_handler"
  "ah_password demo_auth_handler u p h = Inr (A_Accept, h)"
  "ah_keyboard_interactive demo_auth_handler u sm resp h = Inr (case resp of None \<Rightarrow> A_Partial [] [] [] | Some _ \<Rightarrow> A_Accept, h)"
  by (simp_all add: demo_authenv_def demo_auth_handler_def)

definition demo_waiting :: Encrypted where
  "demo_waiting = demo_encrypted\<lparr> enc_state := ES_WaitingAuthRequest (AuthRequest_server method_set_all) \<rparr>"

definition demo_request :: "rstring \<Rightarrow> bytes \<Rightarrow> bytes" where
  "demo_request method r = bytes_encode rfc4251 (str ''bob'') @ bytes_encode rfc4251 (str ''ssh-connection'') @
     bytes_encode rfc4251 method @ r"

lemma demo_strings:
  assumes "is_ascii s" "length s \<le> max_string"
  shows "d_string rfc4251 (bytes_encode rfc4251 s @ r) = Inr (s, r)" "d_string rfc4251 (bytes_encode rfc4251 s) = Inr (s, [])"
  using rfc.string_round [of s r] rfc.string_round_Nil [of s] assms utf8_valid_ascii [of s] by (simp_all add: d_string_def del: rfc4251_simps)

lemma demo_ascii: "is_ascii (str ''bob'')" "is_ascii (str ''ssh-connection'')" "is_ascii (str ''password'')"
  "is_ascii (str ''keyboard-interactive'')" "is_ascii []"
  by (simp_all add: is_ascii_def)

lemma demo_principal: "bind_or_reset_principal u sv (AuthRequest_server ms) =
  (True, (AuthRequest_server ms)\<lparr> ar_principal := Some \<lparr> ap_user = u, ap_service = sv \<rparr> \<rparr>)"
  by (simp add: bind_or_reset_principal_def AuthRequest_server_def)

lemma demo_password:
  "server_read_auth_request demo_authenv 0 pkt (demo_request (str ''password'') (0 # bytes_encode rfc4251 [])) [] demo_waiting () =
     Inr (auth_accept rfc4251 demo_waiting, str ''bob'', ())"
  by (simp add: server_read_auth_request_def demo_request_def demo_strings demo_ascii max_string_def demo_waiting_def
      demo_principal read_auth_password_def d_u8_def ensure_end_def del: str_simps rfc4251_simps)

lemma demo_keyboard:
  "\<exists>e a. server_read_auth_request demo_authenv 0 pkt (demo_request (str ''keyboard-interactive'')
       (bytes_encode rfc4251 [] @ bytes_encode rfc4251 [])) [] demo_waiting () = Inr (e, str ''bob'', ()) \<and>
     enc_state e = ES_WaitingAuthRequest a \<and> ar_current a = Some (CR_KeyboardInteractive []) \<and>
     ar_principal a = Some \<lparr> ap_user = str ''bob'', ap_service = str ''ssh-connection'' \<rparr>"
  by (simp add: server_read_auth_request_def demo_request_def demo_strings demo_ascii max_string_def demo_waiting_def
      demo_principal read_auth_keyboard_interactive_def reply_userauth_info_response_def ensure_end_def
      del: str_simps rfc4251_simps)

section \<open>Properties\<close>

text \<open>
  C4. A request lets a user in only when the application accepted that very user: by one of its callbacks for
  the request, and for a public key or certificate only with a signature that verifies, under the key, over the
  session id and the request with its user, service, method, algorithm and key. The reply is the success
  message and no channel changes.
\<close>

theorem auth_request_accepted:
  assumes "ssh_codec (ae_codec A)" "server_read_auth_request A now (USERAUTH_REQUEST # r) r au0 e h = Inr (e', au, h')"
    and "enc_state e' = ES_InitCompression"
  shows "\<exists>user rest. d_string (ae_codec A) r = Inr (user, rest) \<and> lets_in A now (enc_session_id e) user h' \<and>
    enc_write e' = push_packet (ae_codec A) (enc_write e) [USERAUTH_SUCCESS] \<and> enc_channels e' = enc_channels e"
  using request_accepted [OF assms] by auto

theorem auth_request_accepted_witness:
  "lets_in demo_authenv 0 [] (str ''bob'') () \<and>
   enc_write (auth_accept rfc4251 demo_waiting) = push_packet rfc4251 (enc_write demo_waiting) [USERAUTH_SUCCESS]"
proof -
  have c: "ssh_codec (ae_codec demo_authenv)"
    by (simp add: rfc4251_codec)
  have sid: "enc_session_id demo_waiting = []"
    by (simp add: demo_waiting_def demo_encrypted_def)
  from auth_request_accepted [OF c demo_password] obtain user rest where
    "d_string rfc4251 (demo_request (str ''password'') (0 # bytes_encode rfc4251 [])) = Inr (user, rest)"
    "lets_in demo_authenv 0 [] user ()"
    "enc_write (auth_accept rfc4251 demo_waiting) = push_packet rfc4251 (enc_write demo_waiting) [USERAUTH_SUCCESS]"
    by (auto simp: sid simp del: rfc4251_simps)
  then show ?thesis
    by (simp add: demo_request_def demo_strings demo_ascii max_string_def del: str_simps rfc4251_simps)
qed

text \<open>
  C13. Over any conversation from a fresh state, a keyboard-interactive response that is accepted was judged by the
  application for the user of the last request: a client cannot start the exchange as one user and finish it as
  another.
\<close>

theorem auth_response_bound:
  assumes "(auth_step A)\<^sup>*\<^sup>* (e0, [], h0) (e, au, h)" "enc_state e0 = ES_WaitingAuthRequest (AuthRequest_server ms)"
    and "enc_state e = ES_WaitingAuthRequest a"
    and "read_userauth_info_response A au r a (enc_write e) h = Inr (True, a', buf, h')"
  shows "\<exists>p. ar_principal a = Some p \<and> ap_service p = str ''ssh-connection'' \<and> ap_user p = au \<and>
    lets_in A now (enc_session_id e) (ap_user p) h' \<and> buf = push_packet (ae_codec A) (enc_write e) [USERAUTH_SUCCESS]"
proof -
  have "auth_bound (enc_state e) au"
    using auth_run_bound [OF assms(1)] by (simp add: assms(2) AuthRequest_server_def)
  then show ?thesis
    using response_accepted [OF assms(4)] by (auto simp: assms(3) simp del: str_simps)
qed

theorem auth_response_bound_witness:
  "\<exists>(e :: Encrypted) a p. enc_state e = ES_WaitingAuthRequest a \<and> ar_principal a = Some p \<and> ap_user p = str ''bob'' \<and>
     lets_in demo_authenv 0 (enc_session_id e) (ap_user p) ()"
proof -
  obtain e a where e: "server_read_auth_request demo_authenv 0 (USERAUTH_REQUEST # demo_request (str ''keyboard-interactive'')
       (bytes_encode rfc4251 [] @ bytes_encode rfc4251 [])) (demo_request (str ''keyboard-interactive'')
       (bytes_encode rfc4251 [] @ bytes_encode rfc4251 [])) [] demo_waiting () = Inr (e, str ''bob'', ())"
    and a: "enc_state e = ES_WaitingAuthRequest a" "ar_current a = Some (CR_KeyboardInteractive [])"
    using demo_keyboard by blast
  have resp: "read_userauth_info_response demo_authenv (str ''bob'') (to_be_bytes 0) a (enc_write e) () =
    Inr (True, a, push_packet rfc4251 (enc_write e) [USERAUTH_SUCCESS], ())"
    using a(2) dec_be_to_be_bytes [of 0 "[]"]
    by (simp add: read_userauth_info_response_def d_u32_def ensure_end_def reply_userauth_info_response_def
        server_auth_request_success_def del: str_simps)
  have run: "(auth_step demo_authenv)\<^sup>*\<^sup>* (demo_waiting, [], ()) (e, str ''bob'', ())"
    by (rule r_into_rtranclp, rule auth_request [OF e])
  have "enc_state demo_waiting = ES_WaitingAuthRequest (AuthRequest_server method_set_all)"
    by (simp add: demo_waiting_def)
  from auth_response_bound [OF run this a(1) resp, of 0] obtain p where
    "ar_principal a = Some p" "ap_user p = str ''bob''" "lets_in demo_authenv 0 (enc_session_id e) (ap_user p) ()"
    by blast
  then show ?thesis
    using a(1) by blast
qed

text \<open>
  C24. Every request that does not end the session gets exactly one reply: the success message when the user is let
  in, and otherwise a failure message, the acceptance of a probed key or a request for information.
\<close>

theorem auth_request_one_reply:
  assumes "server_read_auth_request A now pkt r au0 e h = Inr (e', au, h')"
  shows "\<exists>p. enc_write e' = push_packet (ae_codec A) (enc_write e) p \<and>
    (if enc_state e' = ES_InitCompression then p = [USERAUTH_SUCCESS]
     else hd p \<in> {USERAUTH_FAILURE, USERAUTH_PK_OK, USERAUTH_INFO_REQUEST}) \<and> enc_channels e' = enc_channels e"
  using request_reply [OF assms] by (auto simp: auth_reply_def)

theorem auth_request_one_reply_witness:
  "\<exists>p. enc_write (auth_accept rfc4251 demo_waiting) = push_packet rfc4251 (enc_write demo_waiting) p \<and> p = [USERAUTH_SUCCESS]"
  using auth_request_one_reply [OF demo_password] by (auto simp del: rfc4251_simps)

end
