(* ===== verification/Inbound.thy ===== *)
theory Inbound
  imports ServerAuth "HOL-Library.Multiset"
begin

text \<open>
  Delivery of received messages to the application: \<open>pending_inbound.rs\<close> and the message type of
  \<open>channels/mod.rs\<close>. The bounded queue a channel's reader takes messages from belongs to the package \<open>tokio\<close>: its
  operations are the record \<open>mpsc\<close> over a type of queues, with the laws \<open>mpsc_ok\<close>. The three tables that the
  functions share are the record \<open>delivery\<close>. A future that waits for a free slot is the pair of its channel and the
  generation it was issued under.
\<close>

section \<open>Messages and queues\<close>

datatype (plugins only: code size) ChannelMsg =
    CM_Open ChannelId u32 u32
  | CM_Data bytes
  | CM_ExtendedData u32 bytes
  | CM_Eof
  | CM_Close
  | CM_RequestPty bool rstring u32 u32 u32 u32 "(Pty \<times> u32) list"
  | CM_RequestShell bool
  | CM_Exec bool bytes
  | CM_Signal Sig
  | CM_RequestSubsystem bool rstring
  | CM_RequestX11 bool bool rstring rstring u32
  | CM_SetEnv bool rstring rstring
  | CM_WindowChange u32 u32 u32 u32
  | CM_AgentForward bool
  | CM_XonXoff bool
  | CM_ExitStatus u32
  | CM_ExitSignal Sig bool rstring rstring
  | CM_WindowAdjusted u32
  | CM_Success
  | CM_Failure
  | CM_OpenFailure ChannelOpenFailure

datatype 'q try_send_result = TS_Ok 'q | TS_Full | TS_Closed

text \<open>
  \<open>mq_send\<close> is the send that waits for room, \<^term>\<open>None\<close> when the receiver is gone; \<open>mq_permit_send\<close> fills a slot
  that was reserved before.
\<close>

record 'q mpsc =
  mq_channel :: "nat \<Rightarrow> 'q"
  mq_try_send :: "ChannelMsg \<Rightarrow> 'q \<Rightarrow> 'q try_send_result"
  mq_send :: "ChannelMsg \<Rightarrow> 'q \<Rightarrow> 'q option"
  mq_permit_send :: "ChannelMsg \<Rightarrow> 'q \<Rightarrow> 'q"
  mq_is_closed :: "'q \<Rightarrow> bool"

record 'q ChannelRef =
  cr_sender :: 'q
  cr_window_size :: u32

datatype InboundItem =
    II_Data bytes
  | II_ExtendedData u32 bytes
  | II_Eof
  | II_Close

fun byte_len :: "InboundItem \<Rightarrow> nat" where
  "byte_len (II_Data data) = length data"
| "byte_len (II_ExtendedData ext data) = length data"
| "byte_len II_Eof = 0"
| "byte_len II_Close = 0"

fun to_msg :: "InboundItem \<Rightarrow> ChannelMsg" where
  "to_msg (II_Data data) = CM_Data data"
| "to_msg (II_ExtendedData ext data) = CM_ExtendedData ext data"
| "to_msg II_Eof = CM_Eof"
| "to_msg II_Close = CM_Close"

fun grants_window :: "InboundItem \<Rightarrow> bool" where
  "grants_window (II_Data _) = True"
| "grants_window (II_ExtendedData _ _) = True"
| "grants_window _ = False"

datatype DeferredCallback =
    DC_Data bytes
  | DC_ExtendedData u32 bytes
  | DC_Eof
  | DC_Close

fun capture_callback :: "InboundItem \<Rightarrow> DeferredCallback" where
  "capture_callback (II_Data d) = DC_Data d"
| "capture_callback (II_ExtendedData ext data) = DC_ExtendedData ext data"
| "capture_callback II_Eof = DC_Eof"
| "capture_callback II_Close = DC_Close"

record InboundQueue =
  iq_queue :: "InboundItem list"
  iq_pending_bytes :: nat
  iq_generation :: u64
  iq_reserving :: bool
  iq_eof_queued :: bool
  iq_close_queued :: bool

definition InboundQueue_default :: InboundQueue where
  "InboundQueue_default = \<lparr> iq_queue = [], iq_pending_bytes = 0, iq_generation = 0, iq_reserving = False,
     iq_eof_queued = False, iq_close_queued = False \<rparr>"

datatype InboundDelivery = ID_Delivered | ID_Queued | ID_Overflow | ID_ChannelGone

record 'q delivery =
  dl_channels :: "ChannelId \<rightharpoonup> 'q ChannelRef"
  dl_inbound :: "ChannelId \<rightharpoonup> InboundQueue"
  dl_needs_reserve :: "ChannelId list"

section \<open>Delivering\<close>

fun empty_payload :: "InboundItem \<Rightarrow> bool" where
  "empty_payload (II_Data data) = (data = [])"
| "empty_payload (II_ExtendedData ext data) = (data = [])"
| "empty_payload _ = False"

definition enqueue_item :: "InboundItem \<Rightarrow> InboundQueue \<Rightarrow> InboundQueue" where
  "enqueue_item item q = q\<lparr> iq_pending_bytes := iq_pending_bytes q + byte_len item,
     iq_eof_queued := (iq_eof_queued q \<or> item = II_Eof), iq_close_queued := (iq_close_queued q \<or> item = II_Close),
     iq_queue := iq_queue q @ [item], iq_reserving := True \<rparr>"

definition deliver_behind ::
  "nat \<Rightarrow> ChannelId \<Rightarrow> InboundItem \<Rightarrow> InboundQueue \<Rightarrow> 'q delivery \<Rightarrow> InboundDelivery \<times> 'q delivery" where
  "deliver_behind cap cid item q d =
     (if item = II_Eof \<and> iq_eof_queued q \<or> item = II_Close \<and> iq_close_queued q then (ID_Queued, d)
      else if cap < iq_pending_bytes q + byte_len item then (ID_Overflow, d)
      else (ID_Queued, d\<lparr> dl_inbound := (dl_inbound d)(cid \<mapsto> enqueue_item item q),
        dl_needs_reserve := dl_needs_reserve d @ (if iq_reserving q then [] else [cid]) \<rparr>))"

definition deliver_now ::
  "'q mpsc \<Rightarrow> nat \<Rightarrow> ChannelId \<Rightarrow> InboundItem \<Rightarrow> 'q delivery \<Rightarrow> InboundDelivery \<times> 'q delivery" where
  "deliver_now M cap cid item d =
     (case dl_channels d cid of
        None \<Rightarrow> (ID_ChannelGone, d)
      | Some chan \<Rightarrow>
          (case mq_try_send M (to_msg item) (cr_sender chan) of
             TS_Ok sender \<Rightarrow> (ID_Delivered, d\<lparr> dl_channels := (dl_channels d)(cid \<mapsto> chan\<lparr> cr_sender := sender \<rparr>) \<rparr>)
           | TS_Full \<Rightarrow>
               (let q = (case dl_inbound d cid of Some q \<Rightarrow> q | None \<Rightarrow> InboundQueue_default) in
                if cap < iq_pending_bytes q + byte_len item then (ID_Overflow, d)
                else (ID_Queued, d\<lparr> dl_inbound := (dl_inbound d)(cid \<mapsto> enqueue_item item q),
                  dl_needs_reserve := dl_needs_reserve d @ [cid] \<rparr>))
           | TS_Closed \<Rightarrow> (ID_ChannelGone, d)))"

definition deliver_inbound ::
  "'q mpsc \<Rightarrow> nat \<Rightarrow> ChannelId \<Rightarrow> InboundItem \<Rightarrow> 'q delivery \<Rightarrow> InboundDelivery \<times> 'q delivery" where
  "deliver_inbound M cap cid item d =
     (if empty_payload item then (ID_Delivered, d)
      else case dl_inbound d cid of
        Some q \<Rightarrow> if iq_queue q \<noteq> [] \<or> iq_reserving q then deliver_behind cap cid item q d else deliver_now M cap cid item d
      | None \<Rightarrow> deliver_now M cap cid item d)"

text \<open>The generation is raised in an entry that is then removed.\<close>

definition teardown_inbound :: "ChannelId \<Rightarrow> 'q delivery \<Rightarrow> 'q delivery" where
  "teardown_inbound cid d =
     (let inbound = (case dl_inbound d cid of
            Some q \<Rightarrow> (dl_inbound d)(cid \<mapsto> q\<lparr> iq_generation := iq_generation q + 1 \<rparr>)
          | None \<Rightarrow> dl_inbound d) in
      d\<lparr> dl_inbound := inbound(cid := None) \<rparr>)"

type_synonym reserve = "ChannelId \<times> u64"

definition reserve_one :: "ChannelId \<Rightarrow> 'q delivery \<times> reserve list \<Rightarrow> 'q delivery \<times> reserve list" where
  "reserve_one cid = (\<lambda>(d, reserves).
     case dl_inbound d cid of
       None \<Rightarrow> (d, reserves)
     | Some q \<Rightarrow>
         if iq_reserving q \<and> iq_queue q \<noteq> []
         then (case dl_channels d cid of
                 Some _ \<Rightarrow> (d, reserves @ [(cid, iq_generation q)])
               | None \<Rightarrow> (teardown_inbound cid d, reserves))
         else (d, reserves))"

definition drain_needs_reserve :: "'q delivery \<Rightarrow> reserve list \<Rightarrow> 'q delivery \<times> reserve list" where
  "drain_needs_reserve d reserves =
     fold reserve_one (dl_needs_reserve d) (d\<lparr> dl_needs_reserve := [] \<rparr>, reserves)"

end
