(* ===== verification/Supervisor.thy ===== *)
theory Supervisor
  imports Types
begin

text \<open>
  The supervision of a server connection: \<open>server/supervisor.rs\<close>. A watchdog looks for output that makes no
  progress, and a deadline belongs to each key re-exchange. The clock is an argument, in milliseconds.
\<close>

section \<open>Causes\<close>

datatype DisconnectCause = DC_WriteStalled | DC_RekeyTimeout | DC_HandshakeTimeout | DC_PeerError | DC_LocalShutdown

definition cause_from_u8 :: "u8 \<Rightarrow> DisconnectCause option" where
  "cause_from_u8 v =
     (if v = 1 then Some DC_WriteStalled
      else if v = 2 then Some DC_RekeyTimeout
      else if v = 3 then Some DC_HandshakeTimeout
      else if v = 4 then Some DC_PeerError
      else if v = 5 then Some DC_LocalShutdown
      else None)"

primrec cause_as_u8 :: "DisconnectCause \<Rightarrow> u8" where
  "cause_as_u8 DC_WriteStalled = 1"
| "cause_as_u8 DC_RekeyTimeout = 2"
| "cause_as_u8 DC_HandshakeTimeout = 3"
| "cause_as_u8 DC_PeerError = 4"
| "cause_as_u8 DC_LocalShutdown = 5"

text \<open>The slot is one byte, zero while no cause is recorded.\<close>

definition slot_record :: "DisconnectCause \<Rightarrow> u8 \<Rightarrow> u8" where
  "slot_record cause raw = (if raw = 0 then cause_as_u8 cause else raw)"

definition slot_get :: "u8 \<Rightarrow> DisconnectCause option" where
  "slot_get raw = cause_from_u8 raw"

definition slot_clear :: "u8 \<Rightarrow> u8" where
  "slot_clear raw = 0"

lemma cause_round_trip [simp]: "cause_from_u8 (cause_as_u8 c) = Some c"
  by (cases c) (simp_all add: cause_from_u8_def)

lemma slot_keeps_first_cause:
  "slot_get (fold slot_record (c # cs) (slot_clear raw)) = Some c"
proof -
  have "cause_as_u8 c \<noteq> 0"
    by (cases c) simp_all
  then have "fold slot_record cs (cause_as_u8 c) = cause_as_u8 c"
    by (induction cs) (simp_all add: slot_record_def)
  then show ?thesis
    by (simp add: slot_clear_def slot_record_def slot_get_def)
qed

section \<open>The write watchdog\<close>

record WriteProgress =
  wp_generation :: u64
  wp_last_write_ok_ms :: u64
  wp_wire_eligible_bytes :: u64
  wp_drained_bytes_epoch :: u64

record WriteWatchdog =
  wd_armed_at :: "instant option"
  wd_last_progress_at :: "instant option"
  wd_drain_window_start :: "instant option"
  wd_drained_in_window :: u64
  wd_base :: instant
  wd_snapshot :: WriteProgress
  wd_snapshot_gen :: u64

definition WriteProgress_new :: WriteProgress where
  "WriteProgress_new = \<lparr> wp_generation = 0, wp_last_write_ok_ms = 0, wp_wire_eligible_bytes = 0,
     wp_drained_bytes_epoch = 0 \<rparr>"

definition WriteWatchdog_new :: "instant \<Rightarrow> WriteWatchdog" where
  "WriteWatchdog_new now = \<lparr> wd_armed_at = None, wd_last_progress_at = None, wd_drain_window_start = None,
     wd_drained_in_window = 0, wd_base = now, wd_snapshot = WriteProgress_new, wd_snapshot_gen = 0 \<rparr>"

definition now_ms :: "instant \<Rightarrow> WriteWatchdog \<Rightarrow> u64" where
  "now_ms now self = of_nat (now - wd_base self)"

definition observe_eligible :: "instant \<Rightarrow> u64 \<Rightarrow> WriteWatchdog \<Rightarrow> WriteWatchdog" where
  "observe_eligible now wire_eligible_bytes self =
     (let self = self\<lparr> wd_snapshot := (wd_snapshot self)\<lparr> wp_wire_eligible_bytes := wire_eligible_bytes,
            wp_generation := wd_snapshot_gen self \<rparr> \<rparr> in
      if wire_eligible_bytes = 0
      then self\<lparr> wd_armed_at := None, wd_last_progress_at := None, wd_drain_window_start := None, wd_drained_in_window := 0 \<rparr>
      else if wd_armed_at self = None
      then self\<lparr> wd_armed_at := Some now, wd_last_progress_at := Some now, wd_drain_window_start := Some now,
             wd_drained_in_window := 0,
             wd_snapshot := (wd_snapshot self)\<lparr> wp_last_write_ok_ms := now_ms now self \<rparr> \<rparr>
      else self)"

definition note_write_ok :: "instant \<Rightarrow> nat \<Rightarrow> WriteWatchdog \<Rightarrow> WriteWatchdog" where
  "note_write_ok now n self =
     (if n = 0 then self
      else self\<lparr> wd_last_progress_at := Some now,
        wd_drained_in_window := saturating_add (wd_drained_in_window self) (of_nat n),
        wd_snapshot_gen := wd_snapshot_gen self + 1,
        wd_snapshot := (wd_snapshot self)\<lparr>
          wp_drained_bytes_epoch := saturating_add (wp_drained_bytes_epoch (wd_snapshot self)) (of_nat n),
          wp_last_write_ok_ms := now_ms now self, wp_generation := wd_snapshot_gen self + 1 \<rparr> \<rparr>)"

definition unwrap_or :: "'a option \<Rightarrow> 'a \<Rightarrow> 'a" where
  "unwrap_or x d = (case x of Some y \<Rightarrow> y | None \<Rightarrow> d)"

definition poll_timeout ::
  "instant \<Rightarrow> duration \<Rightarrow> (nat \<times> duration) option \<Rightarrow> WriteWatchdog \<Rightarrow> DisconnectCause option \<times> WriteWatchdog" where
  "poll_timeout now write_progress_deadline write_min_drain self =
     (case wd_armed_at self of
        None \<Rightarrow> (None, self)
      | Some armed_at \<Rightarrow>
          if write_progress_deadline \<le> now - unwrap_or (wd_last_progress_at self) armed_at
          then (Some DC_WriteStalled, self)
          else (case write_min_drain of
              None \<Rightarrow> (None, self)
            | Some (min_bytes, window) \<Rightarrow>
                if window \<le> now - unwrap_or (wd_drain_window_start self) armed_at
                then if wd_drained_in_window self < of_nat min_bytes then (Some DC_WriteStalled, self)
                  else (None, self\<lparr> wd_drain_window_start := Some now, wd_drained_in_window := 0 \<rparr>)
                else (None, self)))"

definition next_activity_deadline :: "instant \<Rightarrow> duration \<Rightarrow> WriteWatchdog \<Rightarrow> duration option" where
  "next_activity_deadline now write_progress_deadline self =
     (case wd_armed_at self of
        None \<Rightarrow> None
      | Some armed_at \<Rightarrow> Some (max (write_progress_deadline - (now - unwrap_or (wd_last_progress_at self) armed_at)) 1))"

definition next_min_drain_deadline :: "instant \<Rightarrow> (nat \<times> duration) option \<Rightarrow> WriteWatchdog \<Rightarrow> duration option" where
  "next_min_drain_deadline now write_min_drain self =
     (case write_min_drain of
        None \<Rightarrow> None
      | Some (_, window) \<Rightarrow>
          (case wd_armed_at self of
             None \<Rightarrow> None
           | Some armed_at \<Rightarrow> Some (max (window - (now - unwrap_or (wd_drain_window_start self) armed_at)) 1)))"

section \<open>The rekey deadline\<close>

record RekeyDeadline =
  rd_generation :: "u64 option"
  rd_deadline_at :: "instant option"

definition RekeyDeadline_default :: RekeyDeadline where
  "RekeyDeadline_default = \<lparr> rd_generation = None, rd_deadline_at = None \<rparr>"

definition deadline_register :: "instant \<Rightarrow> u64 \<Rightarrow> duration \<Rightarrow> RekeyDeadline \<Rightarrow> RekeyDeadline" where
  "deadline_register now generation deadline self =
     self\<lparr> rd_generation := Some generation, rd_deadline_at := Some (now + deadline) \<rparr>"

definition deadline_clear :: "RekeyDeadline \<Rightarrow> RekeyDeadline" where
  "deadline_clear self = self\<lparr> rd_generation := None, rd_deadline_at := None \<rparr>"

definition clear_if_generation :: "u64 \<Rightarrow> RekeyDeadline \<Rightarrow> RekeyDeadline" where
  "clear_if_generation generation self = (if rd_generation self = Some generation then deadline_clear self else self)"

definition deadline_poll :: "instant \<Rightarrow> u64 option \<Rightarrow> RekeyDeadline \<Rightarrow> u64 option" where
  "deadline_poll now current_active_generation self =
     (case (rd_generation self, rd_deadline_at self) of
        (Some generation, Some at) \<Rightarrow>
          if current_active_generation \<noteq> Some generation then None
          else if at \<le> now then Some generation else None
      | _ \<Rightarrow> None)"

definition deadline_remaining :: "instant \<Rightarrow> RekeyDeadline \<Rightarrow> duration option" where
  "deadline_remaining now self =
     (case rd_deadline_at self of None \<Rightarrow> None | Some at \<Rightarrow> Some (if at \<le> now then 0 else at - now))"

section \<open>What the watchdog sees\<close>

text \<open>Observed output, returned writes and earlier polls, each with its time; the settings stay the same.\<close>

datatype wd_event = WE_Eligible u64 | WE_Wrote nat | WE_Polled

definition wd_step :: "duration \<Rightarrow> (nat \<times> duration) option \<Rightarrow> instant \<times> wd_event \<Rightarrow> WriteWatchdog \<Rightarrow> WriteWatchdog" where
  "wd_step deadline drain x self =
     (case x of
        (t, WE_Eligible n) \<Rightarrow> observe_eligible t n self
      | (t, WE_Wrote n) \<Rightarrow> note_write_ok t n self
      | (t, WE_Polled) \<Rightarrow> snd (poll_timeout t deadline drain self))"

definition wd_run :: "duration \<Rightarrow> (nat \<times> duration) option \<Rightarrow> instant \<Rightarrow> (instant \<times> wd_event) list \<Rightarrow> WriteWatchdog" where
  "wd_run deadline drain t0 hist = fold (wd_step deadline drain) hist (WriteWatchdog_new t0)"

text \<open>There is output after a history when some was seen and it has not been seen gone since.\<close>

definition has_backlog :: "(instant \<times> wd_event) list \<Rightarrow> bool" where
  "has_backlog hist \<longleftrightarrow> (\<exists>pre t n post. hist = pre @ (t, WE_Eligible n) # post \<and> n \<noteq> 0 \<and> WE_Eligible 0 \<notin> snd ` set post)"

definition no_progress :: "(instant \<times> wd_event) list \<Rightarrow> bool" where
  "no_progress hist \<longleftrightarrow> WE_Eligible 0 \<notin> snd ` set hist \<and> (\<forall>n. WE_Wrote n \<in> snd ` set hist \<longrightarrow> n = 0)"

lemma wd_run_simps [simp]:
  "wd_run dl md t0 [] = WriteWatchdog_new t0" "wd_run dl md t0 (hist @ [x]) = wd_step dl md x (wd_run dl md t0 hist)"
  by (simp_all add: wd_run_def)

lemma no_progress_simps [simp]:
  "no_progress []" "no_progress (hist @ [(t, e)]) \<longleftrightarrow> no_progress hist \<and> e \<noteq> WE_Eligible 0 \<and> (\<forall>n. e = WE_Wrote n \<longrightarrow> n = 0)"
  by (auto simp: no_progress_def)

lemma has_backlog_snoc:
  "has_backlog (hist @ [(t, e)]) \<longleftrightarrow> (case e of WE_Eligible n \<Rightarrow> n \<noteq> 0 | _ \<Rightarrow> has_backlog hist) \<or>
     e \<noteq> WE_Eligible 0 \<and> has_backlog hist"
  (is "?l \<longleftrightarrow> ?r")
proof
  assume ?l
  then obtain pre t' n post where h: "hist @ [(t, e)] = pre @ (t', WE_Eligible n) # post" "n \<noteq> 0"
    "WE_Eligible 0 \<notin> snd ` set post"
    by (auto simp: has_backlog_def)
  show ?r
  proof (cases post rule: rev_cases)
    case Nil
    with h show ?thesis by simp
  next
    case (snoc ys y)
    with h have "hist = pre @ (t', WE_Eligible n) # ys" "y = (t, e)" "WE_Eligible 0 \<notin> snd ` set ys" "e \<noteq> WE_Eligible 0"
      by auto
    with h(2) have "has_backlog hist" by (auto simp: has_backlog_def)
    with \<open>e \<noteq> WE_Eligible 0\<close> show ?thesis by simp
  qed
next
  assume r: ?r
  show ?l
  proof (cases "\<exists>n. e = WE_Eligible n \<and> n \<noteq> 0")
    case True
    then obtain n where "e = WE_Eligible n" "n \<noteq> 0" by blast
    then have "hist @ [(t, e)] = hist @ (t, WE_Eligible n) # []" by simp
    with \<open>n \<noteq> 0\<close> show ?thesis unfolding has_backlog_def by fastforce
  next
    case False
    with r have "has_backlog hist" "e \<noteq> WE_Eligible 0"
      by (auto split: wd_event.splits)
    then obtain pre t' n post where "hist = pre @ (t', WE_Eligible n) # post" "n \<noteq> 0" "WE_Eligible 0 \<notin> snd ` set post"
      by (auto simp: has_backlog_def)
    with \<open>e \<noteq> WE_Eligible 0\<close> have "hist @ [(t, e)] = pre @ (t', WE_Eligible n) # (post @ [(t, e)])"
      "WE_Eligible 0 \<notin> snd ` set (post @ [(t, e)])" by auto
    with \<open>n \<noteq> 0\<close> show ?thesis unfolding has_backlog_def by blast
  qed
qed

lemma wd_step_simps [simp]:
  "wd_armed_at (wd_step dl md (t, WE_Eligible n) w) = (if n = 0 then None else if wd_armed_at w = None then Some t else wd_armed_at w)"
  "wd_armed_at (wd_step dl md (t, WE_Wrote m) w) = wd_armed_at w"
  "wd_last_progress_at (wd_step dl md (t, WE_Eligible n) w) =
     (if n = 0 then None else if wd_armed_at w = None then Some t else wd_last_progress_at w)"
  "wd_last_progress_at (wd_step dl md (t, WE_Wrote m) w) = (if m = 0 then wd_last_progress_at w else Some t)"
  "wd_armed_at (wd_step dl md (t, WE_Polled) w) = wd_armed_at w"
  "wd_last_progress_at (wd_step dl md (t, WE_Polled) w) = wd_last_progress_at w"
  by (simp_all add: wd_step_def observe_eligible_def note_write_ok_def poll_timeout_def Let_def split: option.splits prod.splits)

lemma wd_armed: "wd_armed_at (wd_run dl md t0 hist) \<noteq> None \<longleftrightarrow> has_backlog hist"
proof (induction hist rule: rev_induct)
  case Nil
  then show ?case by (simp add: WriteWatchdog_new_def has_backlog_def)
next
  case (snoc x hist)
  obtain t e where "x = (t, e)" by (cases x)
  with snoc.IH show ?case by (cases e) (auto simp: has_backlog_snoc)
qed

definition last_progress :: "(instant \<times> wd_event) list \<Rightarrow> instant \<Rightarrow> bool" where
  "last_progress hist t \<longleftrightarrow> (\<exists>pre e post. hist = pre @ (t, e) # post \<and> has_backlog (pre @ [(t, e)]) \<and> no_progress post)"

lemma last_progress_end: "has_backlog (hist @ [(t, e)]) \<Longrightarrow> last_progress (hist @ [(t, e)]) t"
  unfolding last_progress_def by (metis append_Nil2 append_Cons append_Nil no_progress_simps(1))

lemma last_progress_snoc:
  assumes "last_progress hist t" "e \<noteq> WE_Eligible 0" "\<And>n. e = WE_Wrote n \<Longrightarrow> n = 0"
  shows "last_progress (hist @ [(t', e)]) t"
proof -
  from assms(1) obtain pre e1 post where "hist = pre @ (t, e1) # post" "has_backlog (pre @ [(t, e1)])" "no_progress post"
    by (auto simp: last_progress_def)
  with assms(2,3) have "hist @ [(t', e)] = pre @ (t, e1) # (post @ [(t', e)])" "no_progress (post @ [(t', e)])" by auto
  with \<open>has_backlog (pre @ [(t, e1)])\<close> show ?thesis
    unfolding last_progress_def by blast
qed

lemma last_progress_backlog: "last_progress hist t \<Longrightarrow> has_backlog hist"
proof -
  assume "last_progress hist t"
  then obtain pre e post where "hist = (pre @ [(t, e)]) @ post" "has_backlog (pre @ [(t, e)])" "no_progress post"
    by (auto simp: last_progress_def)
  from this(3) this(2) have "has_backlog ((pre @ [(t, e)]) @ post)"
  proof (induction post rule: rev_induct)
    case (snoc y ys)
    obtain t' e' where "y = (t', e')" by (cases y)
    with snoc show ?case
      unfolding append_assoc [symmetric] by (cases e') (auto simp: has_backlog_snoc simp del: append_assoc)
  qed simp
  with \<open>hist = (pre @ [(t, e)]) @ post\<close> show ?thesis by simp
qed

lemma wd_progress:
  assumes "has_backlog hist"
  shows "\<exists>t. wd_last_progress_at (wd_run dl md t0 hist) = Some t \<and> last_progress hist t"
  using assms
proof (induction hist rule: rev_induct)
  case Nil
  then show ?case by (simp add: has_backlog_def)
next
  case (snoc x hist)
  obtain t e where x: "x = (t, e)" by (cases x)
  show ?case
  proof (cases "has_backlog hist \<and> e \<noteq> WE_Eligible 0 \<and> (\<forall>n. e = WE_Wrote n \<longrightarrow> n = 0)")
    case True
    with snoc.IH obtain l where "wd_last_progress_at (wd_run dl md t0 hist) = Some l" "last_progress hist l" by blast
    moreover have "wd_armed_at (wd_run dl md t0 hist) \<noteq> None" using True by (simp only: wd_armed)
    ultimately show ?thesis
      using True x last_progress_snoc [of hist l e t] by (cases e) auto
  next
    case False
    with snoc.prems x have "wd_last_progress_at (wd_step dl md (t, e) (wd_run dl md t0 hist)) = Some t"
      using wd_armed [of dl md t0 hist] by (cases e) (auto simp: has_backlog_snoc)
    with snoc.prems x show ?thesis by (simp add: last_progress_end)
  qed
qed

lemma wd_progress_before:
  assumes "sorted (map fst hist)" "last_progress hist t"
  shows "\<exists>l \<le> t. wd_last_progress_at (wd_run dl md t0 hist) = Some l"
proof -
  from assms(2) obtain pre e post where h: "hist = pre @ (t, e) # post" and b: "has_backlog (pre @ [(t, e)])"
    and q: "no_progress post"
    by (auto simp: last_progress_def)
  from wd_progress [OF b, of dl md t0] obtain l where l: "wd_last_progress_at (wd_run dl md t0 (pre @ [(t, e)])) = Some l"
    "last_progress (pre @ [(t, e)]) l" by blast
  then obtain e1 where "(l, e1) \<in> set (pre @ [(t, e)])"
    unfolding last_progress_def by (metis in_set_conv_decomp)
  with assms(1) h have "l \<le> t" by (auto simp: sorted_append)
  from q have "wd_last_progress_at (wd_run dl md t0 ((pre @ [(t, e)]) @ post)) = Some l \<and> has_backlog ((pre @ [(t, e)]) @ post)"
  proof (induction post rule: rev_induct)
    case Nil
    then show ?case using l(1) b by simp
  next
    case (snoc y ys)
    obtain t' e' where y: "y = (t', e')" by (cases y)
    have "wd_armed_at (wd_run dl md t0 ((pre @ [(t, e)]) @ ys)) \<noteq> None"
      using snoc y by (simp only: wd_armed) simp
    with snoc y show ?case
      unfolding append_assoc [symmetric] by (cases e') (auto simp: has_backlog_snoc simp del: append_assoc)
  qed
  with h \<open>l \<le> t\<close> show ?thesis by auto
qed

text \<open>The first condition of the watchdog: for the deadline, output was there and nothing was written.\<close>

definition stalled :: "duration \<Rightarrow> instant \<Rightarrow> (instant \<times> wd_event) list \<Rightarrow> bool" where
  "stalled deadline now hist \<longleftrightarrow> (\<exists>t. last_progress hist t \<and> deadline \<le> now - t)"

lemma stalled_backlog: "stalled dl now hist \<Longrightarrow> has_backlog hist"
  using last_progress_backlog by (auto simp: stalled_def)

lemma stalled_state:
  assumes "sorted (map fst hist)" "has_backlog hist"
  shows "\<exists>l. wd_last_progress_at (wd_run dl md t0 hist) = Some l \<and> (stalled d now hist \<longleftrightarrow> d \<le> now - l)"
proof -
  from wd_progress [OF assms(2)] obtain l where l: "wd_last_progress_at (wd_run dl md t0 hist) = Some l" "last_progress hist l" by blast
  have "d \<le> now - l" if "last_progress hist t" "d \<le> now - t" for t
    using wd_progress_before [OF assms(1) that(1), of dl md t0] that(2) l(1) by auto
  with l show ?thesis by (auto simp: stalled_def)
qed

text \<open>
  The second condition measures what was written since a window began. A window begins when output shows up, and at a poll
  that finds the last one over with enough written in it.
\<close>

inductive drain_window ::
  "duration \<Rightarrow> (nat \<times> duration) option \<Rightarrow> (instant \<times> wd_event) list \<Rightarrow> instant \<Rightarrow> nat \<Rightarrow> bool" for deadline drain where
  window_begins: "\<not> has_backlog hist \<Longrightarrow> n \<noteq> 0 \<Longrightarrow> drain_window deadline drain (hist @ [(t, WE_Eligible n)]) t 0"
| window_output: "drain_window deadline drain hist s k \<Longrightarrow> n \<noteq> 0 \<Longrightarrow> drain_window deadline drain (hist @ [(t, WE_Eligible n)]) s k"
| window_wrote: "drain_window deadline drain hist s k \<Longrightarrow> drain_window deadline drain (hist @ [(t, WE_Wrote n)]) s (k + n)"
| window_next: "drain_window deadline drain hist s k \<Longrightarrow> drain = Some (min_bytes, window) \<Longrightarrow>
    \<not> stalled deadline t hist \<Longrightarrow> window \<le> t - s \<Longrightarrow> min_bytes \<le> k \<Longrightarrow> drain_window deadline drain (hist @ [(t, WE_Polled)]) t 0"
| window_kept: "drain_window deadline drain hist s k \<Longrightarrow>
    (\<And>min_bytes window. drain = Some (min_bytes, window) \<Longrightarrow> stalled deadline t hist \<or> t - s < window \<or> k < min_bytes) \<Longrightarrow>
    drain_window deadline drain (hist @ [(t, WE_Polled)]) s k"

fun sane_event :: "wd_event \<Rightarrow> bool" where
  "sane_event (WE_Wrote n) \<longleftrightarrow> n < 2 ^ 64"
| "sane_event _ \<longleftrightarrow> True"

definition sane_writes :: "(nat \<times> duration) option \<Rightarrow> (instant \<times> wd_event) list \<Rightarrow> bool" where
  "sane_writes drain hist \<longleftrightarrow> list_all (sane_event \<circ> snd) hist \<and>
     pred_option (\<lambda>(min_bytes, window). min_bytes < 2 ^ 64) drain"

lemma sane_writes_snoc [simp]:
  "sane_writes md (hist @ [(t, e)]) \<longleftrightarrow> sane_writes md hist \<and> sane_event e"
  by (auto simp: sane_writes_def)

lemma sane_writes_min: "sane_writes (Some (min_bytes, window)) hist \<Longrightarrow> min_bytes < 2 ^ 64"
  by (simp add: sane_writes_def)

lemma saturating_add_min:
  fixes a :: u64
  assumes "n < 2 ^ 64"
  shows "unat (saturating_add a (of_nat n)) = min (unat a + n) (2 ^ 64 - 1)"
proof -
  have n: "unat (of_nat n :: u64) = n" using assms by (simp add: unat_of_nat take_bit_nat_eq_self)
  show ?thesis
  proof (cases "a \<le> - 1 - of_nat n")
    case True
    have "unat (- 1 - of_nat n :: u64) = 2 ^ 64 - 1 - n"
      using assms by (subst unat_sub) (simp_all add: n word_le_nat_alt unsigned_minus_1_eq_mask mask_eq_exp_minus_1)
    with True have "unat a + n \<le> 2 ^ 64 - 1" using assms by (simp add: word_le_nat_alt)
    with True show ?thesis by (simp add: saturating_add_def unat_add_lem [THEN iffD1] n)
  next
    case False
    have "unat (- 1 - of_nat n :: u64) = 2 ^ 64 - 1 - n"
      using assms by (subst unat_sub) (simp_all add: n word_le_nat_alt unsigned_minus_1_eq_mask mask_eq_exp_minus_1)
    with False have "2 ^ 64 - 1 < unat a + n" by (simp add: word_le_nat_alt)
    with False show ?thesis
      by (simp add: saturating_add_def unsigned_minus_1_eq_mask mask_eq_exp_minus_1)
  qed
qed

lemma window_backlog: "drain_window dl md hist s k \<Longrightarrow> has_backlog hist"
  by (induction rule: drain_window.induct) (auto simp: has_backlog_snoc)

lemma poll_window:
  assumes "wd_armed_at w \<noteq> None" "wd_last_progress_at w = Some l" "wd_drain_window_start w = Some s"
  shows "poll_timeout t dl md w =
    (if dl \<le> t - l then (Some DC_WriteStalled, w)
     else case md of
         None \<Rightarrow> (None, w)
       | Some (b, win) \<Rightarrow> if win \<le> t - s then if wd_drained_in_window w < of_nat b then (Some DC_WriteStalled, w)
             else (None, w\<lparr> wd_drain_window_start := Some t, wd_drained_in_window := 0 \<rparr>)
           else (None, w))"
  using assms by (auto simp: poll_timeout_def unwrap_or_def split: option.split)

lemma drained_less:
  fixes d :: u64
  assumes "unat d = min k (2 ^ 64 - 1)" "b < 2 ^ 64"
  shows "d < of_nat b \<longleftrightarrow> k < b"
proof -
  have "unat (of_nat b :: u64) = b" using assms(2) by (simp add: unat_of_nat take_bit_nat_eq_self)
  with assms show ?thesis by (auto simp: word_less_nat_alt)
qed

lemma window_state:
  assumes "drain_window dl md hist s k" "sorted (map fst hist)" "sane_writes md hist"
  shows "wd_drain_window_start (wd_run dl md t0 hist) = Some s \<and> unat (wd_drained_in_window (wd_run dl md t0 hist)) = min k (2 ^ 64 - 1)"
  using assms
proof (induction rule: drain_window.induct)
  case (window_begins hist n t)
  then show ?case using wd_armed [of dl md t0 hist] by (auto simp: wd_step_def observe_eligible_def Let_def)
next
  case (window_output hist s k n t)
  have "wd_armed_at (wd_run dl md t0 hist) \<noteq> None" using window_backlog [OF window_output.hyps(1)] by (simp only: wd_armed)
  with window_output show ?case
    by (auto simp: wd_step_def observe_eligible_def Let_def sorted_append)
next
  case (window_wrote hist s k t n)
  then have "n < 2 ^ 64" by simp
  with window_wrote saturating_add_min [of n "wd_drained_in_window (wd_run dl md t0 hist)"] show ?case
    by (auto simp: wd_step_def note_write_ok_def sorted_append)
next
  case (window_next hist s k b win t)
  then have h: "sorted (map fst hist)" "sane_writes md hist" by (simp_all add: sorted_append)
  let ?w = "wd_run dl md t0 hist"
  have backlog: "has_backlog hist" by (rule window_backlog [OF window_next.hyps(1)])
  then have "wd_armed_at ?w \<noteq> None" by (simp only: wd_armed)
  moreover from stalled_state [OF h(1) backlog] obtain l where "wd_last_progress_at ?w = Some l" "\<not> dl \<le> t - l"
    using window_next.hyps(3) by metis
  moreover have "wd_drain_window_start ?w = Some s" "\<not> wd_drained_in_window ?w < of_nat b"
    using window_next.IH [OF h] window_next.hyps(5) drained_less [of "wd_drained_in_window ?w" k b]
      sane_writes_min [OF h(2) [unfolded window_next.hyps(2)]] by auto
  ultimately show ?case
    using window_next.hyps(2,4) by (simp add: wd_step_def poll_window)
next
  case (window_kept hist s k t)
  then have h: "sorted (map fst hist)" "sane_writes md hist" by (simp_all add: sorted_append)
  let ?w = "wd_run dl md t0 hist"
  have backlog: "has_backlog hist" by (rule window_backlog [OF window_kept.hyps(1)])
  then have "wd_armed_at ?w \<noteq> None" by (simp only: wd_armed)
  moreover from stalled_state [OF h(1) backlog] obtain l where l: "wd_last_progress_at ?w = Some l" "stalled dl t hist \<longleftrightarrow> dl \<le> t - l"
    by blast
  moreover from window_kept.IH [OF h] have w: "wd_drain_window_start ?w = Some s"
    "unat (wd_drained_in_window ?w) = min k (2 ^ 64 - 1)" by blast+
  ultimately have p: "poll_timeout t dl md ?w = (if dl \<le> t - l then (Some DC_WriteStalled, ?w)
     else case md of
         None \<Rightarrow> (None, ?w)
       | Some (b, win) \<Rightarrow> if win \<le> t - s then if wd_drained_in_window ?w < of_nat b then (Some DC_WriteStalled, ?w)
             else (None, ?w\<lparr> wd_drain_window_start := Some t, wd_drained_in_window := 0 \<rparr>)
           else (None, ?w))"
    by (intro poll_window)
  have "snd (poll_timeout t dl md ?w) = ?w"
  proof (cases "dl \<le> t - l \<or> md = None")
    case True
    then show ?thesis by (auto simp: p)
  next
    case False
    then obtain b win where md: "md = Some (b, win)" by auto
    from drained_less [OF w(2) sane_writes_min [OF h(2) [unfolded md]]] window_kept.hyps(2) [OF md] False l(2)
    show ?thesis unfolding p by (auto simp: md)
  qed
  with w show ?case by (simp add: wd_step_def)
qed

lemma window_exists:
  assumes "has_backlog hist"
  shows "\<exists>s k. drain_window dl md hist s k"
  using assms
proof (induction hist rule: rev_induct)
  case Nil
  then show ?case by (simp add: has_backlog_def)
next
  case (snoc x hist)
  obtain t e where x: "x = (t, e)" by (cases x)
  show ?case
  proof (cases "has_backlog hist")
    case False
    with snoc.prems x obtain n where "e = WE_Eligible n" "n \<noteq> 0"
      by (cases e) (auto simp: has_backlog_snoc)
    with False x show ?thesis using window_begins by blast
  next
    case True
    with snoc.IH obtain s k where w: "drain_window dl md hist s k" by blast
    show ?thesis
    proof (cases e)
      case (WE_Eligible n)
      with snoc.prems x have "n \<noteq> 0" by (auto simp: has_backlog_snoc)
      with w x WE_Eligible show ?thesis using window_output by blast
    next
      case (WE_Wrote n)
      with w x show ?thesis using window_wrote by blast
    next
      case WE_Polled
      show ?thesis
      proof (cases "\<exists>b win. md = Some (b, win) \<and> \<not> stalled dl t hist \<and> win \<le> t - s \<and> b \<le> k")
        case True
        then obtain b win where "md = Some (b, win)" "\<not> stalled dl t hist" "win \<le> t - s" "b \<le> k" by blast
        with w x WE_Polled window_next [of dl md hist s k b win t] show ?thesis by blast
      next
        case False
        then have "stalled dl t hist \<or> t - s < win \<or> k < b" if "md = Some (b, win)" for b win
          using that by auto
        from window_kept [OF w this] x WE_Polled show ?thesis by blast
      qed
    qed
  qed
qed

section \<open>Properties\<close>

text \<open>
  C31. The watchdog reports a stalled connection exactly in two cases. The first: there has been output to write for the
  whole deadline and none of it was written, that is, some event at least the deadline ago left output behind, and since
  then no write succeeded and the output was never seen gone. The second, only where a minimum drain is configured: the
  current window is over and fewer bytes than the minimum were written in it, even if each write succeeded in time; a window
  begins when output shows up and at each poll that finds the previous window over with enough written. The history may
  be any sequence of observations, writes and polls in the order of time, whose counts are below two to the power 64.
\<close>

theorem watchdog_stall_exact:
  assumes "sorted (map fst hist)" "sane_writes drain hist"
  shows "fst (poll_timeout now deadline drain (wd_run deadline drain t0 hist)) = Some DC_WriteStalled \<longleftrightarrow>
    (\<exists>t. last_progress hist t \<and> deadline \<le> now - t) \<or>
    (\<exists>min_bytes window s k. drain = Some (min_bytes, window) \<and> drain_window deadline drain hist s k \<and> window \<le> now - s \<and> k < min_bytes)"
proof (cases "has_backlog hist")
  case True
  let ?w = "wd_run deadline drain t0 hist"
  from True have a: "wd_armed_at ?w \<noteq> None" by (simp only: wd_armed)
  from stalled_state [OF assms(1) True] obtain l where l: "wd_last_progress_at ?w = Some l"
    "(\<exists>t. last_progress hist t \<and> deadline \<le> now - t) \<longleftrightarrow> deadline \<le> now - l" unfolding stalled_def by blast
  from window_exists [OF True] obtain s k where w: "drain_window deadline drain hist s k" by blast
  note st = window_state [OF w assms, of t0]
  have less: "wd_drained_in_window ?w < of_nat b \<longleftrightarrow> k < b" if "drain_window deadline drain hist s k" "drain = Some (b, win)" for s k b win
    using drained_less [OF conjunct2 [OF window_state [OF that(1) assms, of t0]] sane_writes_min [OF assms(2) [unfolded that(2)]]] .
  have start: "s' = s" if "drain_window deadline drain hist s' k'" for s' k'
    using st window_state [OF that assms, of t0] by simp
  show ?thesis
  proof (cases drain)
    case None
    then show ?thesis unfolding poll_window [OF a l(1) conjunct1 [OF st]] l(2) by simp
  next
    case (Some x)
    then obtain b win where d: "drain = Some (b, win)" by (cases x) simp
    have "(\<exists>min_bytes window s k. drain = Some (min_bytes, window) \<and> drain_window deadline drain hist s k \<and>
        window \<le> now - s \<and> k < min_bytes) \<longleftrightarrow> win \<le> now - s \<and> k < b" (is "?e \<longleftrightarrow> _")
    proof
      assume ?e
      then obtain s' k' where e: "drain_window deadline drain hist s' k'" "win \<le> now - s'" "k' < b" by (auto simp: d)
      with start [OF e(1)] less [OF e(1) d] less [OF w d] show "win \<le> now - s \<and> k < b" by simp
    next
      assume "win \<le> now - s \<and> k < b"
      with w d show ?e by blast
    qed
    with less [OF w d] show ?thesis
      unfolding poll_window [OF a l(1) conjunct1 [OF st]] l(2) by (simp add: d)
  qed
next
  case False
  then have "\<not> last_progress hist t" "\<not> drain_window deadline drain hist s k" for t s k
    using last_progress_backlog window_backlog by blast+
  with False show ?thesis
    using wd_armed [of deadline drain t0 hist] by (simp add: poll_timeout_def)
qed

theorem watchdog_stall_exact_witness:
  "fst (poll_timeout 40 30 (Some (5, 20)) (wd_run 30 (Some (5, 20)) 0 [(5, WE_Eligible 8), (8, WE_Wrote 2), (9, WE_Polled), (29, WE_Wrote 2)])) =
     Some DC_WriteStalled \<and>
   ((\<exists>t. last_progress [(5, WE_Eligible 8), (8, WE_Wrote 2), (9, WE_Polled), (29, WE_Wrote 2)] t \<and> 30 \<le> 40 - t) \<or>
    (\<exists>s k. drain_window 30 (Some (5, 20)) [(5, WE_Eligible 8), (8, WE_Wrote 2), (9, WE_Polled), (29, WE_Wrote 2)] s k \<and>
       20 \<le> 40 - s \<and> k < 5))"
proof -
  let ?h = "[(5, WE_Eligible 8), (8, WE_Wrote 2), (9, WE_Polled), (29, WE_Wrote 2)]"
  have "fst (poll_timeout 40 30 (Some (5, 20)) (wd_run 30 (Some (5, 20)) 0 ?h)) = Some DC_WriteStalled"
    by (simp add: wd_run_def wd_step_def WriteWatchdog_new_def observe_eligible_def note_write_ok_def poll_timeout_def
        unwrap_or_def saturating_add_def Let_def)
  with watchdog_stall_exact [of ?h "Some (5, 20)" 40 30 0] show ?thesis by (simp add: sane_writes_def)
qed

end
