(* ===== verification/ServerSession.thy ===== *)
theory ServerSession
  imports Inbound Supervisor
begin

text \<open>
  The server session: \<open>server/session.rs\<close> with the configuration and the callbacks of \<open>server/mod.rs\<close>. The session is a
  record of its fields; the three tables of message delivery are the field \<open>ss_delivery\<close>. The application is the
  function \<open>sv_call\<close>: it is told which callback is invoked, and may change the session it is lent. A one-shot
  channel is a number, and what is sent through one is added to the log \<open>ss_signals\<close>. What a moment supplies, the
  clock and random bytes, is the record \<open>moment\<close>.
\<close>

section \<open>State\<close>

record Config =
  cf_server_id :: SshId
  cf_methods :: MethodSet
  cf_kex :: kex_config
  cf_limits :: Limits
  cf_window_size :: u32
  cf_maximum_packet_size :: u32
  cf_channel_buffer_size :: nat
  cf_max_pending_inbound_bytes :: nat
  cf_max_pending_outbound_bytes :: nat
  cf_max_auth_attempts :: nat
  cf_keepalive_max :: nat
  cf_write_progress_deadline :: duration
  cf_write_min_drain :: "(nat \<times> duration) option"
  cf_rekey_deadline :: duration

datatype GlobalRequestResponse =
    GR_Keepalive
  | GR_Ping nat
  | GR_NoMoreSessions
  | GR_TcpIpForward nat
  | GR_CancelTcpIpForward nat
  | GR_StreamLocalForward nat
  | GR_CancelStreamLocalForward nat

datatype app_signal = SG_Done nat | SG_Port nat "u32 option" | SG_Flag nat bool

record 'q PendingChannelOpen =
  po_recipient_channel :: u32
  po_sender_channel :: ChannelId
  po_window_size :: u32
  po_packet_size :: u32
  po_channel_ref :: "'q ChannelRef"
  po_channel_params :: ChannelParams

type_synonym open_result = "ChannelOpenFailure option"

record 'q ServerSession =
  ss_common :: CommonSession
  ss_target_window_size :: u32
  ss_pending_reads :: "bytes list"
  ss_pending_len :: u32
  ss_delivery :: "'q delivery"
  ss_outbound_acks :: "ChannelId \<rightharpoonup> nat list"
  ss_open_global_requests :: "GlobalRequestResponse list"
  ss_kex :: "ServerKex SessionKexState"
  ss_open_replies :: "('q PendingChannelOpen \<times> open_result) list"
  ss_rekey_gen :: u64
  ss_rekey_deadline :: RekeyDeadline
  ss_signals :: "app_signal list"

datatype (plugins only: code size) 'q callback =
    CB_auth_succeeded
  | CB_channel_close ChannelId
  | CB_channel_eof ChannelId
  | CB_channel_open ChannelType "'q PendingChannelOpen"
  | CB_channel_open_confirmation ChannelId u32 u32
  | CB_data ChannelId bytes
  | CB_extended_data ChannelId u32 bytes
  | CB_window_adjusted ChannelId u32
  | CB_pty_request ChannelId rstring u32 u32 u32 u32 "(Pty \<times> u32) list"
  | CB_x11_request ChannelId bool rstring rstring u32
  | CB_env_request ChannelId rstring rstring
  | CB_shell_request ChannelId
  | CB_exec_request ChannelId bytes
  | CB_subsystem_request ChannelId rstring
  | CB_window_change_request ChannelId u32 u32 u32 u32
  | CB_agent_request ChannelId
  | CB_signal ChannelId Sig
  | CB_tcpip_forward rstring u32
  | CB_cancel_tcpip_forward rstring u32
  | CB_streamlocal_forward rstring
  | CB_cancel_streamlocal_forward rstring

text \<open>A callback answers with a flag and a port; most callbacks have neither and the answer is ignored.\<close>

record ('q, 'h) serverenv =
  sv_env :: env
  sv_kex :: kexenv
  sv_auth :: "'h authenv"
  sv_mpsc :: "'q mpsc"
  sv_config :: Config
  sv_call :: "'q callback \<Rightarrow> 'h \<times> 'q ServerSession \<Rightarrow> ((bool \<times> u32) \<times> 'h \<times> 'q ServerSession) res"
  sv_adjust_window :: "ChannelId \<Rightarrow> u32 \<Rightarrow> 'h \<Rightarrow> u32 \<times> 'h"
  sv_lookup_dh_gex_group :: "'h \<Rightarrow> GexParams \<Rightarrow> DhGroup option res"

record moment =
  mo_now :: instant
  mo_cookie :: bytes
  mo_random :: randomness

definition invoke :: "('q, 'h) serverenv \<Rightarrow> 'q callback \<Rightarrow> 'h \<times> 'q ServerSession \<Rightarrow> ('h \<times> 'q ServerSession) res" where
  "invoke V cb hs = bindR (sv_call V cb hs) (\<lambda>(_, hs). Inr hs)"

abbreviation sv_codec :: "('q, 'h) serverenv \<Rightarrow> codec" where
  "sv_codec V \<equiv> cdc (sv_env V)"

abbreviation ss_enc :: "'q ServerSession \<Rightarrow> Encrypted option" where
  "ss_enc s \<equiv> cs_encrypted (ss_common s)"

abbreviation ss_writer :: "'q ServerSession \<Rightarrow> PacketWriter" where
  "ss_writer s \<equiv> cs_packet_writer (ss_common s)"

definition set_enc :: "Encrypted \<Rightarrow> 'q ServerSession \<Rightarrow> 'q ServerSession" where
  "set_enc e s = s\<lparr> ss_common := (ss_common s)\<lparr> cs_encrypted := Some e \<rparr> \<rparr>"

definition set_enc_writer :: "Encrypted \<Rightarrow> PacketWriter \<Rightarrow> 'q ServerSession \<Rightarrow> 'q ServerSession" where
  "set_enc_writer e w s = s\<lparr> ss_common := (ss_common s)\<lparr> cs_encrypted := Some e, cs_packet_writer := w \<rparr> \<rparr>"

definition on_enc :: "(Encrypted \<Rightarrow> Encrypted) \<Rightarrow> 'q ServerSession \<Rightarrow> 'q ServerSession" where
  "on_enc f s = (case ss_enc s of Some e \<Rightarrow> set_enc (f e) s | None \<Rightarrow> s)"

definition enc_push :: "codec \<Rightarrow> bytes \<Rightarrow> Encrypted \<Rightarrow> Encrypted" where
  "enc_push C p e = e\<lparr> enc_write := push_packet C (enc_write e) p \<rparr>"

definition signal :: "app_signal \<Rightarrow> 'q ServerSession \<Rightarrow> 'q ServerSession" where
  "signal x s = s\<lparr> ss_signals := ss_signals s @ [x] \<rparr>"

section \<open>Delivery and teardown\<close>

definition srv_deliver_inbound ::
  "('q, 'h) serverenv \<Rightarrow> ChannelId \<Rightarrow> InboundItem \<Rightarrow> 'q ServerSession \<Rightarrow> InboundDelivery \<times> 'q ServerSession" where
  "srv_deliver_inbound V cid item s =
     (case deliver_inbound (sv_mpsc V) (cf_max_pending_inbound_bytes (sv_config V)) cid item (ss_delivery s) of (r, d) \<Rightarrow>
        (r, s\<lparr> ss_delivery := d \<rparr>))"

definition srv_drain_needs_reserve :: "reserve list \<Rightarrow> 'q ServerSession \<Rightarrow> 'q ServerSession \<times> reserve list" where
  "srv_drain_needs_reserve reserves s =
     (case drain_needs_reserve (ss_delivery s) reserves of (d, reserves) \<Rightarrow> (s\<lparr> ss_delivery := d \<rparr>, reserves))"

definition remove_app_channel :: "ChannelId \<Rightarrow> 'q ServerSession \<Rightarrow> 'q ServerSession" where
  "remove_app_channel cid s =
     s\<lparr> ss_delivery := (ss_delivery s)\<lparr> dl_channels := (dl_channels (ss_delivery s))(cid := None) \<rparr> \<rparr>"

definition teardown_inbound_channel :: "ChannelId \<Rightarrow> 'q ServerSession \<Rightarrow> 'q ServerSession" where
  "teardown_inbound_channel cid s = s\<lparr> ss_delivery := teardown_inbound cid (ss_delivery s) \<rparr>"

definition finalize_close :: "ChannelId \<Rightarrow> 'q ServerSession \<Rightarrow> 'q ServerSession" where
  "finalize_close cid s =
     (let s = remove_app_channel cid (teardown_inbound_channel cid s);
          s = s\<lparr> ss_outbound_acks := (ss_outbound_acks s)(cid := None) \<rparr>
      in on_enc (remove_channel cid) s)"

definition discard_channel_outbound :: "('q, 'h) serverenv \<Rightarrow> ChannelId \<Rightarrow> 'q ServerSession \<Rightarrow> 'q ServerSession" where
  "discard_channel_outbound V cid s =
     (let s = on_enc (close_discarding_pending (sv_codec V) cid) s
      in s\<lparr> ss_outbound_acks := (ss_outbound_acks s)(cid := None) \<rparr>)"

definition enforce_outbound_cap :: "('q, 'h) serverenv \<Rightarrow> ChannelId \<Rightarrow> 'q ServerSession \<Rightarrow> 'q ServerSession" where
  "enforce_outbound_cap V cid s =
     (case ss_enc s of
        None \<Rightarrow> s
      | Some enc \<Rightarrow>
          if pending_data_bytes enc cid \<le> cf_max_pending_outbound_bytes (sv_config V) then s
          else finalize_close cid (discard_channel_outbound V cid s))"

definition maybe_grant_after_delivery ::
  "('q, 'h) serverenv \<Rightarrow> ChannelId \<Rightarrow> 'h \<times> 'q ServerSession \<Rightarrow> 'h \<times> 'q ServerSession" where
  "maybe_grant_after_delivery V cid = (\<lambda>(h, s).
     let undelivered = (case dl_inbound (ss_delivery s) cid of Some q \<Rightarrow> iq_pending_bytes q | None \<Rightarrow> 0);
         undelivered = (if undelivered < 2 ^ 32 then of_nat undelivered else - 1) in
     case ss_enc s of
       None \<Rightarrow> (h, s)
     | Some enc \<Rightarrow>
         (case maybe_grant_recv_window (sv_codec V) cid (ss_target_window_size s) undelivered enc of (granted, enc) \<Rightarrow>
            let s = set_enc enc s in
            if granted
            then (case sv_adjust_window V cid (ss_target_window_size s) h of (w, h) \<Rightarrow>
              (h, if w > 0 then s\<lparr> ss_target_window_size := w \<rparr> else s))
            else (h, s)))"

text \<open>The channels are examined in the order \<open>ids\<close>, which a hash map leaves open.\<close>

fun release_acks :: "ChannelId list \<Rightarrow> Encrypted \<Rightarrow> 'q ServerSession \<Rightarrow> 'q ServerSession" where
  "release_acks [] enc s = s"
| "release_acks (cid # ids) enc s =
     release_acks ids enc
       (if has_pending_data enc cid then s
        else (case ss_outbound_acks s cid of
            Some acks \<Rightarrow> fold signal (map SG_Done acks) (s\<lparr> ss_outbound_acks := (ss_outbound_acks s)(cid := None) \<rparr>)
          | None \<Rightarrow> s))"

definition release_outbound_acks :: "ChannelId list \<Rightarrow> 'q ServerSession \<Rightarrow> 'q ServerSession" where
  "release_outbound_acks ids s = (case ss_enc s of None \<Rightarrow> s | Some enc \<Rightarrow> release_acks ids enc s)"

definition update_queue :: "ChannelId \<Rightarrow> (InboundQueue \<Rightarrow> InboundQueue) \<Rightarrow> 'q ServerSession \<Rightarrow> 'q ServerSession" where
  "update_queue cid f s =
     s\<lparr> ss_delivery := (ss_delivery s)\<lparr> dl_inbound :=
        (dl_inbound (ss_delivery s))(cid := map_option f (dl_inbound (ss_delivery s) cid)) \<rparr> \<rparr>"

text \<open>
  A reserved slot belongs to the queue it was reserved on, which is the one registered under the number as long as the
  number is not given to another channel.
\<close>

definition permit_send :: "('q, 'h) serverenv \<Rightarrow> ChannelId \<Rightarrow> ChannelMsg \<Rightarrow> 'q ServerSession \<Rightarrow> 'q ServerSession" where
  "permit_send V cid m s =
     s\<lparr> ss_delivery := (ss_delivery s)\<lparr> dl_channels := (dl_channels (ss_delivery s))(cid :=
        map_option (\<lambda>c. c\<lparr> cr_sender := mq_permit_send (sv_mpsc V) m (cr_sender c) \<rparr>) (dl_channels (ss_delivery s) cid)) \<rparr> \<rparr>"

fun deferred_callback :: "ChannelId \<Rightarrow> DeferredCallback \<Rightarrow> 'q callback" where
  "deferred_callback cid (DC_Data data) = CB_data cid data"
| "deferred_callback cid (DC_ExtendedData ext data) = CB_extended_data cid ext data"
| "deferred_callback cid DC_Eof = CB_channel_eof cid"
| "deferred_callback cid DC_Close = CB_channel_close cid"

definition pump_rearm :: "ChannelId \<Rightarrow> 'q ServerSession \<Rightarrow> 'q ServerSession" where
  "pump_rearm cid s =
     (let d = ss_delivery s in
      if (case dl_inbound d cid of Some q \<Rightarrow> iq_queue q \<noteq> [] | None \<Rightarrow> False)
      then (let d = ss_delivery (update_queue cid (\<lambda>q. q\<lparr> iq_reserving := True \<rparr>) s) in
            s\<lparr> ss_delivery := d\<lparr> dl_needs_reserve := dl_needs_reserve d @ [cid] \<rparr> \<rparr>)
      else s\<lparr> ss_delivery := d\<lparr> dl_inbound := (dl_inbound d)(cid := None) \<rparr> \<rparr>)"

text \<open>The head item goes to the slot, then the window is granted and the callback runs.\<close>

definition pump_item ::
  "('q, 'h) serverenv \<Rightarrow> ChannelId \<Rightarrow> InboundItem \<Rightarrow> 'h \<times> 'q ServerSession \<Rightarrow> ('h \<times> 'q ServerSession) res" where
  "pump_item V cid item = (\<lambda>(h, s).
     let s = update_queue cid (\<lambda>q. q\<lparr> iq_queue := tl (iq_queue q), iq_pending_bytes := iq_pending_bytes q - byte_len item \<rparr>) s;
         s = permit_send V cid (to_msg item) s;
         (h, s) = (if grants_window item then maybe_grant_after_delivery V cid (h, s) else (h, s)) in
     bindR (invoke V (deferred_callback cid (capture_callback item)) (h, s)) (\<lambda>(h, s).
       Inr (h, if item = II_Close then finalize_close cid s else pump_rearm cid s)))"

text \<open>The reserved slot, \<^term>\<open>False\<close> when the application has dropped its receiver.\<close>

definition pump_inbound ::
  "('q, 'h) serverenv \<Rightarrow> ChannelId \<Rightarrow> u64 \<Rightarrow> bool \<Rightarrow> 'h \<times> 'q ServerSession \<Rightarrow> ('h \<times> 'q ServerSession) res" where
  "pump_inbound V cid generation permit = (\<lambda>(h, s).
     case dl_inbound (ss_delivery s) cid of
       None \<Rightarrow> Inr (h, s)
     | Some q \<Rightarrow>
         if generation \<noteq> iq_generation q then Inr (h, s)
         else (let s = update_queue cid (\<lambda>q. q\<lparr> iq_reserving := False \<rparr>) s in
           if \<not> permit
           then (if iq_close_queued q
                 then bindR (invoke V (CB_channel_close cid) (h, s)) (\<lambda>(h, s). Inr (h, finalize_close cid s))
                 else Inr (h, teardown_inbound_channel cid s))
           else (case iq_queue q of
               [] \<Rightarrow> Inr (h, s)
             | item # _ \<Rightarrow> pump_item V cid item (h, s))))"

section \<open>Operations\<close>

text \<open>A key re-exchange: a new \<open>ServerKex\<close> whose KEXINIT is staged at once, with a deadline unless it is the first.\<close>

definition begin_rekey :: "('q, 'h) serverenv \<Rightarrow> moment \<Rightarrow> 'q ServerSession \<Rightarrow> 'q ServerSession res" where
  "begin_rekey V t s =
     (let cs = ss_common s;
          kex = ServerKex_new (cf_kex (sv_config V)) (cs_remote_sshid cs) (cf_server_id (sv_config V))
            (case cs_encrypted cs of None \<Rightarrow> KC_Initial | Some enc \<Rightarrow> KC_Rekey (cs_strict_kex cs) (enc_session_id enc)) in
      bindR (server_kexinit (sv_env V) (ke_names (sv_kex V)) (mo_cookie t) kex (cs_packet_writer cs)) (\<lambda>(kex, w).
        let s = s\<lparr> ss_common := cs\<lparr> cs_packet_writer := w \<rparr>, ss_kex := Kex_InProgress kex \<rparr> in
        Inr (if cs_encrypted cs = None then s
             else s\<lparr> ss_rekey_gen := ss_rekey_gen s + 1,
               ss_rekey_deadline := deadline_register (mo_now t) (ss_rekey_gen s + 1)
                 (cf_rekey_deadline (sv_config V)) (ss_rekey_deadline s) \<rparr>)))"

definition clear_rekey_deadline :: "'q ServerSession \<Rightarrow> 'q ServerSession" where
  "clear_rekey_deadline s =
     s\<lparr> ss_rekey_deadline := (case rd_generation (ss_rekey_deadline s) of
          Some kex_gen \<Rightarrow> clear_if_generation kex_gen (ss_rekey_deadline s)
        | None \<Rightarrow> deadline_clear (ss_rekey_deadline s)) \<rparr>"

definition active_rekey_gen :: "'q ServerSession \<Rightarrow> u64 option" where
  "active_rekey_gen s =
     (if kex_active (ss_kex s)
      then (case rd_generation (ss_rekey_deadline s) of Some g \<Rightarrow> Some g | None \<Rightarrow> Some (ss_rekey_gen s))
      else None)"

definition srv_flush :: "('q, 'h) serverenv \<Rightarrow> moment \<Rightarrow> 'q ServerSession \<Rightarrow> 'q ServerSession res" where
  "srv_flush V t s =
     (case ss_enc s of
        None \<Rightarrow> Inr s
      | Some enc \<Rightarrow>
          bindR (enc_flush (sv_env V) (mo_now t) (cf_limits (sv_config V)) enc (ss_writer s)) (\<lambda>(due, enc, w).
            if due \<and> ss_kex s = Kex_Idle \<and> enc_exchange enc \<noteq> None
            then begin_rekey V t (set_enc_writer (enc\<lparr> enc_exchange := None \<rparr>) w s)
            else Inr (set_enc_writer enc w s)))"

definition srv_flush_pending :: "('q, 'h) serverenv \<Rightarrow> ChannelId \<Rightarrow> 'q ServerSession \<Rightarrow> (nat \<times> 'q ServerSession) res" where
  "srv_flush_pending V channel s =
     (case ss_enc s of
        None \<Rightarrow> Inr (0, s)
      | Some enc \<Rightarrow> bindR (flush_pending (sv_codec V) channel enc) (\<lambda>(n, enc). Inr (n, set_enc enc s)))"

definition srv_sender_window_size :: "'q ServerSession \<Rightarrow> ChannelId \<Rightarrow> nat" where
  "srv_sender_window_size s channel = (case ss_enc s of None \<Rightarrow> 0 | Some enc \<Rightarrow> enc_sender_window_size enc channel)"

definition srv_has_pending_data :: "'q ServerSession \<Rightarrow> ChannelId \<Rightarrow> bool" where
  "srv_has_pending_data s channel = (case ss_enc s of None \<Rightarrow> False | Some enc \<Rightarrow> has_pending_data enc channel)"

definition channel_field :: "(ChannelParams \<Rightarrow> u32) \<Rightarrow> 'q ServerSession \<Rightarrow> ChannelId \<Rightarrow> u32" where
  "channel_field f s channel =
     (case ss_enc s of
        None \<Rightarrow> 0
      | Some enc \<Rightarrow> (case enc_channels enc channel of Some ch \<Rightarrow> f ch | None \<Rightarrow> 0))"

definition srv_writable_packet_size :: "'q ServerSession \<Rightarrow> ChannelId \<Rightarrow> u32" where
  "srv_writable_packet_size = channel_field (\<lambda>ch. min (sender_window_size ch) (sender_maximum_packet_size ch))"

definition srv_window_size :: "'q ServerSession \<Rightarrow> ChannelId \<Rightarrow> u32" where
  "srv_window_size = channel_field sender_window_size"

definition srv_max_packet_size :: "'q ServerSession \<Rightarrow> ChannelId \<Rightarrow> u32" where
  "srv_max_packet_size = channel_field sender_maximum_packet_size"

definition srv_disconnect ::
  "('q, 'h) serverenv \<Rightarrow> Disconnect \<Rightarrow> rstring \<Rightarrow> rstring \<Rightarrow> 'q ServerSession \<Rightarrow> 'q ServerSession" where
  "srv_disconnect V reason description language_tag s =
     s\<lparr> ss_common := session_disconnect (sv_codec V) reason description language_tag (ss_common s) \<rparr>"

definition srv_debug :: "('q, 'h) serverenv \<Rightarrow> bool \<Rightarrow> rstring \<Rightarrow> rstring \<Rightarrow> 'q ServerSession \<Rightarrow> 'q ServerSession" where
  "srv_debug V always_display message language_tag s =
     s\<lparr> ss_common := session_debug (sv_codec V) always_display message language_tag (ss_common s) \<rparr>"

definition set_wants_reply :: "bool \<Rightarrow> 'q ServerSession \<Rightarrow> 'q ServerSession" where
  "set_wants_reply b s = s\<lparr> ss_common := (ss_common s)\<lparr> cs_wants_reply := b \<rparr> \<rparr>"

definition request_success :: "('q, 'h) serverenv \<Rightarrow> 'q ServerSession \<Rightarrow> 'q ServerSession" where
  "request_success V s =
     (if cs_wants_reply (ss_common s) \<and> ss_enc s \<noteq> None
      then set_wants_reply False (on_enc (enc_push (sv_codec V) [REQUEST_SUCCESS]) s) else s)"

definition request_failure :: "('q, 'h) serverenv \<Rightarrow> 'q ServerSession \<Rightarrow> 'q ServerSession" where
  "request_failure V s =
     (if ss_enc s \<noteq> None
      then set_wants_reply False (on_enc (enc_push (sv_codec V) [REQUEST_FAILURE]) s) else s)"

text \<open>The answer to a channel request; an unconfirmed channel fails an assertion.\<close>

definition channel_answer :: "u8 \<Rightarrow> ('q, 'h) serverenv \<Rightarrow> ChannelId \<Rightarrow> 'q ServerSession \<Rightarrow> 'q ServerSession res" where
  "channel_answer m V channel s =
     (case ss_enc s of
        None \<Rightarrow> Inr s
      | Some enc \<Rightarrow>
          (case enc_channels enc channel of
             None \<Rightarrow> Inr s
           | Some ch \<Rightarrow>
               if \<not> confirmed ch then Inl Panicked
               else if wants_reply ch
               then Inr (set_enc (enc_push (sv_codec V) (m # u32_encode (sv_codec V) (recipient_channel ch))
                      (update_channel channel (\<lambda>ch. ch\<lparr> wants_reply := False \<rparr>) enc)) s)
               else Inr s))"

definition channel_success :: "('q, 'h) serverenv \<Rightarrow> ChannelId \<Rightarrow> 'q ServerSession \<Rightarrow> 'q ServerSession res" where
  "channel_success = channel_answer CHANNEL_SUCCESS"

definition channel_failure :: "('q, 'h) serverenv \<Rightarrow> ChannelId \<Rightarrow> 'q ServerSession \<Rightarrow> 'q ServerSession res" where
  "channel_failure = channel_answer CHANNEL_FAILURE"

definition finalize_channel_open_reply ::
  "('q, 'h) serverenv \<Rightarrow> 'q PendingChannelOpen \<Rightarrow> open_result \<Rightarrow> 'q ServerSession \<Rightarrow> 'q ServerSession" where
  "finalize_channel_open_reply V pending result s =
     (let C = sv_codec V in
      case ss_enc s of
        None \<Rightarrow> s
      | Some enc \<Rightarrow>
          (case result of
             None \<Rightarrow>
               (let enc = enc_push C (CHANNEL_OPEN_CONFIRMATION # u32_encode C (po_recipient_channel pending) @
                      u32_encode C (po_sender_channel pending) @ u32_encode C (po_window_size pending) @
                      u32_encode C (po_packet_size pending)) enc;
                    enc = enc\<lparr> enc_channels := (enc_channels enc)(po_sender_channel pending \<mapsto> po_channel_params pending) \<rparr>;
                    d = ss_delivery s
                in (set_enc enc s)\<lparr> ss_delivery :=
                      d\<lparr> dl_channels := (dl_channels d)(po_sender_channel pending \<mapsto> po_channel_ref pending) \<rparr> \<rparr>)
           | Some reason \<Rightarrow>
               set_enc (enc_push C (CHANNEL_OPEN_FAILURE # u32_encode C (po_recipient_channel pending) @
                 u32_encode C (failure_code reason) @ bytes_encode C (failure_description reason) @
                 bytes_encode C (str ''en'')) enc) s))"

definition drain_open_replies :: "('q, 'h) serverenv \<Rightarrow> 'q ServerSession \<Rightarrow> 'q ServerSession" where
  "drain_open_replies V s =
     fold (\<lambda>(pending, result). finalize_channel_open_reply V pending result) (ss_open_replies s) (s\<lparr> ss_open_replies := [] \<rparr>)"

definition channel_open_failure ::
  "('q, 'h) serverenv \<Rightarrow> ChannelId \<Rightarrow> ChannelOpenFailure \<Rightarrow> rstring \<Rightarrow> rstring \<Rightarrow> 'q ServerSession \<Rightarrow> 'q ServerSession" where
  "channel_open_failure V channel reason description language s =
     (let C = sv_codec V in
      on_enc (enc_push C (CHANNEL_OPEN_FAILURE # u32_encode C channel @ u32_encode C (failure_code reason) @
        bytes_encode C description @ bytes_encode C language)) s)"

definition srv_close :: "('q, 'h) serverenv \<Rightarrow> ChannelId \<Rightarrow> 'q ServerSession \<Rightarrow> 'q ServerSession res" where
  "srv_close V channel s =
     (case ss_enc s of
        None \<Rightarrow> Inl Panicked
      | Some enc \<Rightarrow>
          (let enc = channel_close (sv_codec V) channel enc;
               reader_gone = (case dl_channels (ss_delivery s) channel of
                   Some c \<Rightarrow> mq_is_closed (sv_mpsc V) (cr_sender c) | None \<Rightarrow> False);
               s = set_enc enc s in
           Inr (if \<not> channel_exists enc channel \<and> reader_gone then finalize_close channel s else s)))"

definition srv_eof :: "('q, 'h) serverenv \<Rightarrow> ChannelId \<Rightarrow> 'q ServerSession \<Rightarrow> 'q ServerSession res" where
  "srv_eof V channel s =
     (case ss_enc s of
        None \<Rightarrow> Inl Panicked
      | Some enc \<Rightarrow> Inr (set_enc (channel_eof (sv_codec V) channel enc) s))"

definition srv_data :: "('q, 'h) serverenv \<Rightarrow> ChannelId \<Rightarrow> bytes \<Rightarrow> 'q ServerSession \<Rightarrow> 'q ServerSession res" where
  "srv_data V channel data s =
     (case ss_enc s of
        None \<Rightarrow> Inl Panicked
      | Some enc \<Rightarrow>
          bindR (data_with_writer (sv_env V) channel data (kex_active (ss_kex s)) enc (ss_writer s)) (\<lambda>(enc, w).
            Inr (enforce_outbound_cap V channel (set_enc_writer enc w s))))"

definition srv_extended_data ::
  "('q, 'h) serverenv \<Rightarrow> ChannelId \<Rightarrow> u32 \<Rightarrow> bytes \<Rightarrow> 'q ServerSession \<Rightarrow> 'q ServerSession res" where
  "srv_extended_data V channel ext data s =
     (case ss_enc s of
        None \<Rightarrow> Inl Panicked
      | Some enc \<Rightarrow>
          bindR (extended_data_with_writer (sv_env V) channel ext data (kex_active (ss_kex s)) enc (ss_writer s)) (\<lambda>(enc, w).
            Inr (enforce_outbound_cap V channel (set_enc_writer enc w s))))"

text \<open>A channel request of the server; an unconfirmed channel fails an assertion.\<close>

definition channel_notice :: "bytes \<Rightarrow> ('q, 'h) serverenv \<Rightarrow> ChannelId \<Rightarrow> 'q ServerSession \<Rightarrow> 'q ServerSession res" where
  "channel_notice body V channel s =
     (case ss_enc s of
        None \<Rightarrow> Inr s
      | Some enc \<Rightarrow>
          (case enc_channels enc channel of
             None \<Rightarrow> Inr s
           | Some ch \<Rightarrow>
               if \<not> confirmed ch then Inl Panicked
               else Inr (set_enc (enc_push (sv_codec V)
                      (CHANNEL_REQUEST # u32_encode (sv_codec V) (recipient_channel ch) @ body) enc) s)))"

abbreviation flag_byte :: "bool \<Rightarrow> u8" where
  "flag_byte b \<equiv> (if b then 1 else 0)"

definition xon_xoff_request :: "('q, 'h) serverenv \<Rightarrow> ChannelId \<Rightarrow> bool \<Rightarrow> 'q ServerSession \<Rightarrow> 'q ServerSession res" where
  "xon_xoff_request V channel client_can_do s =
     channel_notice (bytes_encode (sv_codec V) (str ''xon-xoff'') @ [0, flag_byte client_can_do]) V channel s"

definition exit_status_request :: "('q, 'h) serverenv \<Rightarrow> ChannelId \<Rightarrow> u32 \<Rightarrow> 'q ServerSession \<Rightarrow> 'q ServerSession res" where
  "exit_status_request V channel exit_status s =
     channel_notice (bytes_encode (sv_codec V) (str ''exit-status'') @ 0 # u32_encode (sv_codec V) exit_status) V channel s"

definition exit_signal_request ::
  "('q, 'h) serverenv \<Rightarrow> ChannelId \<Rightarrow> Sig \<Rightarrow> bool \<Rightarrow> rstring \<Rightarrow> rstring \<Rightarrow> 'q ServerSession \<Rightarrow> 'q ServerSession res" where
  "exit_signal_request V channel sig core_dumped error_message language_tag s =
     (let C = sv_codec V in
      channel_notice (bytes_encode C (str ''exit-signal'') @ 0 # bytes_encode C (sig_name sig) @
        flag_byte core_dumped # bytes_encode C error_message @ bytes_encode C language_tag) V channel s)"

text \<open>A global request of the server, with the entry that awaits its answer.\<close>

definition global_request ::
  "('q, 'h) serverenv \<Rightarrow> GlobalRequestResponse option \<Rightarrow> rstring \<Rightarrow> bytes \<Rightarrow> 'q ServerSession \<Rightarrow> 'q ServerSession" where
  "global_request V await name body s =
     (if ss_enc s = None then s
      else (let s = (case await of Some a \<Rightarrow> s\<lparr> ss_open_global_requests := ss_open_global_requests s @ [a] \<rparr> | None \<Rightarrow> s) in
        on_enc (enc_push (sv_codec V)
          (GLOBAL_REQUEST # bytes_encode (sv_codec V) name @ flag_byte (await \<noteq> None) # body)) s))"

definition keepalive_request :: "('q, 'h) serverenv \<Rightarrow> 'q ServerSession \<Rightarrow> 'q ServerSession" where
  "keepalive_request V = global_request V (Some GR_Keepalive) (str ''keepalive@openssh.com'') []"

definition send_ping :: "('q, 'h) serverenv \<Rightarrow> nat \<Rightarrow> 'q ServerSession \<Rightarrow> 'q ServerSession" where
  "send_ping V reply_channel = global_request V (Some (GR_Ping reply_channel)) (str ''keepalive@openssh.com'') []"

definition srv_tcpip_forward ::
  "('q, 'h) serverenv \<Rightarrow> rstring \<Rightarrow> u32 \<Rightarrow> nat option \<Rightarrow> 'q ServerSession \<Rightarrow> 'q ServerSession" where
  "srv_tcpip_forward V address port reply_channel =
     global_request V (map_option GR_TcpIpForward reply_channel) (str ''tcpip-forward'')
       (bytes_encode (sv_codec V) address @ u32_encode (sv_codec V) port)"

definition srv_cancel_tcpip_forward ::
  "('q, 'h) serverenv \<Rightarrow> rstring \<Rightarrow> u32 \<Rightarrow> nat option \<Rightarrow> 'q ServerSession \<Rightarrow> 'q ServerSession" where
  "srv_cancel_tcpip_forward V address port reply_channel =
     global_request V (map_option GR_CancelTcpIpForward reply_channel) (str ''cancel-tcpip-forward'')
       (bytes_encode (sv_codec V) address @ u32_encode (sv_codec V) port)"

definition channel_open_generic ::
  "('q, 'h) serverenv \<Rightarrow> rstring \<Rightarrow> bytes \<Rightarrow> 'q ServerSession \<Rightarrow> (ChannelId \<times> 'q ServerSession) res" where
  "channel_open_generic V kind suffix s =
     (let C = sv_codec V; F = sv_config V in
      case ss_enc s of
        None \<Rightarrow> Inl E_Inconsistent
      | Some enc \<Rightarrow>
          if enc_state enc \<noteq> ES_Authenticated \<and> enc_state enc \<noteq> ES_InitCompression then Inl E_Inconsistent
          else (case new_channel (cf_window_size F) (cf_maximum_packet_size F) enc of
              None \<Rightarrow> Inl Diverged
            | Some (cid, enc) \<Rightarrow>
                Inr (cid, set_enc (enc_push C (CHANNEL_OPEN # bytes_encode C kind @ u32_encode C cid @
                  u32_encode C (cf_window_size F) @ u32_encode C (cf_maximum_packet_size F) @ suffix) enc) s)))"

definition srv_channel_open_session :: "('q, 'h) serverenv \<Rightarrow> 'q ServerSession \<Rightarrow> (ChannelId \<times> 'q ServerSession) res" where
  "srv_channel_open_session V = channel_open_generic V (str ''session'') []"

definition srv_channel_open_direct_tcpip ::
  "('q, 'h) serverenv \<Rightarrow> rstring \<Rightarrow> u32 \<Rightarrow> rstring \<Rightarrow> u32 \<Rightarrow> 'q ServerSession \<Rightarrow> (ChannelId \<times> 'q ServerSession) res" where
  "srv_channel_open_direct_tcpip V host port originator oport =
     (let C = sv_codec V in channel_open_generic V (str ''direct-tcpip'')
        (bytes_encode C host @ u32_encode C port @ bytes_encode C originator @ u32_encode C oport))"

definition srv_channel_open_direct_streamlocal ::
  "('q, 'h) serverenv \<Rightarrow> rstring \<Rightarrow> 'q ServerSession \<Rightarrow> (ChannelId \<times> 'q ServerSession) res" where
  "srv_channel_open_direct_streamlocal V path =
     (let C = sv_codec V in channel_open_generic V (str ''direct-streamlocal@openssh.com'')
        (bytes_encode C path @ bytes_encode C [] @ u32_encode C 0))"

definition srv_channel_open_forwarded_tcpip ::
  "('q, 'h) serverenv \<Rightarrow> rstring \<Rightarrow> u32 \<Rightarrow> rstring \<Rightarrow> u32 \<Rightarrow> 'q ServerSession \<Rightarrow> (ChannelId \<times> 'q ServerSession) res" where
  "srv_channel_open_forwarded_tcpip V address port originator oport =
     (let C = sv_codec V in channel_open_generic V (str ''forwarded-tcpip'')
        (bytes_encode C address @ u32_encode C port @ bytes_encode C originator @ u32_encode C oport))"

definition srv_channel_open_forwarded_streamlocal ::
  "('q, 'h) serverenv \<Rightarrow> rstring \<Rightarrow> 'q ServerSession \<Rightarrow> (ChannelId \<times> 'q ServerSession) res" where
  "srv_channel_open_forwarded_streamlocal V path =
     (let C = sv_codec V in channel_open_generic V (str ''forwarded-streamlocal@openssh.com'')
        (bytes_encode C path @ bytes_encode C []))"

definition srv_channel_open_x11 ::
  "('q, 'h) serverenv \<Rightarrow> rstring \<Rightarrow> u32 \<Rightarrow> 'q ServerSession \<Rightarrow> (ChannelId \<times> 'q ServerSession) res" where
  "srv_channel_open_x11 V originator oport =
     (let C = sv_codec V in channel_open_generic V (str ''x11'') (bytes_encode C originator @ u32_encode C oport))"

definition srv_channel_open_agent :: "('q, 'h) serverenv \<Rightarrow> 'q ServerSession \<Rightarrow> (ChannelId \<times> 'q ServerSession) res" where
  "srv_channel_open_agent V = channel_open_generic V (str ''auth-agent@openssh.com'') []"

text \<open>Whether the client listed \<open>ext-info-c\<close>; \<^term>\<open>None\<close> when its KEXINIT is too short to have a list.\<close>

definition client_knows_extensions :: "codec \<Rightarrow> Encrypted \<Rightarrow> bool option" where
  "client_knows_extensions C enc =
     (case enc_exchange enc of
        None \<Rightarrow> Some False
      | Some e \<Rightarrow>
          if length (client_kex_init e) < 17 then None
          else (case name_list_decode C (drop 17 (client_kex_init e)) of
              Inr (kex_list, _) \<Rightarrow> Some (is_ok (server_select (\<lambda>x. x) [EXTENSION_SUPPORT_AS_CLIENT] kex_list AK_Kex))
            | Inl _ \<Rightarrow> Some False))"

definition maybe_send_ext_info :: "('q, 'h) serverenv \<Rightarrow> 'q ServerSession \<Rightarrow> 'q ServerSession" where
  "maybe_send_ext_info V s =
     (let C = sv_codec V in
      case ss_enc s of
        None \<Rightarrow> s
      | Some enc \<Rightarrow>
          if client_knows_extensions C enc = Some True
          then set_enc (enc_push C (EXT_INFO # u32_encode C 1 @ bytes_encode C (str ''server-sig-algs'') @
            name_list_encode C (map (ke_names (sv_kex V)) (pf_key (preferred (cf_kex (sv_config V)))))) enc) s
          else s)"

definition srv_maybe_decompress ::
  "('q, 'h) serverenv \<Rightarrow> SSHBuffer \<Rightarrow> 'q ServerSession \<Rightarrow> (IncomingSshPacket \<times> 'q ServerSession) res" where
  "srv_maybe_decompress V buffer s =
     (if length (sb_buffer buffer) < 5 then Inl Panicked
      else case ss_enc s of
        Some enc \<Rightarrow>
          bindR (decompress (fla (sv_env V)) (enc_decompress enc) (drop 5 (sb_buffer buffer))) (\<lambda>(out, dec).
            Inr (\<lparr> in_buffer = out, in_seqn = sb_seqn buffer \<rparr>, set_enc (enc\<lparr> enc_decompress := dec \<rparr>) s))
      | None \<Rightarrow> Inr (\<lparr> in_buffer = drop 5 (sb_buffer buffer), in_seqn = sb_seqn buffer \<rparr>, s))"

section \<open>Messages of the application\<close>

datatype (plugins only: code size) 'q Msg =
    M_ChannelOpenAgent "'q ChannelRef"
  | M_ChannelOpenSession "'q ChannelRef"
  | M_ChannelOpenDirectTcpIp rstring u32 rstring u32 "'q ChannelRef"
  | M_ChannelOpenDirectStreamLocal rstring "'q ChannelRef"
  | M_ChannelOpenForwardedTcpIp rstring u32 rstring u32 "'q ChannelRef"
  | M_ChannelOpenForwardedStreamLocal rstring "'q ChannelRef"
  | M_ChannelOpenX11 rstring u32 "'q ChannelRef"
  | M_TcpIpForward "nat option" rstring u32
  | M_CancelTcpIpForward "nat option" rstring u32
  | M_Disconnect Disconnect rstring rstring
  | M_Channel ChannelId ChannelMsg
  | M_ChannelDataAcked ChannelId "u32 option" bytes nat
  | M_ChannelOpenReply "'q PendingChannelOpen" open_result

definition register_channel ::
  "'q ChannelRef \<Rightarrow> (ChannelId \<times> 'q ServerSession) res \<Rightarrow> 'q ServerSession res" where
  "register_channel channel_ref r =
     bindR r (\<lambda>(cid, s). Inr (s\<lparr> ss_delivery := (ss_delivery s)\<lparr> dl_channels := (dl_channels (ss_delivery s))(cid \<mapsto> channel_ref) \<rparr> \<rparr>))"

definition data_acked ::
  "('q, 'h) serverenv \<Rightarrow> ChannelId \<Rightarrow> u32 option \<Rightarrow> bytes \<Rightarrow> nat \<Rightarrow> 'q ServerSession \<Rightarrow> 'q ServerSession res" where
  "data_acked V cid ext data ack s =
     bindR (case ext of None \<Rightarrow> srv_data V cid data s | Some ext \<Rightarrow> srv_extended_data V cid ext data s) (\<lambda>s.
       let present = (case ss_enc s of Some enc \<Rightarrow> channel_exists enc cid | None \<Rightarrow> False) in
       Inr (if \<not> present then s
            else if srv_has_pending_data s cid
            then s\<lparr> ss_outbound_acks := (ss_outbound_acks s)(cid \<mapsto>
                   (case ss_outbound_acks s cid of Some acks \<Rightarrow> acks | None \<Rightarrow> []) @ [ack]) \<rparr>
            else signal (SG_Done ack) s))"

fun dispatch_channel :: "('q, 'h) serverenv \<Rightarrow> ChannelId \<Rightarrow> ChannelMsg \<Rightarrow> 'q ServerSession \<Rightarrow> 'q ServerSession res" where
  "dispatch_channel V cid (CM_Data data) s = srv_data V cid data s"
| "dispatch_channel V cid (CM_ExtendedData ext data) s = srv_extended_data V cid ext data s"
| "dispatch_channel V cid CM_Eof s = srv_eof V cid s"
| "dispatch_channel V cid CM_Close s = srv_close V cid s"
| "dispatch_channel V cid CM_Success s = channel_success V cid s"
| "dispatch_channel V cid CM_Failure s = channel_failure V cid s"
| "dispatch_channel V cid (CM_XonXoff client_can_do) s = xon_xoff_request V cid client_can_do s"
| "dispatch_channel V cid (CM_ExitStatus exit_status) s = exit_status_request V cid exit_status s"
| "dispatch_channel V cid (CM_ExitSignal signal_name core_dumped error_message lang_tag) s =
     exit_signal_request V cid signal_name core_dumped error_message lang_tag s"
| "dispatch_channel V cid (CM_WindowAdjusted new_size) s = Inr s"
| "dispatch_channel V cid _ s = Inl Panicked"

fun dispatch :: "('q, 'h) serverenv \<Rightarrow> 'q Msg \<Rightarrow> 'q ServerSession \<Rightarrow> 'q ServerSession res" where
  "dispatch V (M_Channel cid m) s = dispatch_channel V cid m s"
| "dispatch V (M_ChannelDataAcked cid ext data ack) s = data_acked V cid ext data ack s"
| "dispatch V (M_ChannelOpenAgent r) s = register_channel r (srv_channel_open_agent V s)"
| "dispatch V (M_ChannelOpenSession r) s = register_channel r (srv_channel_open_session V s)"
| "dispatch V (M_ChannelOpenDirectTcpIp a p oa op r) s = register_channel r (srv_channel_open_direct_tcpip V a p oa op s)"
| "dispatch V (M_ChannelOpenDirectStreamLocal p r) s = register_channel r (srv_channel_open_direct_streamlocal V p s)"
| "dispatch V (M_ChannelOpenForwardedTcpIp a p oa op r) s = register_channel r (srv_channel_open_forwarded_tcpip V a p oa op s)"
| "dispatch V (M_ChannelOpenForwardedStreamLocal p r) s = register_channel r (srv_channel_open_forwarded_streamlocal V p s)"
| "dispatch V (M_ChannelOpenX11 oa op r) s = register_channel r (srv_channel_open_x11 V oa op s)"
| "dispatch V (M_TcpIpForward reply address port) s = Inr (srv_tcpip_forward V address port reply s)"
| "dispatch V (M_CancelTcpIpForward reply address port) s = Inr (srv_cancel_tcpip_forward V address port reply s)"
| "dispatch V (M_Disconnect reason description language_tag) s = Inr (srv_disconnect V reason description language_tag s)"
| "dispatch V (M_ChannelOpenReply pending result) s = Inl Panicked"

definition dispatch_msg :: "('q, 'h) serverenv \<Rightarrow> 'q Msg \<Rightarrow> 'q ServerSession \<Rightarrow> 'q ServerSession res" where
  "dispatch_msg V m s = dispatch V m (drain_open_replies V s)"

end
