(* ===== verification/ServerRead.thy ===== *)
theory ServerRead
  imports ServerSession
begin

text \<open>
  What the server does with a received packet: the connection part of \<open>server/encrypted.rs\<close> and \<open>reply\<close> of
  \<open>server/mod.rs\<close>. A handler is lent the session while its callback runs, so every function here takes and returns
  the pair of the two. A send that waits for room in a queue is taken to return.
\<close>

section \<open>Messages to the application\<close>

abbreviation app_channel :: "'q ServerSession \<Rightarrow> ChannelId \<Rightarrow> 'q ChannelRef option" where
  "app_channel s cid \<equiv> dl_channels (ss_delivery s) cid"

definition set_app_channel :: "ChannelId \<Rightarrow> 'q ChannelRef \<Rightarrow> 'q ServerSession \<Rightarrow> 'q ServerSession" where
  "set_app_channel cid c s =
     s\<lparr> ss_delivery := (ss_delivery s)\<lparr> dl_channels := (dl_channels (ss_delivery s))(cid \<mapsto> c) \<rparr> \<rparr>"

definition app_send :: "('q, 'h) serverenv \<Rightarrow> ChannelId \<Rightarrow> ChannelMsg \<Rightarrow> 'q ServerSession \<Rightarrow> 'q ServerSession" where
  "app_send V cid m s =
     (case app_channel s cid of
        None \<Rightarrow> s
      | Some c \<Rightarrow>
          (case mq_send (sv_mpsc V) m (cr_sender c) of
             Some q \<Rightarrow> set_app_channel cid (c\<lparr> cr_sender := q \<rparr>) s
           | None \<Rightarrow> s))"

definition is_established_channel :: "'q ServerSession \<Rightarrow> ChannelId \<Rightarrow> bool" where
  "is_established_channel s channel =
     (case ss_enc s of
        None \<Rightarrow> False
      | Some enc \<Rightarrow> (case enc_channels enc channel of Some ch \<Rightarrow> confirmed ch | None \<Rightarrow> False))"

type_synonym ('q, 'h) hs = "'h \<times> 'q ServerSession"

section \<open>Closing, end of file and data\<close>

text \<open>A close or end of file is delivered behind queued data; its callback runs now unless it was queued.\<close>

definition deliver_close :: "('q, 'h) serverenv \<Rightarrow> ChannelId \<Rightarrow> ('q, 'h) hs \<Rightarrow> ('q, 'h) hs res" where
  "deliver_close V cid = (\<lambda>(h, s).
     case srv_deliver_inbound V cid II_Close s of (r, s) \<Rightarrow>
       if r = ID_Queued then Inr (h, s)
       else bindR (invoke V (CB_channel_close cid) (h, s)) (\<lambda>(h, s). Inr (h, finalize_close cid s)))"

definition read_channel_close :: "('q, 'h) serverenv \<Rightarrow> bytes \<Rightarrow> ('q, 'h) hs \<Rightarrow> ('q, 'h) hs res" where
  "read_channel_close V r = (\<lambda>(h, s).
     bindR (d_u32 (sv_codec V) r) (\<lambda>(cid, r).
     bindR (ensure_end r) (\<lambda>_.
       if \<not> is_established_channel s cid
       then (let we_closed_first = (case ss_enc s of Some enc \<Rightarrow> \<not> channel_exists enc cid | None \<Rightarrow> False) in
             if we_closed_first \<and> app_channel s cid \<noteq> None then deliver_close V cid (h, s) else Inr (h, s))
       else deliver_close V cid (h, discard_channel_outbound V cid s))))"

definition read_channel_eof :: "('q, 'h) serverenv \<Rightarrow> bytes \<Rightarrow> ('q, 'h) hs \<Rightarrow> ('q, 'h) hs res" where
  "read_channel_eof V r = (\<lambda>(h, s).
     bindR (d_u32 (sv_codec V) r) (\<lambda>(cid, r).
     bindR (ensure_end r) (\<lambda>_.
       if \<not> is_established_channel s cid then Inr (h, s)
       else (case srv_deliver_inbound V cid II_Eof s of (r, s) \<Rightarrow>
         if r = ID_Delivered \<or> r = ID_ChannelGone then invoke V (CB_channel_eof cid) (h, s) else Inr (h, s)))))"

text \<open>Payload received on an established channel, with the code of extended data.\<close>

definition deliver_payload ::
  "('q, 'h) serverenv \<Rightarrow> ChannelId \<Rightarrow> u32 option \<Rightarrow> bytes \<Rightarrow> ('q, 'h) hs \<Rightarrow> ('q, 'h) hs res" where
  "deliver_payload V cid ext data = (\<lambda>(h, s).
     let s = on_enc (consume_recv_window cid (length data)) s;
         item = (case ext of Some ext \<Rightarrow> II_ExtendedData ext data | None \<Rightarrow> II_Data data);
         cb = (case ext of Some ext \<Rightarrow> CB_extended_data cid ext data | None \<Rightarrow> CB_data cid data) in
     case srv_deliver_inbound V cid item s of (r, s) \<Rightarrow>
       (case r of
          ID_Delivered \<Rightarrow> invoke V cb (maybe_grant_after_delivery V cid (h, s))
        | ID_ChannelGone \<Rightarrow> invoke V cb (maybe_grant_after_delivery V cid (h, s))
        | ID_Queued \<Rightarrow> Inr (h, s)
        | ID_Overflow \<Rightarrow> Inr (h, remove_app_channel cid (teardown_inbound_channel cid (discard_channel_outbound V cid s)))))"

definition read_channel_data :: "('q, 'h) serverenv \<Rightarrow> bool \<Rightarrow> bytes \<Rightarrow> ('q, 'h) hs \<Rightarrow> ('q, 'h) hs res" where
  "read_channel_data V extended r = (\<lambda>(h, s).
     let C = sv_codec V in
     bindR (d_u32 C r) (\<lambda>(cid, r).
       if \<not> is_established_channel s cid then Inr (h, s)
       else bindR (if extended then bindR (d_u32 C r) (\<lambda>(x, r). Inr (Some x, r)) else Inr (None, r)) (\<lambda>(ext, r).
         bindR (d_bytes C r) (\<lambda>(data, r).
         bindR (ensure_end r) (\<lambda>_. deliver_payload V cid ext data (h, s))))))"

definition notify_window :: "('q, 'h) serverenv \<Rightarrow> ChannelId \<Rightarrow> u32 \<Rightarrow> 'q ServerSession \<Rightarrow> 'q ServerSession" where
  "notify_window V cid new_size s =
     (case app_channel s cid of
        None \<Rightarrow> s
      | Some c \<Rightarrow>
          (let c = c\<lparr> cr_window_size := new_size \<rparr> in
           set_app_channel cid (case mq_try_send (sv_mpsc V) (CM_WindowAdjusted new_size) (cr_sender c) of
               TS_Ok q \<Rightarrow> c\<lparr> cr_sender := q \<rparr> | _ \<Rightarrow> c) s))"

definition read_window_adjust :: "('q, 'h) serverenv \<Rightarrow> bytes \<Rightarrow> ('q, 'h) hs \<Rightarrow> ('q, 'h) hs res" where
  "read_window_adjust V r = (\<lambda>(h, s).
     let C = sv_codec V in
     bindR (d_u32 C r) (\<lambda>(cid, r).
     bindR (d_u32 C r) (\<lambda>(amount, r).
     bindR (ensure_end r) (\<lambda>_.
       case (if is_established_channel s cid then ss_enc s else None) of
         None \<Rightarrow> Inr (h, s)
       | Some enc \<Rightarrow>
           (case enc_channels enc cid of
              None \<Rightarrow> Inl E_Inconsistent
            | Some ch \<Rightarrow>
                bindR (flush_pending_with_writer (sv_env V) cid (window_adjust cid amount enc) (ss_writer s)) (\<lambda>(n, enc, w).
                  let new_size = saturating_add (recipient_window_size ch) amount - of_nat n in
                  invoke V (CB_window_adjusted cid new_size) (h, notify_window V cid new_size (set_enc_writer enc w s))))))))"

section \<open>Opening channels\<close>

definition read_open_confirmation :: "('q, 'h) serverenv \<Rightarrow> bytes \<Rightarrow> ('q, 'h) hs \<Rightarrow> ('q, 'h) hs res" where
  "read_open_confirmation V r = (\<lambda>(h, s).
     bindR (open_confirmation_decode (sv_codec V) r) (\<lambda>(m, r).
     bindR (ensure_end r) (\<lambda>_.
       let cid = coc_recipient_channel m in
       case ss_enc s of
         None \<Rightarrow> Inl E_Inconsistent
       | Some enc \<Rightarrow>
           if \<not> channel_exists enc cid then Inl E_Inconsistent
           else (let s = set_enc (update_channel cid (confirm m) enc) s;
                     s = app_send V cid (CM_Open cid (coc_maximum_packet_size m) (coc_initial_window_size m)) s
                 in invoke V (CB_channel_open_confirmation cid (coc_maximum_packet_size m) (coc_initial_window_size m)) (h, s)))))"

definition read_open_failure :: "('q, 'h) serverenv \<Rightarrow> bytes \<Rightarrow> ('q, 'h) hs \<Rightarrow> ('q, 'h) hs res" where
  "read_open_failure V r = (\<lambda>(h, s).
     let C = sv_codec V in
     bindR (d_u32 C r) (\<lambda>(cid, r).
     bindR (d_u32 C r) (\<lambda>(code, r).
     bindR (d_string C r) (\<lambda>(description, r).
     bindR (d_string C r) (\<lambda>(language_tag, r).
     bindR (ensure_end r) (\<lambda>_.
       let reason = (case failure_from_u32 code of Some x \<Rightarrow> x | None \<Rightarrow> AdministrativelyProhibited);
           sender = app_channel s cid;
           s = remove_app_channel cid (on_enc (remove_channel cid) s) in
       case sender of
         None \<Rightarrow> Inr (h, s)
       | Some c \<Rightarrow>
           (case mq_send (sv_mpsc V) (CM_OpenFailure reason) (cr_sender c) of
              Some _ \<Rightarrow> Inr (h, s)
            | None \<Rightarrow> Inl E_SendError)))))))"

definition pending_open :: "('q, 'h) serverenv \<Rightarrow> OpenChannelMessage \<Rightarrow> ChannelId \<Rightarrow> 'q PendingChannelOpen" where
  "pending_open V m cid =
     (let F = sv_config V in
      \<lparr> po_recipient_channel = ocm_recipient_channel m, po_sender_channel = cid,
        po_window_size = cf_window_size F, po_packet_size = cf_maximum_packet_size F,
        po_channel_ref = \<lparr> cr_sender = mq_channel (sv_mpsc V) (cf_channel_buffer_size F), cr_window_size = ocm_recipient_window_size m \<rparr>,
        po_channel_params = \<lparr> recipient_channel = ocm_recipient_channel m, sender_channel = cid,
          recipient_window_size = ocm_recipient_window_size m, sender_window_size = cf_window_size F,
          recipient_maximum_packet_size = ocm_recipient_maximum_packet_size m,
          sender_maximum_packet_size = cf_maximum_packet_size F, confirmed = True, wants_reply = False,
          pending_data = [], pending_eof = False, pending_close = False \<rparr> \<rparr>)"

text \<open>A reply handle that is dropped without an answer sends a rejection.\<close>

definition drop_open_handle :: "'q PendingChannelOpen \<Rightarrow> 'q ServerSession \<Rightarrow> 'q ServerSession" where
  "drop_open_handle pending s = s\<lparr> ss_open_replies := ss_open_replies s @ [(pending, Some AdministrativelyProhibited)] \<rparr>"

definition accept_open_handle :: "'q PendingChannelOpen \<Rightarrow> 'q ServerSession \<Rightarrow> 'q ServerSession" where
  "accept_open_handle pending s = s\<lparr> ss_open_replies := ss_open_replies s @ [(pending, None)] \<rparr>"

definition reject_open_handle :: "'q PendingChannelOpen \<Rightarrow> ChannelOpenFailure \<Rightarrow> 'q ServerSession \<Rightarrow> 'q ServerSession" where
  "reject_open_handle pending reason s = s\<lparr> ss_open_replies := ss_open_replies s @ [(pending, Some reason)] \<rparr>"

fun handled_type :: "ChannelType \<Rightarrow> bool" where
  "handled_type (CT_ForwardedStreamLocal _) = False"
| "handled_type CT_AgentForward = False"
| "handled_type (CT_Unknown _) = False"
| "handled_type _ = True"

definition server_handle_channel_open :: "('q, 'h) serverenv \<Rightarrow> bytes \<Rightarrow> ('q, 'h) hs \<Rightarrow> ('q, 'h) hs res" where
  "server_handle_channel_open V r = (\<lambda>(h, s).
     let C = sv_codec V in
     bindR (open_channel_parse C r) (\<lambda>(m, _).
       case ss_enc s of
         None \<Rightarrow> Inl Panicked
       | Some enc \<Rightarrow>
           (case new_channel_id enc of
              None \<Rightarrow> Inl Diverged
            | Some (cid, enc) \<Rightarrow>
                (let pending = pending_open V m cid; s = set_enc enc s in
                 if handled_type (ocm_typ m) then invoke V (CB_channel_open (ocm_typ m) pending) (h, s)
                 else Inr (h, drop_open_handle pending (on_enc (\<lambda>enc. enc\<lparr> enc_write :=
                   (case ocm_typ m of
                      CT_Unknown _ \<Rightarrow> open_channel_unknown_type C m (enc_write enc)
                    | _ \<Rightarrow> open_channel_fail C m (enc_write enc) SSH_OPEN_ADMINISTRATIVELY_PROHIBITED
                             (str ''Unsupported channel type'')) \<rparr>) s))))))"

section \<open>Channel requests\<close>

text \<open>
  The terminal modes of a pseudo-terminal request: at most 130, each a code and a number, up to a zero byte that must
  be the last. A code without a name leaves the initial entry in its place.
\<close>

function parse_modes :: "codec \<Rightarrow> bytes \<Rightarrow> (Pty \<times> u32) list \<Rightarrow> nat \<Rightarrow> ((Pty \<times> u32) list \<times> nat) res" where
  "parse_modes C mode_bytes modes i =
     (if mode_bytes = [] then Inr (modes, i)
      else if hd mode_bytes = 0 then (if length mode_bytes \<noteq> 1 then Inl E_Inconsistent else Inr (modes, i))
      else if length mode_bytes < 5 then Inl E_Inconsistent
      else if length modes \<le> i then Inl E_Inconsistent
      else parse_modes C (drop 5 mode_bytes)
        (case pty_from_u8 (hd mode_bytes) of
           Some code \<Rightarrow> modes[i := (code, be_read_u32 C (take 4 (drop 1 mode_bytes)))]
         | None \<Rightarrow> modes) (i + 1))"
  by pat_completeness auto
termination by (relation "measure (\<lambda>(C, mode_bytes, modes, i). length mode_bytes)") auto

declare parse_modes.simps [simp del]

definition PTY_MODES :: "(Pty \<times> u32) list" where
  "PTY_MODES = replicate 130 (TTY_OP_END, 0)"

definition request_pty :: "('q, 'h) serverenv \<Rightarrow> ChannelId \<Rightarrow> bytes \<Rightarrow> ('q, 'h) hs \<Rightarrow> ('q, 'h) hs res" where
  "request_pty V cid r = (\<lambda>(h, s).
     let C = sv_codec V in
     bindR (d_string C r) (\<lambda>(term, r).
     bindR (d_u32 C r) (\<lambda>(col_width, r).
     bindR (d_u32 C r) (\<lambda>(row_height, r).
     bindR (d_u32 C r) (\<lambda>(pix_width, r).
     bindR (d_u32 C r) (\<lambda>(pix_height, r).
     bindR (d_bytes C r) (\<lambda>(mode_string, r).
     bindR (parse_modes C mode_string PTY_MODES 0) (\<lambda>(modes, i).
     bindR (ensure_end r) (\<lambda>_.
       invoke V (CB_pty_request cid term col_width row_height pix_width pix_height (take i modes))
         (h, app_send V cid (CM_RequestPty True term col_width row_height pix_width pix_height modes) s))))))))))"

definition request_x11 :: "('q, 'h) serverenv \<Rightarrow> ChannelId \<Rightarrow> bytes \<Rightarrow> ('q, 'h) hs \<Rightarrow> ('q, 'h) hs res" where
  "request_x11 V cid r = (\<lambda>(h, s).
     let C = sv_codec V in
     bindR (d_u8 r) (\<lambda>(single_connection, r).
     bindR (d_string C r) (\<lambda>(protocol, r).
     bindR (d_string C r) (\<lambda>(cookie, r).
     bindR (d_u32 C r) (\<lambda>(screen, r).
     bindR (ensure_end r) (\<lambda>_.
       invoke V (CB_x11_request cid (single_connection \<noteq> 0) protocol cookie screen)
         (h, app_send V cid (CM_RequestX11 True (single_connection \<noteq> 0) protocol cookie screen) s)))))))"

definition request_env :: "('q, 'h) serverenv \<Rightarrow> ChannelId \<Rightarrow> bytes \<Rightarrow> ('q, 'h) hs \<Rightarrow> ('q, 'h) hs res" where
  "request_env V cid r = (\<lambda>(h, s).
     let C = sv_codec V in
     bindR (d_string C r) (\<lambda>(env_variable, r).
     bindR (d_string C r) (\<lambda>(env_value, r).
     bindR (ensure_end r) (\<lambda>_.
       invoke V (CB_env_request cid env_variable env_value) (h, app_send V cid (CM_SetEnv True env_variable env_value) s)))))"

definition request_shell :: "('q, 'h) serverenv \<Rightarrow> ChannelId \<Rightarrow> bytes \<Rightarrow> ('q, 'h) hs \<Rightarrow> ('q, 'h) hs res" where
  "request_shell V cid r = (\<lambda>(h, s).
     bindR (ensure_end r) (\<lambda>_. invoke V (CB_shell_request cid) (h, app_send V cid (CM_RequestShell True) s)))"

definition request_agent :: "('q, 'h) serverenv \<Rightarrow> ChannelId \<Rightarrow> bytes \<Rightarrow> ('q, 'h) hs \<Rightarrow> ('q, 'h) hs res" where
  "request_agent V cid r = (\<lambda>(h, s).
     bindR (ensure_end r) (\<lambda>_.
     bindR (sv_call V (CB_agent_request cid) (h, app_send V cid (CM_AgentForward True) s)) (\<lambda>((response, _), h, s).
       Inr (h, if response then request_success V s else request_failure V s))))"

definition request_exec :: "('q, 'h) serverenv \<Rightarrow> ChannelId \<Rightarrow> bytes \<Rightarrow> ('q, 'h) hs \<Rightarrow> ('q, 'h) hs res" where
  "request_exec V cid r = (\<lambda>(h, s).
     bindR (d_bytes (sv_codec V) r) (\<lambda>(req, r).
     bindR (ensure_end r) (\<lambda>_. invoke V (CB_exec_request cid req) (h, app_send V cid (CM_Exec True req) s))))"

definition request_subsystem :: "('q, 'h) serverenv \<Rightarrow> ChannelId \<Rightarrow> bytes \<Rightarrow> ('q, 'h) hs \<Rightarrow> ('q, 'h) hs res" where
  "request_subsystem V cid r = (\<lambda>(h, s).
     bindR (d_string (sv_codec V) r) (\<lambda>(name, r).
     bindR (ensure_end r) (\<lambda>_. invoke V (CB_subsystem_request cid name) (h, app_send V cid (CM_RequestSubsystem True name) s))))"

definition request_window_change :: "('q, 'h) serverenv \<Rightarrow> ChannelId \<Rightarrow> bytes \<Rightarrow> ('q, 'h) hs \<Rightarrow> ('q, 'h) hs res" where
  "request_window_change V cid r = (\<lambda>(h, s).
     let C = sv_codec V in
     bindR (d_u32 C r) (\<lambda>(col_width, r).
     bindR (d_u32 C r) (\<lambda>(row_height, r).
     bindR (d_u32 C r) (\<lambda>(pix_width, r).
     bindR (d_u32 C r) (\<lambda>(pix_height, r).
     bindR (ensure_end r) (\<lambda>_.
       invoke V (CB_window_change_request cid col_width row_height pix_width pix_height)
         (h, app_send V cid (CM_WindowChange col_width row_height pix_width pix_height) s)))))))"

definition request_signal :: "('q, 'h) serverenv \<Rightarrow> ChannelId \<Rightarrow> bytes \<Rightarrow> ('q, 'h) hs \<Rightarrow> ('q, 'h) hs res" where
  "request_signal V cid r = (\<lambda>(h, s).
     bindR (d_string (sv_codec V) r) (\<lambda>(name, r).
     bindR (ensure_end r) (\<lambda>_.
       invoke V (CB_signal cid (sig_from_name name)) (h, app_send V cid (CM_Signal (sig_from_name name)) s))))"

definition request_unknown :: "('q, 'h) serverenv \<Rightarrow> ChannelId \<Rightarrow> ('q, 'h) hs \<Rightarrow> ('q, 'h) hs res" where
  "request_unknown V cid = (\<lambda>(h, s). bindR (channel_failure V cid s) (\<lambda>s. Inr (h, s)))"

definition read_channel_request :: "('q, 'h) serverenv \<Rightarrow> bytes \<Rightarrow> ('q, 'h) hs \<Rightarrow> ('q, 'h) hs res" where
  "read_channel_request V r = (\<lambda>(h, s).
     let C = sv_codec V in
     bindR (d_u32 C r) (\<lambda>(cid, r).
     bindR (d_string C r) (\<lambda>(req_type, r).
     bindR (d_u8 r) (\<lambda>(wants, r).
       let s = on_enc (update_channel cid (\<lambda>ch. ch\<lparr> wants_reply := (wants \<noteq> 0) \<rparr>)) s in
       if \<not> is_established_channel s cid then Inr (h, s)
       else if req_type = str ''pty-req'' then request_pty V cid r (h, s)
       else if req_type = str ''x11-req'' then request_x11 V cid r (h, s)
       else if req_type = str ''env'' then request_env V cid r (h, s)
       else if req_type = str ''shell'' then request_shell V cid r (h, s)
       else if req_type = str ''auth-agent-req@openssh.com'' then request_agent V cid r (h, s)
       else if req_type = str ''exec'' then request_exec V cid r (h, s)
       else if req_type = str ''subsystem'' then request_subsystem V cid r (h, s)
       else if req_type = str ''window-change'' then request_window_change V cid r (h, s)
       else if req_type = str ''signal'' then request_signal V cid r (h, s)
       else request_unknown V cid (h, s)))))"

section \<open>Global requests and their answers\<close>

definition answer_global :: "('q, 'h) serverenv \<Rightarrow> bool \<Rightarrow> bytes \<Rightarrow> 'q ServerSession \<Rightarrow> 'q ServerSession" where
  "answer_global V result extra s =
     on_enc (enc_push (sv_codec V) (if result then REQUEST_SUCCESS # extra else [REQUEST_FAILURE])) s"

definition request_tcpip_forward :: "('q, 'h) serverenv \<Rightarrow> bytes \<Rightarrow> ('q, 'h) hs \<Rightarrow> ('q, 'h) hs res" where
  "request_tcpip_forward V r hs =
     (let C = sv_codec V in
      bindR (d_string C r) (\<lambda>(address, r).
      bindR (d_u32 C r) (\<lambda>(port, r).
      bindR (ensure_end r) (\<lambda>_.
      bindR (sv_call V (CB_tcpip_forward address port) hs) (\<lambda>((result, returned_port), h, s).
        Inr (h, answer_global V result
          (if cs_wants_reply (ss_common s) \<and> port = 0 \<and> returned_port \<noteq> 0 then u32_encode C returned_port else []) s))))))"

definition request_cancel_tcpip_forward :: "('q, 'h) serverenv \<Rightarrow> bytes \<Rightarrow> ('q, 'h) hs \<Rightarrow> ('q, 'h) hs res" where
  "request_cancel_tcpip_forward V r hs =
     (let C = sv_codec V in
      bindR (d_string C r) (\<lambda>(address, r).
      bindR (d_u32 C r) (\<lambda>(port, r).
      bindR (ensure_end r) (\<lambda>_.
      bindR (sv_call V (CB_cancel_tcpip_forward address port) hs) (\<lambda>((result, _), h, s).
        Inr (h, answer_global V result [] s))))))"

definition request_streamlocal :: "('q, 'h) serverenv \<Rightarrow> (rstring \<Rightarrow> 'q callback) \<Rightarrow> bytes \<Rightarrow> ('q, 'h) hs \<Rightarrow> ('q, 'h) hs res" where
  "request_streamlocal V cb r hs =
     bindR (d_string (sv_codec V) r) (\<lambda>(path, r).
     bindR (ensure_end r) (\<lambda>_.
     bindR (sv_call V (cb path) hs) (\<lambda>((result, _), h, s). Inr (h, answer_global V result [] s))))"

definition read_global_request :: "('q, 'h) serverenv \<Rightarrow> bytes \<Rightarrow> ('q, 'h) hs \<Rightarrow> ('q, 'h) hs res" where
  "read_global_request V r = (\<lambda>(h, s).
     bindR (d_string (sv_codec V) r) (\<lambda>(req_type, r).
     bindR (d_u8 r) (\<lambda>(wants, r).
       let hs = (h, set_wants_reply (wants \<noteq> 0) s) in
       if req_type = str ''tcpip-forward'' then request_tcpip_forward V r hs
       else if req_type = str ''cancel-tcpip-forward'' then request_cancel_tcpip_forward V r hs
       else if req_type = str ''streamlocal-forward@openssh.com'' then request_streamlocal V CB_streamlocal_forward r hs
       else if req_type = str ''cancel-streamlocal-forward@openssh.com''
       then request_streamlocal V CB_cancel_streamlocal_forward r hs
       else Inr (h, answer_global V False [] (snd hs)))))"

definition pop_global_request :: "'q ServerSession \<Rightarrow> GlobalRequestResponse option \<times> 'q ServerSession" where
  "pop_global_request s =
     (case ss_open_global_requests s of
        [] \<Rightarrow> (None, s)
      | g # gs \<Rightarrow> (Some g, s\<lparr> ss_open_global_requests := gs \<rparr>))"

text \<open>The port in the answer to a forwarding request, zero when the answer is empty.\<close>

definition forward_answer :: "codec \<Rightarrow> bytes \<Rightarrow> u32 option" where
  "forward_answer C r =
     (if r = [] then Some 0
      else case d_u32 C r of
        Inr (port, r) \<Rightarrow> if ensure_end r = Inr () then Some port else None
      | Inl _ \<Rightarrow> None)"

definition read_request_success :: "('q, 'h) serverenv \<Rightarrow> bytes \<Rightarrow> 'q ServerSession \<Rightarrow> 'q ServerSession res" where
  "read_request_success V r s =
     (case pop_global_request s of (g, s) \<Rightarrow>
       (case g of
          Some GR_Keepalive \<Rightarrow> bindR (ensure_end r) (\<lambda>_. Inr s)
        | Some (GR_Ping c) \<Rightarrow> bindR (ensure_end r) (\<lambda>_. Inr (signal (SG_Done c) s))
        | Some (GR_TcpIpForward c) \<Rightarrow> Inr (signal (SG_Port c (forward_answer (sv_codec V) r)) s)
        | Some (GR_CancelTcpIpForward c) \<Rightarrow> bindR (ensure_end r) (\<lambda>_. Inr (signal (SG_Flag c True) s))
        | _ \<Rightarrow> Inr s))"

definition read_request_failure :: "bytes \<Rightarrow> 'q ServerSession \<Rightarrow> 'q ServerSession res" where
  "read_request_failure r s =
     bindR (ensure_end r) (\<lambda>_.
       case pop_global_request s of (g, s) \<Rightarrow>
         Inr (case g of
            Some (GR_Ping c) \<Rightarrow> signal (SG_Done c) s
          | Some (GR_TcpIpForward c) \<Rightarrow> signal (SG_Port c None) s
          | Some (GR_CancelTcpIpForward c) \<Rightarrow> signal (SG_Flag c False) s
          | _ \<Rightarrow> s))"

section \<open>Packets\<close>

text \<open>The session of a client whose identification has been read.\<close>

definition server_common_new :: "bytes \<Rightarrow> CommonSession" where
  "server_common_new sshid =
     \<lparr> cs_auth_user = [], cs_remote_sshid = sshid, cs_encrypted = None, cs_auth_method = None, cs_auth_attempts = 0,
       cs_packet_writer = PacketWriter_clear, cs_remote_to_local = OK_Clear, cs_wants_reply = False,
       cs_disconnected = False, cs_buffer = [], cs_strict_kex = False, cs_alive_timeouts = 0, cs_received_data = False \<rparr>"

definition server_session_new :: "('q, 'h) serverenv \<Rightarrow> bytes \<Rightarrow> 'q ServerSession" where
  "server_session_new V sshid =
     \<lparr> ss_common = server_common_new sshid, ss_target_window_size = cf_window_size (sv_config V),
       ss_pending_reads = [], ss_pending_len = 0,
       ss_delivery = \<lparr> dl_channels = Map.empty, dl_inbound = Map.empty, dl_needs_reserve = [] \<rparr>,
       ss_outbound_acks = Map.empty, ss_open_global_requests = [], ss_kex = Kex_Idle, ss_open_replies = [],
       ss_rekey_gen = 0, ss_rekey_deadline = RekeyDeadline_default, ss_signals = [] \<rparr>"

definition server_read_authenticated :: "('q, 'h) serverenv \<Rightarrow> u8 \<Rightarrow> bytes \<Rightarrow> ('q, 'h) hs \<Rightarrow> ('q, 'h) hs res" where
  "server_read_authenticated V m r hs =
     (if m = CHANNEL_OPEN then server_handle_channel_open V r hs
      else if m = CHANNEL_CLOSE then read_channel_close V r hs
      else if m = CHANNEL_EOF then read_channel_eof V r hs
      else if m = CHANNEL_EXTENDED_DATA \<or> m = CHANNEL_DATA then read_channel_data V (m \<noteq> CHANNEL_DATA) r hs
      else if m = CHANNEL_WINDOW_ADJUST then read_window_adjust V r hs
      else if m = CHANNEL_OPEN_CONFIRMATION then read_open_confirmation V r hs
      else if m = CHANNEL_REQUEST then read_channel_request V r hs
      else if m = GLOBAL_REQUEST then read_global_request V r hs
      else if m = CHANNEL_OPEN_FAILURE then read_open_failure V r hs
      else if m = REQUEST_SUCCESS then bindR (read_request_success V r (snd hs)) (\<lambda>s. Inr (fst hs, s))
      else if m = REQUEST_FAILURE then bindR (read_request_failure r (snd hs)) (\<lambda>s. Inr (fst hs, s))
      else Inr hs)"

definition set_auth_user :: "rstring \<Rightarrow> 'q ServerSession \<Rightarrow> 'q ServerSession" where
  "set_auth_user u s = s\<lparr> ss_common := (ss_common s)\<lparr> cs_auth_user := u \<rparr> \<rparr>"

definition process_service_request ::
  "('q, 'h) serverenv \<Rightarrow> bytes \<Rightarrow> Encrypted \<Rightarrow> ('q, 'h) hs \<Rightarrow> ('q, 'h) hs res" where
  "process_service_request V r enc = (\<lambda>(h, s).
     bindR (d_string (sv_codec V) r) (\<lambda>(request, r).
     bindR (ensure_end r) (\<lambda>_.
       if request = str ''ssh-userauth''
       then bindR (ah_banner (ae_handler (sv_auth V)) h) (\<lambda>(banner, h).
         case server_accept_service (sv_codec V) banner (cf_methods (sv_config V)) (enc_write enc) of (a, buffer) \<Rightarrow>
           Inr (h, set_enc (enc\<lparr> enc_write := buffer, enc_state := ES_WaitingAuthRequest a \<rparr>) s))
       else Inr (h, s))))"

text \<open>After the client is let in, deferred compression starts and the application is told.\<close>

definition auth_done :: "('q, 'h) serverenv \<Rightarrow> ('q, 'h) hs \<Rightarrow> ('q, 'h) hs res" where
  "auth_done V = (\<lambda>(h, s).
     invoke V CB_auth_succeeded (h, on_enc (\<lambda>enc. if is_deferred (enc_client_compression enc)
       then enc\<lparr> enc_decompress := init_decompress (enc_client_compression enc) (enc_decompress enc) \<rparr> else enc) s))"

definition process_auth_request ::
  "('q, 'h) serverenv \<Rightarrow> instant \<Rightarrow> bytes \<Rightarrow> bytes \<Rightarrow> Encrypted \<Rightarrow> ('q, 'h) hs \<Rightarrow> ('q, 'h) hs res" where
  "process_auth_request V now buf r enc = (\<lambda>(h, s).
     bindR (server_read_auth_request (sv_auth V) now buf r (cs_auth_user (ss_common s)) enc h) (\<lambda>(enc, user, h).
       let s = set_auth_user user (set_enc enc s);
           s = s\<lparr> ss_common := (ss_common s)\<lparr> cs_auth_attempts := cs_auth_attempts (ss_common s) + 1 \<rparr> \<rparr> in
       if enc_state enc = ES_InitCompression then auth_done V (h, s) else Inr (h, s)))"

definition process_info_response ::
  "('q, 'h) serverenv \<Rightarrow> bytes \<Rightarrow> AuthRequest \<Rightarrow> Encrypted \<Rightarrow> ('q, 'h) hs \<Rightarrow> ('q, 'h) hs res" where
  "process_info_response V r auth enc = (\<lambda>(h, s).
     bindR (read_userauth_info_response (sv_auth V) (cs_auth_user (ss_common s)) r auth (enc_write enc) h)
       (\<lambda>(resp, auth, buffer, h).
       let enc = enc\<lparr> enc_write := buffer, enc_state := (if resp then ES_InitCompression else ES_WaitingAuthRequest auth) \<rparr> in
       if resp then auth_done V (h, set_enc enc s) else Inr (h, set_enc enc s)))"

definition process_first_packet ::
  "('q, 'h) serverenv \<Rightarrow> u8 \<Rightarrow> bytes \<Rightarrow> Encrypted \<Rightarrow> ('q, 'h) hs \<Rightarrow> ('q, 'h) hs res" where
  "process_first_packet V m r enc = (\<lambda>(h, s).
     let w = ss_writer s;
         w = (if is_deferred (enc_server_compression enc)
              then w\<lparr> pw_compress := init_compress (enc_server_compression enc) (pw_compress w) \<rparr> else w) in
     server_read_authenticated V m r (h, set_enc_writer (enc\<lparr> enc_state := ES_Authenticated \<rparr>) w s))"

definition process_packet :: "('q, 'h) serverenv \<Rightarrow> instant \<Rightarrow> bytes \<Rightarrow> ('q, 'h) hs \<Rightarrow> ('q, 'h) hs res" where
  "process_packet V now buf hs =
     (case ss_enc (snd hs) of
        None \<Rightarrow> Inl E_Inconsistent
      | Some enc \<Rightarrow>
          (case buf of
             [] \<Rightarrow> Inr hs
           | m # r \<Rightarrow>
               (case enc_state enc of
                  ES_WaitingAuthServiceRequest _ _ \<Rightarrow> if m = SERVICE_REQUEST then process_service_request V r enc hs else Inr hs
                | ES_WaitingAuthRequest auth \<Rightarrow>
                    if m = USERAUTH_REQUEST then process_auth_request V now buf r enc hs
                    else if m = USERAUTH_INFO_RESPONSE then process_info_response V r auth enc hs
                    else Inr hs
                | ES_InitCompression \<Rightarrow> process_first_packet V m r enc hs
                | ES_Authenticated \<Rightarrow> server_read_authenticated V m r hs)))"

fun process_packets :: "('q, 'h) serverenv \<Rightarrow> instant \<Rightarrow> bytes list \<Rightarrow> ('q, 'h) hs \<Rightarrow> ('q, 'h) hs res" where
  "process_packets V now [] hs = Inr hs"
| "process_packets V now (p # ps) hs = bindR (process_packet V now p hs) (\<lambda>hs. process_packets V now ps hs)"

text \<open>New keys during a session: channels are flushed in the order \<open>ids\<close>, then waiting packets are processed.\<close>

definition rekey_done ::
  "('q, 'h) serverenv \<Rightarrow> moment \<Rightarrow> ChannelId list \<Rightarrow> NewKeys \<Rightarrow> ('q, 'h) hs \<Rightarrow> ('q, 'h) hs res" where
  "rekey_done V t ids newkeys = (\<lambda>(h, s).
     let cs = session_newkeys newkeys (ss_common s);
         w = cs_packet_writer cs; w = w\<lparr> pw_write_buffer := (pw_write_buffer w)\<lparr> sb_bytes := 0 \<rparr> \<rparr>;
         s = s\<lparr> ss_common := cs\<lparr> cs_packet_writer := w \<rparr> \<rparr> in
     bindR (case cs_encrypted cs of
          None \<Rightarrow> Inr s
        | Some enc \<Rightarrow>
            bindR (flush_all_pending_with_writer (sv_env V) ids (enc\<lparr> enc_last_rekey := mo_now t \<rparr>) w) (\<lambda>(enc, w).
              Inr (set_enc_writer enc w s))) (\<lambda>s.
     bindR (process_packets V (mo_now t) (ss_pending_reads s) (h, s\<lparr> ss_pending_reads := [] \<rparr>)) (\<lambda>(h, s).
     bindR (srv_flush V t (s\<lparr> ss_pending_reads := [], ss_pending_len := 0 \<rparr>)) (\<lambda>s. Inr (h, s)))))"

definition first_kex_done :: "('q, 'h) serverenv \<Rightarrow> moment \<Rightarrow> NewKeys \<Rightarrow> 'q ServerSession \<Rightarrow> 'q ServerSession" where
  "first_kex_done V t newkeys s =
     maybe_send_ext_info V (s\<lparr> ss_common :=
       session_encrypted (mo_now t) (ES_WaitingAuthServiceRequest False False) newkeys (ss_common s) \<rparr>)"

definition kex_done ::
  "('q, 'h) serverenv \<Rightarrow> moment \<Rightarrow> ChannelId list \<Rightarrow> NewKeys \<Rightarrow> ('q, 'h) hs \<Rightarrow> ('q, 'h) hs res" where
  "kex_done V t ids newkeys = (\<lambda>(h, s).
     let s = s\<lparr> ss_common := (ss_common s)\<lparr> cs_strict_kex := (cs_strict_kex (ss_common s) \<or> nm_strict_kex (nk_names newkeys)) \<rparr> \<rparr> in
     bindR (if ss_enc s \<noteq> None then rekey_done V t ids newkeys (h, s) else Inr (h, first_kex_done V t newkeys s)) (\<lambda>(h, s).
       Inr (h, clear_rekey_deadline (s\<lparr> ss_kex := Kex_Idle \<rparr>))))"

text \<open>A message of a key exchange in progress; the result has the sequence number the reader continues with.\<close>

definition kex_step ::
  "('q, 'h) serverenv \<Rightarrow> moment \<Rightarrow> ChannelId list \<Rightarrow> ServerKex \<Rightarrow> IncomingSshPacket \<Rightarrow> ('q, 'h) hs \<Rightarrow> (('q, 'h) hs \<times> u32) res" where
  "kex_step V t ids kex pkt = (\<lambda>(h, s).
     bindR (server_step (sv_kex V) (sv_lookup_dh_gex_group V h) (packet_emit (sv_env V)) (mo_random t) kex (Some pkt) (ss_writer s))
       (\<lambda>(progress, w).
       let s = s\<lparr> ss_common := (ss_common s)\<lparr> cs_packet_writer := w \<rparr> \<rparr> in
       bindR (case progress of
            NeedsReply kex reset \<Rightarrow>
              (let s = s\<lparr> ss_kex := Kex_InProgress kex \<rparr> in
               Inr ((h, if reset then s\<lparr> ss_common := session_reset_seqn (ss_common s) \<rparr> else s), in_seqn pkt))
          | Done _ newkeys \<Rightarrow>
              bindR (kex_done V t ids newkeys (h, s)) (\<lambda>(h, s).
                Inr ((h, s), if cs_strict_kex (ss_common s) then 0 else in_seqn pkt))) (\<lambda>((h, s), seqn).
       bindR (srv_flush V t s) (\<lambda>s. Inr ((h, s), seqn)))))"

definition strict_order_check :: "IncomingSshPacket \<Rightarrow> 'q ServerSession \<Rightarrow> unit res" where
  "strict_order_check pkt s =
     (case in_buffer pkt of
        [] \<Rightarrow> Inr ()
      | m # _ \<Rightarrow>
          if cs_strict_kex (ss_common s) \<and> ss_enc s = None
          then validate_client_msg_strict_kex m (unat (in_seqn pkt - 1)) else Inr ())"

definition reply ::
  "('q, 'h) serverenv \<Rightarrow> moment \<Rightarrow> ChannelId list \<Rightarrow> IncomingSshPacket \<Rightarrow> ('q, 'h) hs \<Rightarrow> (('q, 'h) hs \<times> u32) res" where
  "reply V t ids pkt = (\<lambda>(h, s).
     bindR (strict_order_check pkt s) (\<lambda>_.
       if \<exists>m\<in>set (take 1 (in_buffer pkt)). m \<in> {IGNORE, UNIMPLEMENTED, DEBUG} then Inr ((h, s), in_seqn pkt)
       else bindR (if take 1 (in_buffer pkt) = [KEXINIT] \<and> ss_kex s = Kex_Idle then begin_rekey V t s else Inr s) (\<lambda>s.
         let (taken, left) = kex_take (ss_kex s) in
         if \<exists>m\<in>set (take 1 (in_buffer pkt)). is_kex_msg m
         then (let s = s\<lparr> ss_kex := left \<rparr> in
               case taken of
                 Kex_InProgress kex \<Rightarrow> kex_step V t ids kex pkt (h, s)
               | _ \<Rightarrow> bindR (process_packet V (mo_now t) (in_buffer pkt) (h, s)) (\<lambda>hs. Inr (hs, in_seqn pkt)))
         else bindR (process_packet V (mo_now t) (in_buffer pkt) (h, s)) (\<lambda>hs. Inr (hs, in_seqn pkt)))))"

section \<open>An example environment\<close>

text \<open>A queue with room for one message that nobody reads, and an application that agrees to everything.\<close>

definition demo_mpsc :: "ChannelMsg list mpsc" where
  "demo_mpsc = \<lparr> mq_channel = (\<lambda>n. []), mq_try_send = (\<lambda>m q. if q = [] then TS_Ok (q @ [m]) else TS_Full),
     mq_send = (\<lambda>m q. Some (q @ [m])), mq_permit_send = (\<lambda>m q. q @ [m]), mq_is_closed = (\<lambda>q. False) \<rparr>"

definition demo_config :: Config where
  "demo_config = \<lparr> cf_server_id = SshId_Standard [66], cf_methods = method_set_all,
     cf_kex = \<lparr> preferred = demo_server_prefs, host_keys = [demo_host_key] \<rparr>, cf_limits = Limits_default,
     cf_window_size = 100, cf_maximum_packet_size = 100, cf_channel_buffer_size = 1, cf_max_pending_inbound_bytes = 10,
     cf_max_pending_outbound_bytes = 10, cf_max_auth_attempts = 10, cf_keepalive_max = 3,
     cf_write_progress_deadline = 30000, cf_write_min_drain = None, cf_rekey_deadline = 30000 \<rparr>"

definition demo_serverenv :: "(ChannelMsg list, unit) serverenv" where
  "demo_serverenv = \<lparr> sv_env = demo_env, sv_kex = demo_kexenv, sv_auth = demo_authenv, sv_mpsc = demo_mpsc,
     sv_config = demo_config, sv_call = (\<lambda>cb hs. Inr ((True, 0), hs)), sv_adjust_window = (\<lambda>c w h. (w, h)),
     sv_lookup_dh_gex_group = (\<lambda>h g. Inr None) \<rparr>"

text \<open>A session of which one channel is open.\<close>

definition demo_open_session :: "ChannelMsg list ServerSession" where
  "demo_open_session =
     set_enc demo_encrypted (set_app_channel 2 \<lparr> cr_sender = [], cr_window_size = 5 \<rparr> (server_session_new demo_serverenv [65]))"

lemma demo_serverenv_simps [simp]:
  "sv_mpsc demo_serverenv = demo_mpsc" "sv_config demo_serverenv = demo_config" "sv_env demo_serverenv = demo_env"
  "sv_auth demo_serverenv = demo_authenv" "sv_call demo_serverenv cb hs = Inr ((True, 0), hs)"
  "cf_max_pending_inbound_bytes demo_config = 10"
  by (simp_all add: demo_serverenv_def demo_config_def)

lemma demo_open_session_simps [simp]:
  "ss_enc demo_open_session = Some demo_encrypted"
  "ss_delivery demo_open_session = \<lparr> dl_channels = [2 \<mapsto> \<lparr> cr_sender = [], cr_window_size = 5 \<rparr>],
     dl_inbound = Map.empty, dl_needs_reserve = [] \<rparr>"
  by (simp_all add: demo_open_session_def set_enc_def set_app_channel_def server_session_new_def)

end
