(* ===== verification/Delivery.thy ===== *)
theory Delivery
  imports ServerRead
begin

text \<open>
  Laws of message delivery. The application works on the session it is lent only through the public operations of
  \<open>server/session.rs\<close>, the relation \<open>api_step\<close>. The run loop delivers received items, sends other messages to the
  application directly, registers the waiting reservations and resolves them in any order, the relation \<open>loop_step\<close>.
\<close>

section \<open>What the application may do\<close>

inductive api_step :: "('q, 'h) serverenv \<Rightarrow> 'q ServerSession \<Rightarrow> 'q ServerSession \<Rightarrow> bool" for V where
  api_data: "srv_data V cid data s = Inr s' \<Longrightarrow> api_step V s s'"
| api_extended_data: "srv_extended_data V cid ext data s = Inr s' \<Longrightarrow> api_step V s s'"
| api_eof: "srv_eof V cid s = Inr s' \<Longrightarrow> api_step V s s'"
| api_close: "srv_close V cid s = Inr s' \<Longrightarrow> api_step V s s'"
| api_success: "channel_success V cid s = Inr s' \<Longrightarrow> api_step V s s'"
| api_failure: "channel_failure V cid s = Inr s' \<Longrightarrow> api_step V s s'"
| api_request_success: "api_step V s (request_success V s)"
| api_request_failure: "api_step V s (request_failure V s)"
| api_notice: "channel_notice body V cid s = Inr s' \<Longrightarrow> api_step V s s'"
| api_open_failure: "api_step V s (channel_open_failure V cid reason description language s)"
| api_disconnect: "api_step V s (srv_disconnect V why description language_tag s)"
| api_debug: "api_step V s (srv_debug V always_display message language_tag s)"
| api_global: "api_step V s (global_request V await name body s)"
| api_open: "channel_open_generic V kind suffix s = Inr (cid, s') \<Longrightarrow> api_step V s s'"
| api_accept: "api_step V s (accept_open_handle (pending_open V m cid) s)"
| api_reject: "api_step V s (reject_open_handle (pending_open V m cid) reason s)"
| api_flush: "srv_flush V t s = Inr s' \<Longrightarrow> api_step V s s'"
| api_flush_pending: "srv_flush_pending V cid s = Inr (n, s') \<Longrightarrow> api_step V s s'"

definition handler_ok :: "('q, 'h) serverenv \<Rightarrow> bool" where
  "handler_ok V \<longleftrightarrow> (\<forall>cb h s r h' s'. sv_call V cb (h, s) = Inr (r, h', s') \<longrightarrow> (api_step V)\<^sup>*\<^sup>* s s')"

lemma set_enc_simps [simp]:
  "ss_delivery (set_enc e s) = ss_delivery s" "ss_delivery (set_enc_writer e w s) = ss_delivery s"
  "ss_delivery (on_enc f s) = ss_delivery s" "ss_delivery (signal x s) = ss_delivery s"
  "ss_delivery (set_wants_reply b s) = ss_delivery s"
  by (simp_all add: set_enc_def set_enc_writer_def on_enc_def signal_def set_wants_reply_def split: option.splits)

definition closes :: "ChannelId set \<Rightarrow> 'q delivery \<Rightarrow> 'q delivery \<Rightarrow> bool" where
  "closes K d d' \<longleftrightarrow> dl_channels d' = dl_channels d |` (- K) \<and> dl_inbound d' = dl_inbound d |` (- K) \<and>
     dl_needs_reserve d' = dl_needs_reserve d"

lemma closes_refl: "closes {} d d"
  by (simp add: closes_def restrict_map_def)

lemma closes_trans: "closes K d d' \<Longrightarrow> closes L d' d'' \<Longrightarrow> closes (K \<union> L) d d''"
  by (simp add: closes_def)

lemma teardown_inbound_eq: "teardown_inbound cid d = d\<lparr> dl_inbound := (dl_inbound d)(cid := None) \<rparr>"
  by (simp add: teardown_inbound_def Let_def split: option.splits)

lemma finalize_close_delivery:
  "ss_delivery (finalize_close cid s) = (ss_delivery s)\<lparr> dl_channels := (dl_channels (ss_delivery s))(cid := None),
     dl_inbound := (dl_inbound (ss_delivery s))(cid := None) \<rparr>"
  by (simp add: finalize_close_def remove_app_channel_def teardown_inbound_channel_def teardown_inbound_eq Let_def)

lemma finalize_close_closes: "closes {cid} (ss_delivery s) (ss_delivery (finalize_close cid s))"
  by (auto simp: closes_def finalize_close_delivery restrict_map_def fun_eq_iff)

lemma discard_delivery [simp]: "ss_delivery (discard_channel_outbound V cid s) = ss_delivery s"
  by (simp add: discard_channel_outbound_def Let_def)

lemma enforce_closes: "\<exists>K. closes K (ss_delivery s) (ss_delivery (enforce_outbound_cap V cid s))"
proof -
  have "closes {cid} (ss_delivery s) (ss_delivery (finalize_close cid (discard_channel_outbound V cid s)))"
    using finalize_close_closes [of cid "discard_channel_outbound V cid s"] by simp
  then show ?thesis
    by (auto simp: enforce_outbound_cap_def split: option.splits intro: closes_refl)
qed

lemma begin_rekey_delivery: "begin_rekey V t s = Inr s' \<Longrightarrow> ss_delivery s' = ss_delivery s"
  by (auto simp: begin_rekey_def Let_def res_simps split: if_splits)

lemma flush_delivery: "srv_flush V t s = Inr s' \<Longrightarrow> ss_delivery s' = ss_delivery s"
  by (auto simp: srv_flush_def res_simps split: option.splits if_splits dest!: begin_rekey_delivery)

lemma api_same_delivery: "ss_delivery s' = ss_delivery s \<Longrightarrow> \<exists>K. closes K (ss_delivery s) (ss_delivery s')"
  using closes_refl by metis

lemma api_step_closes: "api_step V s s' \<Longrightarrow> \<exists>K. closes K (ss_delivery s) (ss_delivery s')"
proof (induction rule: api_step.induct)
  case (api_data cid data s s')
  then obtain e where "s' = enforce_outbound_cap V cid e" "ss_delivery e = ss_delivery s"
    by (auto simp: srv_data_def res_simps split: option.splits)
  then show ?case using enforce_closes [of e V cid] by simp
next
  case (api_extended_data cid ext data s s')
  then obtain e where "s' = enforce_outbound_cap V cid e" "ss_delivery e = ss_delivery s"
    by (auto simp: srv_extended_data_def res_simps split: option.splits)
  then show ?case using enforce_closes [of e V cid] by simp
next
  case (api_close cid s s')
  then obtain enc where "s' = finalize_close cid (set_enc (channel_close (sv_codec V) cid enc) s) \<or>
      s' = set_enc (channel_close (sv_codec V) cid enc) s"
    by (auto simp: srv_close_def Let_def split: option.splits if_splits)
  then show ?case
    using finalize_close_closes [of cid "set_enc (channel_close (sv_codec V) cid enc) s"] closes_refl [of "ss_delivery s"]
    by auto
qed (rule api_same_delivery; auto simp: srv_eof_def channel_success_def channel_failure_def channel_answer_def
    request_success_def request_failure_def channel_notice_def channel_open_failure_def srv_disconnect_def srv_debug_def
    global_request_def channel_open_generic_def accept_open_handle_def reject_open_handle_def srv_flush_pending_def Let_def
    res_simps split: option.splits if_splits dest: flush_delivery)+

lemma api_run_closes: "(api_step V)\<^sup>*\<^sup>* s s' \<Longrightarrow> \<exists>K. closes K (ss_delivery s) (ss_delivery s')"
  by (induction rule: rtranclp_induct) (use closes_refl closes_trans api_step_closes in metis)+

lemma invoke_closes:
  assumes "handler_ok V" "invoke V cb (h, s) = Inr (h', s')"
  shows "\<exists>K. closes K (ss_delivery s) (ss_delivery s')"
proof -
  from assms(2) obtain r where "sv_call V cb (h, s) = Inr (r, h', s')"
    by (auto simp: invoke_def res_simps)
  with assms(1) have "(api_step V)\<^sup>*\<^sup>* s s'"
    unfolding handler_ok_def by blast
  then show ?thesis by (rule api_run_closes)
qed

section \<open>The invariant of the queues\<close>

definition queue_wf :: "nat \<Rightarrow> InboundQueue \<Rightarrow> bool" where
  "queue_wf cap q \<longleftrightarrow> iq_queue q \<noteq> [] \<and> iq_pending_bytes q = sum_list (map byte_len (iq_queue q)) \<and>
     iq_pending_bytes q \<le> cap \<and> (\<forall>i\<in>set (iq_queue q). \<not> empty_payload i) \<and>
     count_list (iq_queue q) II_Eof \<le> of_bool (iq_eof_queued q) \<and>
     count_list (iq_queue q) II_Close \<le> of_bool (iq_close_queued q) \<and> iq_generation q = 0 \<and> iq_reserving q"

text \<open>The reservations a channel has: waiting to be registered, or registered.\<close>

definition tokens :: "ChannelId \<Rightarrow> 'q delivery \<Rightarrow> reserve list \<Rightarrow> nat" where
  "tokens cid d rs = count_list (dl_needs_reserve d) cid + count_list rs (cid, 0)"

definition chan_wf :: "nat \<Rightarrow> InboundQueue option \<Rightarrow> bool \<Rightarrow> nat \<Rightarrow> bool" where
  "chan_wf cap q present n \<longleftrightarrow> (case q of Some q \<Rightarrow> queue_wf cap q \<and> n = 1 | None \<Rightarrow> n = 0 \<or> \<not> present)"

definition delivery_wf :: "nat \<Rightarrow> 'q delivery \<Rightarrow> reserve list \<Rightarrow> bool" where
  "delivery_wf cap d rs \<longleftrightarrow>
     (\<forall>cid. chan_wf cap (dl_inbound d cid) (dl_channels d cid \<noteq> None) (tokens cid d rs)) \<and> (\<forall>x\<in>set rs. snd x = 0)"

lemma chan_wf_simps [simp]:
  "chan_wf cap (Some q) present n \<longleftrightarrow> queue_wf cap q \<and> n = 1" "chan_wf cap None present n \<longleftrightarrow> n = 0 \<or> \<not> present"
  by (simp_all add: chan_wf_def)

lemma delivery_wf_at:
  "delivery_wf cap d rs \<Longrightarrow> chan_wf cap (dl_inbound d cid) (dl_channels d cid \<noteq> None) (tokens cid d rs)"
  by (simp add: delivery_wf_def)

lemma delivery_wf_Some: "delivery_wf cap d rs \<Longrightarrow> dl_inbound d cid = Some q \<Longrightarrow> queue_wf cap q \<and> tokens cid d rs = 1"
  using delivery_wf_at [of cap d rs cid] by simp

lemma delivery_wf_None:
  "delivery_wf cap d rs \<Longrightarrow> dl_inbound d cid = None \<Longrightarrow> dl_channels d cid = Some c \<Longrightarrow> tokens cid d rs = 0"
  using delivery_wf_at [of cap d rs cid] by simp

lemma delivery_wf_change:
  assumes "delivery_wf cap d rs"
    and "\<And>x. x \<noteq> cid \<Longrightarrow> dl_inbound d' x = dl_inbound d x \<and> dl_channels d' x = dl_channels d x \<and> tokens x d' rs' = tokens x d rs"
    and "chan_wf cap (dl_inbound d' cid) (dl_channels d' cid \<noteq> None) (tokens cid d' rs')" "\<And>x. x \<in> set rs' \<Longrightarrow> snd x = 0"
  shows "delivery_wf cap d' rs'"
  unfolding delivery_wf_def
proof (intro conjI allI ballI assms(4))
  fix x
  show "chan_wf cap (dl_inbound d' x) (dl_channels d' x \<noteq> None) (tokens x d' rs')"
    using assms(2) [of x] assms(3) delivery_wf_at [OF assms(1), of x] by (cases "x = cid") simp_all
qed

lemma delivery_wf_zero: "delivery_wf cap d rs \<Longrightarrow> x \<in> set rs \<Longrightarrow> snd x = 0"
  by (simp add: delivery_wf_def)

lemma queue_wf_enqueue:
  assumes "queue_wf cap q \<or> q = InboundQueue_default" "\<not> empty_payload item"
    and "iq_pending_bytes q + byte_len item \<le> cap"
    and "\<not> (item = II_Eof \<and> iq_eof_queued q \<or> item = II_Close \<and> iq_close_queued q)"
  shows "queue_wf cap (enqueue_item item q)"
  using assms by (auto simp: queue_wf_def enqueue_item_def InboundQueue_default_def count_list_append)

lemma deliver_behind_wf:
  assumes "delivery_wf cap d rs" "dl_inbound d cid = Some q" "\<not> empty_payload item"
    and "deliver_behind cap cid item q d = (r, d')"
  shows "delivery_wf cap d' rs"
proof (cases "d' = d")
  case False
  note q = delivery_wf_Some [OF assms(1,2)]
  with assms(4) False have d': "d' = d\<lparr> dl_inbound := (dl_inbound d)(cid \<mapsto> enqueue_item item q) \<rparr>"
    and c: "iq_pending_bytes q + byte_len item \<le> cap"
      "\<not> (item = II_Eof \<and> iq_eof_queued q \<or> item = II_Close \<and> iq_close_queued q)"
    by (auto simp: deliver_behind_def queue_wf_def split: if_splits)
  have t: "tokens x d' rs = tokens x d rs" for x
    by (simp add: tokens_def d')
  show ?thesis
    by (rule delivery_wf_change [OF assms(1), where cid = cid])
      (use q queue_wf_enqueue [OF _ assms(3) c] delivery_wf_zero [OF assms(1)] in \<open>simp_all add: t\<close>, simp_all add: d')
qed (use assms(1) in simp)

lemma deliver_now_wf:
  assumes "delivery_wf cap d rs" "dl_inbound d cid = None" "\<not> empty_payload item"
    and "deliver_now M cap cid item d = (r, d')"
  shows "delivery_wf cap d' rs"
proof (cases "dl_channels d cid")
  case None
  with assms(1,4) show ?thesis by (simp add: deliver_now_def)
next
  case (Some c)
  note t0 = delivery_wf_None [OF assms(1,2) Some] and zero = delivery_wf_zero [OF assms(1)]
  consider (same) "d' = d" | (sent) q where "d' = d\<lparr> dl_channels := (dl_channels d)(cid \<mapsto> c\<lparr> cr_sender := q \<rparr>) \<rparr>"
    | (queued) "d' = d\<lparr> dl_inbound := (dl_inbound d)(cid \<mapsto> enqueue_item item InboundQueue_default),
        dl_needs_reserve := dl_needs_reserve d @ [cid] \<rparr>" "iq_pending_bytes InboundQueue_default + byte_len item \<le> cap"
    using Some assms(2,4) by (auto simp: deliver_now_def Let_def split: try_send_result.splits if_splits)
  then show ?thesis
  proof cases
    case same
    with assms(1) show ?thesis by simp
  next
    case sent
    have t: "tokens x d' rs = tokens x d rs" for x
      by (simp add: tokens_def sent)
    show ?thesis
      by (rule delivery_wf_change [OF assms(1), where cid = cid]) (use t0 zero in \<open>simp_all add: t\<close>, simp_all add: sent assms(2))
  next
    case queued
    have t: "tokens x d' rs = tokens x d rs + of_bool (x = cid)" for x
      by (simp add: tokens_def queued(1))
    have q: "queue_wf cap (enqueue_item item InboundQueue_default)"
      by (rule queue_wf_enqueue [OF _ assms(3) queued(2)]) (simp_all add: InboundQueue_default_def)
    show ?thesis
      by (rule delivery_wf_change [OF assms(1), where cid = cid]) (use t0 zero in \<open>simp_all add: t\<close>, simp_all add: queued(1) q)
  qed
qed

lemma deliver_inbound_wf:
  assumes "delivery_wf cap d rs" "deliver_inbound M cap cid item d = (r, d')"
  shows "delivery_wf cap d' rs"
proof (cases "empty_payload item")
  case True
  with assms show ?thesis by (simp add: deliver_inbound_def)
next
  case False
  show ?thesis
  proof (cases "dl_inbound d cid")
    case None
    with False assms deliver_now_wf show ?thesis by (fastforce simp: deliver_inbound_def)
  next
    case (Some q)
    with delivery_wf_Some [OF assms(1)] have "iq_queue q \<noteq> []" by (auto simp: queue_wf_def)
    with Some False assms deliver_behind_wf show ?thesis by (fastforce simp: deliver_inbound_def)
  qed
qed

lemma reserve_one_wf:
  assumes "delivery_wf cap (d\<lparr> dl_needs_reserve := cid # todo \<rparr>) rs" "reserve_one cid (d, rs) = (d', rs')"
  shows "delivery_wf cap (d'\<lparr> dl_needs_reserve := todo \<rparr>) rs'"
proof -
  let ?d = "d\<lparr> dl_needs_reserve := cid # todo \<rparr>"
  note at = delivery_wf_at [OF assms(1), of cid] and zero = delivery_wf_zero [OF assms(1)]
  consider (same) "d' = d" "rs' = rs" "dl_inbound d cid = None"
    | (gone) "d' = d\<lparr> dl_inbound := (dl_inbound d)(cid := None) \<rparr>" "rs' = rs" "dl_channels d cid = None"
    | (reserved) q where "d' = d" "rs' = rs @ [(cid, 0)]" "dl_inbound d cid = Some q"
    using at assms(2) by (auto simp: reserve_one_def queue_wf_def teardown_inbound_eq split: option.splits if_splits)
  then show ?thesis
  proof cases
    case same
    with at zero show ?thesis
      by (intro delivery_wf_change [OF assms(1), where cid = cid]) (auto simp: tokens_def)
  next
    case gone
    with zero show ?thesis
      by (intro delivery_wf_change [OF assms(1), where cid = cid]) (auto simp: tokens_def)
  next
    case reserved
    with at zero show ?thesis
      by (intro delivery_wf_change [OF assms(1), where cid = cid]) (auto simp: tokens_def)
  qed
qed

lemma delivery_needs_same: "dl_needs_reserve d = xs \<Longrightarrow> d\<lparr> dl_needs_reserve := xs \<rparr> = d"
  by (cases d) simp

lemma drain_needs_reserve_wf:
  assumes "delivery_wf cap d rs" "drain_needs_reserve d rs = (d', rs')"
  shows "delivery_wf cap d' rs' \<and> dl_needs_reserve d' = []"
proof -
  have "delivery_wf cap (d1\<lparr> dl_needs_reserve := todo \<rparr>) rs1 \<Longrightarrow> dl_needs_reserve d1 = [] \<Longrightarrow>
      fold reserve_one todo (d1, rs1) = (d2, rs2) \<Longrightarrow> delivery_wf cap d2 rs2 \<and> dl_needs_reserve d2 = []" for todo d1 rs1 d2 rs2
  proof (induction todo arbitrary: d1 rs1)
    case Nil
    then show ?case by (simp add: delivery_needs_same)
  next
    case (Cons cid todo)
    obtain d3 rs3 where r: "reserve_one cid (d1, rs1) = (d3, rs3)" by fastforce
    moreover from r Cons.prems(2) have "dl_needs_reserve d3 = []"
      by (auto simp: reserve_one_def teardown_inbound_eq split: option.splits if_splits)
    ultimately show ?case
      using Cons.IH [of d3 rs3] Cons.prems reserve_one_wf [OF Cons.prems(1) r] by simp
  qed
  from this [of "dl_needs_reserve d" "d\<lparr> dl_needs_reserve := [] \<rparr>" rs d' rs'] assms show ?thesis
    by (simp add: drain_needs_reserve_def delivery_needs_same)
qed

lemma closes_wf:
  assumes "delivery_wf cap d rs" "closes K d d'"
  shows "delivery_wf cap d' rs"
  unfolding delivery_wf_def
proof (intro conjI allI ballI)
  fix cid
  show "chan_wf cap (dl_inbound d' cid) (dl_channels d' cid \<noteq> None) (tokens cid d' rs)"
    using assms(2) delivery_wf_at [OF assms(1), of cid] by (cases "cid \<in> K") (simp_all add: closes_def tokens_def)
qed (use delivery_wf_zero [OF assms(1)] in blast)

lemma maybe_grant_delivery [simp]: "ss_delivery (snd (maybe_grant_after_delivery V cid (h, s))) = ss_delivery s"
  by (simp add: maybe_grant_after_delivery_def Let_def case_prod_beta split: option.splits)

lemma update_queue_delivery:
  "ss_delivery (update_queue cid f s) = (ss_delivery s)\<lparr> dl_inbound :=
     (dl_inbound (ss_delivery s))(cid := map_option f (dl_inbound (ss_delivery s) cid)) \<rparr>"
  by (simp add: update_queue_def)

text \<open>The head of a queue is sent and taken off, before the callback runs.\<close>

definition popped :: "('q, 'h) serverenv \<Rightarrow> ChannelId \<Rightarrow> InboundQueue \<Rightarrow> 'q delivery \<Rightarrow> 'q delivery" where
  "popped V cid q d = d\<lparr>
     dl_inbound := (dl_inbound d)(cid \<mapsto> q\<lparr> iq_reserving := False, iq_queue := tl (iq_queue q),
       iq_pending_bytes := iq_pending_bytes q - byte_len (hd (iq_queue q)) \<rparr>),
     dl_channels := (dl_channels d)(cid :=
       map_option (\<lambda>c. c\<lparr> cr_sender := mq_permit_send (sv_mpsc V) (to_msg (hd (iq_queue q))) (cr_sender c) \<rparr>) (dl_channels d cid)) \<rparr>"

lemma pump_item_cases:
  assumes "pump_item V cid (hd (iq_queue q)) (h, update_queue cid (\<lambda>q. q\<lparr> iq_reserving := False \<rparr>) s) = Inr (h', s')"
    and "dl_inbound (ss_delivery s) cid = Some q"
  obtains s1 s2 h1 where "ss_delivery s1 = popped V cid q (ss_delivery s)"
    "invoke V (deferred_callback cid (capture_callback (hd (iq_queue q)))) (h1, s1) = Inr (h', s2)"
    "s' = (if hd (iq_queue q) = II_Close then finalize_close cid s2 else pump_rearm cid s2)"
proof -
  let ?i = "hd (iq_queue q)"
  define s0 where "s0 = permit_send V cid (to_msg ?i) (update_queue cid (\<lambda>q. q\<lparr> iq_queue := tl (iq_queue q),
    iq_pending_bytes := iq_pending_bytes q - byte_len ?i \<rparr>) (update_queue cid (\<lambda>q. q\<lparr> iq_reserving := False \<rparr>) s))"
  define hs1 where "hs1 = (if grants_window ?i then maybe_grant_after_delivery V cid (h, s0) else (h, s0))"
  have "ss_delivery s0 = popped V cid q (ss_delivery s)"
    using assms(2) by (simp add: s0_def permit_send_def update_queue_delivery popped_def fun_upd_def cong: if_cong)
  then have "ss_delivery (snd hs1) = popped V cid q (ss_delivery s)"
    by (simp add: hs1_def)
  moreover obtain h1 s1 where "hs1 = (h1, s1)" by (cases hs1)
  moreover have "pump_item V cid ?i (h, update_queue cid (\<lambda>q. q\<lparr> iq_reserving := False \<rparr>) s) =
    bindR (invoke V (deferred_callback cid (capture_callback ?i)) hs1) (\<lambda>(h, s).
      Inr (h, if ?i = II_Close then finalize_close cid s else pump_rearm cid s))"
    by (simp add: pump_item_def Let_def s0_def hs1_def case_prod_beta)
  moreover from calculation(2,3) assms(1) have "bindR (invoke V (deferred_callback cid (capture_callback ?i)) (h1, s1))
      (\<lambda>(h, s). Inr (h, if ?i = II_Close then finalize_close cid s else pump_rearm cid s)) = Inr (h', s')"
    by simp
  then obtain s2 where
    "invoke V (deferred_callback cid (capture_callback ?i)) (h1, s1) = Inr (h', s2)"
    "s' = (if ?i = II_Close then finalize_close cid s2 else pump_rearm cid s2)"
    by (auto simp: res_simps simp del: if_split)
  ultimately show ?thesis using that by simp
qed

lemma pump_rearm_delivery:
  "ss_delivery (pump_rearm cid s) =
     (let d = ss_delivery s in
      case dl_inbound d cid of
        Some q \<Rightarrow> if iq_queue q \<noteq> [] then d\<lparr> dl_inbound := (dl_inbound d)(cid \<mapsto> q\<lparr> iq_reserving := True \<rparr>),
            dl_needs_reserve := dl_needs_reserve d @ [cid] \<rparr>
          else d\<lparr> dl_inbound := (dl_inbound d)(cid := None) \<rparr>
      | None \<Rightarrow> d\<lparr> dl_inbound := (dl_inbound d)(cid := None) \<rparr>)"
  by (auto simp: pump_rearm_def update_queue_def Let_def split: option.splits)

lemma queue_wf_pop:
  assumes "queue_wf cap q" "tl (iq_queue q) \<noteq> []"
  shows "queue_wf cap (q\<lparr> iq_queue := tl (iq_queue q),
    iq_pending_bytes := iq_pending_bytes q - byte_len (hd (iq_queue q)), iq_reserving := True \<rparr>)"
proof -
  from assms obtain i rest where "iq_queue q = i # rest" by (cases "iq_queue q") (auto simp: queue_wf_def)
  with assms show ?thesis by (auto simp: queue_wf_def split: if_splits)
qed

text \<open>After the callback the queue is armed again or removed, unless the channel was closed meanwhile.\<close>

lemma pump_rearm_wf:
  assumes "delivery_wf cap d (rs1 @ (cid, 0) # rs2)" "dl_inbound d cid = Some q"
    and "closes K (popped V cid q d) (ss_delivery s2)"
  shows "delivery_wf cap (ss_delivery (if i = II_Close then finalize_close cid s2 else pump_rearm cid s2)) (rs1 @ rs2)"
proof -
  let ?f = "ss_delivery (if i = II_Close then finalize_close cid s2 else pump_rearm cid s2)"
  note q = delivery_wf_Some [OF assms(1,2)]
  note d2 = assms(3) [unfolded closes_def popped_def, simplified]
  have inb: "dl_inbound ?f x = (dl_inbound d |` (- K)) x" "dl_channels ?f x = (dl_channels d |` (- K)) x"
    "tokens x ?f (rs1 @ rs2) = tokens x d (rs1 @ (cid, 0) # rs2)" if "x \<noteq> cid" for x
    using that d2 by (auto simp: finalize_close_delivery pump_rearm_delivery tokens_def restrict_map_def Let_def split: option.splits)
  have "chan_wf cap (dl_inbound ?f cid) (dl_channels ?f cid \<noteq> None) (tokens cid ?f (rs1 @ rs2))"
    using q d2 queue_wf_pop [of cap q]
    by (auto simp: finalize_close_delivery pump_rearm_delivery tokens_def restrict_map_def Let_def split: option.splits)
  moreover have "chan_wf cap (dl_inbound ?f x) (dl_channels ?f x \<noteq> None) (tokens x ?f (rs1 @ rs2))" if "x \<noteq> cid" for x
    using inb [OF that] delivery_wf_at [OF assms(1), of x] by (cases "x \<in> K") simp_all
  ultimately show ?thesis
    using delivery_wf_zero [OF assms(1)] unfolding delivery_wf_def by (metis UnCI list.set_intros(2) set_append Un_iff)
qed

lemma finalize_wf:
  assumes "delivery_wf cap d (rs1 @ (cid, 0) # rs2)" "dl_inbound d cid = Some q" "dl_channels d1 = dl_channels d"
    and "\<And>x. x \<noteq> cid \<Longrightarrow> dl_inbound d1 x = dl_inbound d x" "dl_needs_reserve d1 = dl_needs_reserve d"
    and "closes K d1 (ss_delivery s2)"
  shows "delivery_wf cap (ss_delivery (finalize_close cid s2)) (rs1 @ rs2)"
proof -
  let ?f = "ss_delivery (finalize_close cid s2)"
  note d2 = assms(6) [unfolded closes_def]
  have inb: "dl_inbound ?f x = (dl_inbound d |` (- K)) x" "dl_channels ?f x = (dl_channels d |` (- K)) x"
    "tokens x ?f (rs1 @ rs2) = tokens x d (rs1 @ (cid, 0) # rs2)" if "x \<noteq> cid" for x
    using that d2 assms(3,5) assms(4) [OF that] by (auto simp: finalize_close_delivery tokens_def restrict_map_def)
  have "chan_wf cap (dl_inbound ?f cid) (dl_channels ?f cid \<noteq> None) (tokens cid ?f (rs1 @ rs2))"
    by (simp add: finalize_close_delivery)
  moreover have "chan_wf cap (dl_inbound ?f x) (dl_channels ?f x \<noteq> None) (tokens x ?f (rs1 @ rs2))" if "x \<noteq> cid" for x
    using inb [OF that] delivery_wf_at [OF assms(1), of x] by (cases "x \<in> K") simp_all
  ultimately show ?thesis
    using delivery_wf_zero [OF assms(1)] unfolding delivery_wf_def by (metis UnCI list.set_intros(2) set_append Un_iff)
qed

lemma pump_inbound_wf:
  assumes "handler_ok V" "delivery_wf cap (ss_delivery s) rs" "(cid, g) \<in> set rs"
    and "pump_inbound V cid g permit (h, s) = Inr (h', s')"
  shows "delivery_wf cap (ss_delivery s') (remove1 (cid, g) rs)"
proof -
  from delivery_wf_zero [OF assms(2,3)] have g: "g = 0" by simp
  from split_list_first [OF assms(3)] obtain rs1 rs2 where "rs = rs1 @ (cid, g) # rs2" "(cid, g) \<notin> set rs1" by blast
  with g have rs: "rs = rs1 @ (cid, 0) # rs2" "remove1 (cid, g) rs = rs1 @ rs2" by (simp_all add: remove1_append)
  note wf = assms(2) [unfolded rs(1)] and zero = delivery_wf_zero [OF assms(2) [unfolded rs(1)]]
  let ?d = "ss_delivery s"
  show ?thesis
  proof (cases "dl_inbound ?d cid")
    case None
    with assms(4) have "s' = s" by (simp add: pump_inbound_def)
    moreover have "delivery_wf cap ?d (rs1 @ rs2)"
      by (rule delivery_wf_change [OF wf, where cid = cid])
        (use None delivery_wf_at [OF wf, of cid] zero in \<open>auto simp: tokens_def\<close>)
    ultimately show ?thesis by (simp add: rs(2))
  next
    case (Some q)
    note q = delivery_wf_Some [OF wf Some]
    then obtain i rest where queue: "iq_queue q = i # rest" "iq_generation q = 0"
      by (cases "iq_queue q") (auto simp: queue_wf_def)
    let ?s1 = "update_queue cid (\<lambda>q. q\<lparr> iq_reserving := False \<rparr>) s"
    consider (taken) "pump_item V cid i (h, ?s1) = Inr (h', s')"
      | (closed) s2 where "invoke V (CB_channel_close cid) (h, ?s1) = Inr (h', s2)" "s' = finalize_close cid s2"
      | (gone) "s' = teardown_inbound_channel cid ?s1"
      using assms(4) Some g queue by (auto simp: pump_inbound_def Let_def res_simps split: if_splits)
    then have "delivery_wf cap (ss_delivery s') (rs1 @ rs2)"
    proof cases
      case taken
      with queue have "pump_item V cid (hd (iq_queue q)) (h, ?s1) = Inr (h', s')" by simp
      from pump_item_cases [OF this Some] obtain s1 s2 h1 where s: "ss_delivery s1 = popped V cid q ?d"
        "invoke V (deferred_callback cid (capture_callback (hd (iq_queue q)))) (h1, s1) = Inr (h', s2)"
        "s' = (if hd (iq_queue q) = II_Close then finalize_close cid s2 else pump_rearm cid s2)" .
      from invoke_closes [OF assms(1) s(2)] obtain K where "closes K (popped V cid q ?d) (ss_delivery s2)"
        by (auto simp: s(1))
      from pump_rearm_wf [OF wf Some this] show ?thesis by (simp add: s(3))
    next
      case closed
      from invoke_closes [OF assms(1) closed(1)] obtain K where "closes K (ss_delivery ?s1) (ss_delivery s2)" by blast
      from finalize_wf [OF wf Some _ _ _ this] show ?thesis
        by (simp add: update_queue_delivery closed(2))
    next
      case gone
      then have d': "ss_delivery s' = ?d\<lparr> dl_inbound := (dl_inbound ?d)(cid := None) \<rparr>"
        by (simp add: teardown_inbound_channel_def teardown_inbound_eq update_queue_delivery)
      show ?thesis
        by (rule delivery_wf_change [OF wf, where cid = cid]) (use q zero in \<open>auto simp: tokens_def d'\<close>)
    qed
    then show ?thesis by (simp add: rs(2))
  qed
qed

section \<open>The run loop\<close>

text \<open>
  The history of a queue is everything that was put into it; a reader that takes messages does not change it. A
  channel is registered under a number that no queue or reservation uses. Received data, end of file and close are
  items: they wait behind each other. Every other message to the application is sent directly, past the items that wait.
\<close>

definition mpsc_ok :: "'q mpsc \<Rightarrow> ('q \<Rightarrow> ChannelMsg list) \<Rightarrow> bool" where
  "mpsc_ok M hist \<longleftrightarrow> (\<forall>m q q'. mq_try_send M m q = TS_Ok q' \<longrightarrow> hist q' = hist q @ [m]) \<and>
     (\<forall>m q q'. mq_send M m q = Some q' \<longrightarrow> hist q' = hist q @ [m]) \<and>
     (\<forall>m q. hist (mq_permit_send M m q) = hist q @ [m])"

fun item_msg :: "ChannelMsg \<Rightarrow> bool" where
  "item_msg (CM_Data data) = True"
| "item_msg (CM_ExtendedData ext data) = True"
| "item_msg CM_Eof = True"
| "item_msg CM_Close = True"
| "item_msg _ = False"

lemma item_msg_to_msg [simp]: "item_msg (to_msg item)"
  by (cases item) simp_all

datatype loop_label = L_admit ChannelId ChannelMsg | L_direct ChannelId ChannelMsg | L_gone ChannelId | L_silent

definition repeated :: "InboundItem \<Rightarrow> InboundQueue option \<Rightarrow> bool" where
  "repeated item q = (case q of
     None \<Rightarrow> False | Some q \<Rightarrow> item = II_Eof \<and> iq_eof_queued q \<or> item = II_Close \<and> iq_close_queued q)"

text \<open>An item is admitted unless it is empty, repeats a queued end of file or close, or is refused.\<close>

definition deliver_label :: "ChannelId \<Rightarrow> InboundItem \<Rightarrow> InboundDelivery \<Rightarrow> 'q delivery \<Rightarrow> loop_label" where
  "deliver_label cid item r d =
     (if \<not> empty_payload item \<and> (r = ID_Delivered \<or> r = ID_Queued \<and> \<not> repeated item (dl_inbound d cid))
      then L_admit cid (to_msg item) else L_silent)"

text \<open>A message that is sent directly arrives unless the channel or its reader is gone or, for a window, the buffer is full.\<close>

definition send_label :: "('q, 'h) serverenv \<Rightarrow> ChannelId \<Rightarrow> ChannelMsg \<Rightarrow> 'q ServerSession \<Rightarrow> loop_label" where
  "send_label V cid m s =
     (if \<exists>c\<in>set_option (app_channel s cid). mq_send (sv_mpsc V) m (cr_sender c) \<noteq> None then L_direct cid m else L_silent)"

definition window_label :: "('q, 'h) serverenv \<Rightarrow> ChannelId \<Rightarrow> u32 \<Rightarrow> 'q ServerSession \<Rightarrow> loop_label" where
  "window_label V cid new_size s =
     (if \<exists>c\<in>set_option (app_channel s cid). \<exists>q. mq_try_send (sv_mpsc V) (CM_WindowAdjusted new_size) (cr_sender c) = TS_Ok q
      then L_direct cid (CM_WindowAdjusted new_size) else L_silent)"

inductive loop_step ::
  "('q, 'h) serverenv \<Rightarrow> ('q \<Rightarrow> ChannelMsg list) \<Rightarrow> loop_label \<Rightarrow>
     ('q, 'h) hs \<times> reserve list \<Rightarrow> ('q, 'h) hs \<times> reserve list \<Rightarrow> bool"
  for V hist where
  loop_deliver: "srv_deliver_inbound V cid item s = (r, s') \<Longrightarrow>
    loop_step V hist (deliver_label cid item r (ss_delivery s)) ((h, s), rs) ((h, s'), rs)"
| loop_drain: "srv_drain_needs_reserve rs s = (s', rs') \<Longrightarrow> loop_step V hist L_silent ((h, s), rs) ((h, s'), rs')"
| loop_pump: "(cid, g) \<in> set rs \<Longrightarrow> pump_inbound V cid g permit (h, s) = Inr (h', s') \<Longrightarrow>
    loop_step V hist (if permit then L_silent else L_gone cid) ((h, s), rs) ((h', s'), remove1 (cid, g) rs)"
| loop_callback: "invoke V cb (h, s) = Inr (h', s') \<Longrightarrow> loop_step V hist L_silent ((h, s), rs) ((h', s'), rs)"
| loop_receive: "app_channel s cid = Some c \<Longrightarrow> hist q = hist (cr_sender c) \<Longrightarrow>
    loop_step V hist L_silent ((h, s), rs) ((h, set_app_channel cid (c\<lparr> cr_sender := q \<rparr>) s), rs)"
| loop_open: "dl_inbound (ss_delivery s) cid = None \<Longrightarrow> tokens cid (ss_delivery s) rs = 0 \<Longrightarrow> app_channel s cid = None \<Longrightarrow>
    loop_step V hist L_silent ((h, s), rs) ((h, set_app_channel cid c s), rs)"
| loop_close: "loop_step V hist L_silent ((h, s), rs) ((h, finalize_close cid s), rs)"
| loop_send: "\<not> item_msg m \<Longrightarrow> loop_step V hist (send_label V cid m s) ((h, s), rs) ((h, app_send V cid m s), rs)"
| loop_window: "loop_step V hist (window_label V cid new_size s) ((h, s), rs) ((h, notify_window V cid new_size s), rs)"
| loop_remove: "loop_step V hist L_silent ((h, s), rs) ((h, remove_app_channel cid s), rs)"
| loop_other: "ss_delivery s' = ss_delivery s \<Longrightarrow> loop_step V hist L_silent ((h, s), rs) ((h', s'), rs)"

inductive_cases loop_stepE: "loop_step V hist l ((h, s), rs) ((h', s'), rs')"

text \<open>Direct messages change the buffer of one registered channel.\<close>

lemma app_send_delivery:
  "(send_label V cid m s = L_silent \<and> ss_delivery (app_send V cid m s) = ss_delivery s) \<or>
     (\<exists>c q. send_label V cid m s = L_direct cid m \<and> app_channel s cid = Some c \<and> mq_send (sv_mpsc V) m (cr_sender c) = Some q \<and>
       ss_delivery (app_send V cid m s) = (ss_delivery s)\<lparr> dl_channels := (dl_channels (ss_delivery s))(cid \<mapsto> c\<lparr> cr_sender := q \<rparr>) \<rparr>)"
  by (auto simp: app_send_def send_label_def set_app_channel_def split: option.splits)

lemma notify_window_delivery:
  "(window_label V cid n s = L_silent \<and> ss_delivery (notify_window V cid n s) = ss_delivery s) \<or>
     (\<exists>c q. window_label V cid n s = L_silent \<and> app_channel s cid = Some c \<and> q = cr_sender c \<and> ss_delivery (notify_window V cid n s) =
       (ss_delivery s)\<lparr> dl_channels := (dl_channels (ss_delivery s))(cid \<mapsto> c\<lparr> cr_window_size := n, cr_sender := q \<rparr>) \<rparr>) \<or>
     (\<exists>c q. window_label V cid n s = L_direct cid (CM_WindowAdjusted n) \<and> app_channel s cid = Some c \<and>
       mq_try_send (sv_mpsc V) (CM_WindowAdjusted n) (cr_sender c) = TS_Ok q \<and> ss_delivery (notify_window V cid n s) =
       (ss_delivery s)\<lparr> dl_channels := (dl_channels (ss_delivery s))(cid \<mapsto> c\<lparr> cr_window_size := n, cr_sender := q \<rparr>) \<rparr>)"
proof -
  have "c\<lparr> cr_window_size := n, cr_sender := cr_sender c \<rparr> = c\<lparr> cr_window_size := n \<rparr>" for c :: "'a ChannelRef"
    by (cases c) simp
  then show ?thesis
    by (auto simp: notify_window_def window_label_def set_app_channel_def Let_def split: option.splits try_send_result.splits)
qed

lemma set_channel_wf:
  assumes "delivery_wf cap d rs" "dl_channels d cid = Some c"
  shows "delivery_wf cap (d\<lparr> dl_channels := (dl_channels d)(cid \<mapsto> c') \<rparr>) rs"
  by (rule delivery_wf_change [OF assms(1), where cid = cid])
    (use assms(2) delivery_wf_at [OF assms(1), of cid] delivery_wf_zero [OF assms(1)] in \<open>auto simp: tokens_def\<close>)

lemma unregister_wf:
  assumes "delivery_wf cap d rs"
  shows "delivery_wf cap (d\<lparr> dl_channels := (dl_channels d)(cid := None) \<rparr>) rs"
  by (rule delivery_wf_change [OF assms, where cid = cid])
    (use delivery_wf_at [OF assms, of cid] delivery_wf_zero [OF assms] in
      \<open>auto simp: tokens_def chan_wf_def split: option.splits\<close>)

lemma loop_step_wf:
  assumes "loop_step V hist l ((h, s), rs) ((h', s'), rs')" "handler_ok V"
    and "delivery_wf (cf_max_pending_inbound_bytes (sv_config V)) (ss_delivery s) rs"
  shows "delivery_wf (cf_max_pending_inbound_bytes (sv_config V)) (ss_delivery s') rs'"
proof (rule loop_stepE [OF assms(1)], goal_cases)
  case (1 cid item r)
  then show ?thesis
    using deliver_inbound_wf [OF assms(3)] by (auto simp: srv_deliver_inbound_def split: prod.splits)
next
  case 2
  then show ?thesis
    using drain_needs_reserve_wf [OF assms(3)] by (auto simp: srv_drain_needs_reserve_def split: prod.splits)
next
  case (3 cid g permit)
  then show ?thesis using pump_inbound_wf [OF assms(2,3)] by simp
next
  case (4 cb)
  then show ?thesis using invoke_closes [OF assms(2)] closes_wf [OF assms(3)] by blast
next
  case (5 cid c q)
  then show ?thesis using set_channel_wf [OF assms(3)] by (simp add: set_app_channel_def)
next
  case (6 cid c)
  show ?thesis
    by (rule delivery_wf_change [OF assms(3), where cid = cid])
      (use 6 delivery_wf_zero [OF assms(3)] in \<open>auto simp: set_app_channel_def tokens_def\<close>)
next
  case (7 cid)
  then show ?thesis using closes_wf [OF assms(3) finalize_close_closes] by simp
next
  case (8 m cid)
  then show ?thesis using app_send_delivery [of V cid m s] set_channel_wf [OF assms(3)] assms(3) by auto
next
  case (9 cid n)
  then show ?thesis using notify_window_delivery [of V cid n s] set_channel_wf [OF assms(3)] assms(3) by auto
next
  case (10 cid)
  then show ?thesis using unregister_wf [OF assms(3)] by (simp add: remove_app_channel_def)
next
  case 11
  with assms(3) show ?thesis by simp
qed

section \<open>Delivery refines a queue\<close>

type_synonym fifo = "ChannelMsg list \<times> ChannelMsg list"

text \<open>
  The abstract channel: what its reader got, and what waits. Items pass or wait, and the first one moves up; other messages
  pass whatever waits.
\<close>

inductive fifo_step :: "ChannelId \<Rightarrow> loop_label \<Rightarrow> fifo \<Rightarrow> fifo \<Rightarrow> bool" for cid where
  fifo_pass: "item_msg m \<Longrightarrow> fifo_step cid (L_admit cid m) (a, []) (a @ [m], [])"
| fifo_queue: "item_msg m \<Longrightarrow> fifo_step cid (L_admit cid m) (a, w) (a, w @ [m])"
| fifo_direct: "\<not> item_msg m \<Longrightarrow> fifo_step cid (L_direct cid m) (a, w) (a @ [m], w)"
| fifo_take: "fifo_step cid L_silent (a, m # w) (a @ [m], w)"
| fifo_gone: "fifo_step cid (L_gone cid) (a, w) (a, [])"
| fifo_skip: "(\<And>m. l \<noteq> L_admit cid m \<and> l \<noteq> L_direct cid m) \<Longrightarrow> fifo_step cid l x x"

definition fifo_of :: "('q \<Rightarrow> ChannelMsg list) \<Rightarrow> ChannelId \<Rightarrow> 'q delivery \<Rightarrow> fifo option" where
  "fifo_of hist cid d =
     map_option (\<lambda>c. (hist (cr_sender c), case dl_inbound d cid of None \<Rightarrow> [] | Some q \<Rightarrow> map to_msg (iq_queue q)))
       (dl_channels d cid)"

lemma deliver_refines:
  assumes "mpsc_ok M hist" "delivery_wf cap d rs" "deliver_inbound M cap k item d = (r, d')"
    and "fifo_of hist cid d = Some x" "fifo_of hist cid d' = Some y"
  shows "fifo_step cid (deliver_label k item r d) x y"
proof (cases "k = cid \<and> \<not> empty_payload item")
  case False
  with assms(3) have "dl_channels d' cid = dl_channels d cid" "dl_inbound d' cid = dl_inbound d cid"
    by (auto simp: deliver_inbound_def deliver_behind_def deliver_now_def Let_def split: option.splits if_splits try_send_result.splits)
  with False assms(4,5) show ?thesis
    by (auto simp: fifo_of_def deliver_label_def intro: fifo_skip)
next
  case True
  from assms(4) obtain c where c: "dl_channels d cid = Some c" by (auto simp: fifo_of_def)
  show ?thesis
  proof (cases "dl_inbound d cid")
    case None
    with True assms(1,3-5) c show ?thesis
      by (auto simp: deliver_inbound_def deliver_now_def Let_def fifo_of_def deliver_label_def repeated_def mpsc_ok_def
          enqueue_item_def InboundQueue_default_def split: if_splits try_send_result.splits
          intro: fifo_skip) (simp_all add: fifo_pass fifo_queue [of _ _ _ "[]", simplified])
  next
    case (Some q)
    with delivery_wf_Some [OF assms(2)] have "iq_queue q \<noteq> []" by (auto simp: queue_wf_def)
    with Some True assms(3-5) c show ?thesis
      by (auto simp: deliver_inbound_def deliver_behind_def fifo_of_def deliver_label_def repeated_def
          enqueue_item_def fifo_queue split: if_splits intro: fifo_skip)
  qed
qed

lemma closes_fifo:
  assumes "closes K d d'" "fifo_of hist cid d' = Some y"
  shows "fifo_of hist cid d = Some y"
  using assms by (cases "cid \<in> K") (auto simp: closes_def fifo_of_def)

lemma drain_fifo:
  assumes "drain_needs_reserve d rs = (d', rs')" "fifo_of hist cid d = Some x"
  shows "fifo_of hist cid d' = Some x"
proof -
  have "fifo_of hist cid d1 = Some x \<Longrightarrow> fold reserve_one todo (d1, rs1) = (d2, rs2) \<Longrightarrow> fifo_of hist cid d2 = Some x"
    for todo d1 rs1 d2 rs2
  proof (induction todo arbitrary: d1 rs1)
    case (Cons k todo)
    obtain d3 rs3 where r: "reserve_one k (d1, rs1) = (d3, rs3)" by fastforce
    with Cons.prems(1) have "fifo_of hist cid d3 = Some x"
      by (cases "k = cid") (auto simp: reserve_one_def teardown_inbound_eq fifo_of_def split: option.splits if_splits)
    with Cons r show ?case by simp
  qed simp
  from this [of "d\<lparr> dl_needs_reserve := [] \<rparr>" "dl_needs_reserve d" rs d' rs'] assms show ?thesis
    by (simp add: drain_needs_reserve_def fifo_of_def)
qed

lemma finalize_fifo: "fifo_of hist cid (ss_delivery (finalize_close k s)) = Some y \<Longrightarrow> k \<noteq> cid \<and> fifo_of hist cid (ss_delivery s) = Some y"
  by (cases "k = cid") (simp_all add: finalize_close_delivery fifo_of_def)

lemma rearm_fifo: "fifo_of hist cid (ss_delivery (pump_rearm k s)) = fifo_of hist cid (ss_delivery s)"
  by (cases "k = cid") (auto simp: pump_rearm_delivery fifo_of_def Let_def split: option.splits)

lemma pump_refines:
  assumes "handler_ok V" "mpsc_ok (sv_mpsc V) hist" "delivery_wf cap (ss_delivery s) rs" "(k, g) \<in> set rs"
    and "pump_inbound V k g permit (h, s) = Inr (h', s')"
    and "fifo_of hist cid (ss_delivery s) = Some x" "fifo_of hist cid (ss_delivery s') = Some y"
  shows "fifo_step cid (if permit then L_silent else L_gone k) x y"
proof (cases "dl_inbound (ss_delivery s) k")
  case None
  with assms(5-7) show ?thesis by (auto simp: pump_inbound_def intro: fifo_skip)
next
  case (Some q)
  from delivery_wf_zero [OF assms(3,4)] have g: "g = 0" by simp
  from delivery_wf_Some [OF assms(3) Some] obtain i rest where queue: "iq_queue q = i # rest" "iq_generation q = 0"
    by (cases "iq_queue q") (auto simp: queue_wf_def)
  let ?s1 = "update_queue k (\<lambda>q. q\<lparr> iq_reserving := False \<rparr>) s"
  consider (taken) "permit" "pump_item V k (hd (iq_queue q)) (h, ?s1) = Inr (h', s')"
    | (closed) s2 where "\<not> permit" "invoke V (CB_channel_close k) (h, ?s1) = Inr (h', s2)" "s' = finalize_close k s2"
    | (gone) "\<not> permit" "s' = teardown_inbound_channel k ?s1"
    using assms(5) Some g queue by (auto simp: pump_inbound_def Let_def res_simps split: if_splits)
  then show ?thesis
  proof cases
    case taken
    from pump_item_cases [OF taken(2) Some] obtain s1 s2 h1 where s: "ss_delivery s1 = popped V k q (ss_delivery s)"
      "invoke V (deferred_callback k (capture_callback (hd (iq_queue q)))) (h1, s1) = Inr (h', s2)"
      "s' = (if hd (iq_queue q) = II_Close then finalize_close k s2 else pump_rearm k s2)" .
    from invoke_closes [OF assms(1) s(2)] obtain K where K: "closes K (popped V k q (ss_delivery s)) (ss_delivery s2)"
      by (auto simp: s(1))
    from assms(7) s(3) have "fifo_of hist cid (ss_delivery s2) = Some y"
      using finalize_fifo [of hist cid k s2 y] by (simp add: rearm_fifo split: if_splits)
    from closes_fifo [OF K this] have "fifo_of hist cid (popped V k q (ss_delivery s)) = Some y" .
    with assms(2,6) Some queue taken(1) show ?thesis
      by (cases "k = cid") (auto simp: popped_def fifo_of_def mpsc_ok_def intro: fifo_skip fifo_take)
  next
    case closed
    from finalize_fifo [of hist cid k s2 y] assms(7) closed(3) have "k \<noteq> cid" "fifo_of hist cid (ss_delivery s2) = Some y"
      by auto
    with closes_fifo invoke_closes [OF assms(1) closed(2)] have "fifo_of hist cid (ss_delivery ?s1) = Some y" by metis
    with \<open>k \<noteq> cid\<close> assms(6) closed(1) show ?thesis
      by (auto simp: update_queue_delivery fifo_of_def intro: fifo_skip)
  next
    case gone
    with assms(6,7) show ?thesis
      by (cases "k = cid") (auto simp: teardown_inbound_channel_def teardown_inbound_eq update_queue_delivery fifo_of_def
          intro: fifo_skip fifo_gone)
  qed
qed

lemma loop_step_refines:
  assumes "loop_step V hist l ((h, s), rs) ((h', s'), rs')" "handler_ok V" "mpsc_ok (sv_mpsc V) hist"
    and "delivery_wf (cf_max_pending_inbound_bytes (sv_config V)) (ss_delivery s) rs"
    and "fifo_of hist cid (ss_delivery s) = Some x" "fifo_of hist cid (ss_delivery s') = Some y"
  shows "fifo_step cid l x y"
proof (rule loop_stepE [OF assms(1)], goal_cases)
  case (1 k item r)
  with deliver_refines [OF assms(3,4), of k item r _ cid x y] assms(5,6) show ?thesis
    by (auto simp: srv_deliver_inbound_def split: prod.splits)
next
  case 2
  with drain_fifo [OF _ assms(5)] assms(6) show ?thesis
    by (auto simp: srv_drain_needs_reserve_def split: prod.splits intro: fifo_skip)
next
  case (3 k g permit)
  with pump_refines [OF assms(2-4) _ _ assms(5,6)] show ?thesis by simp
next
  case (4 cb)
  then obtain K where "closes K (ss_delivery s) (ss_delivery s')" using invoke_closes [OF assms(2)] by blast
  from closes_fifo [OF this assms(6)] assms(5) 4 show ?thesis by (auto intro: fifo_skip)
next
  case (5 k c q)
  with assms(5,6) show ?thesis
    by (cases "k = cid") (auto simp: set_app_channel_def fifo_of_def intro: fifo_skip)
next
  case (6 k c)
  with assms(5,6) show ?thesis
    by (cases "k = cid") (auto simp: set_app_channel_def fifo_of_def intro: fifo_skip)
next
  case (7 k)
  with finalize_fifo [of hist cid k s y] assms(5,6) show ?thesis
    by (auto intro: fifo_skip)
next
  case (8 m k)
  with app_send_delivery [of V k m s] assms(3,5,6) show ?thesis
    by (cases "k = cid") (auto simp: fifo_of_def mpsc_ok_def fifo_direct fifo_skip)
next
  case (9 k n)
  with notify_window_delivery [of V k n s] assms(3,5,6) show ?thesis
    by (cases "k = cid") (auto simp: fifo_of_def mpsc_ok_def fifo_direct fifo_skip)
next
  case (10 k)
  with assms(5,6) show ?thesis
    by (cases "k = cid") (auto simp: remove_app_channel_def fifo_of_def intro: fifo_skip)
next
  case 11
  with assms(5,6) show ?thesis by (auto intro: fifo_skip)
qed

section \<open>Runs\<close>

text \<open>A run of the loop during which a channel stays registered, with the labels of its steps.\<close>

inductive loop_run ::
  "('q, 'h) serverenv \<Rightarrow> ('q \<Rightarrow> ChannelMsg list) \<Rightarrow> ChannelId \<Rightarrow> ('q, 'h) hs \<times> reserve list \<Rightarrow> loop_label list \<Rightarrow>
     ('q, 'h) hs \<times> reserve list \<Rightarrow> bool" for V hist cid st where
  run_start: "loop_run V hist cid st [] st"
| run_next: "loop_run V hist cid st ls ((h, s), rs) \<Longrightarrow> loop_step V hist l ((h, s), rs) ((h', s'), rs') \<Longrightarrow>
    app_channel s' cid \<noteq> None \<Longrightarrow> loop_run V hist cid st (ls @ [l]) ((h', s'), rs')"

inductive fifo_run :: "ChannelId \<Rightarrow> fifo \<Rightarrow> loop_label list \<Rightarrow> fifo \<Rightarrow> bool" for cid x where
  fifo_start: "fifo_run cid x [] x"
| fifo_next: "fifo_run cid x ls y \<Longrightarrow> fifo_step cid l y z \<Longrightarrow> fifo_run cid x (ls @ [l]) z"

fun admitted :: "ChannelId \<Rightarrow> loop_label list \<Rightarrow> ChannelMsg list" where
  "admitted cid [] = []"
| "admitted cid (L_admit k m # ls) = (if k = cid then m # admitted cid ls else admitted cid ls)"
| "admitted cid (_ # ls) = admitted cid ls"

fun direct :: "ChannelId \<Rightarrow> loop_label list \<Rightarrow> ChannelMsg list" where
  "direct cid [] = []"
| "direct cid (L_direct k m # ls) = (if k = cid then m # direct cid ls else direct cid ls)"
| "direct cid (_ # ls) = direct cid ls"

lemma admitted_append [simp]: "admitted cid (xs @ ys) = admitted cid xs @ admitted cid ys"
  by (induction cid xs rule: admitted.induct) simp_all

lemma direct_append [simp]: "direct cid (xs @ ys) = direct cid xs @ direct cid ys"
  by (induction cid xs rule: direct.induct) simp_all

inductive_cases fifo_stepE: "fifo_step cid l x y"

text \<open>The reader gets the items in the order of their arrival, and the other messages in theirs.\<close>

lemma fifo_step_order:
  assumes "fifo_step cid l (a, w) (a', w')" "l \<noteq> L_gone cid" "\<forall>m\<in>set w. item_msg m"
  shows "\<exists>z. a' = a @ z \<and> filter item_msg z @ w' = w @ admitted cid [l] \<and> filter (\<lambda>m. \<not> item_msg m) z = direct cid [l] \<and>
    (\<forall>m\<in>set w'. item_msg m)"
  using assms by (cases l) (auto elim: fifo_stepE)

lemma fifo_run_order:
  assumes "fifo_run cid (a, w) ls (a', w')" "L_gone cid \<notin> set ls" "\<forall>m\<in>set w. item_msg m"
  shows "\<exists>z. a' = a @ z \<and> filter item_msg z @ w' = w @ admitted cid ls \<and> filter (\<lambda>m. \<not> item_msg m) z = direct cid ls \<and>
    (\<forall>m\<in>set w'. item_msg m)"
  using assms
proof (induction "(a', w')" arbitrary: a' w' rule: fifo_run.induct)
  case (fifo_next ls y l)
  obtain a1 w1 where y: "y = (a1, w1)" by (cases y)
  from fifo_next.hyps(2) fifo_next.prems obtain z1 where 1: "a1 = a @ z1" "filter item_msg z1 @ w1 = w @ admitted cid ls"
    "filter (\<lambda>m. \<not> item_msg m) z1 = direct cid ls" "\<forall>m\<in>set w1. item_msg m"
    by (auto simp: y)
  from fifo_step_order [OF fifo_next.hyps(3) [unfolded y] _ 1(4)] fifo_next.prems obtain z2 where 2: "a' = a1 @ z2"
    "filter item_msg z2 @ w' = w1 @ admitted cid [l]" "filter (\<lambda>m. \<not> item_msg m) z2 = direct cid [l]" "\<forall>m\<in>set w'. item_msg m"
    by auto
  have "filter item_msg (z1 @ z2) @ w' = w @ admitted cid (ls @ [l])"
    using 1(2) 2(2) by (simp del: admitted.simps flip: append_assoc) (simp del: admitted.simps)
  with 1(1,3) 2(1,3,4) show ?case by (intro exI [of _ "z1 @ z2"]) (simp del: admitted.simps direct.simps)
qed simp

lemma fifo_of_items: "fifo_of hist cid d = Some (a, w) \<Longrightarrow> m \<in> set w \<Longrightarrow> item_msg m"
  by (auto simp: fifo_of_def split: option.splits)

lemma loop_steps_wf:
  assumes "(\<lambda>x y. \<exists>l. loop_step V hist l x y)\<^sup>*\<^sup>* ((h0, s0), rs0) ((h, s), rs)" "handler_ok V"
    and "delivery_wf (cf_max_pending_inbound_bytes (sv_config V)) (ss_delivery s0) rs0"
  shows "delivery_wf (cf_max_pending_inbound_bytes (sv_config V)) (ss_delivery s) rs"
  using assms(1)
proof (induction "((h, s), rs)" arbitrary: h s rs rule: rtranclp_induct)
  case base
  with assms(3) show ?case by simp
next
  case (step y)
  obtain h1 s1 rs1 where y: "y = ((h1, s1), rs1)" by (metis surj_pair)
  from step.hyps(2) obtain l where "loop_step V hist l ((h1, s1), rs1) ((h, s), rs)" by (auto simp: y)
  from loop_step_wf [OF this assms(2)] step.hyps(3) show ?case by (simp add: y)
qed

lemma loop_run_steps: "loop_run V hist cid st ls st' \<Longrightarrow> (\<lambda>x y. \<exists>l. loop_step V hist l x y)\<^sup>*\<^sup>* st st'"
  by (induction rule: loop_run.induct) (auto intro: rtranclp.rtrancl_into_rtrancl)

lemmas loop_run_wf = loop_steps_wf [OF loop_run_steps]

lemma loop_run_refines:
  assumes "loop_run V hist cid ((h0, s0), rs0) ls ((h, s), rs)" "handler_ok V" "mpsc_ok (sv_mpsc V) hist"
    and "delivery_wf (cf_max_pending_inbound_bytes (sv_config V)) (ss_delivery s0) rs0"
    and "fifo_of hist cid (ss_delivery s0) = Some x"
  shows "\<exists>y. fifo_of hist cid (ss_delivery s) = Some y \<and> fifo_run cid x ls y"
  using assms(1)
proof (induction "((h, s), rs)" arbitrary: h s rs rule: loop_run.induct)
  case run_start
  with assms(5) show ?case by (auto intro: fifo_start)
next
  case (run_next ls h1 s1 rs1 l h' s' rs')
  from run_next.hyps(2) obtain y where y: "fifo_of hist cid (ss_delivery s1) = Some y" "fifo_run cid x ls y" by blast
  from run_next.hyps(4) obtain z where z: "fifo_of hist cid (ss_delivery s') = Some z" by (auto simp: fifo_of_def)
  from loop_step_refines [OF run_next.hyps(3) assms(2,3) loop_run_wf [OF run_next.hyps(1) assms(2,4)] y(1) z]
  show ?case using y(2) z fifo_next by blast
qed

lemma queue_length_bound:
  assumes "\<forall>i\<in>set xs. \<not> empty_payload i"
  shows "length xs \<le> sum_list (map byte_len xs) + count_list xs II_Eof + count_list xs II_Close"
  using assms
proof (induction xs)
  case (Cons i xs)
  then have "0 < byte_len i \<or> i = II_Eof \<or> i = II_Close" by (cases i) auto
  with Cons show ?case by auto
qed simp

lemma queue_wf_length: "queue_wf cap q \<Longrightarrow> length (iq_queue q) \<le> cap + 2"
  using queue_length_bound [of "iq_queue q"] by (auto simp: queue_wf_def of_bool_def split: if_splits)

section \<open>Progress\<close>

text \<open>The callbacks that belong to queued items return; they may use the session as they like.\<close>

definition callbacks_return :: "('q, 'h) serverenv \<Rightarrow> ChannelId \<Rightarrow> bool" where
  "callbacks_return V cid \<longleftrightarrow> (\<forall>item h s. \<exists>hs. invoke V (deferred_callback cid (capture_callback item)) (h, s) = Inr hs)"

text \<open>Some callback closes the channel.\<close>

definition closing_callback :: "('q, 'h) serverenv \<Rightarrow> ChannelId \<Rightarrow> bool" where
  "closing_callback V cid \<longleftrightarrow> (\<exists>item h s h' s'. invoke V (deferred_callback cid (capture_callback item)) (h, s) = Inr (h', s') \<and>
     app_channel s cid \<noteq> None \<and> app_channel s' cid = None)"

text \<open>
  One turn of the loop for a channel whose reader frees a slot: reservations are registered, and the one of the channel
  resolves. Without such a reservation the turn would wait for ever. The turns go on while something is queued.
\<close>

definition grant_turn ::
  "('q, 'h) serverenv \<Rightarrow> ChannelId \<Rightarrow> ('q, 'h) hs \<times> reserve list \<Rightarrow> (('q, 'h) hs \<times> reserve list) res" where
  "grant_turn V cid = (\<lambda>((h, s), rs).
     case srv_drain_needs_reserve rs s of (s, rs) \<Rightarrow>
       if (cid, 0) \<in> set rs then bindR (pump_inbound V cid 0 True (h, s)) (\<lambda>hs. Inr (hs, remove1 (cid, 0) rs)) else Inl Diverged)"

primrec grant_turns ::
  "('q, 'h) serverenv \<Rightarrow> ChannelId \<Rightarrow> nat \<Rightarrow> ('q, 'h) hs \<times> reserve list \<Rightarrow> (('q, 'h) hs \<times> reserve list) res" where
  "grant_turns V cid 0 st = Inr st"
| "grant_turns V cid (Suc n) st =
     (if dl_inbound (ss_delivery (snd (fst st))) cid = None then Inr st else bindR (grant_turn V cid st) (grant_turns V cid n))"

lemma grant_turns_idle: "dl_inbound (ss_delivery s) cid = None \<Longrightarrow> grant_turns V cid n ((h, s), rs) = Inr ((h, s), rs)"
  by (cases n) simp_all

lemma drain_keeps:
  assumes "drain_needs_reserve d rs = (d', rs')" "dl_channels d cid = Some c"
  shows "dl_channels d' = dl_channels d \<and> dl_inbound d' cid = dl_inbound d cid"
proof -
  have "dl_channels d1 cid = Some c \<Longrightarrow> fold reserve_one todo (d1, rs1) = (d2, rs2) \<Longrightarrow>
      dl_channels d2 = dl_channels d1 \<and> dl_inbound d2 cid = dl_inbound d1 cid" for todo d1 rs1 d2 rs2
  proof (induction todo arbitrary: d1 rs1)
    case (Cons k todo)
    obtain d3 rs3 where r: "reserve_one k (d1, rs1) = (d3, rs3)" by fastforce
    with Cons.prems(1) have "dl_channels d3 = dl_channels d1 \<and> dl_inbound d3 cid = dl_inbound d1 cid"
      by (auto simp: reserve_one_def teardown_inbound_eq split: option.splits if_splits)
    with Cons.IH [of d3 rs3] Cons.prems r show ?case by simp
  qed simp
  from this [of "d\<lparr> dl_needs_reserve := [] \<rparr>" "dl_needs_reserve d" rs d' rs'] assms show ?thesis
    by (simp add: drain_needs_reserve_def)
qed

lemma pump_item_returns:
  assumes "handler_ok V" "callbacks_return V cid" "dl_inbound (ss_delivery s) cid = Some q" "iq_queue q = i # rest"
    and "app_channel s cid = Some c"
  shows "\<exists>h' s2 K. pump_item V cid i (h, update_queue cid (\<lambda>q. q\<lparr> iq_reserving := False \<rparr>) s) =
      Inr (h', if i = II_Close then finalize_close cid s2 else pump_rearm cid s2) \<and>
    closes K (popped V cid q (ss_delivery s)) (ss_delivery s2) \<and> (cid \<in> K \<longrightarrow> closing_callback V cid)"
proof -
  define s0 where "s0 = permit_send V cid (to_msg i) (update_queue cid (\<lambda>q. q\<lparr> iq_queue := tl (iq_queue q),
    iq_pending_bytes := iq_pending_bytes q - byte_len i \<rparr>) (update_queue cid (\<lambda>q. q\<lparr> iq_reserving := False \<rparr>) s))"
  obtain h1 s1 where hs1: "(if grants_window i then maybe_grant_after_delivery V cid (h, s0) else (h, s0)) = (h1, s1)" by fastforce
  have "ss_delivery s0 = popped V cid q (ss_delivery s)"
    using assms(3,4) by (simp add: s0_def permit_send_def update_queue_delivery popped_def fun_upd_def cong: if_cong)
  with hs1 have d: "ss_delivery s1 = popped V cid q (ss_delivery s)"
    using maybe_grant_delivery [of V cid h s0] by (cases "grants_window i") auto
  from assms(2) obtain h' s2 where inv: "invoke V (deferred_callback cid (capture_callback i)) (h1, s1) = Inr (h', s2)"
    unfolding callbacks_return_def by (metis surj_pair)
  from invoke_closes [OF assms(1) inv] obtain K where K: "closes K (popped V cid q (ss_delivery s)) (ss_delivery s2)" by (auto simp: d)
  have "closing_callback V cid" if "cid \<in> K"
    unfolding closing_callback_def using inv K that assms(5)
    by (intro exI [of _ i] exI [of _ h1] exI [of _ s1] exI [of _ h'] exI [of _ s2]) (simp add: d popped_def closes_def)
  moreover have "pump_item V cid i (h, update_queue cid (\<lambda>q. q\<lparr> iq_reserving := False \<rparr>) s) =
    Inr (h', if i = II_Close then finalize_close cid s2 else pump_rearm cid s2)"
    unfolding pump_item_def Let_def prod.case s0_def [symmetric] hs1 inv by (simp only: bindR_simps prod.case)
  ultimately show ?thesis using K by blast
qed

lemma grant_turn_works:
  assumes "handler_ok V" "callbacks_return V cid" "mpsc_ok (sv_mpsc V) hist" "delivery_wf cap (ss_delivery s) rs"
    and "app_channel s cid = Some c" "dl_inbound (ss_delivery s) cid = Some q" "iq_queue q = i # rest"
  shows "\<exists>h' s' rs'. grant_turn V cid ((h, s), rs) = Inr ((h', s'), rs') \<and> delivery_wf cap (ss_delivery s') rs' \<and>
    (case app_channel s' cid of
       None \<Rightarrow> dl_inbound (ss_delivery s') cid = None \<and> (i = II_Close \<or> closing_callback V cid)
     | Some c' \<Rightarrow> i \<noteq> II_Close \<and> hist (cr_sender c') = hist (cr_sender c) @ [to_msg i] \<and>
         (case dl_inbound (ss_delivery s') cid of None \<Rightarrow> rest = [] | Some q' \<Rightarrow> iq_queue q' = rest \<and> rest \<noteq> []))"
proof -
  obtain d1 rs1 where dr: "drain_needs_reserve (ss_delivery s) rs = (d1, rs1)" by fastforce
  let ?s1 = "s\<lparr> ss_delivery := d1 \<rparr>"
  note wf1 = drain_needs_reserve_wf [OF assms(4) dr] and keep = drain_keeps [OF dr assms(5)]
  from keep assms(5,6) have q1: "dl_inbound (ss_delivery ?s1) cid = Some q" "app_channel ?s1 cid = Some c" by simp_all
  from delivery_wf_Some [of cap d1 rs1 cid q] wf1 q1 have t: "tokens cid d1 rs1 = 1" "queue_wf cap q" by simp_all
  with wf1 have mem: "(cid, 0) \<in> set rs1"
    using count_list_0_iff [of rs1 "(cid, 0)"] by (auto simp: tokens_def)
  from pump_item_returns [OF assms(1,2) q1(1) assms(7) q1(2), of h] obtain h' s2 K where
    p: "pump_item V cid i (h, update_queue cid (\<lambda>q. q\<lparr> iq_reserving := False \<rparr>) ?s1) =
      Inr (h', if i = II_Close then finalize_close cid s2 else pump_rearm cid s2)"
    and K: "closes K (popped V cid q d1) (ss_delivery s2)" "cid \<in> K \<Longrightarrow> closing_callback V cid"
    by auto
  define s' where "s' = (if i = II_Close then finalize_close cid s2 else pump_rearm cid s2)"
  have pump: "pump_inbound V cid 0 True (h, ?s1) = Inr (h', s')"
    using p q1 t(2) assms(7) by (simp add: pump_inbound_def queue_wf_def Let_def s'_def)
  have "grant_turn V cid ((h, s), rs) = Inr ((h', s'), remove1 (cid, 0) rs1)"
    using mem pump by (simp add: grant_turn_def srv_drain_needs_reserve_def dr)
  moreover have "delivery_wf cap (ss_delivery s') (remove1 (cid, 0) rs1)"
    by (rule pump_inbound_wf [OF assms(1) _ mem pump]) (use wf1 in simp)
  moreover have "hist (mq_permit_send (sv_mpsc V) (to_msg i) (cr_sender c)) = hist (cr_sender c) @ [to_msg i]"
    using assms(3) by (simp add: mpsc_ok_def)
  moreover have "dl_channels d1 cid = Some c" using q1(2) by simp
  ultimately show ?thesis
    using K assms(7) by (cases "cid \<in> K")
      (auto simp: s'_def finalize_close_delivery pump_rearm_delivery closes_def popped_def Let_def)
qed

lemma grant_turns_work:
  assumes "handler_ok V" "callbacks_return V cid" "mpsc_ok (sv_mpsc V) hist" "delivery_wf cap (ss_delivery s) rs"
    and "app_channel s cid = Some c"
    and "case dl_inbound (ss_delivery s) cid of None \<Rightarrow> items = [] | Some q \<Rightarrow> iq_queue q = items \<and> items \<noteq> []"
  shows "\<exists>h' s' rs'. grant_turns V cid (length items) ((h, s), rs) = Inr ((h', s'), rs') \<and>
    dl_inbound (ss_delivery s') cid = None \<and>
    (case app_channel s' cid of
       None \<Rightarrow> II_Close \<in> set items \<or> closing_callback V cid
     | Some c' \<Rightarrow> II_Close \<notin> set items \<and> hist (cr_sender c') = hist (cr_sender c) @ map to_msg items)"
  using assms(4-6)
proof (induction items arbitrary: h s rs c)
  case Nil
  then show ?case by (simp split: option.splits)
next
  case (Cons i rest)
  from Cons.prems obtain q where q: "dl_inbound (ss_delivery s) cid = Some q" "iq_queue q = i # rest"
    by (auto split: option.splits)
  from grant_turn_works [OF assms(1-3) Cons.prems(1,2) q, of h] obtain h1 s1 rs1 where
    t: "grant_turn V cid ((h, s), rs) = Inr ((h1, s1), rs1)" "delivery_wf cap (ss_delivery s1) rs1" and
    c: "case app_channel s1 cid of
       None \<Rightarrow> dl_inbound (ss_delivery s1) cid = None \<and> (i = II_Close \<or> closing_callback V cid)
     | Some c' \<Rightarrow> i \<noteq> II_Close \<and> hist (cr_sender c') = hist (cr_sender c) @ [to_msg i] \<and>
         (case dl_inbound (ss_delivery s1) cid of None \<Rightarrow> rest = [] | Some q' \<Rightarrow> iq_queue q' = rest \<and> rest \<noteq> [])"
    by blast
  show ?case
  proof (cases "app_channel s1 cid")
    case None
    with c t(1) q(1) show ?thesis by (auto simp: grant_turns_idle)
  next
    case (Some c1)
    with c have c1: "i \<noteq> II_Close" "hist (cr_sender c1) = hist (cr_sender c) @ [to_msg i]"
      "case dl_inbound (ss_delivery s1) cid of None \<Rightarrow> rest = [] | Some q' \<Rightarrow> iq_queue q' = rest \<and> rest \<noteq> []" by simp_all
    from Cons.IH [OF t(2) Some c1(3), of h1] obtain h' s' rs' where r: "grant_turns V cid (length rest) ((h1, s1), rs1) = Inr ((h', s'), rs')"
      "dl_inbound (ss_delivery s') cid = None" "case app_channel s' cid of None \<Rightarrow> II_Close \<in> set rest \<or> closing_callback V cid
       | Some c' \<Rightarrow> II_Close \<notin> set rest \<and> hist (cr_sender c') = hist (cr_sender c1) @ map to_msg rest" by blast
    have "grant_turns V cid (length (i # rest)) ((h, s), rs) = Inr ((h', s'), rs')"
      using r(1) t(1) q(1) by simp
    with r(2,3) c1(1,2) show ?thesis by (intro exI conjI) (auto split: option.splits)
  qed
qed

section \<open>Properties\<close>

lemma delivery_wf_empty: "delivery_wf cap \<lparr> dl_channels = c, dl_inbound = Map.empty, dl_needs_reserve = [] \<rparr> []"
  by (simp add: delivery_wf_def tokens_def)

lemma demo_handler_ok: "handler_ok demo_serverenv"
  unfolding handler_ok_def demo_serverenv_simps by (metis Inr_inject prod.inject rtranclp.rtrancl_refl)

lemma demo_callbacks_return: "callbacks_return demo_serverenv cid"
  by (simp add: callbacks_return_def invoke_def)

lemma demo_no_closing: "\<not> closing_callback demo_serverenv cid"
  by (auto simp: closing_callback_def invoke_def)

lemma demo_mpsc_ok: "mpsc_ok demo_mpsc (\<lambda>q. q)"
  by (auto simp: mpsc_ok_def demo_mpsc_def split: if_splits)

definition demo_full_session :: "ChannelMsg list ServerSession" where
  "demo_full_session = snd (srv_deliver_inbound demo_serverenv 2 (II_Data [8])
     (snd (srv_deliver_inbound demo_serverenv 2 (II_Data [7]) demo_open_session)))"

lemma demo_deliveries:
  "srv_deliver_inbound demo_serverenv 2 (II_Data [7]) demo_open_session =
     (ID_Delivered, set_app_channel 2 \<lparr> cr_sender = [CM_Data [7]], cr_window_size = 5 \<rparr> demo_open_session)"
  "srv_deliver_inbound demo_serverenv 2 (II_Data [8])
     (set_app_channel 2 \<lparr> cr_sender = [CM_Data [7]], cr_window_size = 5 \<rparr> demo_open_session) = (ID_Queued, demo_full_session)"
  "ss_delivery demo_full_session = \<lparr> dl_channels = [2 \<mapsto> \<lparr> cr_sender = [CM_Data [7]], cr_window_size = 5 \<rparr>],
     dl_inbound = [2 \<mapsto> enqueue_item (II_Data [8]) InboundQueue_default], dl_needs_reserve = [2] \<rparr>"
  by (simp_all add: srv_deliver_inbound_def deliver_inbound_def deliver_now_def demo_mpsc_def set_app_channel_def
      demo_full_session_def InboundQueue_default_def)

lemma demo_run:
  "loop_run demo_serverenv (\<lambda>q. q) 2 (((), demo_open_session), []) [L_admit 2 (CM_Data [7]), L_admit 2 (CM_Data [8])]
     (((), demo_full_session), [])"
proof -
  let ?s = "set_app_channel 2 \<lparr> cr_sender = [CM_Data [7]], cr_window_size = 5 \<rparr> demo_open_session"
  have "loop_run demo_serverenv (\<lambda>q. q) 2 (((), demo_open_session), []) ([] @ [L_admit 2 (CM_Data [7])]) (((), ?s), [])"
    using loop_deliver [OF demo_deliveries(1), of "\<lambda>q. q" "()" "[]"]
    by (intro run_next [OF run_start]) (simp_all add: deliver_label_def set_app_channel_def)
  from run_next [OF this, of "L_admit 2 (CM_Data [8])" "()" demo_full_session "[]"] show ?thesis
    using loop_deliver [OF demo_deliveries(2), of "\<lambda>q. q" "()" "[]"]
    by (simp add: deliver_label_def demo_deliveries(3) repeated_def set_app_channel_def)
qed

lemma demo_direct_run:
  "loop_run demo_serverenv (\<lambda>q. q) 2 (((), demo_open_session), [])
     [L_admit 2 (CM_Data [7]), L_admit 2 (CM_Data [8]), L_direct 2 (CM_RequestShell True)]
     (((), app_send demo_serverenv 2 (CM_RequestShell True) demo_full_session), [])"
proof -
  have "send_label demo_serverenv 2 (CM_RequestShell True) demo_full_session = L_direct 2 (CM_RequestShell True)"
    by (simp add: send_label_def demo_deliveries(3) demo_mpsc_def)
  with run_next [OF demo_run loop_send [of "CM_RequestShell True" demo_serverenv "\<lambda>q. q" 2]] show ?thesis
    by (simp add: app_send_def demo_deliveries(3) demo_mpsc_def set_app_channel_def)
qed

text \<open>
  C8. Delivery refines a queue: over any interleaving of received items, of messages that are sent to the application
  directly, of reservations, callbacks and readers, on this and on other channels, and as long as the channel is
  registered, it behaves as one queue that every admitted item (data, extended data, end of file, close) enters at the end
  and leaves to the reader in order. A direct message (a channel request, the confirmation of an open, a new window) goes
  to the reader at once, past the items that wait. As long as the reader is there, the items among what it got in the
  run, followed by those that wait, are those that waited before and those that were admitted, in this order, and the
  other messages it got are the direct ones in theirs: nothing is lost, repeated or reordered among its kind. A channel is
  registered under a number for which nothing is queued or reserved.
\<close>

theorem inbound_refines_fifo:
  assumes "handler_ok V" "mpsc_ok (sv_mpsc V) hist" "loop_run V hist cid ((h0, s0), rs0) ls ((h, s), rs)"
    and "delivery_wf (cf_max_pending_inbound_bytes (sv_config V)) (ss_delivery s0) rs0"
    and "fifo_of hist cid (ss_delivery s0) = Some (a, w)"
  shows "\<exists>a' w'. fifo_of hist cid (ss_delivery s) = Some (a', w') \<and> fifo_run cid (a, w) ls (a', w') \<and>
    (L_gone cid \<notin> set ls \<longrightarrow> (\<exists>z. a' = a @ z \<and> filter item_msg z @ w' = w @ admitted cid ls \<and>
       filter (\<lambda>m. \<not> item_msg m) z = direct cid ls))"
proof -
  from loop_run_refines [OF assms(3,1,2,4,5)] obtain a' w' where r: "fifo_of hist cid (ss_delivery s) = Some (a', w')"
    "fifo_run cid (a, w) ls (a', w')" by auto
  moreover have "\<forall>m\<in>set w. item_msg m" using fifo_of_items [OF assms(5)] by blast
  ultimately show ?thesis using fifo_run_order [OF r(2)] by blast
qed

theorem inbound_refines_fifo_witness:
  "\<exists>a w. fifo_of (\<lambda>q. q) 2 (ss_delivery (app_send demo_serverenv 2 (CM_RequestShell True) demo_full_session)) = Some (a, w) \<and>
     filter item_msg a @ w = [CM_Data [7], CM_Data [8]] \<and> filter (\<lambda>m. \<not> item_msg m) a = [CM_RequestShell True]"
  using inbound_refines_fifo [OF demo_handler_ok _ demo_direct_run, of "[]" "[]"] demo_mpsc_ok
    delivery_wf_empty [of 10 "[2 \<mapsto> \<lparr> cr_sender = [], cr_window_size = 5 \<rparr>]"] by (auto simp: fifo_of_def)

text \<open>
  C20. The queue of a channel is bounded: whatever the peer sends and however slowly the application reads, it holds
  at most the configured number of bytes and two more items than that, its byte count is right, and exactly one
  reservation is under way for it, so that it is neither forgotten nor drained twice.
\<close>

theorem inbound_queue_bounded:
  assumes "handler_ok V" "(\<lambda>x y. \<exists>l. loop_step V hist l x y)\<^sup>*\<^sup>* ((h0, s0), []) ((h, s), rs)"
    and "dl_inbound (ss_delivery s0) = Map.empty" "dl_needs_reserve (ss_delivery s0) = []"
    and "dl_inbound (ss_delivery s) cid = Some q"
  shows "iq_pending_bytes q = sum_list (map byte_len (iq_queue q)) \<and>
    iq_pending_bytes q \<le> cf_max_pending_inbound_bytes (sv_config V) \<and>
    length (iq_queue q) \<le> cf_max_pending_inbound_bytes (sv_config V) + 2 \<and>
    count_list (dl_needs_reserve (ss_delivery s)) cid + count_list rs (cid, iq_generation q) = 1"
proof -
  have "delivery_wf (cf_max_pending_inbound_bytes (sv_config V)) (ss_delivery s0) []"
    using assms(3,4) by (simp add: delivery_wf_def tokens_def)
  from delivery_wf_Some [OF loop_steps_wf [OF assms(2,1) this] assms(5)] show ?thesis
    using queue_wf_length by (auto simp: queue_wf_def tokens_def)
qed

theorem inbound_queue_bounded_witness:
  "length (iq_queue (enqueue_item (II_Data [8]) InboundQueue_default)) \<le> 10 + 2"
  using inbound_queue_bounded [OF demo_handler_ok loop_run_steps [OF demo_run],
      of 2 "enqueue_item (II_Data [8]) InboundQueue_default"] by (simp add: demo_deliveries(3))

text \<open>
  C19. Queued items are delivered: let the callbacks of the channel return, and use the session as its public operations
  allow. When the reader frees as many slots as items are queued, each turn of the loop finds the reservation of the
  channel, and after at most that many turns nothing is queued. If the channel is still there, no close was among the
  items, and all of them are with the reader in order. It is gone only if a close was among the items or a callback closed
  the channel.
\<close>

theorem inbound_drains:
  assumes "handler_ok V" "callbacks_return V cid" "mpsc_ok (sv_mpsc V) hist"
    and "delivery_wf cap (ss_delivery s) rs" "app_channel s cid = Some c" "dl_inbound (ss_delivery s) cid = Some q"
  shows "\<exists>h' s' rs'. grant_turns V cid (length (iq_queue q)) ((h, s), rs) = Inr ((h', s'), rs') \<and>
    dl_inbound (ss_delivery s') cid = None \<and>
    (case app_channel s' cid of
       None \<Rightarrow> II_Close \<in> set (iq_queue q) \<or> closing_callback V cid
     | Some c' \<Rightarrow> II_Close \<notin> set (iq_queue q) \<and> hist (cr_sender c') = hist (cr_sender c) @ map to_msg (iq_queue q))"
  using grant_turns_work [OF assms(1-5), of "iq_queue q" h] delivery_wf_Some [OF assms(4,6)] assms(6)
  by (simp add: queue_wf_def)

theorem inbound_drains_witness:
  "\<exists>s' rs' c'. grant_turns demo_serverenv 2 1 (((), demo_full_session), []) = Inr (((), s'), rs') \<and>
     dl_inbound (ss_delivery s') 2 = None \<and> app_channel s' 2 = Some c' \<and> cr_sender c' = [CM_Data [7], CM_Data [8]]"
proof -
  have "delivery_wf 10 (ss_delivery demo_full_session) []"
    using loop_run_wf [OF demo_run demo_handler_ok] by (simp add: delivery_wf_empty)
  from inbound_drains [OF demo_handler_ok demo_callbacks_return _ this, of "\<lambda>q. q" 2 _
      "enqueue_item (II_Data [8]) InboundQueue_default" "()"]
  show ?thesis
    using demo_mpsc_ok demo_no_closing by (auto simp: demo_deliveries(3) enqueue_item_def InboundQueue_default_def
        simp del: grant_turns.simps split: option.splits)
qed

end
