(* ===== verification/ServerLaws.thy ===== *)
theory ServerLaws
  imports Delivery
begin

text \<open>
  Laws of the server's packets. The locale \<open>session_relation\<close> is the contract between the session and the reader of
  packets: a relation that every single operation on the session keeps, the callbacks of the application included. Inside
  it, the relation is shown to hold across every packet. Its instances are the state of the encryption, which a
  packet never removes, and the well-formedness of the channel table.
\<close>

section \<open>What every packet keeps\<close>

lemma on_enc_Some: "ss_enc s = Some e \<Longrightarrow> on_enc f s = set_enc (f e) s"
  by (simp add: on_enc_def)

lemma on_enc_twice: "on_enc f (on_enc g s) = on_enc (\<lambda>e. f (g e)) s"
  by (simp add: on_enc_def set_enc_def split: option.split)

lemma set_enc_same: "ss_enc s = Some e \<Longrightarrow> set_enc e s = s"
proof -
  assume "ss_enc s = Some e"
  then have c: "(ss_common s)\<lparr> cs_encrypted := Some e \<rparr> = ss_common s"
    by (intro CommonSession.equality) simp_all
  show ?thesis
    unfolding set_enc_def c by (rule ServerSession.ServerSession.equality) simp_all
qed

lemma enc_write_state: "e\<lparr> enc_write := b, enc_state := st \<rparr> = e\<lparr> enc_state := st, enc_write := b \<rparr>"
  by (rule Encrypted.equality) simp_all

text \<open>An authentication request changes the state and the write buffer of the encryption, and nothing else.\<close>

definition auth_change :: "Encrypted \<Rightarrow> Encrypted \<Rightarrow> bool" where
  "auth_change e e' \<longleftrightarrow> (\<exists>st b. e' = e\<lparr> enc_state := st, enc_write := b \<rparr> \<and> (st = ES_InitCompression \<or> (\<exists>a. st = ES_WaitingAuthRequest a)))"

lemma auth_changeI:
  "auth_change e (auth_accept C e)" "auth_change e (auth_reject C a e)"
  "auth_change e (e\<lparr> enc_state := ES_WaitingAuthRequest a, enc_write := b \<rparr>)"
  "auth_change e (e\<lparr> enc_state := ES_InitCompression, enc_write := b \<rparr>)"
  "auth_change e (e\<lparr> enc_state := (if x then ES_InitCompression else ES_WaitingAuthRequest a), enc_write := b \<rparr>)"
  by (auto simp: auth_change_def auth_accept_def auth_reject_def split: prod.split)

lemma request_changes:
  assumes "server_read_auth_request A now pkt r au0 e h = Inr (e', au, h')"
  shows "auth_change e e'"
  using assms
proof (cases rule: request_cases)
  case (1 user r1 r2 meth r3 a reset a' au1)
  have "auth_change e e'" if "server_read_auth_request_pk A now pkt user r3 au1 a' e h = Inr (e', au, h')"
    using that by (cases rule: pk_request_cases)
      (auto simp: read_auth_pk_signed_def read_auth_pk_probe_def Let_def res_simps split: if_splits intro: auth_changeI)
  with 1(7) show ?thesis
    by (auto simp: read_auth_password_def read_auth_none_def read_auth_keyboard_interactive_def Let_def res_simps
        split: if_splits intro: auth_changeI simp del: str_simps)
qed

locale session_relation =
  fixes V :: "('q, 'h) serverenv" and R :: "'q ServerSession \<Rightarrow> 'q ServerSession \<Rightarrow> bool"
  assumes keeps_same: "R s s"
    and keeps_trans: "R s s1 \<Longrightarrow> R s1 s2 \<Longrightarrow> R s s2"
    and keeps_call: "sv_call V cb (h, s) = Inr (r, h', s') \<Longrightarrow> R s s'"
    and keeps_delivery: "R s (s\<lparr> ss_delivery := d \<rparr>)"
    and keeps_acks: "R s (s\<lparr> ss_outbound_acks := acks \<rparr>)"
    and keeps_requests: "R s (s\<lparr> ss_open_global_requests := gs \<rparr>)"
    and keeps_signal: "R s (signal x s)"
    and keeps_target: "R s (s\<lparr> ss_target_window_size := tw \<rparr>)"
    and keeps_wants: "R s (set_wants_reply b s)"
    and keeps_user: "R s (s\<lparr> ss_common := (ss_common s)\<lparr> cs_auth_user := u, cs_auth_attempts := attempts \<rparr> \<rparr>)"
    and keeps_drop: "R s (drop_open_handle (pending_open V m cid) s)"
    and keeps_write: "R s (on_enc (\<lambda>e. e\<lparr> enc_write := buf \<rparr>) s)"
    and keeps_state: "R s (on_enc (\<lambda>e. e\<lparr> enc_state := st \<rparr>) s)"
    and keeps_decompress: "R s (on_enc (\<lambda>e. e\<lparr> enc_decompress := dec \<rparr>) s)"
    and keeps_remove: "R s (on_enc (remove_channel cid) s)"
    and keeps_discard: "R s (on_enc (close_discarding_pending C cid) s)"
    and keeps_consume: "R s (on_enc (consume_recv_window cid len) s)"
    and keeps_grant: "ss_enc s = Some e \<Longrightarrow> maybe_grant_recv_window C cid target undelivered e = (g, e') \<Longrightarrow> R s (set_enc e' s)"
    and keeps_channel_wants: "R s (on_enc (update_channel cid (\<lambda>ch. ch\<lparr> wants_reply := b \<rparr>)) s)"
    and keeps_confirm: "R s (on_enc (update_channel cid (confirm c)) s)"
    and keeps_number: "R s (on_enc (\<lambda>e. e\<lparr> enc_last_channel_id := cid \<rparr>) s)"
    and keeps_adjust: "ss_enc s = Some e \<Longrightarrow> flush_pending_with_writer (sv_env V) cid (window_adjust cid amount e) (ss_writer s) =
      Inr (n, e', w) \<Longrightarrow> R s (set_enc_writer e' w s)"
    and keeps_writer: "R s (s\<lparr> ss_common := (ss_common s)\<lparr> cs_packet_writer := w \<rparr> \<rparr>)"
begin

lemma keeps_push: "R s (on_enc (enc_push C p) s)"
proof (cases "ss_enc s")
  case None
  then show ?thesis by (simp add: on_enc_def keeps_same)
next
  case (Some e)
  then have "on_enc (enc_push C p) s = on_enc (\<lambda>x. x\<lparr> enc_write := push_packet C (enc_write e) p \<rparr>) s"
    by (simp add: on_enc_Some enc_push_def)
  then show ?thesis by (simp add: keeps_write)
qed

lemma keeps_invoke: "invoke V cb (h, s) = Inr (h', s') \<Longrightarrow> R s s'"
  by (auto simp: invoke_def res_simps intro: keeps_call)

lemma keeps_app_channel: "R s (set_app_channel cid c s)"
  by (simp add: set_app_channel_def keeps_delivery)

lemma keeps_app_send: "R s (app_send V cid m s)"
  by (auto simp: app_send_def split: option.split intro: keeps_same keeps_app_channel)

lemma keeps_app_remove: "R s (remove_app_channel cid s)" "R s (teardown_inbound_channel cid s)"
  by (simp_all add: remove_app_channel_def teardown_inbound_channel_def keeps_delivery)

lemma keeps_deliver: "srv_deliver_inbound V cid item s = (r, s') \<Longrightarrow> R s s'"
  by (auto simp: srv_deliver_inbound_def keeps_delivery split: prod.splits)

lemma keeps_finalize: "R s (finalize_close cid s)"
proof -
  define s1 where "s1 = remove_app_channel cid (teardown_inbound_channel cid s)"
  have "R s s1"
    unfolding s1_def by (rule keeps_trans [OF keeps_app_remove(2) keeps_app_remove(1)])
  moreover have "R s1 (on_enc (remove_channel cid) (s1\<lparr> ss_outbound_acks := (ss_outbound_acks s1)(cid := None) \<rparr>))"
    by (rule keeps_trans [OF keeps_acks keeps_remove])
  ultimately show ?thesis
    by (metis finalize_close_def keeps_trans s1_def)
qed

lemma keeps_discard_outbound: "R s (discard_channel_outbound V cid s)"
  unfolding discard_channel_outbound_def Let_def by (rule keeps_trans [OF keeps_discard keeps_acks])

lemma keeps_grant_after: "maybe_grant_after_delivery V cid (h, s) = (h', s') \<Longrightarrow> R s s'"
  by (auto simp: maybe_grant_after_delivery_def Let_def split: option.splits prod.splits if_splits
      intro: keeps_same keeps_grant keeps_trans [OF keeps_grant keeps_target])

lemma keeps_close:
  assumes "deliver_close V cid (h, s) = Inr (h', s')"
  shows "R s s'"
proof -
  obtain r s1 where d: "srv_deliver_inbound V cid II_Close s = (r, s1)" by fastforce
  from assms consider "s' = s1" | s2 where "invoke V (CB_channel_close cid) (h, s1) = Inr (h', s2)" "s' = finalize_close cid s2"
    by (auto simp: deliver_close_def d res_simps split: if_splits)
  then show ?thesis
    using keeps_deliver [OF d] by cases (blast intro: keeps_trans keeps_invoke keeps_finalize)+
qed

lemma keeps_read_close: "read_channel_close V r (h, s) = Inr (h', s') \<Longrightarrow> R s s'"
  by (auto simp: read_channel_close_def res_simps Let_def split: if_splits
      intro: keeps_same keeps_close keeps_trans [OF keeps_discard_outbound keeps_close])

lemma keeps_read_eof: "read_channel_eof V r (h, s) = Inr (h', s') \<Longrightarrow> R s s'"
  by (auto simp: read_channel_eof_def res_simps split: if_splits prod.splits
      intro: keeps_same keeps_deliver keeps_trans [OF keeps_deliver keeps_invoke])

lemma keeps_payload:
  assumes "deliver_payload V cid ext data (h, s) = Inr (h', s')"
  shows "R s s'"
proof -
  define s0 where "s0 = on_enc (consume_recv_window cid (length data)) s"
  obtain r s1 where d: "srv_deliver_inbound V cid (case ext of Some ext \<Rightarrow> II_ExtendedData ext data | None \<Rightarrow> II_Data data) s0 = (r, s1)"
    by fastforce
  obtain h2 s2 where g: "maybe_grant_after_delivery V cid (h, s1) = (h2, s2)" by fastforce
  have 1: "R s s1"
    using keeps_trans [OF keeps_consume keeps_deliver [OF d [unfolded s0_def]]] .
  moreover have "R s1 s'"
    using assms g d [unfolded s0_def]
    by (auto simp: deliver_payload_def Let_def split: InboundDelivery.splits intro: keeps_same keeps_trans [OF keeps_grant_after keeps_invoke]
        keeps_trans [OF keeps_discard_outbound keeps_trans [OF keeps_app_remove(2) keeps_app_remove(1)]])
  ultimately show ?thesis by (rule keeps_trans)
qed

lemma keeps_read_data: "read_channel_data V extended r (h, s) = Inr (h', s') \<Longrightarrow> R s s'"
  by (auto simp: read_channel_data_def res_simps Let_def split: if_splits intro: keeps_same keeps_payload)

lemma keeps_notify: "R s (notify_window V cid new_size s)"
  by (auto simp: notify_window_def Let_def split: option.split intro: keeps_same keeps_app_channel)

lemma keeps_read_adjust: "read_window_adjust V r (h, s) = Inr (h', s') \<Longrightarrow> R s s'"
  by (auto simp: read_window_adjust_def res_simps Let_def split: if_splits option.splits
      intro: keeps_same keeps_trans [OF keeps_adjust keeps_trans [OF keeps_notify keeps_invoke]])

lemma keeps_open_confirmation: "read_open_confirmation V r (h, s) = Inr (h', s') \<Longrightarrow> R s s'"
  by (auto simp: read_open_confirmation_def res_simps Let_def on_enc_Some [symmetric] split: if_splits option.splits
      intro: keeps_trans [OF keeps_confirm keeps_trans [OF keeps_app_send keeps_invoke]])

lemma keeps_open_failure: "read_open_failure V r (h, s) = Inr (h', s') \<Longrightarrow> R s s'"
  by (auto simp: read_open_failure_def res_simps Let_def split: option.splits
      intro: keeps_trans [OF keeps_remove keeps_app_remove(1)])

lemma keeps_handle_open:
  assumes "server_handle_channel_open V r (h, s) = Inr (h', s')"
  shows "R s s'"
proof -
  from assms obtain m r' where o1: "open_channel_parse (sv_codec V) r = Inr (m, r')"
    by (auto simp: server_handle_channel_open_def Let_def res_simps)
  from assms obtain enc where o2: "ss_enc s = Some enc"
    by (cases "ss_enc s") (auto simp: server_handle_channel_open_def Let_def o1)
  from assms obtain cid enc' where o3: "new_channel_id enc = Some (cid, enc')"
    by (cases "new_channel_id enc") (auto simp: server_handle_channel_open_def Let_def o1 o2)
  note o = o1 o2 o3
  then have e': "set_enc enc' s = on_enc (\<lambda>e. e\<lparr> enc_last_channel_id := cid \<rparr>) s"
    by (auto simp: new_channel_id_def on_enc_Some)
  obtain p where p: "(case ocm_typ m of CT_Unknown _ \<Rightarrow> open_channel_unknown_type (sv_codec V) m b
     | _ \<Rightarrow> open_channel_fail (sv_codec V) m b SSH_OPEN_ADMINISTRATIVELY_PROHIBITED (str ''Unsupported channel type'')) =
     push_packet (sv_codec V) b p" for b
    by (cases "ocm_typ m") (auto simp: open_channel_unknown_type_def open_channel_fail_def simp del: str_simps)
  have "R (set_enc enc' s) s'"
    using assms o
    by (auto simp: server_handle_channel_open_def Let_def res_simps p enc_push_def [symmetric] split: if_splits simp del: str_simps
        intro: keeps_invoke keeps_trans [OF keeps_push keeps_drop])
  then show ?thesis
    using keeps_number e' keeps_trans by metis
qed

lemma keeps_request: "bindR X (\<lambda>_. invoke V cb (h, app_send V cid m s)) = Inr (h', s') \<Longrightarrow> R s s'"
  by (auto simp: res_simps intro: keeps_trans [OF keeps_app_send keeps_invoke])

lemma keeps_requests_read:
  "request_pty V cid r (h, s) = Inr (h', s') \<Longrightarrow> R s s'"
  "request_x11 V cid r (h, s) = Inr (h', s') \<Longrightarrow> R s s'"
  "request_env V cid r (h, s) = Inr (h', s') \<Longrightarrow> R s s'"
  "request_shell V cid r (h, s) = Inr (h', s') \<Longrightarrow> R s s'"
  "request_exec V cid r (h, s) = Inr (h', s') \<Longrightarrow> R s s'"
  "request_subsystem V cid r (h, s) = Inr (h', s') \<Longrightarrow> R s s'"
  "request_window_change V cid r (h, s) = Inr (h', s') \<Longrightarrow> R s s'"
  "request_signal V cid r (h, s) = Inr (h', s') \<Longrightarrow> R s s'"
  by (auto simp: request_pty_def request_x11_def request_env_def request_shell_def request_exec_def request_subsystem_def
      request_window_change_def request_signal_def Let_def res_simps intro: keeps_trans [OF keeps_app_send keeps_invoke])

lemma keeps_request_answer: "R s (request_success V s)" "R s (request_failure V s)" "R s (answer_global V result extra s)"
  by (auto simp: request_success_def request_failure_def answer_global_def
      intro: keeps_same keeps_push keeps_trans [OF keeps_push keeps_wants])

lemma keeps_agent: "request_agent V cid r (h, s) = Inr (h', s') \<Longrightarrow> R s s'"
  by (auto simp: request_agent_def res_simps split: if_splits
      intro: keeps_trans [OF keeps_app_send keeps_trans [OF keeps_call keeps_request_answer(1)]]
        keeps_trans [OF keeps_app_send keeps_trans [OF keeps_call keeps_request_answer(2)]])

lemma keeps_channel_answer:
  assumes "channel_answer m V cid s = Inr s'"
  shows "R s s'"
proof (cases "s' = s")
  case True
  then show ?thesis by (simp add: keeps_same)
next
  case False
  with assms obtain p where "s' = on_enc (enc_push (sv_codec V) p) (on_enc (update_channel cid (\<lambda>ch. ch\<lparr> wants_reply := False \<rparr>)) s)"
    by (auto simp: channel_answer_def on_enc_Some on_enc_def set_enc_def split: option.splits if_splits)
  then show ?thesis by (simp add: keeps_trans [OF keeps_channel_wants keeps_push])
qed

lemma keeps_channel_request:
  assumes "read_channel_request V r (h, s) = Inr (h', s')"
  shows "R s s'"
proof -
  from assms obtain cid wants r' where "R (on_enc (update_channel cid (\<lambda>ch. ch\<lparr> wants_reply := wants \<rparr>)) s) s'"
    by (auto simp: read_channel_request_def Let_def res_simps request_unknown_def channel_failure_def split: if_splits
        simp del: str_simps intro: keeps_same keeps_requests_read keeps_agent keeps_channel_answer)
  then show ?thesis by (rule keeps_trans [OF keeps_channel_wants])
qed

lemma keeps_global_request:
  assumes "read_global_request V r (h, s) = Inr (h', s')"
  shows "R s s'"
proof -
  from assms obtain b where "R (set_wants_reply b s) s'"
    by (auto simp: read_global_request_def Let_def res_simps request_tcpip_forward_def request_cancel_tcpip_forward_def
        request_streamlocal_def split: if_splits simp del: str_simps
        intro: keeps_request_answer keeps_trans [OF keeps_call keeps_request_answer(3)])
  then show ?thesis by (rule keeps_trans [OF keeps_wants])
qed

lemma keeps_pop: "pop_global_request s = (g, s') \<Longrightarrow> R s s'"
  by (auto simp: pop_global_request_def split: list.splits intro: keeps_same keeps_requests)

lemma keeps_request_result:
  "read_request_success V r s = Inr s' \<Longrightarrow> R s s'" "read_request_failure r s = Inr s' \<Longrightarrow> R s s'"
  by (auto simp: read_request_success_def read_request_failure_def res_simps
      split: prod.splits option.splits GlobalRequestResponse.splits
      intro: keeps_pop keeps_trans [OF keeps_pop keeps_signal])

lemma keeps_authenticated:
  assumes "server_read_authenticated V m r (h, s) = Inr (h', s')"
  shows "R s s'"
  using assms
  by (auto simp: server_read_authenticated_def res_simps split: if_splits
      intro: keeps_same keeps_handle_open keeps_read_close keeps_read_eof keeps_read_data keeps_read_adjust
        keeps_open_confirmation keeps_channel_request keeps_global_request keeps_open_failure keeps_request_result)

lemma keeps_auth_change: "ss_enc s = Some e \<Longrightarrow> auth_change e e' \<Longrightarrow> R s (set_enc e' s)"
proof -
  assume e: "ss_enc s = Some e" and "auth_change e e'"
  then obtain st b where "e' = e\<lparr> enc_state := st, enc_write := b \<rparr>" by (auto simp: auth_change_def)
  with e have "set_enc e' s = on_enc (\<lambda>e. e\<lparr> enc_write := b \<rparr>) (on_enc (\<lambda>e. e\<lparr> enc_state := st \<rparr>) s)"
    unfolding on_enc_twice by (simp add: on_enc_Some)
  then show ?thesis by (simp add: keeps_trans [OF keeps_state keeps_write])
qed

lemma keeps_deferred:
  "R s (on_enc (\<lambda>enc. if is_deferred (enc_client_compression enc)
     then enc\<lparr> enc_decompress := init_decompress (enc_client_compression enc) (enc_decompress enc) \<rparr> else enc) s)"
proof (cases "ss_enc s")
  case None
  then show ?thesis by (simp add: on_enc_def keeps_same)
next
  case (Some e)
  have "R s (set_enc (e\<lparr> enc_decompress := d \<rparr>) s)" for d
    using keeps_decompress [of s d] by (simp add: on_enc_Some [OF Some])
  then show ?thesis
    by (simp add: on_enc_Some [OF Some] set_enc_same [OF Some] keeps_same)
qed

lemma keeps_auth_done: "auth_done V (h, s) = Inr (h', s') \<Longrightarrow> R s s'"
  unfolding auth_done_def prod.case by (rule keeps_trans [OF keeps_deferred keeps_invoke])

lemma keeps_service:
  assumes "process_service_request V r e (h, s) = Inr (h', s')" "ss_enc s = Some e"
  shows "R s s'"
  using assms
  by (auto simp: process_service_request_def res_simps server_accept_service_def Let_def split: if_splits simp del: str_simps
      intro!: keeps_same keeps_auth_change auth_changeI simp: enc_write_state)

lemma keeps_auth_request:
  assumes "process_auth_request V now buf r e (h, s) = Inr (h', s')" "ss_enc s = Some e"
  shows "R s s'"
proof -
  from assms(1) obtain e1 user h1 where a: "server_read_auth_request (sv_auth V) now buf r (cs_auth_user (ss_common s)) e h = Inr (e1, user, h1)"
    by (auto simp: process_auth_request_def res_simps)
  define s1 where "s1 = set_enc e1 s"
  define s2 where "s2 = s1\<lparr> ss_common := (ss_common s1)\<lparr> cs_auth_user := user, cs_auth_attempts := cs_auth_attempts (ss_common s1) + 1 \<rparr> \<rparr>"
  have "R s s2"
    unfolding s2_def s1_def by (rule keeps_trans [OF keeps_auth_change [OF assms(2) request_changes [OF a]] keeps_user])
  moreover have "R s2 s'"
    using assms(1) a
    by (auto simp: process_auth_request_def set_auth_user_def Let_def s1_def s2_def split: if_splits intro: keeps_same keeps_auth_done)
  ultimately show ?thesis by (rule keeps_trans)
qed

lemma keeps_info_response:
  assumes "process_info_response V r a e (h, s) = Inr (h', s')" "ss_enc s = Some e"
  shows "R s s'"
proof -
  from assms(1) obtain resp a' b h1 where
    i: "read_userauth_info_response (sv_auth V) (cs_auth_user (ss_common s)) r a (enc_write e) h = Inr (resp, a', b, h1)"
    by (auto simp: process_info_response_def res_simps)
  let ?s = "set_enc (e\<lparr> enc_state := (if resp then ES_InitCompression else ES_WaitingAuthRequest a'), enc_write := b \<rparr>) s"
  have "R s ?s" by (rule keeps_auth_change [OF assms(2) auth_changeI(5)])
  moreover have "R ?s s'"
    using assms(1) by (auto simp: process_info_response_def i enc_write_state split: if_splits intro: keeps_same keeps_auth_done)
  ultimately show ?thesis by (rule keeps_trans)
qed

lemma keeps_first_packet:
  assumes "process_first_packet V m r e (h, s) = Inr (h', s')" "ss_enc s = Some e"
  shows "R s s'"
proof -
  let ?s = "on_enc (\<lambda>e. e\<lparr> enc_state := ES_Authenticated \<rparr>) s"
  from assms obtain w where "R (?s\<lparr> ss_common := (ss_common ?s)\<lparr> cs_packet_writer := w \<rparr> \<rparr>) s'"
    by (auto simp: process_first_packet_def Let_def on_enc_Some set_enc_def set_enc_writer_def dest!: keeps_authenticated)
  then show ?thesis
    by (blast intro: keeps_trans keeps_state keeps_writer)
qed

lemma keeps_packet:
  assumes "process_packet V now buf (h, s) = Inr (h', s')"
  shows "R s s'"
proof -
  from assms obtain e where e: "ss_enc s = Some e" by (cases "ss_enc s") (auto simp: process_packet_def)
  note packet = assms [unfolded process_packet_def snd_conv e option.case]
  show ?thesis
  proof (cases buf)
    case Nil
    with packet show ?thesis by (simp add: keeps_same)
  next
    case (Cons m r)
    show ?thesis
      using packet e unfolding Cons list.case
      by (cases "enc_state e") (auto split: if_splits intro: keeps_same keeps_service keeps_auth_request keeps_info_response
          keeps_first_packet keeps_authenticated)
  qed
qed

end

end
