(* ===== verification/ServerRuns.thy ===== *)
theory ServerRuns
  imports ServerLaws
begin

text \<open>
  Runs of a server session: received packets, messages of the application, resolved reservations, flushes and
  answers to channel opens, in any order. Two relations of \<open>session_relation\<close> are instantiated and followed along the
  runs: that encryption is not removed and strict mode not changed outside of a key exchange, and that the channel table stays
  well formed. The last part shows what a packet may do before the client is authenticated.
\<close>

section \<open>What the operations change\<close>

lemma enc_frames [simp]:
  "ss_enc (set_enc e s) = Some e" "ss_enc (set_enc_writer e w s) = Some e" "ss_enc (on_enc f s) = map_option f (ss_enc s)"
  "ss_enc (signal x s) = ss_enc s" "ss_enc (set_wants_reply b s) = ss_enc s"
  "ss_enc (finalize_close cid s) = map_option (remove_channel cid) (ss_enc s)"
  "ss_enc (discard_channel_outbound V cid s) = map_option (close_discarding_pending (sv_codec V) cid) (ss_enc s)"
  by (simp_all add: set_enc_def set_enc_writer_def on_enc_def signal_def set_wants_reply_def finalize_close_def
      remove_app_channel_def teardown_inbound_channel_def discard_channel_outbound_def Let_def split: option.split)

lemma strict_frames [simp]:
  "cs_strict_kex (ss_common (set_enc e s)) = cs_strict_kex (ss_common s)"
  "cs_strict_kex (ss_common (set_enc_writer e w s)) = cs_strict_kex (ss_common s)"
  "cs_strict_kex (ss_common (on_enc f s)) = cs_strict_kex (ss_common s)"
  "cs_strict_kex (ss_common (signal x s)) = cs_strict_kex (ss_common s)"
  "cs_strict_kex (ss_common (set_wants_reply b s)) = cs_strict_kex (ss_common s)"
  "cs_strict_kex (ss_common (finalize_close cid s)) = cs_strict_kex (ss_common s)"
  "cs_strict_kex (ss_common (discard_channel_outbound V cid s)) = cs_strict_kex (ss_common s)"
  by (simp_all add: set_enc_def set_enc_writer_def on_enc_def signal_def set_wants_reply_def finalize_close_def
      remove_app_channel_def teardown_inbound_channel_def discard_channel_outbound_def Let_def split: option.split)

lemma replies_frames [simp]:
  "ss_open_replies (set_enc e s) = ss_open_replies s" "ss_open_replies (set_enc_writer e w s) = ss_open_replies s"
  "ss_open_replies (on_enc f s) = ss_open_replies s" "ss_open_replies (signal x s) = ss_open_replies s"
  "ss_open_replies (set_wants_reply b s) = ss_open_replies s" "ss_open_replies (finalize_close cid s) = ss_open_replies s"
  "ss_open_replies (discard_channel_outbound V cid s) = ss_open_replies s"
  by (simp_all add: set_enc_def set_enc_writer_def on_enc_def signal_def set_wants_reply_def finalize_close_def
      remove_app_channel_def teardown_inbound_channel_def discard_channel_outbound_def Let_def split: option.split)

section \<open>Encryption and strict mode\<close>

definition kept :: "'q ServerSession \<Rightarrow> 'q ServerSession \<Rightarrow> bool" where
  "kept s s' \<longleftrightarrow> cs_strict_kex (ss_common s') = cs_strict_kex (ss_common s) \<and> (ss_enc s' = None \<longleftrightarrow> ss_enc s = None)"

lemma kept_refl: "kept s s"
  by (simp add: kept_def)

lemma kept_trans: "kept s s1 \<Longrightarrow> kept s1 s2 \<Longrightarrow> kept s s2"
  by (simp add: kept_def)

lemma kept_message: "kept s (s\<lparr> ss_common := push_message C p (ss_common s) \<rparr>)"
  by (simp add: kept_def push_message_def Let_def split: option.split)

lemma kept_enforce: "kept s (enforce_outbound_cap V cid s)"
  by (simp add: kept_def enforce_outbound_cap_def split: option.split)

lemma kept_rekey: "begin_rekey V t s = Inr s' \<Longrightarrow> kept s s'"
proof -
  assume "begin_rekey V t s = Inr s'"
  then obtain kex w where "ss_common s' = (ss_common s)\<lparr> cs_packet_writer := w \<rparr>"
    unfolding begin_rekey_def Let_def by (simp add: bindR_Inr_iff split_beta split: if_splits) auto
  then show ?thesis by (simp add: kept_def)
qed

lemma kept_flush: "srv_flush V t s = Inr s' \<Longrightarrow> kept s s'"
  by (auto simp: srv_flush_def res_simps kept_def [of s] split: option.splits if_splits dest!: kept_rekey [unfolded kept_def])

lemma kept_disconnect: "kept s (srv_disconnect V why description lang s)"
  by (auto simp: srv_disconnect_def session_disconnect_def kept_def push_message_def Let_def split: option.split)

lemma kept_data:
  assumes "srv_data V cid data s = Inr s' \<or> srv_extended_data V cid ext data s = Inr s'"
  shows "kept s s'"
proof -
  from assms obtain e w where "s' = enforce_outbound_cap V cid (set_enc_writer e w s)" "ss_enc s \<noteq> None"
    by (auto simp: srv_data_def srv_extended_data_def res_simps split: option.splits)
  then show ?thesis
    using kept_trans [OF _ kept_enforce, of s "set_enc_writer e w s"] by (simp add: kept_def)
qed

lemma kept_close: "srv_close V cid s = Inr s' \<Longrightarrow> kept s s'"
  by (auto simp: srv_close_def Let_def kept_def split: option.splits if_splits)

lemma kept_answer: "channel_answer m V cid s = Inr s' \<Longrightarrow> kept s s'"
  by (auto simp: channel_answer_def kept_def split: option.splits if_splits)

lemmas kept_answers = kept_answer [of CHANNEL_SUCCESS, folded channel_success_def] kept_answer [of CHANNEL_FAILURE, folded channel_failure_def]

lemma kept_open: "channel_open_generic V kind suffix s = Inr (cid, s') \<Longrightarrow> kept s s'"
  by (auto simp: channel_open_generic_def Let_def kept_def split: option.splits if_splits)

lemma kept_notice: "channel_notice body V cid s = Inr s' \<Longrightarrow> kept s s'"
  by (auto simp: channel_notice_def kept_def split: option.splits if_splits)

lemma kept_pending: "srv_flush_pending V cid s = Inr (n, s') \<Longrightarrow> kept s s'"
  by (auto simp: srv_flush_pending_def res_simps kept_def split: option.splits)

lemma kept_eof: "srv_eof V cid s = Inr s' \<Longrightarrow> kept s s'"
  by (auto simp: srv_eof_def kept_def split: option.splits)

lemma kept_total:
  "kept s (request_success V s)" "kept s (request_failure V s)" "kept s (channel_open_failure V cid reason description lang s)"
  "kept s (srv_debug V always message lang s)" "kept s (global_request V await name body s)"
  "kept s (accept_open_handle p s)" "kept s (reject_open_handle p r s)"
  by (simp_all add: request_success_def request_failure_def channel_open_failure_def srv_debug_def session_debug_def
      global_request_def accept_open_handle_def reject_open_handle_def kept_def push_message_def Let_def split: option.split)

lemma kept_api: "api_step V s s' \<Longrightarrow> kept s s'"
  by (induction rule: api_step.induct) (erule kept_answers kept_open kept_notice kept_pending kept_eof kept_close kept_flush kept_data [OF disjI1] kept_data [OF disjI2] |
      rule kept_total kept_disconnect)+

lemma kept_call:
  assumes "handler_ok V" "sv_call V cb (h, s) = Inr (r, h', s')"
  shows "kept s s'"
proof -
  from assms have "(api_step V)\<^sup>*\<^sup>* s s'" unfolding handler_ok_def by blast
  then show ?thesis by (induction rule: rtranclp_induct) (auto intro: kept_refl kept_trans kept_api)
qed

section \<open>Sequences of steps\<close>

text \<open>Everything the run loop does with the session, one rule per operation.\<close>

inductive session_step :: "('q, 'h) serverenv \<Rightarrow> 'h \<times> 'q ServerSession \<Rightarrow> 'h \<times> 'q ServerSession \<Rightarrow> bool" for V where
  step_reply: "reply V t ids pkt (h, s) = Inr ((h', s'), n) \<Longrightarrow> session_step V (h, s) (h', s')"
| step_message: "dispatch_msg V m s = Inr s' \<Longrightarrow> session_step V (h, s) (h, s')"
| step_replies: "session_step V (h, s) (h, drain_open_replies V s)"
| step_pump: "pump_inbound V cid generation permit (h, s) = Inr (h', s') \<Longrightarrow> session_step V (h, s) (h', s')"
| step_reserve: "srv_drain_needs_reserve rs s = (s', rs') \<Longrightarrow> session_step V (h, s) (h, s')"
| step_flush: "srv_flush V t s = Inr s' \<Longrightarrow> session_step V (h, s) (h, s')"
| step_acks: "session_step V (h, s) (h, release_outbound_acks ids s)"
| step_rekey: "begin_rekey V t s = Inr s' \<Longrightarrow> session_step V (h, s) (h, s')"
| step_keepalive: "session_step V (h, s) (h, keepalive_request V s)"

locale session_steps = session_relation V R
  for V :: "('q, 'h) serverenv" and R :: "'q ServerSession \<Rightarrow> 'q ServerSession \<Rightarrow> bool" +
  assumes keeps_api: "api_step V s s' \<Longrightarrow> R s s'"
    and keeps_open_reply: "(p, r) \<in> set (ss_open_replies s) \<Longrightarrow> R s (finalize_channel_open_reply V p r s)"
    and keeps_fewer_replies: "set rs \<subseteq> set (ss_open_replies s) \<Longrightarrow> R s (s\<lparr> ss_open_replies := rs \<rparr>)"
    and keeps_kex: "R s (s\<lparr> ss_kex := k \<rparr>)"
    and keeps_reads: "R s (s\<lparr> ss_pending_reads := ps, ss_pending_len := n \<rparr>)"
    and keeps_deadline: "R s (s\<lparr> ss_rekey_deadline := dl \<rparr>)"
    and keeps_rekey: "begin_rekey V t s = Inr s' \<Longrightarrow> R s s'"
    and keeps_first: "ss_enc s = None \<Longrightarrow> R s (first_kex_done V t nk (s\<lparr> ss_common := (ss_common s)\<lparr> cs_strict_kex := st \<rparr> \<rparr>))"
    and keeps_newkeys: "cs_encrypted (session_newkeys nk ((ss_common s)\<lparr> cs_strict_kex := st \<rparr>)) = Some e1 \<Longrightarrow>
      flush_all_pending_with_writer E ids (e1\<lparr> enc_last_rekey := now \<rparr>) w = Inr (e2, w2) \<Longrightarrow>
      R s (set_enc_writer e2 w2 (s\<lparr> ss_common := (session_newkeys nk ((ss_common s)\<lparr> cs_strict_kex := st \<rparr>))\<lparr> cs_packet_writer := w \<rparr> \<rparr>))"
begin

lemma keeps_flush: "srv_flush V t s = Inr s' \<Longrightarrow> R s s'"
  by (rule keeps_api) (rule api_flush)

lemma keeps_packets: "process_packets V now ps (h, s) = Inr (h', s') \<Longrightarrow> R s s'"
  by (induction ps arbitrary: h s) (auto simp: keeps_same res_simps intro: keeps_trans dest: keeps_packet)

lemma keeps_rekey_done:
  assumes "rekey_done V t ids nk (h, s\<lparr> ss_common := (ss_common s)\<lparr> cs_strict_kex := st \<rparr> \<rparr>) = Inr (h', s')" "ss_enc s \<noteq> None"
  shows "R s s'"
proof -
  let ?cs = "session_newkeys nk ((ss_common s)\<lparr> cs_strict_kex := st \<rparr>)"
  obtain e1 where e1: "cs_encrypted ?cs = Some e1"
    using assms(2) by (auto simp: session_newkeys_def Let_def)
  obtain w where w: "w = (cs_packet_writer ?cs)\<lparr> pw_write_buffer := (pw_write_buffer (cs_packet_writer ?cs))\<lparr> sb_bytes := 0 \<rparr> \<rparr>"
    by simp
  from assms(1) obtain e2 w2 h1 s1 where
    f: "flush_all_pending_with_writer (sv_env V) ids (e1\<lparr> enc_last_rekey := mo_now t \<rparr>) w = Inr (e2, w2)"
    and p: "process_packets V (mo_now t) (ss_pending_reads s)
      (h, (set_enc_writer e2 w2 (s\<lparr> ss_common := ?cs\<lparr> cs_packet_writer := w \<rparr> \<rparr>))\<lparr> ss_pending_reads := [] \<rparr>) = Inr (h1, s1)"
    and l: "srv_flush V t (s1\<lparr> ss_pending_reads := [], ss_pending_len := 0 \<rparr>) = Inr s'"
    by (auto simp: rekey_done_def Let_def w [symmetric] e1 res_simps set_enc_writer_def)
  define s0 where "s0 = set_enc_writer e2 w2 (s\<lparr> ss_common := ?cs\<lparr> cs_packet_writer := w \<rparr> \<rparr>)"
  have "R s s0"
    unfolding s0_def by (rule keeps_newkeys [OF e1 f])
  moreover have "R s0 (s0\<lparr> ss_pending_reads := [] \<rparr>)"
    using keeps_reads [where s = s0 and ps = "[]" and n = "ss_pending_len s0"] by simp
  moreover have "R (s0\<lparr> ss_pending_reads := [] \<rparr>) s1"
    using p [folded s0_def] by (rule keeps_packets)
  moreover have "R s1 s'"
    by (rule keeps_trans [OF keeps_reads keeps_flush [OF l]])
  ultimately show ?thesis by (blast intro: keeps_trans)
qed

lemma keeps_kex_done:
  assumes "kex_done V t ids nk (h, s) = Inr (h', s')"
  shows "R s s'"
proof -
  let ?s = "s\<lparr> ss_common := (ss_common s)\<lparr> cs_strict_kex := (cs_strict_kex (ss_common s) \<or> nm_strict_kex (nk_names nk)) \<rparr> \<rparr>"
  from assms obtain s1 where d: "(if ss_enc s \<noteq> None then rekey_done V t ids nk (h, ?s) else Inr (h, first_kex_done V t nk ?s)) = Inr (h', s1)"
    and s': "s' = clear_rekey_deadline (s1\<lparr> ss_kex := Kex_Idle \<rparr>)"
    by (auto simp: kex_done_def Let_def bindR_Inr_iff)
  have "R s s1"
  proof (cases "ss_enc s = None")
    case True
    then show ?thesis using d keeps_first [OF True] by auto
  next
    case False
    then show ?thesis using d keeps_rekey_done [OF _ False] by simp
  qed
  then show ?thesis
    unfolding s' clear_rekey_deadline_def by (rule keeps_trans [OF _ keeps_trans [OF keeps_kex keeps_deadline]])
qed

lemma keeps_kex_step:
  assumes "kex_step V t ids kex pkt (h, s) = Inr ((h', s'), n)"
  shows "R s s'"
proof -
  from assms obtain progress w where p: "server_step (sv_kex V) (sv_lookup_dh_gex_group V h) (packet_emit (sv_env V)) (mo_random t) kex
    (Some pkt) (ss_writer s) = Inr (progress, w)"
    by (auto simp: kex_step_def res_simps)
  define s1 where "s1 = s\<lparr> ss_common := (ss_common s)\<lparr> cs_packet_writer := w \<rparr> \<rparr>"
  have "R s s1"
    unfolding s1_def by (rule keeps_writer)
  moreover obtain s2 where "R s1 s2" "srv_flush V t s2 = Inr s'"
  proof (cases progress)
    case (NeedsReply k reset)
    define s2 where "s2 = s1\<lparr> ss_kex := Kex_InProgress k \<rparr>"
    have "R s1 s2" "R s1 (s2\<lparr> ss_common := session_reset_seqn (ss_common s2) \<rparr>)"
      using keeps_kex keeps_writer unfolding s2_def session_reset_seqn_def by (blast intro: keeps_trans)+
    moreover have "srv_flush V t (if reset then s2\<lparr> ss_common := session_reset_seqn (ss_common s2) \<rparr> else s2) = Inr s'"
      using assms p NeedsReply by (auto simp: kex_step_def res_simps Let_def s1_def s2_def)
    ultimately show ?thesis
      by (cases reset) (auto intro: that)
  next
    case (Done k nk)
    with assms p that show ?thesis
      by (auto simp: kex_step_def res_simps Let_def s1_def [symmetric] intro: keeps_kex_done)
  qed
  ultimately show ?thesis
    by (blast intro: keeps_trans keeps_flush)
qed

lemma keeps_reply:
  assumes "reply V t ids pkt (h, s) = Inr ((h', s'), n)"
  shows "R s s'"
proof (cases "\<exists>m\<in>set (take 1 (in_buffer pkt)). m \<in> {IGNORE, UNIMPLEMENTED, DEBUG}")
  case True
  with assms show ?thesis by (simp add: reply_def res_simps keeps_same)
next
  case False
  from assms obtain s1 where b: "(if take 1 (in_buffer pkt) = [KEXINIT] \<and> ss_kex s = Kex_Idle then begin_rekey V t s else Inr s) = Inr s1"
    and body: "(let (taken, left) = kex_take (ss_kex s1) in
         if \<exists>m\<in>set (take 1 (in_buffer pkt)). is_kex_msg m
         then (let s = s1\<lparr> ss_kex := left \<rparr> in
               case taken of
                 Kex_InProgress kex \<Rightarrow> kex_step V t ids kex pkt (h, s)
               | _ \<Rightarrow> bindR (process_packet V (mo_now t) (in_buffer pkt) (h, s)) (\<lambda>hs. Inr (hs, in_seqn pkt)))
         else bindR (process_packet V (mo_now t) (in_buffer pkt) (h, s1)) (\<lambda>hs. Inr (hs, in_seqn pkt))) = Inr ((h', s'), n)"
    unfolding reply_def prod.case bindR_Inr_iff if_not_P [OF False] by blast
  have s1: "R s s1"
    using b by (cases "take 1 (in_buffer pkt) = [KEXINIT] \<and> ss_kex s = Kex_Idle") (auto simp: keeps_same intro: keeps_rekey)
  obtain taken left where k: "kex_take (ss_kex s1) = (taken, left)" by fastforce
  have "R s1 s'" if "process_packet V (mo_now t) (in_buffer pkt) (h, s1) = Inr (h', s')"
    using that by (rule keeps_packet)
  moreover have "R s1 s'" if "process_packet V (mo_now t) (in_buffer pkt) (h, s1\<lparr> ss_kex := left \<rparr>) = Inr (h', s')"
    using keeps_trans [OF keeps_kex keeps_packet [OF that]] .
  moreover have "R s1 s'" if "kex_step V t ids kex pkt (h, s1\<lparr> ss_kex := left \<rparr>) = Inr ((h', s'), n)" for kex
    using keeps_trans [OF keeps_kex keeps_kex_step [OF that]] .
  ultimately have "R s1 s'"
    using body unfolding k Let_def prod.case by (cases taken) (auto simp: res_simps split: if_splits)
  with s1 show ?thesis by (rule keeps_trans)
qed

lemma keeps_pump_item:
  assumes "pump_item V cid item (h, s) = Inr (h', s')"
  shows "R s s'"
proof -
  define s1 where "s1 = permit_send V cid (to_msg item)
    (update_queue cid (\<lambda>q. q\<lparr> iq_queue := tl (iq_queue q), iq_pending_bytes := iq_pending_bytes q - byte_len item \<rparr>) s)"
  obtain h2 s2 where g: "(if grants_window item then maybe_grant_after_delivery V cid (h, s1) else (h, s1)) = (h2, s2)" by fastforce
  from assms obtain s3 where i: "invoke V (deferred_callback cid (capture_callback item)) (h2, s2) = Inr (h', s3)"
    and s': "s' = (if item = II_Close then finalize_close cid s3 else pump_rearm cid s3)"
    by (auto simp: pump_item_def Let_def g [unfolded s1_def] bindR_Inr_iff)
  have "R s s1"
    unfolding s1_def permit_send_def update_queue_def by (rule keeps_trans [OF keeps_delivery keeps_delivery])
  moreover have "R s1 s2"
    using g by (cases "grants_window item") (auto simp: keeps_same intro: keeps_grant_after)
  moreover have "R s3 s'"
    unfolding s' pump_rearm_def Let_def by (simp add: keeps_finalize keeps_delivery)
  ultimately show ?thesis
    using keeps_invoke [OF i] by (blast intro: keeps_trans)
qed

lemma keeps_pump:
  assumes "pump_inbound V cid generation permit (h, s) = Inr (h', s')"
  shows "R s s'"
proof (cases "dl_inbound (ss_delivery s) cid")
  case None
  with assms show ?thesis by (simp add: pump_inbound_def keeps_same)
next
  case (Some q)
  define s1 where "s1 = update_queue cid (\<lambda>q. q\<lparr> iq_reserving := False \<rparr>) s"
  have s1: "R s s1"
    unfolding s1_def update_queue_def by (rule keeps_delivery)
  from assms Some consider "s' = s" | "s' = s1" | "s' = teardown_inbound_channel cid s1"
    | s2 where "invoke V (CB_channel_close cid) (h, s1) = Inr (h', s2)" "s' = finalize_close cid s2"
    | item where "pump_item V cid item (h, s1) = Inr (h', s')"
    by (auto simp: pump_inbound_def Let_def s1_def [symmetric] bindR_Inr_iff split: if_splits list.splits)
  then have "s' = s \<or> R s1 s'"
    by cases (auto simp: keeps_same keeps_app_remove intro: keeps_trans [OF keeps_invoke keeps_finalize] keeps_pump_item)
  with s1 show ?thesis
    using keeps_same keeps_trans by blast
qed

lemma keeps_data_acked:
  assumes "data_acked V cid ext data ack s = Inr s'"
  shows "R s s'"
proof -
  from assms obtain s1 where "(case ext of None \<Rightarrow> srv_data V cid data s | Some ext \<Rightarrow> srv_extended_data V cid ext data s) = Inr s1"
    and s': "s' = s1 \<or> s' = signal (SG_Done ack) s1 \<or> (\<exists>acks. s' = s1\<lparr> ss_outbound_acks := acks \<rparr>)"
    by (auto simp: data_acked_def bindR_Inr_iff Let_def split: if_splits)
  then have "R s s1"
    by (cases ext) (auto intro: keeps_api api_step.intros)
  with s' show ?thesis
    using keeps_signal keeps_acks by (blast intro: keeps_trans)
qed

lemma keeps_dispatch_channel: "dispatch_channel V cid m s = Inr s' \<Longrightarrow> R s s'"
  by (cases m) (auto simp: keeps_same xon_xoff_request_def exit_status_request_def exit_signal_request_def Let_def
      simp del: str_simps intro: keeps_api api_step.intros)

lemma keeps_register: "register_channel r (channel_open_generic V kind suffix s) = Inr s' \<Longrightarrow> R s s'"
  by (auto simp: register_channel_def bindR_Inr_iff intro: keeps_trans [OF keeps_api keeps_delivery] api_step.intros)

lemma keeps_dispatch: "dispatch V m s = Inr s' \<Longrightarrow> R s s'"
  by (cases m) (auto simp: srv_channel_open_agent_def srv_channel_open_session_def srv_channel_open_direct_tcpip_def
      srv_channel_open_direct_streamlocal_def srv_channel_open_forwarded_tcpip_def srv_channel_open_forwarded_streamlocal_def
      srv_channel_open_x11_def srv_tcpip_forward_def srv_cancel_tcpip_forward_def Let_def simp del: str_simps
      intro: keeps_dispatch_channel keeps_data_acked keeps_register keeps_api api_step.intros)

lemma keeps_open_replies: "R s (drain_open_replies V s)"
proof -
  have "R s (fold (\<lambda>(p, r). finalize_channel_open_reply V p r) rs s)" if "set rs \<subseteq> set (ss_open_replies s)" for rs s
    using that
  proof (induction rs arbitrary: s)
    case (Cons x rs)
    obtain p r where x: "x = (p, r)" by (cases x)
    have "ss_open_replies (finalize_channel_open_reply V p r s) = ss_open_replies s"
      by (simp add: finalize_channel_open_reply_def Let_def split: option.split)
    with Cons.IH [of "finalize_channel_open_reply V p r s"] Cons.prems show ?case
      unfolding x by (auto intro: keeps_trans [OF keeps_open_reply])
  qed (simp add: keeps_same)
  note keep = this
  have one: "finalize_channel_open_reply V p r (s\<lparr> ss_open_replies := [] \<rparr>) =
    (finalize_channel_open_reply V p r s)\<lparr> ss_open_replies := [] \<rparr>" for p r s
    by (rule ServerSession.ServerSession.equality)
      (simp_all add: finalize_channel_open_reply_def Let_def set_enc_def split: option.split)
  have comm: "fold (\<lambda>(p, r). finalize_channel_open_reply V p r) rs (s\<lparr> ss_open_replies := [] \<rparr>) =
    (fold (\<lambda>(p, r). finalize_channel_open_reply V p r) rs s)\<lparr> ss_open_replies := [] \<rparr>" for rs s
    by (induction rs arbitrary: s) (auto simp: one)
  show ?thesis
    unfolding drain_open_replies_def comm by (rule keeps_trans [OF keep keeps_fewer_replies]) simp_all
qed

lemma keeps_release: "R s (release_outbound_acks ids s)"
proof -
  have sig: "R s (fold signal xs s)" for xs s
    by (induction xs arbitrary: s) (auto simp: keeps_same intro: keeps_trans keeps_signal)
  have "R s (release_acks ids enc s)" for enc
    by (induction ids arbitrary: s)
      (auto simp: keeps_same split: option.split intro: keeps_trans [OF keeps_trans [OF keeps_acks sig]])
  then show ?thesis
    by (simp add: release_outbound_acks_def keeps_same split: option.split)
qed

lemma keeps_step: "session_step V (h, s) (h', s') \<Longrightarrow> R s s'"
  by (erule session_step.cases)
    (auto simp: dispatch_msg_def srv_drain_needs_reserve_def keepalive_request_def keeps_delivery simp del: str_simps
      split: prod.splits intro: keeps_reply keeps_pump keeps_flush keeps_rekey keeps_release keeps_open_replies
        keeps_trans [OF keeps_open_replies keeps_dispatch] keeps_api api_step.intros)

lemma keeps_run: "(session_step V)\<^sup>*\<^sup>* hs hs' \<Longrightarrow> R (snd hs) (snd hs')"
proof (induction rule: rtranclp_induct)
  case (step y z)
  then show ?case
    using keeps_step [of "fst y" "snd y" "fst z" "snd z"] keeps_trans by simp
qed (rule keeps_same)

end

section \<open>Strict mode is only set with encryption\<close>

definition strict_secured :: "'q ServerSession \<Rightarrow> bool" where
  "strict_secured s \<longleftrightarrow> (cs_strict_kex (ss_common s) \<longrightarrow> ss_enc s \<noteq> None)"

lemma kept_secured: "kept s s' \<Longrightarrow> strict_secured s \<Longrightarrow> strict_secured s'"
  by (auto simp: kept_def strict_secured_def)

lemma first_kex_encrypts: "ss_enc (first_kex_done V t nk s) \<noteq> None"
  by (simp add: first_kex_done_def maybe_send_ext_info_def Let_def session_encrypted_def split: option.split)

lemma kept_open_reply: "kept s (finalize_channel_open_reply V p r s)"
  by (simp add: kept_def finalize_channel_open_reply_def Let_def split: option.split)

interpretation strict_rel: session_steps V "\<lambda>s s'. handler_ok V \<longrightarrow> strict_secured s \<longrightarrow> strict_secured s'" for V
proof (unfold_locales, goal_cases)
  case 3
  then show ?case by (intro impI) (rule kept_secured [OF kept_call])
qed (auto simp: strict_secured_def drop_open_handle_def first_kex_encrypts kept_def kept_open_reply [unfolded kept_def]
    dest!: kept_rekey kept_api)

section \<open>The channel table\<close>

text \<open>
  A channel stands under its own number. Data is only queued on a confirmed channel, and an end-of-file or a close message
  only waits behind data.
\<close>

definition channel_wf :: "ChannelId \<Rightarrow> ChannelParams \<Rightarrow> bool" where
  "channel_wf cid ch \<longleftrightarrow> sender_channel ch = cid \<and> (pending_data ch \<noteq> [] \<longrightarrow> confirmed ch) \<and>
     (pending_eof ch \<or> pending_close ch \<longrightarrow> pending_data ch \<noteq> [])"

definition channels_wf :: "Encrypted \<Rightarrow> bool" where
  "channels_wf e \<longleftrightarrow> (\<forall>cid ch. enc_channels e cid = Some ch \<longrightarrow> channel_wf cid ch)"

definition session_wf :: "'q ServerSession \<Rightarrow> bool" where
  "session_wf s \<longleftrightarrow> (\<forall>e. ss_enc s = Some e \<longrightarrow> channels_wf e) \<and>
     (\<forall>(p, r)\<in>set (ss_open_replies s). channel_wf (po_sender_channel p) (po_channel_params p))"

lemma channels_wf_same: "enc_channels e' = enc_channels e \<Longrightarrow> channels_wf e' = channels_wf e"
  by (simp add: channels_wf_def)

lemma channels_wf_upd:
  "channels_wf e \<Longrightarrow> enc_channels e' = (enc_channels e)(cid := x) \<Longrightarrow> (\<And>ch. x = Some ch \<Longrightarrow> channel_wf cid ch) \<Longrightarrow> channels_wf e'"
  by (auto simp: channels_wf_def)

lemma update_channel_wf:
  assumes "channels_wf e" "\<And>ch. enc_channels e cid = Some ch \<Longrightarrow> channel_wf cid ch \<Longrightarrow> channel_wf cid (f ch)"
  shows "channels_wf (update_channel cid f e)"
  by (rule channels_wf_upd [OF assms(1)]) (use assms in \<open>auto simp: update_channel_def channels_wf_def\<close>)

lemma remove_channel_wf: "channels_wf e \<Longrightarrow> channels_wf (remove_channel cid e)"
  by (erule channels_wf_upd) (auto simp: remove_channel_def)

lemma channel_byte_channels [simp]: "enc_channels (channel_byte C cid m e) = enc_channels e"
  by (simp add: channel_byte_def split: option.split)

lemma enc_push_channels [simp]: "enc_channels (enc_push C p e) = enc_channels e"
  by (simp add: enc_push_def)

lemma controls_wf: "channels_wf e \<Longrightarrow> channels_wf (channel_eof C cid e)" "channels_wf e \<Longrightarrow> channels_wf (channel_close C cid e)"
  by (auto simp: channel_eof_def channel_close_def channels_wf_same [OF channel_byte_channels] has_pending_data_def channel_wf_def
      split: option.splits intro!: update_channel_wf remove_channel_wf)

lemma close_discarding_wf: "channels_wf e \<Longrightarrow> channels_wf (close_discarding_pending C cid e)"
  by (auto simp: close_discarding_pending_def channels_wf_same [OF channel_byte_channels] channel_wf_def
      intro!: update_channel_wf remove_channel_wf)

text \<open>A destination for data only changes the window of the channel.\<close>

definition window_only :: "'w sender \<Rightarrow> bool" where
  "window_only send \<longleftrightarrow> (\<forall>buf a i w ch n w' ch'. send buf a i w ch = Inr (n, w', ch') \<longrightarrow>
     (\<exists>x. ch' = ch\<lparr> recipient_window_size := x \<rparr>))"

lemma window_same: "\<exists>x. ch = ch\<lparr> recipient_window_size := x \<rparr>"
  by (cases ch) auto

lemma data_loop_window: "data_loop C em a m buf w ch = Inr (w', ch') \<Longrightarrow> \<exists>x. ch' = ch\<lparr> recipient_window_size := x \<rparr>"
proof (induction C em a m buf w ch rule: data_loop.induct)
  case (1 C em a m w ch)
  then show ?case by (simp add: window_same)
next
  case 3
  then show ?case by (fastforce simp: Let_def bindR_Inr_iff)
qed simp

lemma window_only_senders: "window_only (send_within_window C em)" "window_only (send_direct_or_push E)"
proof -
  show *: "window_only (send_within_window C em)" for C :: codec and em :: "'w emit"
    by (auto simp: window_only_def send_within_window_def Let_def bindR_Inr_iff window_same split: if_splits dest: data_loop_window)
  show "window_only (send_direct_or_push E)"
    using * [of "cdc E" "push_emit (cdc E)"] * [of "cdc E" "packet_emit E"]
    by (fastforce simp: window_only_def send_direct_or_push_def data_noqueue_def data_noqueue_direct_def
        bindR_Inr_iff split: if_splits)
qed

lemma flush_loop_wf:
  assumes "window_only send" "flush_loop send items n w ch = Inr (r, w', ch')"
    and "sender_channel ch = cid" "items \<noteq> [] \<longrightarrow> confirmed ch"
  shows "channel_wf cid ch'"
  using assms
proof (induction send items n w ch rule: flush_loop.induct)
  case (1 send n w ch)
  then show ?case
    by (auto simp: flush_complete_def take_pending_controls_def channel_wf_def)
next
  case (2 send buf a i rest n w ch)
  from 2(3) obtain size w1 ch1 where s: "send buf a i w (ch\<lparr> pending_data := rest \<rparr>) = Inr (size, w1, ch1)"
    by (auto simp: bindR_Inr_iff)
  then obtain x where ch1: "ch1 = ch\<lparr> pending_data := rest, recipient_window_size := x \<rparr>"
    using 2(2) unfolding window_only_def by blast
  show ?case
  proof (cases "i + size < length buf")
    case True
    with 2(3-) s ch1 show ?thesis by (auto simp: channel_wf_def)
  next
    case False
    with 2(1) [OF False] 2(2-) s ch1 show ?thesis by simp
  qed
qed

lemma flushed_wf:
  assumes "channels_wf e" "enc_channels e cid = Some ch" "window_only send"
    and "flush_loop send (pending_data ch) 0 w ch = Inr (r, w', ch')"
  shows "channels_wf (handle_flushed_channel C cid r (e\<lparr> enc_write := b, enc_channels := (enc_channels e)(cid \<mapsto> ch') \<rparr>))"
proof -
  have "channel_wf cid ch"
    using assms(1,2) by (simp add: channels_wf_def)
  then have "channel_wf cid ch'"
    by (intro flush_loop_wf [OF assms(3,4)]) (auto simp: channel_wf_def)
  then have "channels_wf (e\<lparr> enc_write := b, enc_channels := (enc_channels e)(cid \<mapsto> ch') \<rparr>)"
    using assms(1) by (auto simp: channels_wf_def)
  then show ?thesis
    by (cases r) (simp_all add: Let_def controls_wf)
qed

lemma flush_pending_wf:
  "channels_wf e \<Longrightarrow> flush_pending C cid e = Inr (n, e') \<Longrightarrow> channels_wf e'"
  "channels_wf e \<Longrightarrow> flush_pending_with_writer E cid e w = Inr (n, e', w') \<Longrightarrow> channels_wf e'"
  using window_only_senders(1) [of C "push_emit C"] window_only_senders(2) [of E]
  by (auto simp: flush_pending_def flush_pending_with_writer_def flush_channel_def flush_channel_with_writer_def
      data_noqueue_def bindR_Inr_iff split: option.splits intro: flushed_wf)

lemma flush_all_wf:
  "channels_wf e \<Longrightarrow> flush_all_pending_with_writer E ids e w = Inr (e', w') \<Longrightarrow> channels_wf e'"
  by (induction ids arbitrary: e w) (auto simp: bindR_Inr_iff dest: flush_pending_wf(2))

lemma queue_or_send_wf:
  assumes "window_only send" "queue_or_send send a buf rk w ch = Inr (w', ch')" "channel_wf cid ch"
  shows "channel_wf cid ch'"
proof (cases "pending_data ch \<noteq> [] \<or> rk")
  case True
  with assms(2,3) show ?thesis
    by (auto simp: queue_or_send_def channel_wf_def split: if_splits)
next
  case False
  with assms(2) obtain n ch1 where "send buf a 0 w ch = Inr (n, w', ch1)" and c: "confirmed ch"
    and ch': "ch' = (if n < length buf then ch1\<lparr> pending_data := pending_data ch1 @ [(buf, a, n)] \<rparr> else ch1)"
    by (cases "confirmed ch") (auto simp: queue_or_send_def bindR_Inr_iff)
  then obtain x where "ch1 = ch\<lparr> recipient_window_size := x \<rparr>"
    using assms(1) unfolding window_only_def by blast
  with assms(3) c show ?thesis
    by (simp add: ch' channel_wf_def)
qed

lemma send_wf:
  assumes "channels_wf e" "send_on_channel_with_writer E a cid buf rk e w = Inr (e', w')"
  shows "channels_wf e'"
proof (cases "enc_channels e cid")
  case None
  with assms show ?thesis by (simp add: send_on_channel_with_writer_def)
next
  case (Some ch)
  with assms(2) obtain ww ch' where q: "queue_or_send (send_direct_or_push E) a buf rk (enc_write e, w) ch = Inr (ww, ch')"
    and e': "enc_channels e' = (enc_channels e)(cid \<mapsto> ch')"
    by (auto simp: send_on_channel_with_writer_def bindR_Inr_iff)
  have "channel_wf cid ch'"
    using queue_or_send_wf [OF window_only_senders(2) q] assms(1) Some by (simp add: channels_wf_def)
  then show ?thesis
    by (intro channels_wf_upd [OF assms(1) e']) simp
qed

lemma session_wf_common:
  "ss_open_replies s' = ss_open_replies s \<Longrightarrow> (\<And>e'. ss_enc s' = Some e' \<Longrightarrow> \<exists>e. ss_enc s = Some e \<and> (channels_wf e \<longrightarrow> channels_wf e')) \<Longrightarrow>
    session_wf s \<Longrightarrow> session_wf s'"
  by (auto simp: session_wf_def)

lemma pending_open_wf: "channel_wf (po_sender_channel (pending_open V m cid)) (po_channel_params (pending_open V m cid))"
  by (simp add: pending_open_def Let_def channel_wf_def)

lemma new_channel_wf: "new_channel win pkt e = Some (cid, e') \<Longrightarrow> channels_wf e \<Longrightarrow> channels_wf e'"
  by (auto simp: new_channel_def channels_wf_def channel_wf_def split: if_splits)

lemma begin_rekey_fields:
  assumes "begin_rekey V t s = Inr s'"
  shows "ss_enc s' = ss_enc s" "ss_open_replies s' = ss_open_replies s"
  using assms unfolding begin_rekey_def Let_def by (auto simp: bindR_Inr_iff split_beta split: if_splits)

lemma session_flush_wf:
  assumes "session_wf s" "srv_flush V t s = Inr s'"
  shows "session_wf s'"
proof (cases "ss_enc s")
  case (Some e)
  with assms(2) obtain due e1 w where f: "enc_flush (sv_env V) (mo_now t) (cf_limits (sv_config V)) e (ss_writer s) = Inr (due, e1, w)"
    by (auto simp: srv_flush_def bindR_Inr_iff)
  then have "enc_channels e1 = enc_channels e"
    by (auto simp: enc_flush_def bindR_Inr_iff Let_def split: if_splits)
  moreover have "enc_channels (the (ss_enc s')) = enc_channels e1" "ss_enc s' \<noteq> None" "ss_open_replies s' = ss_open_replies s"
    using assms(2) by (auto simp: srv_flush_def Some f begin_rekey_fields split: if_splits)
  ultimately show ?thesis
    using assms(1) Some by (auto simp: session_wf_def cong: channels_wf_same)
qed (use assms in \<open>simp add: srv_flush_def\<close>)

lemma enforce_wf: "session_wf s \<Longrightarrow> session_wf (enforce_outbound_cap V cid s)"
  by (auto simp: enforce_outbound_cap_def split: option.split elim!: session_wf_common [rotated 2]
      intro!: remove_channel_wf close_discarding_wf)

lemma session_data_wf:
  assumes "session_wf s" "srv_data V cid data s = Inr s' \<or> srv_extended_data V cid ext data s = Inr s'"
  shows "session_wf s'"
proof -
  from assms(2) obtain a e e' w where "ss_enc s = Some e"
    "send_on_channel_with_writer (sv_env V) a cid data (kex_active (ss_kex s)) e (ss_writer s) = Inr (e', w)"
    and s': "s' = enforce_outbound_cap V cid (set_enc_writer e' w s)"
    by (auto simp: srv_data_def srv_extended_data_def data_with_writer_def extended_data_with_writer_def bindR_Inr_iff split: option.splits)
  with assms(1) have "session_wf (set_enc_writer e' w s)"
    by (auto elim!: session_wf_common [rotated 2] intro: send_wf)
  then show ?thesis
    unfolding s' by (rule enforce_wf)
qed

lemma session_open_wf:
  assumes "session_wf s" "channel_open_generic V kind suffix s = Inr (cid, s')"
  shows "session_wf s'"
proof -
  from assms(2) obtain e e' p where e: "ss_enc s = Some e"
    "new_channel (cf_window_size (sv_config V)) (cf_maximum_packet_size (sv_config V)) e = Some (cid, e')"
    and s': "s' = set_enc (enc_push (sv_codec V) p e') s"
    by (auto simp: channel_open_generic_def Let_def split: option.splits if_splits)
  with assms(1) show ?thesis
    using new_channel_wf [OF e(2)] by (simp add: session_wf_def channels_wf_same [OF enc_push_channels])
qed

lemma session_answer_wf: "session_wf s \<Longrightarrow> channel_answer m V cid s = Inr s' \<Longrightarrow> session_wf s'"
  by (auto simp: channel_answer_def channels_wf_same [OF enc_push_channels] channel_wf_def split: option.splits if_splits
      elim!: session_wf_common [rotated 2] intro!: update_channel_wf)

lemma session_close_wf: "session_wf s \<Longrightarrow> srv_close V cid s = Inr s' \<Longrightarrow> session_wf s'"
  by (auto simp: srv_close_def Let_def split: option.splits if_splits
      elim!: session_wf_common [rotated 2] intro!: controls_wf remove_channel_wf)

lemma session_message_wf:
  "session_wf s \<Longrightarrow> session_wf (s\<lparr> ss_common := push_message C p (ss_common s) \<rparr>)"
  "session_wf s \<Longrightarrow> session_wf (s\<lparr> ss_common := push_message C p ((ss_common s)\<lparr> cs_disconnected := b \<rparr>) \<rparr>)"
  by (auto simp: push_message_def Let_def split: option.split elim!: session_wf_common [rotated 2] cong: channels_wf_same)

lemma session_wf_api: "api_step V s s' \<Longrightarrow> session_wf s \<Longrightarrow> session_wf s'"
proof (induction rule: api_step.induct)
  case (api_disconnect s why description language_tag)
  then show ?case
    by (auto simp: srv_disconnect_def session_disconnect_def session_message_wf)
next
  case (api_debug s always_display message language_tag)
  then show ?case
    by (simp add: srv_debug_def session_debug_def session_message_wf)
next
  case (api_accept s m cid)
  then show ?case by (auto simp: accept_open_handle_def session_wf_def pending_open_wf)
next
  case (api_reject s m cid reason)
  then show ?case by (auto simp: reject_open_handle_def session_wf_def pending_open_wf)
next
  case (api_global s await name body)
  then show ?case
    by (auto simp: global_request_def Let_def elim!: session_wf_common [rotated 2] simp: channels_wf_same [OF enc_push_channels] split: option.split)
qed (auto simp: channel_success_def channel_failure_def intro: session_data_wf session_open_wf session_answer_wf session_close_wf session_flush_wf,
   auto simp: srv_eof_def request_success_def request_failure_def channel_notice_def channel_open_failure_def srv_flush_pending_def
     bindR_Inr_iff Let_def channels_wf_same [OF enc_push_channels] split: option.splits if_splits elim!: session_wf_common [rotated 2]
     intro: controls_wf flush_pending_wf)

lemma session_wf_call:
  assumes "handler_ok V" "sv_call V cb (h, s) = Inr (r, h', s')" "session_wf s"
  shows "session_wf s'"
proof -
  from assms have "(api_step V)\<^sup>*\<^sup>* s s'" unfolding handler_ok_def by blast
  then show ?thesis using assms(3) by (induction rule: rtranclp_induct) (auto dest: session_wf_api)
qed

lemma session_wf_enc:
  "(\<And>e. channels_wf e \<Longrightarrow> channels_wf (f e)) \<Longrightarrow> session_wf s \<Longrightarrow> session_wf (on_enc f s)"
  by (auto simp: session_wf_def)

lemma grant_wf: "maybe_grant_recv_window C cid target undelivered e = (g, e') \<Longrightarrow> channels_wf e \<Longrightarrow> channels_wf e'"
  by (auto simp: maybe_grant_recv_window_def Let_def channel_wf_def channels_wf_same [of "_\<lparr> enc_write := _ \<rparr>"]
      split: option.splits if_splits intro!: update_channel_wf)

lemma adjust_wf:
  "flush_pending_with_writer E cid (window_adjust cid amount e) w = Inr (n, e', w') \<Longrightarrow> channels_wf e \<Longrightarrow> channels_wf e'"
  by (rule flush_pending_wf(2)) (auto simp: window_adjust_def channel_wf_def intro!: update_channel_wf)

lemma newkeys_wf:
  "cs_encrypted (session_newkeys nk cs) = Some e \<Longrightarrow> (\<And>e. cs_encrypted cs = Some e \<Longrightarrow> channels_wf e) \<Longrightarrow> channels_wf e"
  by (auto simp: session_newkeys_def Let_def split: option.splits cong: channels_wf_same)

lemma session_reply_wf: "(p, r) \<in> set (ss_open_replies s) \<Longrightarrow> session_wf s \<Longrightarrow> session_wf (finalize_channel_open_reply V p r s)"
  by (auto simp: session_wf_def finalize_channel_open_reply_def Let_def channels_wf_def split: option.split)

lemma first_channels:
  "ss_open_replies (first_kex_done V t nk s) = ss_open_replies s"
  "ss_enc (first_kex_done V t nk s) = Some e \<Longrightarrow> channels_wf e"
  by (auto simp: first_kex_done_def maybe_send_ext_info_def Let_def session_encrypted_def channels_wf_def split: option.splits if_splits)

interpretation wf_rel: session_steps V "\<lambda>s s'. handler_ok V \<longrightarrow> session_wf s \<longrightarrow> session_wf s'" for V
proof (unfold_locales, goal_cases)
  case 3
  then show ?case by (intro impI) (rule session_wf_call)
next
  case (32 nk st s e1 E ids now w e2 w2)
  show ?case
  proof (intro impI)
    assume "session_wf s"
    then have "channels_wf e1"
      by (intro newkeys_wf [OF 32(1)]) (simp add: session_wf_def)
    then have "channels_wf e2"
      by (intro flush_all_wf [OF _ 32(2)]) (simp add: channels_wf_same [of "_\<lparr> enc_last_rekey := _ \<rparr>"])
    with \<open>session_wf s\<close> show "session_wf (set_enc_writer e2 w2
      (s\<lparr> ss_common := (session_newkeys nk ((ss_common s)\<lparr> cs_strict_kex := st \<rparr>))\<lparr> cs_packet_writer := w \<rparr> \<rparr>))"
      by (simp add: session_wf_def)
  qed
next
  case (18 s e cid target undelivered g e')
  then show ?case using grant_wf by (fastforce simp: session_wf_def)
qed (auto intro: session_reply_wf session_wf_api
    intro!: session_wf_enc remove_channel_wf close_discarding_wf update_channel_wf
    simp: consume_recv_window_def confirm_def channel_wf_def channels_wf_same [of "_\<lparr> enc_write := _ \<rparr>"]
      channels_wf_same [of "_\<lparr> enc_state := _ \<rparr>"] channels_wf_same [of "_\<lparr> enc_decompress := _ \<rparr>"]
      channels_wf_same [of "_\<lparr> enc_last_channel_id := _ \<rparr>"],
    auto simp: session_wf_def drop_open_handle_def pending_open_wf begin_rekey_fields first_channels
      dest: adjust_wf newkeys_wf flush_all_wf)

section \<open>Packets before authentication\<close>

fun awaits_auth :: "EncryptedState \<Rightarrow> bool" where
  "awaits_auth (ES_WaitingAuthServiceRequest _ _) = True"
| "awaits_auth (ES_WaitingAuthRequest _) = True"
| "awaits_auth _ = False"

text \<open>The session with another state of the encryption, user name and count of attempts.\<close>

definition auth_fields :: "Encrypted \<Rightarrow> rstring \<Rightarrow> nat \<Rightarrow> 'q ServerSession \<Rightarrow> 'q ServerSession" where
  "auth_fields e user attempts s =
     s\<lparr> ss_common := (ss_common s)\<lparr> cs_encrypted := Some e, cs_auth_user := user, cs_auth_attempts := attempts \<rparr> \<rparr>"

lemma auth_fields_enc: "set_enc e s = auth_fields e (cs_auth_user (ss_common s)) (cs_auth_attempts (ss_common s)) s"
proof -
  have "(ss_common s)\<lparr> cs_encrypted := Some e, cs_auth_user := cs_auth_user (ss_common s),
      cs_auth_attempts := cs_auth_attempts (ss_common s) \<rparr> = (ss_common s)\<lparr> cs_encrypted := Some e \<rparr>"
    by (rule CommonSession.equality) simp_all
  then show ?thesis by (simp add: auth_fields_def set_enc_def)
qed

lemma on_enc_auth_fields: "on_enc f (auth_fields e u n s) = auth_fields (f e) u n s"
  by (simp add: on_enc_def auth_fields_def set_enc_def)

definition decompressing :: "Encrypted \<Rightarrow> Encrypted" where
  "decompressing e = (if is_deferred (enc_client_compression e)
     then e\<lparr> enc_decompress := init_decompress (enc_client_compression e) (enc_decompress e) \<rparr> else e)"

text \<open>A packet that leaves the client waiting, and one that lets it in.\<close>

definition still_waiting :: "Encrypted \<Rightarrow> 'q ServerSession \<Rightarrow> 'q ServerSession \<Rightarrow> bool" where
  "still_waiting e s s' \<longleftrightarrow> (\<exists>st b u n. s' = auth_fields (e\<lparr> enc_state := st, enc_write := b \<rparr>) u n s \<and> awaits_auth st)"

definition client_admitted ::
  "('q, 'h) serverenv \<Rightarrow> instant \<Rightarrow> Encrypted \<Rightarrow> 'q ServerSession \<Rightarrow> 'h \<times> 'q ServerSession \<Rightarrow> bool" where
  "client_admitted V now e s hs \<longleftrightarrow> (\<exists>user h1 u n. lets_in (sv_auth V) now (enc_session_id e) user h1 \<and>
     invoke V CB_auth_succeeded (h1, auth_fields (decompressing (auth_accept (ae_codec (sv_auth V)) e)) u n s) = Inr hs)"

lemma still_waitingI: "awaits_auth st \<Longrightarrow> still_waiting e s (auth_fields (e\<lparr> enc_state := st, enc_write := b \<rparr>) u n s)"
  unfolding still_waiting_def by blast

lemma waiting_same: "ss_enc s = Some e \<Longrightarrow> awaits_auth (enc_state e) \<Longrightarrow> still_waiting e s s"
proof -
  assume e: "ss_enc s = Some e" "awaits_auth (enc_state e)"
  have "s = auth_fields (e\<lparr> enc_state := enc_state e, enc_write := enc_write e \<rparr>) (cs_auth_user (ss_common s)) (cs_auth_attempts (ss_common s)) s"
    using set_enc_same [OF e(1)] by (simp add: auth_fields_enc)
  with e(2) show ?thesis unfolding still_waiting_def by blast
qed

lemma auth_done_fields:
  "auth_done V (h, auth_fields e u n s) = invoke V CB_auth_succeeded (h, auth_fields (decompressing e) u n s)"
  by (simp add: auth_done_def decompressing_def [abs_def] on_enc_auth_fields)

lemma auth_request_gate:
  assumes "ssh_codec (ae_codec (sv_auth V))" "process_auth_request V now (USERAUTH_REQUEST # r) r e (h, s) = Inr hs"
  shows "still_waiting e s (snd hs) \<or> client_admitted V now e s hs"
proof -
  from assms(2) obtain e1 user h1 where
    a: "server_read_auth_request (sv_auth V) now (USERAUTH_REQUEST # r) r (cs_auth_user (ss_common s)) e h = Inr (e1, user, h1)"
    by (auto simp: process_auth_request_def bindR_Inr_iff)
  define n where "n = cs_auth_attempts (ss_common s) + 1"
  have fin: "(if enc_state e1 = ES_InitCompression then auth_done V (h1, auth_fields e1 user n s) else Inr (h1, auth_fields e1 user n s)) = Inr hs"
    using assms(2) a
    by (cases "enc_state e1 = ES_InitCompression")
      (simp_all add: process_auth_request_def Let_def n_def set_auth_user_def set_enc_def auth_fields_def)
  show ?thesis
  proof (cases "enc_state e1 = ES_InitCompression")
    case True
    then show ?thesis
      using request_accepted [OF assms(1) a True] fin by (auto simp: client_admitted_def auth_done_fields)
  next
    case False
    with request_changes [OF a] fin show ?thesis
      by (auto simp: auth_change_def intro!: disjI1 still_waitingI)
  qed
qed

lemma info_response_gate:
  assumes "process_info_response V r a e (h, s) = Inr hs"
  shows "still_waiting e s (snd hs) \<or> client_admitted V now e s hs"
proof -
  from assms obtain resp a' b h1 where
    i: "read_userauth_info_response (sv_auth V) (cs_auth_user (ss_common s)) r a (enc_write e) h = Inr (resp, a', b, h1)"
    by (auto simp: process_info_response_def bindR_Inr_iff)
  show ?thesis
  proof (cases resp)
    case True
    with i have "read_userauth_info_response (sv_auth V) (cs_auth_user (ss_common s)) r a (enc_write e) h = Inr (True, a', b, h1)"
      by simp
    note acc = response_accepted [OF this, where now = now and sid = "enc_session_id e"]
    then have "e\<lparr> enc_state := ES_InitCompression, enc_write := b \<rparr> = auth_accept (ae_codec (sv_auth V)) e"
      by (simp add: auth_accept_def server_auth_request_success_def)
    with True assms i have "invoke V CB_auth_succeeded (h1, auth_fields (decompressing (auth_accept (ae_codec (sv_auth V)) e))
        (cs_auth_user (ss_common s)) (cs_auth_attempts (ss_common s)) s) = Inr hs"
      by (simp add: process_info_response_def Let_def enc_write_state auth_fields_enc auth_done_fields)
    with acc show ?thesis unfolding client_admitted_def by blast
  next
    case False
    with assms i show ?thesis
      by (auto simp: process_info_response_def Let_def enc_write_state auth_fields_enc intro!: disjI1 still_waitingI)
  qed
qed

lemma service_gate:
  assumes "process_service_request V r e (h, s) = Inr hs" "ss_enc s = Some e" "awaits_auth (enc_state e)"
  shows "still_waiting e s (snd hs)"
proof -
  from assms(1) consider "snd hs = s"
    | a b where "snd hs = set_enc (e\<lparr> enc_state := ES_WaitingAuthRequest a, enc_write := b \<rparr>) s"
    by (auto simp: process_service_request_def bindR_Inr_iff enc_write_state server_accept_service_def Let_def split: if_splits simp del: str_simps)
  then show ?thesis
    using waiting_same [OF assms(2,3)] by cases (auto simp: auth_fields_enc intro: still_waitingI)
qed

lemma packet_gate:
  assumes "ssh_codec (ae_codec (sv_auth V))" "ss_enc s = Some e" "awaits_auth (enc_state e)"
    and "process_packet V now buf (h, s) = Inr hs"
  shows "still_waiting e s (snd hs) \<or> client_admitted V now e s hs"
proof (cases buf)
  case Nil
  with assms waiting_same show ?thesis by (auto simp: process_packet_def)
next
  case (Cons m r)
  show ?thesis
    using assms(3,4) waiting_same [OF assms(2,3)] unfolding Cons
    by (cases "enc_state e") (auto simp: process_packet_def assms(2) split: if_splits
        dest: service_gate [OF _ assms(2,3)] auth_request_gate [OF assms(1)] info_response_gate [where now = now])
qed

section \<open>Properties\<close>

text \<open>
  C3. Before the client is authenticated a packet reaches nothing but authentication. Either the client is still waited for, and
  the session differs from the old one only in the authentication state, the reply in the write buffer, the user name and the count of attempts: no
  channel, queue, pending open or waiting request of the session is touched; or the application accepted a user for this session,
  the success message is sent, and the only other thing that happens is the callback that tells the application.
\<close>

theorem unauthenticated_packet:
  assumes "ssh_codec (ae_codec (sv_auth V))" "ss_enc s = Some e" "awaits_auth (enc_state e)"
    and "process_packet V now buf (h, s) = Inr (h', s')"
  shows "(\<exists>st b u n. s' = auth_fields (e\<lparr> enc_state := st, enc_write := b \<rparr>) u n s \<and> awaits_auth st) \<or>
    (\<exists>user h1 u n. lets_in (sv_auth V) now (enc_session_id e) user h1 \<and>
       invoke V CB_auth_succeeded (h1, auth_fields (decompressing (auth_accept (ae_codec (sv_auth V)) e)) u n s) = Inr (h', s'))"
  using packet_gate [OF assms] by (simp add: still_waiting_def client_admitted_def)

theorem unauthenticated_packet_witness:
  "\<exists>user s'. process_packet demo_serverenv 0 (USERAUTH_REQUEST # demo_request (str ''password'') (0 # bytes_encode rfc4251 []))
      ((), set_enc demo_waiting demo_open_session) = Inr ((), s') \<and> lets_in demo_authenv 0 [] user ()"
proof -
  let ?s = "set_enc demo_waiting demo_open_session"
  let ?r = "demo_request (str ''password'') (0 # bytes_encode rfc4251 [])"
  have u: "cs_auth_user (ss_common ?s) = []"
    by (simp add: demo_open_session_def set_enc_def set_app_channel_def server_session_new_def server_common_new_def)
  have sid: "enc_session_id demo_waiting = []" "enc_state demo_waiting = ES_WaitingAuthRequest (AuthRequest_server method_set_all)"
    "enc_client_compression demo_waiting = Compression_None"
    by (simp_all add: demo_waiting_def demo_encrypted_def)
  obtain s' where p: "process_packet demo_serverenv 0 (USERAUTH_REQUEST # ?r) ((), ?s) = Inr ((), s')"
    and s': "ss_enc s' = Some (auth_accept rfc4251 demo_waiting)"
    by (simp add: process_packet_def sid process_auth_request_def demo_password u Let_def auth_done_def invoke_def set_auth_user_def
        on_enc_def auth_accept_def del: str_simps rfc4251_simps)
  have "\<not> (\<exists>st b u n. s' = auth_fields (demo_waiting\<lparr> enc_state := st, enc_write := b \<rparr>) u n ?s \<and> awaits_auth st)"
  proof
    assume "\<exists>st b u n. s' = auth_fields (demo_waiting\<lparr> enc_state := st, enc_write := b \<rparr>) u n ?s \<and> awaits_auth st"
    then obtain st b where "demo_waiting\<lparr> enc_state := st, enc_write := b \<rparr> = auth_accept rfc4251 demo_waiting" and st: "awaits_auth st"
      using s' by (auto simp: auth_fields_def)
    from arg_cong [OF this(1), of enc_state] have "st = ES_InitCompression" by simp
    with st show False by simp
  qed
  moreover have "ssh_codec (ae_codec (sv_auth demo_serverenv))" "ss_enc ?s = Some demo_waiting" "awaits_auth (enc_state demo_waiting)"
    by (simp_all add: sid rfc4251_codec)
  ultimately obtain user h1 where "lets_in (sv_auth demo_serverenv) 0 (enc_session_id demo_waiting) user h1"
    using unauthenticated_packet [OF _ _ _ p, of demo_waiting] by blast
  then have "lets_in demo_authenv 0 [] user ()" by (simp add: sid)
  with p show ?thesis by blast
qed

text \<open>
  C18. The channel table is well formed in every state of every run of a session, whatever packets arrive and whatever the application
  does with the session: every channel, and every channel whose opening is still to be answered, stands under its own number, data is queued on
  confirmed channels only, and end-of-file and close messages wait only behind queued data. It is so when a session starts.
\<close>

theorem channel_table_wf:
  assumes "handler_ok V" "(session_step V)\<^sup>*\<^sup>* (h0, s0) (h, s)" "s0 = server_session_new V sshid \<or> session_wf s0"
  shows "session_wf s"
proof -
  have "session_wf (server_session_new V sshid)"
    by (simp add: session_wf_def server_session_new_def server_common_new_def)
  then show ?thesis
    using wf_rel.keeps_run [OF assms(2)] assms(1,3) by auto
qed

theorem channel_table_wf_witness:
  "session_wf (set_enc (channel_eof rfc4251 2 demo_encrypted) demo_open_session)"
proof -
  have "dispatch_msg demo_serverenv (M_Channel 2 CM_Eof) demo_open_session =
    Inr (set_enc (channel_eof rfc4251 2 demo_encrypted) demo_open_session)"
    by (simp add: dispatch_msg_def drain_open_replies_def srv_eof_def demo_open_session_def set_enc_def set_app_channel_def server_session_new_def)
  note run = r_into_rtranclp [where r = "session_step demo_serverenv", OF step_message [OF this, of "()"]]
  have "session_wf demo_open_session"
    by (simp add: session_wf_def channels_wf_def channel_wf_def demo_channel_def)
      (simp add: demo_open_session_def set_enc_def set_app_channel_def server_session_new_def)
  then show ?thesis
    using channel_table_wf [OF demo_handler_ok run] by blast
qed

text \<open>
  C38. The check that a strict key exchange admits no other message never rejects anything: in every state of every run from
  the start of a session it accepts every packet. Strict mode is only recorded when the first key exchange is complete, and the
  check is only made before that.
\<close>

theorem strict_check_accepts:
  assumes "handler_ok V" "(session_step V)\<^sup>*\<^sup>* (h0, server_session_new V sshid) (h, s)"
  shows "strict_order_check pkt s = Inr ()"
proof -
  have "strict_secured (server_session_new V sshid)"
    by (simp add: strict_secured_def server_session_new_def server_common_new_def)
  then have "strict_secured s"
    using strict_rel.keeps_run [OF assms(2)] assms(1) by simp
  then show ?thesis
    by (auto simp: strict_order_check_def strict_secured_def split: list.split)
qed

theorem strict_check_accepts_witness:
  "strict_order_check \<lparr> in_buffer = [IGNORE], in_seqn = 1 \<rparr> (server_session_new demo_serverenv [65]) = Inr ()"
proof -
  have "reply demo_serverenv t ids \<lparr> in_buffer = [DEBUG], in_seqn = 1 \<rparr> ((), server_session_new demo_serverenv [65]) =
    Inr (((), server_session_new demo_serverenv [65]), 1)" for t ids
    by (simp add: reply_def strict_order_check_def server_session_new_def server_common_new_def)
  note run = r_into_rtranclp [where r = "session_step demo_serverenv", OF step_reply [OF this]]
  show ?thesis
    by (rule strict_check_accepts [OF demo_handler_ok run])
qed

end
