(* ===== verification/Identification.thy ===== *)
theory Identification
  imports Types
begin

text \<open>
  The identification lines of \<open>ssh_read.rs\<close>: the buffer that reads the first lines of a connection, and the reader that gives back
  what it read too far. The bytes of the array from \<open>total\<close> on are never looked at, so the buffer is the list of the first
  \<open>total\<close> bytes.
\<close>

section \<open>The buffer\<close>

definition SSH_ID_BUF_SIZE :: nat where "SSH_ID_BUF_SIZE = 256"
definition SSH_ID_MAX_LINE_LEN :: nat where "SSH_ID_MAX_LINE_LEN = 255"
definition SSH_ID_MAX_PRE_BANNER_LINES :: nat where "SSH_ID_MAX_PRE_BANNER_LINES = 20"

lemmas ssh_id_consts = SSH_ID_BUF_SIZE_def SSH_ID_MAX_LINE_LEN_def SSH_ID_MAX_PRE_BANNER_LINES_def

record ReadSshIdBuffer =
  rb_buf :: bytes
  rb_bytes_read :: nat
  rb_sshid_len :: nat
  rb_pre_banner_lines :: nat

definition ReadSshIdBuffer_new :: ReadSshIdBuffer where
  "ReadSshIdBuffer_new = \<lparr> rb_buf = [], rb_bytes_read = 0, rb_sshid_len = 0, rb_pre_banner_lines = 0 \<rparr>"

text \<open>The length of the first line and the number of bytes up to the next one.\<close>

fun line_from :: "nat \<Rightarrow> bytes \<Rightarrow> (nat \<times> nat) option" where
  "line_from i (a # b # r) =
     (if a = 13 \<and> b = 10 then Some (i, i + 2)
      else if b = 10 then Some (i + 1, i + 2)
      else line_from (i + 1) (b # r))"
| "line_from i _ = None"

definition id_line :: "ReadSshIdBuffer \<Rightarrow> (nat \<times> nat) option" where
  "id_line self = line_from 0 (rb_buf self)"

definition discard_line :: "ReadSshIdBuffer \<Rightarrow> ReadSshIdBuffer" where
  "discard_line self = self\<lparr> rb_buf := drop (rb_bytes_read self) (rb_buf self), rb_bytes_read := 0 \<rparr>"

definition id_of :: "ReadSshIdBuffer \<Rightarrow> bytes" where
  "id_of self = take (rb_sshid_len self) (rb_buf self)"

section \<open>Reading\<close>

text \<open>What the reads of a socket give, in order; at the end of the list the stream has ended.\<close>

type_synonym arrivals = "bytes res list"

fun sock_read :: "nat \<Rightarrow> arrivals \<Rightarrow> (bytes \<times> arrivals) res" where
  "sock_read n [] = Inr ([], [])"
| "sock_read n (Inl e # r) = Inl e"
| "sock_read n (Inr b # r) = Inr (take n b, if length b \<le> n then r else Inr (drop n b) # r)"

record SshRead =
  sr_id :: "ReadSshIdBuffer option"
  sr_r :: arrivals

definition SshRead_new :: "arrivals \<Rightarrow> SshRead" where
  "SshRead_new r = \<lparr> sr_id = Some ReadSshIdBuffer_new, sr_r = r \<rparr>"

definition poll_read :: "nat \<Rightarrow> SshRead \<Rightarrow> (bytes \<times> SshRead) res" where
  "poll_read remaining self =
     (case sr_id self of
        Some i \<Rightarrow>
          if rb_bytes_read i < length (rb_buf i)
          then (let total = min (length (rb_buf i)) (rb_bytes_read i + remaining) in
            Inr (take (total - rb_bytes_read i) (drop (rb_bytes_read i) (rb_buf i)),
                 self\<lparr> sr_id := Some (i\<lparr> rb_bytes_read := total \<rparr>) \<rparr>))
          else bindR (sock_read remaining (sr_r self)) (\<lambda>(b, r). Inr (b, self\<lparr> sr_id := None, sr_r := r \<rparr>))
      | None \<Rightarrow> bindR (sock_read remaining (sr_r self)) (\<lambda>(b, r). Inr (b, self\<lparr> sr_r := r \<rparr>)))"

definition is_ssh_id :: "bytes \<Rightarrow> bool" where
  "is_ssh_id line \<longleftrightarrow> 8 \<le> length line \<and> utf8_valid line \<and>
     (take 9 line = str ''SSH-1.99-'' \<or> take 8 line = str ''SSH-2.0-'')"

text \<open>A full line of \<open>i\<close> bytes: the identification, an error, or a line to skip.\<close>

definition handle_line :: "bool \<Rightarrow> nat \<Rightarrow> ReadSshIdBuffer \<Rightarrow> (bool \<times> ReadSshIdBuffer) res" where
  "handle_line allow_pre_banner_lines i self =
     (if rb_bytes_read self > SSH_ID_MAX_LINE_LEN then Inl E_Version
      else if is_ssh_id (take i (rb_buf self)) then Inr (True, self\<lparr> rb_sshid_len := i \<rparr>)
      else if \<not> allow_pre_banner_lines then Inl E_Version
      else let self = self\<lparr> rb_pre_banner_lines := rb_pre_banner_lines self + 1 \<rparr> in
        if rb_pre_banner_lines self > SSH_ID_MAX_PRE_BANNER_LINES then Inl E_Version
        else Inr (False, discard_line self))"

text \<open>Without a line in the buffer, one read has to bring one unless there is still room. A line that reads no byte would be found again for ever.\<close>

definition next_line :: "ReadSshIdBuffer \<Rightarrow> arrivals \<Rightarrow> ((nat \<times> nat) option \<times> ReadSshIdBuffer \<times> arrivals) res" where
  "next_line self r =
     (case id_line self of
        Some l \<Rightarrow> Inr (Some l, self, r)
      | None \<Rightarrow>
          bindR (sock_read (SSH_ID_BUF_SIZE - length (rb_buf self)) r) (\<lambda>(b, r).
            let self = self\<lparr> rb_buf := rb_buf self @ b \<rparr> in
            if b = [] then Inl E_Disconnect
            else case id_line self of
              Some l \<Rightarrow> Inr (Some l, self, r)
            | None \<Rightarrow> if length (rb_buf self) \<ge> SSH_ID_MAX_LINE_LEN then Inl E_Version else Inr (None, self, r)))"

fun arrived :: "bytes res \<Rightarrow> bytes" where
  "arrived (Inr b) = b"
| "arrived (Inl e) = []"

abbreviation waiting :: "arrivals \<Rightarrow> bytes" where
  "waiting r \<equiv> concat (map arrived r)"

lemma line_bounds: "line_from i xs = Some (n, m) \<Longrightarrow> i + 2 \<le> m \<and> m \<le> i + length xs \<and> i \<le> n \<and> n < m"
  by (induction i xs rule: line_from.induct) (auto split: if_splits)

lemma sock_read_waiting:
  "sock_read n r = Inr (b, r') \<Longrightarrow> waiting r = b @ waiting r' \<and> length b \<le> n"
  by (induction n r rule: sock_read.induct) auto

lemma next_line_buffer:
  assumes "next_line self r = Inr (l, self', r')"
  shows "\<exists>b. self' = self\<lparr> rb_buf := rb_buf self @ b \<rparr> \<and> waiting r = b @ waiting r' \<and> (l = None \<longrightarrow> b \<noteq> []) \<and>
    (\<forall>n m. l = Some (n, m) \<longrightarrow> line_from 0 (rb_buf self') = Some (n, m))"
proof (cases "id_line self")
  case (Some l')
  with assms show ?thesis
    by (cases l') (auto simp: next_line_def id_line_def dest: sym intro: exI [of _ "[]"])
next
  case None
  with assms show ?thesis
    by (auto simp: next_line_def id_line_def bindR_Inr_iff Let_def split: if_splits option.splits dest!: sock_read_waiting)
qed

function read_ssh_id_loop :: "bool \<Rightarrow> ReadSshIdBuffer \<Rightarrow> arrivals \<Rightarrow> (ReadSshIdBuffer \<times> arrivals) res" where
  "read_ssh_id_loop allow_pre_banner_lines self r =
     (case next_line self r of
        Inl e \<Rightarrow> Inl e
      | Inr (None, self, r) \<Rightarrow> read_ssh_id_loop allow_pre_banner_lines self r
      | Inr (Some (i, bytes_read), self, r) \<Rightarrow>
          if bytes_read = 0 then Inl Diverged
          else (case handle_line allow_pre_banner_lines i (self\<lparr> rb_bytes_read := bytes_read \<rparr>) of
              Inl e \<Rightarrow> Inl e
            | Inr (True, self) \<Rightarrow> Inr (self, r)
            | Inr (False, self) \<Rightarrow> read_ssh_id_loop allow_pre_banner_lines self r))"
  by pat_completeness auto
termination
proof (relation "measure (\<lambda>(allow, self, r). 2 * length (waiting r) + length (rb_buf self))", goal_cases)
  case (2 allow self r p l q self1 r1)
  then have "next_line self r = Inr (None, self1, r1)" by auto
  from next_line_buffer [OF this] show ?case by auto
next
  case (3 allow self r p l q l' i m self1 r1 x c self2)
  then have "next_line self r = Inr (Some (i, m), self1, r1)" by auto
  from next_line_buffer [OF this] obtain b where b: "self1 = self\<lparr> rb_buf := rb_buf self @ b \<rparr>" "waiting r = b @ waiting r1"
    "line_from 0 (rb_buf self1) = Some (i, m)" by blast
  from 3 have "self2 = discard_line (self1\<lparr> rb_bytes_read := m, rb_pre_banner_lines := rb_pre_banner_lines self1 + 1 \<rparr>)"
    by (auto simp: handle_line_def Let_def split: if_splits)
  then show ?case
    using b line_bounds [OF b(3)] by (simp add: discard_line_def) linarith
qed simp

declare read_ssh_id_loop.simps [simp del]

definition read_ssh_id_inner :: "bool \<Rightarrow> SshRead \<Rightarrow> (bytes \<times> SshRead) res" where
  "read_ssh_id_inner allow_pre_banner_lines self =
     (case sr_id self of
        None \<Rightarrow> Inl E_Inconsistent
      | Some ssh_id \<Rightarrow>
          bindR (read_ssh_id_loop allow_pre_banner_lines ssh_id (sr_r self)) (\<lambda>(ssh_id, r).
            Inr (id_of ssh_id, self\<lparr> sr_id := Some ssh_id, sr_r := r \<rparr>)))"

definition read_ssh_id :: "SshRead \<Rightarrow> (bytes \<times> SshRead) res" where
  "read_ssh_id = read_ssh_id_inner True"

definition read_client_ssh_id :: "SshRead \<Rightarrow> (bytes \<times> SshRead) res" where
  "read_client_ssh_id = read_ssh_id_inner False"

section \<open>The identification of a whole stream\<close>

text \<open>
  What a connection's bytes mean, however they arrive. A line goes up to a line feed, and a carriage return before it does not
  belong to the line. A line feed at the very start of a line does not end it, but is its first byte: an empty line has to be ended
  by a carriage return and a line feed.
\<close>

definition strip_cr :: "bytes \<Rightarrow> bytes" where
  "strip_cr line = (if line \<noteq> [] \<and> last line = 13 then butlast line else line)"

definition lf_line :: "bytes \<Rightarrow> (bytes \<times> bytes) option" where
  "lf_line stream =
     (let line = takeWhile (\<lambda>b. b \<noteq> 10) stream in
      if line = stream then None else Some (strip_cr line, drop (length line + 1) stream))"

definition first_line :: "bytes \<Rightarrow> (bytes \<times> bytes) option" where
  "first_line stream =
     (if take 1 stream = [10] then map_option (\<lambda>(line, rest). (10 # line, rest)) (lf_line (drop 1 stream)) else lf_line stream)"

lemma first_line_shorter: "first_line stream = Some (line, rest) \<Longrightarrow> length rest < length stream"
  by (cases stream) (auto simp: first_line_def lf_line_def Let_def split: if_splits)

text \<open>
  The first line with a protocol version is the identification; other lines before it are skipped, if at all, up to a number; no line
  is longer than 255 bytes with its end.
\<close>

function identify :: "bool \<Rightarrow> nat \<Rightarrow> bytes \<Rightarrow> (bytes \<times> bytes) res" where
  "identify allow skipped stream =
     (case first_line stream of
        None \<Rightarrow> Inl (if length stream \<ge> SSH_ID_MAX_LINE_LEN then E_Version else E_Disconnect)
      | Some (line, rest) \<Rightarrow>
          if length stream - length rest > SSH_ID_MAX_LINE_LEN then Inl E_Version
          else if is_ssh_id line then Inr (line, rest)
          else if \<not> allow \<or> skipped \<ge> SSH_ID_MAX_PRE_BANNER_LINES then Inl E_Version
          else identify allow (skipped + 1) rest)"
  by pat_completeness auto
termination
  by (relation "measure (\<lambda>(allow, skipped, stream). length stream)") (auto dest!: sym [of _ "first_line _"] first_line_shorter)

declare identify.simps [simp del]

text \<open>The search of the code, which looks at two bytes at a time, finds these lines.\<close>

lemma strip_cr_Cons: "line \<noteq> [] \<Longrightarrow> strip_cr (a # line) = a # strip_cr line"
  by (simp add: strip_cr_def)

lemma strip_cr_prefix: "take (length (strip_cr line)) line = strip_cr line"
  by (simp add: strip_cr_def butlast_conv_take)

lemma line_from_scan:
  "line_from i (a # r) =
     (let body = takeWhile (\<lambda>b. b \<noteq> 10) r in
      if body = r then None else Some (i + length (strip_cr (a # body)), i + length body + 2))"
proof (induction r arbitrary: a i)
  case Nil
  then show ?case by simp
next
  case (Cons b r)
  then show ?case
    by (cases "b = 10") (auto simp: strip_cr_def Let_def)
qed

lemma first_line_scan:
  "first_line (a # r) =
     (let body = takeWhile (\<lambda>b. b \<noteq> 10) r in
      if body = r then None else Some (strip_cr (a # body), drop (length body + 1) r))"
  by (cases "takeWhile (\<lambda>b. b \<noteq> 10) r = []")
    (auto simp: first_line_def lf_line_def strip_cr_Cons Let_def strip_cr_def)

lemma first_line_from: "first_line stream = map_option (\<lambda>(n, m). (take n stream, drop m stream)) (line_from 0 stream)"
proof (cases stream)
  case Nil
  then show ?thesis by (simp add: first_line_def lf_line_def)
next
  case (Cons a r)
  let ?body = "takeWhile (\<lambda>b. b \<noteq> 10) r"
  have "length (strip_cr (a # ?body)) \<le> length (a # ?body)"
    by (simp add: strip_cr_def)
  then have "take (length (strip_cr (a # ?body))) (a # r) = take (length (strip_cr (a # ?body))) (take (length (a # ?body)) (a # r))"
    by (simp only: take_take min_absorb1)
  also have "take (length (a # ?body)) (a # r) = a # ?body"
    by (simp flip: takeWhile_eq_take)
  finally have "take (length (strip_cr (a # ?body))) (a # r) = strip_cr (a # ?body)"
    by (simp only: strip_cr_prefix)
  then show ?thesis
    unfolding Cons line_from_scan first_line_scan Let_def by auto
qed

lemma identify_line:
  "identify allow skipped stream =
     (case line_from 0 stream of
        None \<Rightarrow> Inl (if length stream \<ge> SSH_ID_MAX_LINE_LEN then E_Version else E_Disconnect)
      | Some (n, m) \<Rightarrow>
          if m > SSH_ID_MAX_LINE_LEN then Inl E_Version
          else if is_ssh_id (take n stream) then Inr (take n stream, drop m stream)
          else if \<not> allow \<or> skipped \<ge> SSH_ID_MAX_PRE_BANNER_LINES then Inl E_Version
          else identify allow (skipped + 1) (drop m stream))"
proof (cases "line_from 0 stream")
  case None
  then show ?thesis by (subst identify.simps) (simp add: first_line_from)
next
  case (Some l)
  obtain n m where l: "l = (n, m)" by (cases l)
  with line_bounds [of 0 stream n m] Some have "length stream - length (drop m stream) = m" by simp
  with Some l show ?thesis by (subst identify.simps) (simp add: first_line_from)
qed

text \<open>The bytes the reader still has to give.\<close>

definition unread :: "SshRead \<Rightarrow> bytes" where
  "unread self = (case sr_id self of Some i \<Rightarrow> drop (rb_bytes_read i) (rb_buf i) | None \<Rightarrow> []) @ waiting (sr_r self)"

definition steady :: "arrivals \<Rightarrow> bool" where
  "steady r \<longleftrightarrow> (\<forall>x\<in>set r. \<exists>b. x = Inr b \<and> b \<noteq> [])"

lemma line_from_append: "line_from i xs = Some l \<Longrightarrow> line_from i (xs @ ys) = Some l"
  by (induction i xs rule: line_from.induct) (auto split: if_splits)

lemma line_from_later:
  assumes "line_from 0 (xs @ ys) = Some (n, m)" "line_from 0 xs = None"
  shows "length xs < m"
proof -
  have "length xs + i < m" if "line_from i (xs @ ys) = Some (n, m)" "line_from i xs = None" for i
    using that by (induction i xs rule: line_from.induct; cases ys) (auto dest: line_bounds split: if_splits)
  with assms show ?thesis by force
qed

lemma sock_read_steady:
  assumes "steady r" "0 < n"
  shows "\<exists>b r'. sock_read n r = Inr (b, r') \<and> steady r' \<and> (b = [] \<longrightarrow> r = [])"
  using assms by (cases "(n, r)" rule: sock_read.cases) (auto simp: steady_def)

lemma next_line_steady:
  assumes "steady r" "length (rb_buf self) < SSH_ID_MAX_LINE_LEN"
  shows "(case next_line self r of
      Inl e \<Rightarrow> identify allow k (rb_buf self @ waiting r) = Inl e
    | Inr (l, self', r') \<Rightarrow> steady r' \<and> length (rb_buf self') \<le> SSH_ID_BUF_SIZE \<and>
        (l = None \<longrightarrow> length (rb_buf self') < SSH_ID_MAX_LINE_LEN))"
proof (cases "id_line self")
  case (Some l)
  with assms show ?thesis by (simp add: next_line_def ssh_id_consts)
next
  case None
  then have none: "line_from 0 (rb_buf self) = None" by (simp add: id_line_def)
  obtain b r' where b: "sock_read (SSH_ID_BUF_SIZE - length (rb_buf self)) r = Inr (b, r')" "steady r'" "b = [] \<longrightarrow> r = []"
    using sock_read_steady [OF assms(1), of "SSH_ID_BUF_SIZE - length (rb_buf self)"] assms(2) by (auto simp: ssh_id_consts)
  note w = sock_read_waiting [OF b(1)]
  show ?thesis
  proof (cases "b = []")
    case True
    with b none assms(2) show ?thesis
      by (simp add: next_line_def None identify_line [of allow])
  next
    case False
    let ?buf = "rb_buf self @ b"
    show ?thesis
    proof (cases "line_from 0 ?buf = None \<and> SSH_ID_MAX_LINE_LEN \<le> length ?buf")
      case True
      then have "identify allow k (?buf @ waiting r') = Inl E_Version"
        using line_from_later [of ?buf "waiting r'"]
        by (subst identify_line) (fastforce split: option.split prod.split)
      with True False b w show ?thesis
        by (simp add: next_line_def None Let_def) (simp add: id_line_def)
    next
      case more: False
      with False b w assms(2) show ?thesis
        by (auto simp: next_line_def None Let_def ssh_id_consts id_line_def [of "self\<lparr> rb_buf := _ \<rparr>"] split: option.split)
    qed
  qed
qed

lemma handle_line_identify:
  assumes "line_from 0 buf = Some (i, m)" "buf = rb_buf self"
  shows "(case handle_line allow i (self\<lparr> rb_bytes_read := m \<rparr>) of
      Inl e \<Rightarrow> identify allow (rb_pre_banner_lines self) (buf @ rest) = Inl e
    | Inr (True, self') \<Rightarrow> identify allow (rb_pre_banner_lines self) (buf @ rest) = Inr (id_of self', drop m buf @ rest) \<and>
        rb_bytes_read self' = m \<and> rb_buf self' = buf
    | Inr (False, self') \<Rightarrow> identify allow (rb_pre_banner_lines self) (buf @ rest) =
          identify allow (rb_pre_banner_lines self') (rb_buf self' @ rest) \<and> rb_buf self' = drop m buf)"
proof -
  have "identify allow k (buf @ rest) =
     (if m > SSH_ID_MAX_LINE_LEN then Inl E_Version
      else if is_ssh_id (take i buf) then Inr (take i buf, drop m buf @ rest)
      else if \<not> allow \<or> k \<ge> SSH_ID_MAX_PRE_BANNER_LINES then Inl E_Version
      else identify allow (k + 1) (drop m buf @ rest))" for k
    using line_bounds [OF assms(1)] by (subst identify_line) (simp add: line_from_append [OF assms(1)])
  from this [of "rb_pre_banner_lines self"] show ?thesis
    by (auto simp: assms(2) [symmetric] handle_line_def Let_def id_of_def discard_line_def)
qed

fun agrees :: "(bytes \<times> bytes) res \<Rightarrow> (ReadSshIdBuffer \<times> arrivals) res \<Rightarrow> bool" where
  "agrees spec (Inl e) \<longleftrightarrow> spec = Inl e"
| "agrees spec (Inr (self, r)) \<longleftrightarrow> spec = Inr (id_of self, drop (rb_bytes_read self) (rb_buf self) @ waiting r)"

lemma read_loop_identify:
  assumes "steady r" "length (rb_buf self) < SSH_ID_MAX_LINE_LEN"
  shows "agrees (identify allow (rb_pre_banner_lines self) (rb_buf self @ waiting r)) (read_ssh_id_loop allow self r)"
  using assms
proof (induction allow self r rule: read_ssh_id_loop.induct)
  case (1 allow self r)
  note st = next_line_steady [OF 1(3,4), of allow "rb_pre_banner_lines self"]
  show ?case
  proof (cases "next_line self r")
    case (Inl e)
    with st show ?thesis by (simp add: read_ssh_id_loop.simps [of allow self])
  next
    case (Inr x)
    obtain l self1 r1 where x: "x = (l, self1, r1)" by (cases x)
    note n = next_line_buffer [OF Inr [unfolded x]]
    have eq: "rb_buf self @ waiting r = rb_buf self1 @ waiting r1" "rb_pre_banner_lines self = rb_pre_banner_lines self1"
      using n by auto
    have st1: "steady r1" "length (rb_buf self1) \<le> SSH_ID_BUF_SIZE" "l = None \<Longrightarrow> length (rb_buf self1) < SSH_ID_MAX_LINE_LEN"
      using st by (auto simp: Inr x)
    show ?thesis
    proof (cases l)
      case None
      have "agrees (identify allow (rb_pre_banner_lines self1) (rb_buf self1 @ waiting r1)) (read_ssh_id_loop allow self1 r1)"
        using 1(1) [OF Inr x [symmetric] None refl st1(1) st1(3) [OF None]] .
      then show ?thesis
        unfolding eq by (subst read_ssh_id_loop.simps) (simp add: Inr x None)
    next
      case (Some p)
      obtain i m where p: "p = (i, m)" by (cases p)
      have l: "line_from 0 (rb_buf self1) = Some (i, m)" using n Some p by blast
      note m = line_bounds [OF l] and h = handle_line_identify [OF l refl, of allow "waiting r1"]
      have loop: "read_ssh_id_loop allow self r = (case handle_line allow i (self1\<lparr> rb_bytes_read := m \<rparr>) of
          Inl e \<Rightarrow> Inl e | Inr (True, self) \<Rightarrow> Inr (self, r1) | Inr (False, self) \<Rightarrow> read_ssh_id_loop allow self r1)"
        using m by (subst read_ssh_id_loop.simps) (simp add: Inr x Some p)
      show ?thesis
      proof (cases "handle_line allow i (self1\<lparr> rb_bytes_read := m \<rparr>)")
        case (Inl e)
        with h show ?thesis unfolding eq loop by simp
      next
        case h1: (Inr y)
        obtain found self2 where y: "y = (found, self2)" by (cases y)
        show ?thesis
        proof (cases found)
          case True
          with h h1 y show ?thesis unfolding eq loop by simp
        next
          case False
          then have found: "found = False" by simp
          with h h1 y m st1(2) have "length (rb_buf self2) < SSH_ID_MAX_LINE_LEN" by (auto simp: ssh_id_consts)
          with 1(2) [OF Inr x [symmetric] Some p [symmetric] refl _ h1 y [symmetric] found st1(1)] m
          have "agrees (identify allow (rb_pre_banner_lines self2) (rb_buf self2 @ waiting r1)) (read_ssh_id_loop allow self2 r1)"
            by simp
          with h h1 y False show ?thesis unfolding eq loop by simp
        qed
      qed
    qed
  qed
qed

lemma poll_read_unread:
  assumes "poll_read n self = Inr (b, self')"
  shows "unread self = b @ unread self'" "length b \<le> n"
proof -
  have "drop j xs = take (min (length xs) (j + n) - j) (drop j xs) @ drop (min (length xs) (j + n)) xs" if "j < length xs" for j and xs :: bytes
    using that append_take_drop_id [of "min (length xs) (j + n) - j" "drop j xs"] by (simp add: add.commute)
  then show "unread self = b @ unread self'" "length b \<le> n"
    using assms by (auto simp: poll_read_def unread_def Let_def bindR_Inr_iff split: option.splits if_splits dest!: sock_read_waiting)
qed

section \<open>Property\<close>

text \<open>
  C15. The identification does not depend on how the stream is cut into reads: the reader returns what the specification of the
  whole stream says, the identification or the error, and in the good case it has lost nothing, since what it still gives is exactly the stream after the
  identification line, in order, whatever sizes are asked for. The specification takes the stream line by line. A line ends at a line
  feed, with or without a carriage return, except that a line feed at the start of a line is its first byte; the first line that begins with
  a protocol version is the identification. The socket gives data without an error up to the end of the stream.
\<close>

theorem identification_exact:
  assumes "steady r"
  shows "case read_ssh_id_inner allow (SshRead_new r) of
      Inl e \<Rightarrow> identify allow 0 (waiting r) = Inl e
    | Inr (sshid, self) \<Rightarrow> identify allow 0 (waiting r) = Inr (sshid, unread self) \<and>
        (\<forall>n b self'. poll_read n self = Inr (b, self') \<longrightarrow> unread self = b @ unread self')"
proof -
  have "agrees (identify allow 0 (waiting r)) (read_ssh_id_loop allow ReadSshIdBuffer_new r)"
    using read_loop_identify [OF assms, of ReadSshIdBuffer_new allow] by (simp add: ReadSshIdBuffer_new_def ssh_id_consts)
  then show ?thesis
    using poll_read_unread(1) by (cases "read_ssh_id_loop allow ReadSshIdBuffer_new r")
      (auto simp: read_ssh_id_inner_def SshRead_new_def, simp add: unread_def)
qed

text \<open>A banner line and an identification that arrive in three pieces, with two bytes of the first packet.\<close>

definition demo_arrivals :: arrivals where
  "demo_arrivals = [Inr (str ''hi''), Inr [10, 83, 83], Inr (str ''H-2.0-x'' @ [13, 10, 7, 8])]"

theorem identification_exact_witness:
  "\<exists>self. read_ssh_id (SshRead_new demo_arrivals) = Inr (str ''SSH-2.0-x'', self) \<and> unread self = [7, 8]"
proof -
  have st: "steady demo_arrivals"
    by (simp add: steady_def demo_arrivals_def)
  have u: "utf8_valid (str ''SSH-2.0-x'')"
    by (rule utf8_valid_ascii) (simp add: is_ascii_def)
  have i: "identify True 0 (waiting demo_arrivals) = Inr (str ''SSH-2.0-x'', [7, 8])"
    by (subst identify_line, simp add: demo_arrivals_def is_ssh_id_def ssh_id_consts)
      (subst identify_line, use u in \<open>simp add: is_ssh_id_def ssh_id_consts\<close>)
  show ?thesis
    using identification_exact [OF st, of True] i
    by (cases "read_ssh_id_inner True (SshRead_new demo_arrivals)") (auto simp: read_ssh_id_def)
qed

text \<open>A line feed alone before the identification hides it.\<close>

lemma lone_line_feed_hides_identification:
  "read_ssh_id (SshRead_new [Inr ([10] @ str ''SSH-2.0-x'' @ [13, 10])]) = Inl E_Disconnect"
proof -
  let ?r = "[Inr ([10] @ str ''SSH-2.0-x'' @ [13, 10])] :: arrivals"
  have st: "steady ?r" by (simp add: steady_def)
  have "identify True 0 (waiting ?r) = Inl E_Disconnect"
    by (subst identify_line, simp add: is_ssh_id_def ssh_id_consts) (subst identify_line, simp add: ssh_id_consts)
  moreover have "agrees (identify True 0 (waiting ?r)) (read_ssh_id_loop True ReadSshIdBuffer_new ?r)"
    using read_loop_identify [OF st, of ReadSshIdBuffer_new True] by (simp add: ReadSshIdBuffer_new_def ssh_id_consts)
  ultimately show ?thesis
    by (cases "read_ssh_id_loop True ReadSshIdBuffer_new ?r")
      (auto simp: read_ssh_id_def read_ssh_id_inner_def SshRead_new_def)
qed

end
