(* ===== verification/ClientAuth.thy ===== *)
theory ClientAuth
  imports ServerAuth
begin

text \<open>
  Authentication by the client: what the second half of \<open>client/encrypted.rs\<close> writes for each method, and that the server of
  \<open>ServerAuth\<close> reads it as meant. Algorithm names, certificates and the signer of a certificate's key are the record
  \<open>clientlib\<close>.
\<close>

section \<open>Parameters\<close>

record clientlib =
  cl_codec :: codec
  cl_host :: hostlib
  cl_names :: "Algorithm \<Rightarrow> rstring"
  private_public :: "PrivateKey \<Rightarrow> PublicKey"
  public_algorithm :: "PublicKey \<Rightarrow> Algorithm"
  cert_algorithm :: "Certificate \<Rightarrow> Algorithm"
  to_certificate_type :: "Algorithm \<Rightarrow> rstring"
  cert_to_bytes :: "Certificate \<Rightarrow> bytes option"
  signer_try_sign :: "PrivateKey \<Rightarrow> bytes \<Rightarrow> bytes option"

section \<open>Requests\<close>

definition with_hash_alg :: "Algorithm \<Rightarrow> HashAlg option \<Rightarrow> Algorithm" where
  "with_hash_alg self hash_alg = (case self of Rsa _ \<Rightarrow> Rsa hash_alg | x \<Rightarrow> x)"

definition key_with_hash_algorithm :: "PrivateKey \<Rightarrow> HashAlg option \<Rightarrow> Algorithm" where
  "key_with_hash_algorithm key hash_alg = with_hash_alg (pk_algorithm key) hash_alg"

definition pk_or_cert_from :: "clientlib \<Rightarrow> PrivateKey \<Rightarrow> HashAlg option \<Rightarrow> PublicKeyOrCertificate" where
  "pk_or_cert_from L key hash_alg = PKC_PublicKey (private_public L key) hash_alg"

definition auth_request_head :: "codec \<Rightarrow> rstring \<Rightarrow> rstring \<Rightarrow> bytes" where
  "auth_request_head C user name =
     bytes_encode C user @ bytes_encode C (str ''ssh-connection'') @ bytes_encode C name"

definition write_auth_request :: "clientlib \<Rightarrow> rstring \<Rightarrow> Method \<Rightarrow> Encrypted \<Rightarrow> (bool \<times> Encrypted) res" where
  "write_auth_request L user auth_method self =
     (let C = cl_codec L; H = cl_host L in
      bindR (case auth_method of
          M_None \<Rightarrow> Inr (auth_request_head C user (str ''none''))
        | M_Password password \<Rightarrow> Inr (auth_request_head C user (str ''password'') @ 0 # bytes_encode C password)
        | M_PublicKey key hash_alg \<Rightarrow>
            bindR (ok_or E_SshKey (public_key_bytes H (private_public L key))) (\<lambda>blob.
              Inr (auth_request_head C user (str ''publickey'') @ 0 #
                bytes_encode C (cl_names L (key_with_hash_algorithm key hash_alg)) @ bytes_encode C blob))
        | M_OpenSshCertificate _ cert \<Rightarrow>
            bindR (ok_or E_SshKey (cert_to_bytes L cert)) (\<lambda>blob.
              Inr (auth_request_head C user (str ''publickey'') @ 0 #
                bytes_encode C (to_certificate_type L (cert_algorithm L cert)) @ bytes_encode C blob))
        | M_FuturePublicKey key hash_alg \<Rightarrow>
            bindR (ok_or E_SshKey (public_key_bytes H key)) (\<lambda>blob.
              Inr (auth_request_head C user (str ''publickey'') @ 0 #
                bytes_encode C (cl_names L (with_hash_alg (public_algorithm L key) hash_alg)) @ bytes_encode C blob))
        | M_FutureCertificate cert _ \<Rightarrow>
            bindR (ok_or E_SshKey (cert_to_bytes L cert)) (\<lambda>blob.
              Inr (auth_request_head C user (str ''publickey'') @ 0 #
                bytes_encode C (to_certificate_type L (cert_algorithm L cert)) @ bytes_encode C blob))
        | M_KeyboardInteractive submethods \<Rightarrow>
            Inr (auth_request_head C user (str ''keyboard-interactive'') @ bytes_encode C [] @ bytes_encode C submethods))
      (\<lambda>p. Inr (True, self\<lparr> enc_write := push_packet C (enc_write self) (USERAUTH_REQUEST # p) \<rparr>)))"

text \<open>The data to sign, and where the packet begins in it.\<close>

definition client_make_to_sign ::
  "clientlib \<Rightarrow> rstring \<Rightarrow> PublicKeyOrCertificate \<Rightarrow> Encrypted \<Rightarrow> (nat \<times> bytes) res" where
  "client_make_to_sign L user key self =
     (let C = cl_codec L; buffer = bytes_encode C (enc_session_id self); i0 = length buffer;
          buffer = buffer @ USERAUTH_REQUEST # auth_request_head C user (str ''publickey'') @ [1] in
      case key of
        PKC_Certificate cert \<Rightarrow>
          bindR (ok_or E_SshKey (cert_to_bytes L cert)) (\<lambda>blob.
            Inr (i0, buffer @ bytes_encode C (to_certificate_type L (cert_algorithm L cert)) @ bytes_encode C blob))
      | PKC_PublicKey key hash_alg \<Rightarrow>
          bindR (ok_or E_SshKey (public_key_bytes (cl_host L) key)) (\<lambda>blob.
            Inr (i0, buffer @ bytes_encode C (cl_names L (with_hash_alg (public_algorithm L key) hash_alg)) @ bytes_encode C blob)))"

definition client_send_signature :: "clientlib \<Rightarrow> rstring \<Rightarrow> Method \<Rightarrow> Encrypted \<Rightarrow> Encrypted res" where
  "client_send_signature L user auth_method self =
     (let C = cl_codec L in
      case auth_method of
        M_PublicKey key hash_alg \<Rightarrow>
          bindR (client_make_to_sign L user (pk_or_cert_from L key hash_alg) self) (\<lambda>(i0, buffer).
          bindR (ok_or E_SshKey (sign_with_hash_alg (cl_host L) key hash_alg buffer)) (\<lambda>sig.
            Inr (self\<lparr> enc_write := push_packet C (enc_write self) (drop i0 (buffer @ bytes_encode C sig)) \<rparr>)))
      | M_OpenSshCertificate key cert \<Rightarrow>
          bindR (client_make_to_sign L user (PKC_Certificate cert) self) (\<lambda>(i0, buffer).
          bindR (ok_or E_SshKey (signer_try_sign L key buffer)) (\<lambda>sig.
            Inr (self\<lparr> enc_write := push_packet C (enc_write self) (drop i0 (buffer @ bytes_encode C sig)) \<rparr>)))
      | _ \<Rightarrow> Inr self)"

text \<open>More responses than an \<open>i32\<close> counts are announced as none.\<close>

definition client_send_auth_response :: "codec \<Rightarrow> rstring list \<Rightarrow> Encrypted \<Rightarrow> Encrypted" where
  "client_send_auth_response C responses self =
     self\<lparr> enc_write := push_packet C (enc_write self) (USERAUTH_INFO_RESPONSE #
       u32_encode C (if length responses < 2 ^ 31 then of_nat (length responses) else 0) @ concat (map (bytes_encode C) responses)) \<rparr>"

section \<open>What the server makes of it\<close>

text \<open>
  What a server with the library \<open>M\<close> needs of a key: its name and its bytes give a public key that verifies what the private
  key signs.
\<close>

definition key_usable :: "clientlib \<Rightarrow> authlib \<Rightarrow> PrivateKey \<Rightarrow> HashAlg option \<Rightarrow> rstring \<Rightarrow> bytes \<Rightarrow> PublicKey \<Rightarrow> bool" where
  "key_usable L M key hash_alg algo blob pk \<longleftrightarrow>
     algo = cl_names L (key_with_hash_algorithm key hash_alg) \<and> utf8_valid algo \<and> length algo \<le> max_string \<and>
     public_algorithm L (private_public L key) = pk_algorithm key \<and>
     public_key_bytes (cl_host L) (private_public L key) = Some blob \<and> length blob \<le> max_string \<and>
     (\<exists>hash. pk_or_cert_decode M algo blob = Inr (PKC_PublicKey pk hash)) \<and>
     (\<forall>m sg. sign_with_hash_alg (cl_host L) key hash_alg m = Some sg \<longrightarrow> length sg \<le> max_string \<and>
        (\<exists>sig. signature_decode (cl_host L) sg = Some (sig, []) \<and> signature_verify (cl_host L) pk m sig))"

lemma name_ascii: "is_ascii (str ''ssh-connection'')" "is_ascii (str ''publickey'')" "is_ascii (str ''password'')" "is_ascii (str ''none'')"
  "is_ascii (str ''keyboard-interactive'')" "is_ascii []"
  by (simp_all add: is_ascii_def)

lemma name_length: "length (str ''ssh-connection'') \<le> max_string" "length (str ''publickey'') \<le> max_string"
  "length (str ''password'') \<le> max_string" "length (str ''none'') \<le> max_string" "length (str ''keyboard-interactive'') \<le> max_string"
  by (simp_all add: max_string_def)

lemma head_decodes:
  assumes "ssh_codec (ae_codec A)" "utf8_valid user" "length user \<le> max_string" "utf8_valid name" "length name \<le> max_string"
    "enc_state e = ES_WaitingAuthRequest a" "bind_or_reset_principal user (str ''ssh-connection'') a = (reset, a')"
  shows "server_read_auth_request A now pkt (auth_request_head (ae_codec A) user name @ r) au0 e h =
    (let au = if reset then [] else au0 in
     if name = str ''password'' then read_auth_password A user r a' e h
     else if name = str ''publickey'' then server_read_auth_request_pk A now pkt user r au a' e h
     else if name = str ''none'' then read_auth_none A user r au a' e h
     else if name = str ''keyboard-interactive'' then read_auth_keyboard_interactive A user r a' e h
     else Inr (auth_reject (ae_codec A) a' e, au, h))"
  using assms utf8_valid_ascii [OF name_ascii(1)] name_length(1) ssh_codec.d_string_round [OF assms(1)]
  by (simp add: server_read_auth_request_def auth_request_head_def Let_def del: str_simps)

lemma publickey_request:
  assumes "ssh_codec (ae_codec A)" "utf8_valid user" "length user \<le> max_string" "utf8_valid algo" "length algo \<le> max_string"
    "length blob \<le> max_string" "pk_or_cert_decode (ae_lib A) algo blob = Inr (PKC_PublicKey pk hash)"
    "enc_state e = ES_WaitingAuthRequest a" "bind_or_reset_principal user (str ''ssh-connection'') a = (reset, a')"
  shows "server_read_auth_request A now pkt (auth_request_head (ae_codec A) user (str ''publickey'') @ flag #
      bytes_encode (ae_codec A) algo @ bytes_encode (ae_codec A) blob @ r) au0 e h =
    (if flag \<noteq> 0 then read_auth_pk_signed A pkt user algo blob (PKC_PublicKey pk hash) pk r (if reset then [] else au0) a' e h
     else read_auth_pk_probe A user algo blob pk r a' e h)"
proof -
  have "str ''publickey'' \<noteq> str ''password''" by simp
  then show ?thesis
    using assms utf8_valid_ascii [OF name_ascii(2)] name_length(2) ssh_codec.d_string_round [OF assms(1)] ssh_codec.d_bytes_round [OF assms(1)]
    by (simp add: head_decodes server_read_auth_request_pk_def Let_def d_u8_def del: str_simps)
qed

text \<open>The probe and the signed request, as the client writes them.\<close>

lemma client_probe:
  assumes "key_usable L M key hash_alg algo blob pk"
  shows "write_auth_request L user (M_PublicKey key hash_alg) e = Inr (True, e\<lparr> enc_write := push_packet (cl_codec L) (enc_write e)
    (USERAUTH_REQUEST # auth_request_head (cl_codec L) user (str ''publickey'') @ 0 #
      bytes_encode (cl_codec L) algo @ bytes_encode (cl_codec L) blob) \<rparr>)"
  using assms by (simp add: write_auth_request_def key_usable_def Let_def ok_or_def del: str_simps)

lemma client_signs:
  assumes "key_usable L M key hash_alg algo blob pk"
    "sign_with_hash_alg (cl_host L) key hash_alg (signed_request (cl_codec L) (enc_session_id e) user 1 algo blob) = Some sg"
  shows "client_send_signature L user (M_PublicKey key hash_alg) e = Inr (e\<lparr> enc_write := push_packet (cl_codec L) (enc_write e)
    (USERAUTH_REQUEST # auth_request_head (cl_codec L) user (str ''publickey'') @ 1 #
      bytes_encode (cl_codec L) algo @ bytes_encode (cl_codec L) blob @ bytes_encode (cl_codec L) sg) \<rparr>)"
  using assms
  by (simp add: client_send_signature_def client_make_to_sign_def pk_or_cert_from_def key_usable_def key_with_hash_algorithm_def
      signed_request_def auth_request_head_def Let_def ok_or_def del: str_simps)

lemma probe_accepted:
  assumes "ah_publickey_offered (ae_handler A) user pk h = Inr (A_Accept, h1)"
  shows "read_auth_pk_probe A user algo blob pk [] a e h = Inr
    (e\<lparr> enc_state := ES_WaitingAuthRequest (a\<lparr> ar_current := Some (CR_PublicKey blob algo True) \<rparr>),
       enc_write := push_packet (ae_codec A) (enc_write e)
         (USERAUTH_PK_OK # bytes_encode (ae_codec A) algo @ bytes_encode (ae_codec A) blob) \<rparr>, user, h1)"
  using assms by (simp add: read_auth_pk_probe_def ensure_end_def Let_def)

lemma signed_accepted:
  assumes "ssh_codec (ae_codec A)" "probe_matches a algo blob" "length sg \<le> max_string"
    "signature_decode (ae_host A) sg = Some (sig, [])"
    "signature_verify (ae_host A) pk (signed_request (ae_codec A) (enc_session_id e) user 1 algo blob) sig"
    "ah_publickey (ae_handler A) user pk h = Inr (A_Accept, h1)"
    "r = bytes_encode (ae_codec A) sg"
    "pkt = USERAUTH_REQUEST # auth_request_head (ae_codec A) user (str ''publickey'') @ 1 #
      bytes_encode (ae_codec A) algo @ bytes_encode (ae_codec A) blob @ r"
  shows "read_auth_pk_signed A pkt user algo blob (PKC_PublicKey pk hash) pk r user a e h = Inr (auth_accept (ae_codec A) e, user, h1)"
proof -
  have "bytes_encode (ae_codec A) (enc_session_id e) @ take (length pkt - length r) pkt =
      signed_request (ae_codec A) (enc_session_id e) user 1 algo blob"
    using assms(8) by (simp add: signed_request_def auth_request_head_def del: str_simps)
  then show ?thesis
    using assms(1-7) ssh_codec.d_bytes_round [OF assms(1,3), of "[]"]
    by (simp add: read_auth_pk_signed_def Let_def ensure_end_def ok_or_def del: str_simps)
qed

section \<open>Property\<close>

text \<open>
  C9. A client whose key the server's application accepts gets in. The request the client writes first is read as a probe and
  answered with the acceptance of the key; the signed request it writes then carries a signature over what the server checks, and
  is accepted without asking the application for the key again.
\<close>

theorem key_authentication_completes:
  assumes codec: "ssh_codec (ae_codec A)" and same: "cl_codec L = ae_codec A" "cl_host L = ae_host A"
    and user: "utf8_valid user" "length user \<le> max_string"
    and key: "key_usable L (ae_lib A) key hash_alg algo blob pk" "\<forall>m. sign_with_hash_alg (ae_host A) key hash_alg m \<noteq> None"
    and session: "enc_session_id ec = enc_session_id es" "enc_state es = ES_WaitingAuthRequest a"
    and app: "ah_publickey_offered (ae_handler A) user pk h = Inr (A_Accept, h1)"
      "ah_publickey (ae_handler A) user pk h1 = Inr (A_Accept, h2)"
  shows "\<exists>r1 r2 ec1 ec2 es1.
    write_auth_request L user (M_PublicKey key hash_alg) ec = Inr (True, ec1) \<and>
    enc_write ec1 = push_packet (ae_codec A) (enc_write ec) (USERAUTH_REQUEST # r1) \<and>
    server_read_auth_request A now (USERAUTH_REQUEST # r1) r1 au es h = Inr (es1, user, h1) \<and>
    enc_write es1 = push_packet (ae_codec A) (enc_write es)
      (USERAUTH_PK_OK # bytes_encode (ae_codec A) algo @ bytes_encode (ae_codec A) blob) \<and>
    client_send_signature L user (M_PublicKey key hash_alg) ec1 = Inr ec2 \<and>
    enc_write ec2 = push_packet (ae_codec A) (enc_write ec1) (USERAUTH_REQUEST # r2) \<and>
    server_read_auth_request A now' (USERAUTH_REQUEST # r2) r2 user es1 h1 = Inr (auth_accept (ae_codec A) es1, user, h2)"
proof -
  let ?C = "ae_codec A"
  define m where "m = signed_request ?C (enc_session_id es) user 1 algo blob"
  have k: "utf8_valid algo" "length algo \<le> max_string" "length blob \<le> max_string"
    using key(1) by (auto simp: key_usable_def)
  obtain hash where pk: "pk_or_cert_decode (ae_lib A) algo blob = Inr (PKC_PublicKey pk hash)"
    using key(1) by (auto simp: key_usable_def)
  obtain sg where sg: "sign_with_hash_alg (ae_host A) key hash_alg m = Some sg"
    using key(2) by blast
  then obtain sig where sig: "length sg \<le> max_string" "signature_decode (ae_host A) sg = Some (sig, [])" "signature_verify (ae_host A) pk m sig"
    using key(1) same(2) by (auto simp: key_usable_def)
  obtain reset a' where a': "bind_or_reset_principal user (str ''ssh-connection'') a = (reset, a')"
    by (cases "bind_or_reset_principal user (str ''ssh-connection'') a")
  define a1 where "a1 = a'\<lparr> ar_current := Some (CR_PublicKey blob algo True) \<rparr>"
  define es1 where "es1 = es\<lparr> enc_state := ES_WaitingAuthRequest a1, enc_write := push_packet ?C (enc_write es)
      (USERAUTH_PK_OK # bytes_encode ?C algo @ bytes_encode ?C blob) \<rparr>"
  have a1: "probe_matches a1 algo blob" "bind_or_reset_principal user (str ''ssh-connection'') a1 = (False, a1)"
    using bind_principal [OF a'] by (auto simp: a1_def probe_matches_def bind_or_reset_principal_def Let_def)
  note req = publickey_request [OF codec user k pk]
  have 1: "server_read_auth_request A now pkt (auth_request_head ?C user (str ''publickey'') @ 0 #
      bytes_encode ?C algo @ bytes_encode ?C blob) au es h = Inr (es1, user, h1)" for pkt
    using req [OF session(2) a', of now pkt 0 "[]"] probe_accepted [OF app(1)] by (simp add: a1_def es1_def del: str_simps)
  have 2: "server_read_auth_request A now' (USERAUTH_REQUEST # r2) r2 user es1 h1 = Inr (auth_accept ?C es1, user, h2)"
    if "r2 = auth_request_head ?C user (str ''publickey'') @ 1 # bytes_encode ?C algo @ bytes_encode ?C blob @ bytes_encode ?C sg" for r2
    using req [OF _ a1(2), of es1 now' "USERAUTH_REQUEST # r2" 1 "bytes_encode ?C sg" user h1]
      signed_accepted [OF codec a1(1) sig(1,2) _ app(2) refl, of es1 "USERAUTH_REQUEST # r2" hash] sig(3) that
    by (simp add: es1_def m_def del: str_simps)
  define r1 where "r1 = auth_request_head ?C user (str ''publickey'') @ 0 # bytes_encode ?C algo @ bytes_encode ?C blob"
  define r2 where "r2 = auth_request_head ?C user (str ''publickey'') @ 1 # bytes_encode ?C algo @ bytes_encode ?C blob @ bytes_encode ?C sg"
  define ec1 where "ec1 = ec\<lparr> enc_write := push_packet ?C (enc_write ec) (USERAUTH_REQUEST # r1) \<rparr>"
  have 3: "write_auth_request L user (M_PublicKey key hash_alg) ec = Inr (True, ec1)"
    using client_probe [OF key(1), of user ec] same(1) by (simp add: ec1_def r1_def)
  have 4: "client_send_signature L user (M_PublicKey key hash_alg) ec1 =
      Inr (ec1\<lparr> enc_write := push_packet ?C (enc_write ec1) (USERAUTH_REQUEST # r2) \<rparr>)"
    using client_signs [OF key(1), of ec1 user sg] sg same session(1) by (simp add: ec1_def m_def r2_def)
  have "enc_write ec1 = push_packet ?C (enc_write ec) (USERAUTH_REQUEST # r1)" by (simp add: ec1_def)
  moreover have "enc_write es1 = push_packet ?C (enc_write es) (USERAUTH_PK_OK # bytes_encode ?C algo @ bytes_encode ?C blob)"
    by (simp add: es1_def)
  moreover note 3 4 1 [folded r1_def] 2 [OF r2_def]
  ultimately show ?thesis by (intro exI conjI) (assumption | simp)+
qed

definition demo_clientlib :: clientlib where
  "demo_clientlib = \<lparr> cl_codec = rfc4251, cl_host = demo_hostlib, cl_names = (\<lambda>_. str ''ssh-ed25519''), private_public = pk_blob,
     public_algorithm = (\<lambda>_. Ed25519), cert_algorithm = (\<lambda>_. Ed25519), to_certificate_type = (\<lambda>_. str ''ssh-ed25519-cert-v01@openssh.com''),
     cert_to_bytes = Some, signer_try_sign = (\<lambda>key m. Some [7]) \<rparr>"

definition demo_user_key :: PrivateKey where
  "demo_user_key = \<lparr> pk_algorithm = Ed25519, pk_blob = [1, 2, 3] \<rparr>"

lemma demo_key_usable: "key_usable demo_clientlib demo_authlib demo_user_key None (str ''ssh-ed25519'') [1, 2, 3] [1, 2, 3]"
proof -
  have "is_ascii (str ''ssh-ed25519'')" "length (str ''ssh-ed25519'') \<le> max_string"
    "str ''ssh-ed25519'' \<noteq> str ''rsa-sha2-256-cert-v01@openssh.com''" "str ''ssh-ed25519'' \<noteq> str ''rsa-sha2-512-cert-v01@openssh.com''"
    by (simp_all add: is_ascii_def max_string_def)
  then show ?thesis
    using utf8_valid_ascii [of "str ''ssh-ed25519''"]
    by (simp add: key_usable_def demo_clientlib_def demo_user_key_def key_with_hash_algorithm_def with_hash_alg_def demo_authlib_def
        pk_or_cert_decode_def new_certificate_ext_def sign_with_hash_alg_def demo_hostlib_def max_string_def Let_def del: str_simps)
qed

theorem key_authentication_completes_witness:
  "\<exists>r1 r2 ec1 ec2 es1.
    write_auth_request demo_clientlib (str ''bob'') (M_PublicKey demo_user_key None) demo_waiting = Inr (True, ec1) \<and>
    server_read_auth_request demo_authenv 0 (USERAUTH_REQUEST # r1) r1 [] demo_waiting () = Inr (es1, str ''bob'', ()) \<and>
    client_send_signature demo_clientlib (str ''bob'') (M_PublicKey demo_user_key None) ec1 = Inr ec2 \<and>
    enc_write ec2 = push_packet rfc4251 (enc_write ec1) (USERAUTH_REQUEST # r2) \<and>
    server_read_auth_request demo_authenv 0 (USERAUTH_REQUEST # r2) r2 (str ''bob'') es1 () = Inr (auth_accept rfc4251 es1, str ''bob'', ())"
proof -
  have c: "ssh_codec (ae_codec demo_authenv)" "cl_codec demo_clientlib = ae_codec demo_authenv" "cl_host demo_clientlib = ae_host demo_authenv"
    "key_usable demo_clientlib (ae_lib demo_authenv) demo_user_key None (str ''ssh-ed25519'') [1, 2, 3] [1, 2, 3]"
    using demo_key_usable rfc.ssh_codec_axioms by (simp_all add: demo_authenv_def demo_clientlib_def)
  have u: "utf8_valid (str ''bob'')" "length (str ''bob'') \<le> max_string"
    using utf8_valid_ascii [OF demo_ascii(1)] by (simp_all add: max_string_def del: utf8_valid_ascii)
  have s: "\<forall>m. sign_with_hash_alg (ae_host demo_authenv) demo_user_key None m \<noteq> None"
    "ah_publickey_offered (ae_handler demo_authenv) (str ''bob'') [1, 2, 3] () = Inr (A_Accept, ())"
    "ah_publickey (ae_handler demo_authenv) (str ''bob'') [1, 2, 3] () = Inr (A_Accept, ())"
    by (simp_all add: demo_authenv_def demo_hostlib_def sign_with_hash_alg_def demo_auth_handler_def)
  have w: "enc_state demo_waiting = ES_WaitingAuthRequest (AuthRequest_server method_set_all)" by (simp add: demo_waiting_def)
  from key_authentication_completes [OF c(1-3) u c(4) s(1) refl w s(2,3), of 0 "[]" 0, unfolded demo_authenv_simps(1)]
  show ?thesis by blast
qed

end
