(* ===== verification/ClientSession.thy ===== *)
theory ClientSession
  imports ServerSession ClientAuth
begin

text \<open>
  The client session: \<open>client/session.rs\<close> and the session part of \<open>client/mod.rs\<close>. As for the server, the session is a record of
  its fields, the tables of message delivery are one field, the application is the function \<open>ce_call\<close> that is lent the session, and a
  one-shot channel is a number. The replies to the handle of the application are a log; the messages that handle will send are
  the list \<open>cn_receiver\<close>, at whose end it has been dropped.
\<close>

section \<open>State\<close>

record ClientConfig =
  cc_client_id :: SshId
  cc_kex :: client_kex_config
  cc_limits :: Limits
  cc_window_size :: u32
  cc_maximum_packet_size :: u32
  cc_channel_buffer_size :: nat
  cc_max_pending_outbound_bytes :: nat
  cc_max_pending_inbound_bytes :: nat
  cc_keepalive_max :: nat
  cc_anonymous :: bool

datatype Reply =
    RP_AuthSuccess
  | RP_AuthFailure MethodSet bool
  | RP_ChannelOpenFailure
  | RP_SignRequest PublicKey bytes
  | RP_SignRequestCert Certificate "HashAlg option" bytes
  | RP_AuthInfoRequest rstring rstring "(rstring \<times> bool) list"

datatype (plugins only: code size) 'q ClientMsg =
    MC_Authenticate rstring Method
  | MC_AuthInfoResponse "rstring list"
  | MC_Signed bytes
  | MC_ChannelOpenSession "'q ChannelRef"
  | MC_ChannelOpenX11 rstring u32 "'q ChannelRef"
  | MC_ChannelOpenDirectTcpIp rstring u32 rstring u32 "'q ChannelRef"
  | MC_ChannelOpenDirectStreamLocal rstring "'q ChannelRef"
  | MC_TcpIpForward "nat option" rstring u32
  | MC_CancelTcpIpForward "nat option" rstring u32
  | MC_StreamLocalForward "nat option" rstring
  | MC_CancelStreamLocalForward "nat option" rstring
  | MC_Close ChannelId
  | MC_Disconnect Disconnect rstring rstring
  | MC_Channel ChannelId ChannelMsg
  | MC_ChannelDataAcked ChannelId "u32 option" bytes nat
  | MC_ServerChannelOpenReply "'q PendingChannelOpen" open_result
  | MC_Rekey
  | MC_AwaitExtensionInfo rstring nat
  | MC_GetServerSigAlgs nat
  | MC_Keepalive bool
  | MC_Ping nat
  | MC_NoMoreSessions bool

datatype client_signal = CS_Done nat | CS_Port nat "u32 option" | CS_Flag nat bool | CS_SigAlgs nat "Algorithm list option"

record 'q ClientSession =
  cn_kex :: "ClientKex SessionKexState"
  cn_common :: CommonSession
  cn_receiver :: "'q ClientMsg list"
  cn_sender :: "Reply list"
  cn_handle_gone :: bool
  cn_delivery :: "'q delivery"
  cn_outbound_acks :: "ChannelId \<rightharpoonup> nat list"
  cn_target_window_size :: u32
  cn_pending_reads :: "bytes list"
  cn_pending_len :: u32
  cn_open_replies :: "('q PendingChannelOpen \<times> open_result) list"
  cn_open_global_requests :: "GlobalRequestResponse list"
  cn_server_sig_algs :: "Algorithm list option"
  cn_signals :: "client_signal list"
  cn_kex_done_signal :: bool

datatype (plugins only: code size) 'q client_callback =
    CC_auth_banner rstring
  | CC_kex_done "bytes option" Names
  | CC_channel_open_confirmation ChannelId u32 u32
  | CC_channel_success ChannelId
  | CC_channel_failure ChannelId
  | CC_channel_close ChannelId
  | CC_channel_eof ChannelId
  | CC_channel_open_failure ChannelId ChannelOpenFailure rstring rstring
  | CC_server_channel_open ChannelType "'q PendingChannelOpen"
  | CC_data ChannelId bytes
  | CC_extended_data ChannelId u32 bytes
  | CC_xon_xoff ChannelId bool
  | CC_exit_status ChannelId u32
  | CC_exit_signal ChannelId Sig bool rstring rstring
  | CC_window_adjusted ChannelId u32
  | CC_openssh_ext_host_keys_announced "PublicKey list"

record ('q, 'h) clientenv =
  ce_env :: env
  ce_kex :: kexenv
  ce_lib :: clientlib
  ce_mpsc :: "'q mpsc"
  ce_config :: ClientConfig
  ce_call :: "'q client_callback \<Rightarrow> 'h \<times> 'q ClientSession \<Rightarrow> ('h \<times> 'q ClientSession) res"
  ce_check_server_key :: "PublicKey \<Rightarrow> 'h \<Rightarrow> (bool \<times> 'h) res"
  ce_accept_unknown :: "ChannelId \<Rightarrow> rstring \<Rightarrow> 'h \<Rightarrow> bool \<times> 'h"
  ce_adjust_window :: "ChannelId \<Rightarrow> u32 \<Rightarrow> 'h \<Rightarrow> u32 \<times> 'h"
  ce_algorithm_from_str :: "rstring \<Rightarrow> Algorithm option"

abbreviation ce_codec :: "('q, 'h) clientenv \<Rightarrow> codec" where
  "ce_codec V \<equiv> cdc (ce_env V)"

abbreviation cn_enc :: "'q ClientSession \<Rightarrow> Encrypted option" where
  "cn_enc s \<equiv> cs_encrypted (cn_common s)"

abbreviation cn_writer :: "'q ClientSession \<Rightarrow> PacketWriter" where
  "cn_writer s \<equiv> cs_packet_writer (cn_common s)"

definition cn_set_enc :: "Encrypted \<Rightarrow> 'q ClientSession \<Rightarrow> 'q ClientSession" where
  "cn_set_enc e s = s\<lparr> cn_common := (cn_common s)\<lparr> cs_encrypted := Some e \<rparr> \<rparr>"

definition cn_set_writer :: "PacketWriter \<Rightarrow> 'q ClientSession \<Rightarrow> 'q ClientSession" where
  "cn_set_writer w s = s\<lparr> cn_common := (cn_common s)\<lparr> cs_packet_writer := w \<rparr> \<rparr>"

definition cn_on_enc :: "(Encrypted \<Rightarrow> Encrypted) \<Rightarrow> 'q ClientSession \<Rightarrow> 'q ClientSession" where
  "cn_on_enc f s = (case cn_enc s of Some e \<Rightarrow> cn_set_enc (f e) s | None \<Rightarrow> s)"

definition cn_signal :: "client_signal \<Rightarrow> 'q ClientSession \<Rightarrow> 'q ClientSession" where
  "cn_signal x s = s\<lparr> cn_signals := cn_signals s @ [x] \<rparr>"

definition cn_on_channels :: "(('q ChannelRef) option \<Rightarrow> ('q ChannelRef) option) \<Rightarrow> ChannelId \<Rightarrow> 'q ClientSession \<Rightarrow> 'q ClientSession" where
  "cn_on_channels f cid s =
     s\<lparr> cn_delivery := (cn_delivery s)\<lparr> dl_channels := (dl_channels (cn_delivery s))(cid := f (dl_channels (cn_delivery s) cid)) \<rparr> \<rparr>"

definition cn_on_queue :: "(InboundQueue \<Rightarrow> InboundQueue) \<Rightarrow> ChannelId \<Rightarrow> 'q ClientSession \<Rightarrow> 'q ClientSession" where
  "cn_on_queue f cid s =
     s\<lparr> cn_delivery := (cn_delivery s)\<lparr> dl_inbound :=
        (dl_inbound (cn_delivery s))(cid := map_option f (dl_inbound (cn_delivery s) cid)) \<rparr> \<rparr>"

section \<open>Requests on a channel\<close>

definition cli_channel_request :: "bytes \<Rightarrow> ('q, 'h) clientenv \<Rightarrow> ChannelId \<Rightarrow> 'q ClientSession \<Rightarrow> 'q ClientSession" where
  "cli_channel_request body V channel s =
     (case cn_enc s of
        None \<Rightarrow> s
      | Some enc \<Rightarrow>
          (case enc_channels enc channel of
             None \<Rightarrow> s
           | Some ch \<Rightarrow> cn_set_enc (enc_push (ce_codec V)
               (CHANNEL_REQUEST # u32_encode (ce_codec V) (recipient_channel ch) @ body) enc) s))"

text \<open>The length counts every mode, those that end the list included, which are then left out.\<close>

definition pty_modes :: "codec \<Rightarrow> (Pty \<times> u32) list \<Rightarrow> bytes" where
  "pty_modes C modes =
     u32_encode C (of_nat (1 + 5 * length modes)) @
     concat (map (\<lambda>(code, v). if code = TTY_OP_END then [] else pty_code code # u32_encode C v) modes) @
     [pty_code TTY_OP_END]"

definition cli_request_pty ::
  "('q, 'h) clientenv \<Rightarrow> ChannelId \<Rightarrow> bool \<Rightarrow> rstring \<Rightarrow> u32 \<Rightarrow> u32 \<Rightarrow> u32 \<Rightarrow> u32 \<Rightarrow> (Pty \<times> u32) list \<Rightarrow> 'q ClientSession \<Rightarrow> 'q ClientSession" where
  "cli_request_pty V channel want_reply term col_width row_height pix_width pix_height terminal_modes =
     (let C = ce_codec V in
      cli_channel_request (bytes_encode C (str ''pty-req'') @ flag_byte want_reply # bytes_encode C term @ u32_encode C col_width @
        u32_encode C row_height @ u32_encode C pix_width @ u32_encode C pix_height @ pty_modes C terminal_modes) V channel)"

definition cli_request_x11 ::
  "('q, 'h) clientenv \<Rightarrow> ChannelId \<Rightarrow> bool \<Rightarrow> bool \<Rightarrow> rstring \<Rightarrow> rstring \<Rightarrow> u32 \<Rightarrow> 'q ClientSession \<Rightarrow> 'q ClientSession" where
  "cli_request_x11 V channel want_reply single_connection protocol cookie screen =
     (let C = ce_codec V in
      cli_channel_request (bytes_encode C (str ''x11-req'') @ flag_byte want_reply # flag_byte single_connection #
        bytes_encode C protocol @ bytes_encode C cookie @ u32_encode C screen) V channel)"

definition cli_set_env ::
  "('q, 'h) clientenv \<Rightarrow> ChannelId \<Rightarrow> bool \<Rightarrow> rstring \<Rightarrow> rstring \<Rightarrow> 'q ClientSession \<Rightarrow> 'q ClientSession" where
  "cli_set_env V channel want_reply variable_name variable_value =
     (let C = ce_codec V in
      cli_channel_request (bytes_encode C (str ''env'') @ flag_byte want_reply # bytes_encode C variable_name @
        bytes_encode C variable_value) V channel)"

definition cli_request_shell :: "('q, 'h) clientenv \<Rightarrow> bool \<Rightarrow> ChannelId \<Rightarrow> 'q ClientSession \<Rightarrow> 'q ClientSession" where
  "cli_request_shell V want_reply =
     cli_channel_request (bytes_encode (ce_codec V) (str ''shell'') @ [flag_byte want_reply]) V"

definition cli_exec :: "('q, 'h) clientenv \<Rightarrow> ChannelId \<Rightarrow> bool \<Rightarrow> bytes \<Rightarrow> 'q ClientSession \<Rightarrow> 'q ClientSession" where
  "cli_exec V channel want_reply command =
     cli_channel_request (bytes_encode (ce_codec V) (str ''exec'') @ flag_byte want_reply # bytes_encode (ce_codec V) command) V channel"

definition cli_signal :: "('q, 'h) clientenv \<Rightarrow> ChannelId \<Rightarrow> Sig \<Rightarrow> 'q ClientSession \<Rightarrow> 'q ClientSession" where
  "cli_signal V channel sig =
     cli_channel_request (bytes_encode (ce_codec V) (str ''signal'') @ 0 # bytes_encode (ce_codec V) (sig_name sig)) V channel"

definition cli_request_subsystem :: "('q, 'h) clientenv \<Rightarrow> bool \<Rightarrow> ChannelId \<Rightarrow> rstring \<Rightarrow> 'q ClientSession \<Rightarrow> 'q ClientSession" where
  "cli_request_subsystem V want_reply channel name =
     cli_channel_request (bytes_encode (ce_codec V) (str ''subsystem'') @ flag_byte want_reply # bytes_encode (ce_codec V) name) V channel"

definition cli_window_change ::
  "('q, 'h) clientenv \<Rightarrow> ChannelId \<Rightarrow> u32 \<Rightarrow> u32 \<Rightarrow> u32 \<Rightarrow> u32 \<Rightarrow> 'q ClientSession \<Rightarrow> 'q ClientSession" where
  "cli_window_change V channel col_width row_height pix_width pix_height =
     (let C = ce_codec V in
      cli_channel_request (bytes_encode C (str ''window-change'') @ 0 # u32_encode C col_width @ u32_encode C row_height @
        u32_encode C pix_width @ u32_encode C pix_height) V channel)"

definition cli_agent_forward :: "('q, 'h) clientenv \<Rightarrow> ChannelId \<Rightarrow> bool \<Rightarrow> 'q ClientSession \<Rightarrow> 'q ClientSession" where
  "cli_agent_forward V channel want_reply =
     cli_channel_request (bytes_encode (ce_codec V) (str ''auth-agent-req@openssh.com'') @ [flag_byte want_reply]) V channel"

section \<open>Global requests\<close>

text \<open>A request whose answer, if one is wanted, goes to a one-shot channel.\<close>

definition cli_global_request ::
  "('q, 'h) clientenv \<Rightarrow> GlobalRequestResponse option \<Rightarrow> rstring \<Rightarrow> bytes \<Rightarrow> 'q ClientSession \<Rightarrow> 'q ClientSession" where
  "cli_global_request V await name body s =
     (if cn_enc s = None then s
      else (let s = (case await of Some a \<Rightarrow> s\<lparr> cn_open_global_requests := cn_open_global_requests s @ [a] \<rparr> | None \<Rightarrow> s) in
        cn_on_enc (enc_push (ce_codec V)
          (GLOBAL_REQUEST # bytes_encode (ce_codec V) name @ flag_byte (await \<noteq> None) # body)) s))"

definition cli_tcpip_forward :: "('q, 'h) clientenv \<Rightarrow> nat option \<Rightarrow> rstring \<Rightarrow> u32 \<Rightarrow> 'q ClientSession \<Rightarrow> 'q ClientSession" where
  "cli_tcpip_forward V reply_channel address port =
     cli_global_request V (map_option GR_TcpIpForward reply_channel) (str ''tcpip-forward'')
       (bytes_encode (ce_codec V) address @ u32_encode (ce_codec V) port)"

definition cli_cancel_tcpip_forward :: "('q, 'h) clientenv \<Rightarrow> nat option \<Rightarrow> rstring \<Rightarrow> u32 \<Rightarrow> 'q ClientSession \<Rightarrow> 'q ClientSession" where
  "cli_cancel_tcpip_forward V reply_channel address port =
     cli_global_request V (map_option GR_CancelTcpIpForward reply_channel) (str ''cancel-tcpip-forward'')
       (bytes_encode (ce_codec V) address @ u32_encode (ce_codec V) port)"

definition cli_streamlocal_forward :: "('q, 'h) clientenv \<Rightarrow> nat option \<Rightarrow> rstring \<Rightarrow> 'q ClientSession \<Rightarrow> 'q ClientSession" where
  "cli_streamlocal_forward V reply_channel path =
     cli_global_request V (map_option GR_StreamLocalForward reply_channel) (str ''streamlocal-forward@openssh.com'')
       (bytes_encode (ce_codec V) path)"

definition cli_cancel_streamlocal_forward :: "('q, 'h) clientenv \<Rightarrow> nat option \<Rightarrow> rstring \<Rightarrow> 'q ClientSession \<Rightarrow> 'q ClientSession" where
  "cli_cancel_streamlocal_forward V reply_channel path =
     cli_global_request V (map_option GR_CancelStreamLocalForward reply_channel) (str ''cancel-streamlocal-forward@openssh.com'')
       (bytes_encode (ce_codec V) path)"

text \<open>Requests that always leave an entry to be answered, even when no answer is asked for.\<close>

definition cli_awaited_request ::
  "('q, 'h) clientenv \<Rightarrow> GlobalRequestResponse \<Rightarrow> rstring \<Rightarrow> bool \<Rightarrow> 'q ClientSession \<Rightarrow> 'q ClientSession" where
  "cli_awaited_request V await name want_reply s =
     cn_on_enc (enc_push (ce_codec V) (GLOBAL_REQUEST # bytes_encode (ce_codec V) name @ [flag_byte want_reply]))
       (s\<lparr> cn_open_global_requests := cn_open_global_requests s @ [await] \<rparr>)"

definition cli_send_keepalive :: "('q, 'h) clientenv \<Rightarrow> bool \<Rightarrow> 'q ClientSession \<Rightarrow> 'q ClientSession" where
  "cli_send_keepalive V want_reply = cli_awaited_request V GR_Keepalive (str ''keepalive@openssh.com'') want_reply"

definition cli_send_ping :: "('q, 'h) clientenv \<Rightarrow> nat \<Rightarrow> 'q ClientSession \<Rightarrow> 'q ClientSession" where
  "cli_send_ping V reply_channel = cli_awaited_request V (GR_Ping reply_channel) (str ''keepalive@openssh.com'') True"

definition cli_no_more_sessions :: "('q, 'h) clientenv \<Rightarrow> bool \<Rightarrow> 'q ClientSession \<Rightarrow> 'q ClientSession" where
  "cli_no_more_sessions V want_reply = cli_awaited_request V GR_NoMoreSessions (str ''no-more-sessions@openssh.com'') want_reply"

section \<open>Opening channels\<close>

definition cli_channel_open_generic ::
  "('q, 'h) clientenv \<Rightarrow> rstring \<Rightarrow> bytes \<Rightarrow> 'q ClientSession \<Rightarrow> (ChannelId \<times> 'q ClientSession) res" where
  "cli_channel_open_generic V kind suffix s =
     (let C = ce_codec V; F = ce_config V in
      case cn_enc s of
        None \<Rightarrow> Inl E_Inconsistent
      | Some enc \<Rightarrow>
          if enc_state enc \<noteq> ES_Authenticated then Inl E_NotAuthenticated
          else (case new_channel (cc_window_size F) (cc_maximum_packet_size F) enc of
              None \<Rightarrow> Inl Diverged
            | Some (cid, enc) \<Rightarrow>
                Inr (cid, cn_set_enc (enc_push C (CHANNEL_OPEN # bytes_encode C kind @ u32_encode C cid @
                  u32_encode C (cc_window_size F) @ u32_encode C (cc_maximum_packet_size F) @ suffix) enc) s)))"

definition cli_channel_open_session :: "('q, 'h) clientenv \<Rightarrow> 'q ClientSession \<Rightarrow> (ChannelId \<times> 'q ClientSession) res" where
  "cli_channel_open_session V = cli_channel_open_generic V (str ''session'') []"

definition cli_channel_open_x11 ::
  "('q, 'h) clientenv \<Rightarrow> rstring \<Rightarrow> u32 \<Rightarrow> 'q ClientSession \<Rightarrow> (ChannelId \<times> 'q ClientSession) res" where
  "cli_channel_open_x11 V originator oport =
     (let C = ce_codec V in
      cli_channel_open_generic V (str ''x11'') (bytes_encode C originator @ u32_encode C oport))"

definition cli_channel_open_direct_tcpip ::
  "('q, 'h) clientenv \<Rightarrow> rstring \<Rightarrow> u32 \<Rightarrow> rstring \<Rightarrow> u32 \<Rightarrow> 'q ClientSession \<Rightarrow> (ChannelId \<times> 'q ClientSession) res" where
  "cli_channel_open_direct_tcpip V host port originator oport =
     (let C = ce_codec V in
      cli_channel_open_generic V (str ''direct-tcpip'') (bytes_encode C host @ u32_encode C port @
        bytes_encode C originator @ u32_encode C oport))"

definition cli_channel_open_direct_streamlocal ::
  "('q, 'h) clientenv \<Rightarrow> rstring \<Rightarrow> 'q ClientSession \<Rightarrow> (ChannelId \<times> 'q ClientSession) res" where
  "cli_channel_open_direct_streamlocal V path =
     (let C = ce_codec V in
      cli_channel_open_generic V (str ''direct-streamlocal@openssh.com'') (bytes_encode C path @ bytes_encode C [] @ u32_encode C 0))"

section \<open>Delivery and teardown\<close>

definition cli_deliver_inbound ::
  "('q, 'h) clientenv \<Rightarrow> ChannelId \<Rightarrow> InboundItem \<Rightarrow> 'q ClientSession \<Rightarrow> InboundDelivery \<times> 'q ClientSession" where
  "cli_deliver_inbound V cid item s =
     (case deliver_inbound (ce_mpsc V) (cc_max_pending_inbound_bytes (ce_config V)) cid item (cn_delivery s) of (r, d) \<Rightarrow>
        (r, s\<lparr> cn_delivery := d \<rparr>))"

definition cli_drain_needs_reserve :: "reserve list \<Rightarrow> 'q ClientSession \<Rightarrow> 'q ClientSession \<times> reserve list" where
  "cli_drain_needs_reserve reserves s =
     (case drain_needs_reserve (cn_delivery s) reserves of (d, reserves) \<Rightarrow> (s\<lparr> cn_delivery := d \<rparr>, reserves))"

definition cli_teardown_inbound_channel :: "ChannelId \<Rightarrow> 'q ClientSession \<Rightarrow> 'q ClientSession" where
  "cli_teardown_inbound_channel cid s = s\<lparr> cn_delivery := teardown_inbound cid (cn_delivery s) \<rparr>"

definition cli_finalize_close :: "ChannelId \<Rightarrow> 'q ClientSession \<Rightarrow> 'q ClientSession" where
  "cli_finalize_close cid s =
     (let s = cn_on_channels (\<lambda>_. None) cid (cli_teardown_inbound_channel cid s);
          s = s\<lparr> cn_outbound_acks := (cn_outbound_acks s)(cid := None) \<rparr>
      in cn_on_enc (remove_channel cid) s)"

definition cli_discard_channel_outbound :: "('q, 'h) clientenv \<Rightarrow> ChannelId \<Rightarrow> 'q ClientSession \<Rightarrow> 'q ClientSession" where
  "cli_discard_channel_outbound V cid s =
     (let s = cn_on_enc (close_discarding_pending (ce_codec V) cid) s
      in s\<lparr> cn_outbound_acks := (cn_outbound_acks s)(cid := None) \<rparr>)"

definition cli_enforce_outbound_cap :: "('q, 'h) clientenv \<Rightarrow> ChannelId \<Rightarrow> 'q ClientSession \<Rightarrow> 'q ClientSession" where
  "cli_enforce_outbound_cap V cid s =
     (case cn_enc s of
        None \<Rightarrow> s
      | Some enc \<Rightarrow>
          if pending_data_bytes enc cid \<le> cc_max_pending_outbound_bytes (ce_config V) then s
          else cli_finalize_close cid (cli_discard_channel_outbound V cid s))"

text \<open>The grant is up to the window of the configuration; the target the application adjusts is only remembered.\<close>

definition cli_maybe_grant_after_delivery ::
  "('q, 'h) clientenv \<Rightarrow> ChannelId \<Rightarrow> 'h \<times> 'q ClientSession \<Rightarrow> 'h \<times> 'q ClientSession" where
  "cli_maybe_grant_after_delivery V cid = (\<lambda>(h, s).
     let undelivered = (case dl_inbound (cn_delivery s) cid of Some q \<Rightarrow> iq_pending_bytes q | None \<Rightarrow> 0);
         undelivered = (if undelivered < 2 ^ 32 then of_nat undelivered else - 1) in
     case cn_enc s of
       None \<Rightarrow> (h, s)
     | Some enc \<Rightarrow>
         (case maybe_grant_recv_window (ce_codec V) cid (cc_window_size (ce_config V)) undelivered enc of (granted, enc) \<Rightarrow>
            let s = cn_set_enc enc s in
            if granted
            then (case ce_adjust_window V cid (cn_target_window_size s) h of (w, h) \<Rightarrow>
              (h, if w > 0 then s\<lparr> cn_target_window_size := w \<rparr> else s))
            else (h, s)))"

text \<open>The channels are examined in the order \<open>ids\<close>, which a hash map leaves open.\<close>

fun cli_release_acks :: "ChannelId list \<Rightarrow> Encrypted \<Rightarrow> 'q ClientSession \<Rightarrow> 'q ClientSession" where
  "cli_release_acks [] enc s = s"
| "cli_release_acks (cid # ids) enc s =
     cli_release_acks ids enc
       (if has_pending_data enc cid then s
        else (case cn_outbound_acks s cid of
            Some acks \<Rightarrow> fold cn_signal (map CS_Done acks) (s\<lparr> cn_outbound_acks := (cn_outbound_acks s)(cid := None) \<rparr>)
          | None \<Rightarrow> s))"

definition cli_release_outbound_acks :: "ChannelId list \<Rightarrow> 'q ClientSession \<Rightarrow> 'q ClientSession" where
  "cli_release_outbound_acks ids s = (case cn_enc s of None \<Rightarrow> s | Some enc \<Rightarrow> cli_release_acks ids enc s)"

fun cli_deferred_callback :: "ChannelId \<Rightarrow> DeferredCallback \<Rightarrow> 'q client_callback" where
  "cli_deferred_callback cid (DC_Data data) = CC_data cid data"
| "cli_deferred_callback cid (DC_ExtendedData ext data) = CC_extended_data cid ext data"
| "cli_deferred_callback cid DC_Eof = CC_channel_eof cid"
| "cli_deferred_callback cid DC_Close = CC_channel_close cid"

definition cli_pump_rearm :: "ChannelId \<Rightarrow> 'q ClientSession \<Rightarrow> 'q ClientSession" where
  "cli_pump_rearm cid s =
     (let d = cn_delivery s in
      if (case dl_inbound d cid of Some q \<Rightarrow> iq_queue q \<noteq> [] | None \<Rightarrow> False)
      then (let d = cn_delivery (cn_on_queue (\<lambda>q. q\<lparr> iq_reserving := True \<rparr>) cid s) in
            s\<lparr> cn_delivery := d\<lparr> dl_needs_reserve := dl_needs_reserve d @ [cid] \<rparr> \<rparr>)
      else s\<lparr> cn_delivery := d\<lparr> dl_inbound := (dl_inbound d)(cid := None) \<rparr> \<rparr>)"

definition cli_pump_item ::
  "('q, 'h) clientenv \<Rightarrow> ChannelId \<Rightarrow> InboundItem \<Rightarrow> 'h \<times> 'q ClientSession \<Rightarrow> ('h \<times> 'q ClientSession) res" where
  "cli_pump_item V cid item = (\<lambda>(h, s).
     let s = cn_on_queue (\<lambda>q. q\<lparr> iq_queue := tl (iq_queue q), iq_pending_bytes := iq_pending_bytes q - byte_len item \<rparr>) cid s;
         s = cn_on_channels (map_option (\<lambda>c. c\<lparr> cr_sender := mq_permit_send (ce_mpsc V) (to_msg item) (cr_sender c) \<rparr>)) cid s;
         (h, s) = (if grants_window item then cli_maybe_grant_after_delivery V cid (h, s) else (h, s)) in
     bindR (ce_call V (cli_deferred_callback cid (capture_callback item)) (h, s)) (\<lambda>(h, s).
       Inr (h, if item = II_Close then cli_finalize_close cid s else cli_pump_rearm cid s)))"

definition cli_pump_inbound ::
  "('q, 'h) clientenv \<Rightarrow> ChannelId \<Rightarrow> u64 \<Rightarrow> bool \<Rightarrow> 'h \<times> 'q ClientSession \<Rightarrow> ('h \<times> 'q ClientSession) res" where
  "cli_pump_inbound V cid generation permit = (\<lambda>(h, s).
     case dl_inbound (cn_delivery s) cid of
       None \<Rightarrow> Inr (h, s)
     | Some q \<Rightarrow>
         if generation \<noteq> iq_generation q then Inr (h, s)
         else (let s = cn_on_queue (\<lambda>q. q\<lparr> iq_reserving := False \<rparr>) cid s in
           if \<not> permit
           then (if iq_close_queued q
                 then bindR (ce_call V (CC_channel_close cid) (h, s)) (\<lambda>(h, s). Inr (h, cli_finalize_close cid s))
                 else Inr (h, cli_teardown_inbound_channel cid s))
           else (case iq_queue q of
               [] \<Rightarrow> Inr (h, s)
             | item # _ \<Rightarrow> cli_pump_item V cid item (h, s))))"

section \<open>Data, rekeying and flushing\<close>

definition cli_begin_rekey :: "('q, 'h) clientenv \<Rightarrow> moment \<Rightarrow> 'q ClientSession \<Rightarrow> 'q ClientSession res" where
  "cli_begin_rekey V t s =
     (let cs = cn_common s;
          kex = ClientKex_new (cc_kex (ce_config V)) (cc_client_id (ce_config V)) (cs_remote_sshid cs)
            (case cs_encrypted cs of None \<Rightarrow> KC_Initial | Some enc \<Rightarrow> KC_Rekey (cs_strict_kex cs) (enc_session_id enc)) in
      bindR (client_kexinit (ce_env V) (ke_names (ce_kex V)) (mo_cookie t) kex (cs_packet_writer cs)) (\<lambda>(kex, w).
        Inr (s\<lparr> cn_common := cs\<lparr> cs_packet_writer := w \<rparr>, cn_kex := Kex_InProgress kex \<rparr>)))"

definition cli_flush :: "('q, 'h) clientenv \<Rightarrow> moment \<Rightarrow> 'q ClientSession \<Rightarrow> 'q ClientSession res" where
  "cli_flush V t s =
     (case cn_enc s of
        None \<Rightarrow> Inr s
      | Some enc \<Rightarrow>
          bindR (enc_flush (ce_env V) (mo_now t) (cc_limits (ce_config V)) enc (cn_writer s)) (\<lambda>(due, enc, w).
            let s = cn_set_writer w (cn_set_enc enc s) in
            if due \<and> \<not> kex_active (cn_kex s) then cli_begin_rekey V t s else Inr s))"

definition cli_initiate_rekey :: "('q, 'h) clientenv \<Rightarrow> moment \<Rightarrow> 'q ClientSession \<Rightarrow> 'q ClientSession res" where
  "cli_initiate_rekey V t s =
     (if cn_enc s = None then Inr s else cli_flush V t (cn_on_enc (\<lambda>enc. enc\<lparr> enc_rekey_wanted := True \<rparr>) s))"

definition cli_data :: "('q, 'h) clientenv \<Rightarrow> ChannelId \<Rightarrow> bytes \<Rightarrow> 'q ClientSession \<Rightarrow> 'q ClientSession res" where
  "cli_data V channel data s =
     (case cn_enc s of
        None \<Rightarrow> Inl Panicked
      | Some enc \<Rightarrow>
          bindR (data_with_writer (ce_env V) channel data (kex_active (cn_kex s)) enc (cn_writer s)) (\<lambda>(enc, w).
            Inr (cli_enforce_outbound_cap V channel (cn_set_writer w (cn_set_enc enc s)))))"

definition cli_extended_data ::
  "('q, 'h) clientenv \<Rightarrow> ChannelId \<Rightarrow> u32 \<Rightarrow> bytes \<Rightarrow> 'q ClientSession \<Rightarrow> 'q ClientSession res" where
  "cli_extended_data V channel ext data s =
     (case cn_enc s of
        None \<Rightarrow> Inl Panicked
      | Some enc \<Rightarrow>
          bindR (extended_data_with_writer (ce_env V) channel ext data (kex_active (cn_kex s)) enc (cn_writer s)) (\<lambda>(enc, w).
            Inr (cli_enforce_outbound_cap V channel (cn_set_writer w (cn_set_enc enc s)))))"

definition cli_eof :: "('q, 'h) clientenv \<Rightarrow> ChannelId \<Rightarrow> 'q ClientSession \<Rightarrow> 'q ClientSession res" where
  "cli_eof V channel s =
     (case cn_enc s of
        None \<Rightarrow> Inl Panicked
      | Some enc \<Rightarrow> Inr (cn_set_enc (channel_eof (ce_codec V) channel enc) s))"

definition cli_close :: "('q, 'h) clientenv \<Rightarrow> ChannelId \<Rightarrow> 'q ClientSession \<Rightarrow> 'q ClientSession res" where
  "cli_close V channel s =
     (case cn_enc s of
        None \<Rightarrow> Inl Panicked
      | Some enc \<Rightarrow>
          (let enc = channel_close (ce_codec V) channel enc;
               reader_gone = (case dl_channels (cn_delivery s) channel of
                   Some c \<Rightarrow> mq_is_closed (ce_mpsc V) (cr_sender c) | None \<Rightarrow> False);
               s = cn_set_enc enc s in
           Inr (if \<not> channel_exists enc channel \<and> reader_gone then cli_finalize_close channel s else s)))"

definition cli_disconnect ::
  "('q, 'h) clientenv \<Rightarrow> Disconnect \<Rightarrow> rstring \<Rightarrow> rstring \<Rightarrow> 'q ClientSession \<Rightarrow> 'q ClientSession" where
  "cli_disconnect V reason description language_tag s =
     s\<lparr> cn_common := session_disconnect (ce_codec V) reason description language_tag (cn_common s) \<rparr>"

definition cli_has_pending_data :: "'q ClientSession \<Rightarrow> ChannelId \<Rightarrow> bool" where
  "cli_has_pending_data s channel = (case cn_enc s of None \<Rightarrow> False | Some enc \<Rightarrow> has_pending_data enc channel)"

definition cli_sender_window_size :: "'q ClientSession \<Rightarrow> ChannelId \<Rightarrow> nat" where
  "cli_sender_window_size s channel = (case cn_enc s of None \<Rightarrow> 0 | Some enc \<Rightarrow> enc_sender_window_size enc channel)"

section \<open>Messages of the application\<close>

definition write_auth_request_if_needed ::
  "('q, 'h) clientenv \<Rightarrow> rstring \<Rightarrow> Method \<Rightarrow> 'q ClientSession \<Rightarrow> (bool \<times> 'q ClientSession) res" where
  "write_auth_request_if_needed V user meth s =
     bindR (case cn_enc s of
         None \<Rightarrow> Inr (False, s)
       | Some enc \<Rightarrow>
           bindR (case enc_state enc of
               ES_WaitingAuthRequest _ \<Rightarrow> Inr (True, enc, cn_writer s)
             | ES_WaitingAuthServiceRequest accepted sent \<Rightarrow>
                 bindR (if sent then Inr (cn_writer s)
                        else write_packet (ce_env V) (Inr (SERVICE_REQUEST # bytes_encode (ce_codec V) (str ''ssh-userauth''))) (cn_writer s)) (\<lambda>w.
                   Inr (accepted, enc\<lparr> enc_state := ES_WaitingAuthServiceRequest accepted True \<rparr>, w))
             | _ \<Rightarrow> Inr (False, enc, cn_writer s)) (\<lambda>(is_waiting, enc, w).
           if is_waiting
           then bindR (write_auth_request (ce_lib V) user meth enc) (\<lambda>(_, enc).
             Inr (True, cn_set_writer w (cn_set_enc (enc\<lparr> enc_state := ES_WaitingAuthRequest (AuthRequest_new meth) \<rparr>) s)))
           else Inr (False, cn_set_writer w (cn_set_enc enc s)))) (\<lambda>(is_waiting, s).
       Inr (is_waiting, s\<lparr> cn_common := (cn_common s)\<lparr> cs_auth_user := user, cs_auth_method := Some meth \<rparr> \<rparr>))"

definition finalize_server_channel_open_reply ::
  "('q, 'h) clientenv \<Rightarrow> 'q PendingChannelOpen \<Rightarrow> open_result \<Rightarrow> 'q ClientSession \<Rightarrow> 'q ClientSession" where
  "finalize_server_channel_open_reply V pending result s =
     (let C = ce_codec V in
      case cn_enc s of
        None \<Rightarrow> s
      | Some enc \<Rightarrow>
          (case result of
             None \<Rightarrow>
               (let enc = enc_push C (CHANNEL_OPEN_CONFIRMATION # u32_encode C (po_recipient_channel pending) @
                      u32_encode C (po_sender_channel pending) @ u32_encode C (po_window_size pending) @
                      u32_encode C (po_packet_size pending)) enc;
                    enc = enc\<lparr> enc_channels := (enc_channels enc)(po_sender_channel pending \<mapsto> po_channel_params pending) \<rparr>
                in cn_on_channels (\<lambda>_. Some (po_channel_ref pending)) (po_sender_channel pending) (cn_set_enc enc s))
           | Some reason \<Rightarrow>
               cn_set_enc (enc_push C (CHANNEL_OPEN_FAILURE # u32_encode C (po_recipient_channel pending) @
                 u32_encode C (failure_code reason) @ bytes_encode C (failure_description reason) @
                 bytes_encode C (str ''en'')) enc) s))"

definition cli_drain_open_replies :: "('q, 'h) clientenv \<Rightarrow> 'q ClientSession \<Rightarrow> 'q ClientSession" where
  "cli_drain_open_replies V s =
     fold (\<lambda>(pending, result). finalize_server_channel_open_reply V pending result) (cn_open_replies s) (s\<lparr> cn_open_replies := [] \<rparr>)"

definition cli_register_channel ::
  "'q ChannelRef \<Rightarrow> (ChannelId \<times> 'q ClientSession) res \<Rightarrow> 'q ClientSession res" where
  "cli_register_channel channel_ref r = bindR r (\<lambda>(cid, s). Inr (cn_on_channels (\<lambda>_. Some channel_ref) cid s))"

definition cli_data_acked ::
  "('q, 'h) clientenv \<Rightarrow> ChannelId \<Rightarrow> u32 option \<Rightarrow> bytes \<Rightarrow> nat \<Rightarrow> 'q ClientSession \<Rightarrow> 'q ClientSession res" where
  "cli_data_acked V cid ext data ack s =
     bindR (case ext of None \<Rightarrow> cli_data V cid data s | Some ext \<Rightarrow> cli_extended_data V cid ext data s) (\<lambda>s.
       let present = (case cn_enc s of Some enc \<Rightarrow> channel_exists enc cid | None \<Rightarrow> False) in
       Inr (if \<not> present then s
            else if cli_has_pending_data s cid
            then s\<lparr> cn_outbound_acks := (cn_outbound_acks s)(cid \<mapsto>
                   (case cn_outbound_acks s cid of Some acks \<Rightarrow> acks | None \<Rightarrow> []) @ [ack]) \<rparr>
            else cn_signal (CS_Done ack) s))"

fun handle_channel_msg :: "('q, 'h) clientenv \<Rightarrow> ChannelId \<Rightarrow> ChannelMsg \<Rightarrow> 'q ClientSession \<Rightarrow> 'q ClientSession res" where
  "handle_channel_msg V cid (CM_Data data) s = cli_data V cid data s"
| "handle_channel_msg V cid CM_Eof s = cli_eof V cid s"
| "handle_channel_msg V cid (CM_ExtendedData ext data) s = cli_extended_data V cid ext data s"
| "handle_channel_msg V cid (CM_RequestPty want_reply term cw rh pw ph modes) s = Inr (cli_request_pty V cid want_reply term cw rh pw ph modes s)"
| "handle_channel_msg V cid (CM_WindowChange cw rh pw ph) s = Inr (cli_window_change V cid cw rh pw ph s)"
| "handle_channel_msg V cid (CM_RequestX11 want_reply single protocol cookie screen) s =
     Inr (cli_request_x11 V cid want_reply single protocol cookie screen s)"
| "handle_channel_msg V cid (CM_SetEnv want_reply name v) s = Inr (cli_set_env V cid want_reply name v s)"
| "handle_channel_msg V cid (CM_RequestShell want_reply) s = Inr (cli_request_shell V want_reply cid s)"
| "handle_channel_msg V cid (CM_Exec want_reply command) s = Inr (cli_exec V cid want_reply command s)"
| "handle_channel_msg V cid (CM_Signal sig) s = Inr (cli_signal V cid sig s)"
| "handle_channel_msg V cid (CM_RequestSubsystem want_reply name) s = Inr (cli_request_subsystem V want_reply cid name s)"
| "handle_channel_msg V cid (CM_AgentForward want_reply) s = Inr (cli_agent_forward V cid want_reply s)"
| "handle_channel_msg V cid CM_Close s = cli_close V cid s"
| "handle_channel_msg V cid _ s = Inl Panicked"

definition await_extension_info :: "rstring \<Rightarrow> nat \<Rightarrow> Encrypted \<Rightarrow> Encrypted" where
  "await_extension_info name reply_channel enc =
     (if name \<in> set (enc_received_extensions enc) \<or> enc_state enc = ES_Authenticated then enc
      else enc\<lparr> enc_extension_info_awaiters := (enc_extension_info_awaiters enc)(name \<mapsto>
        (case enc_extension_info_awaiters enc name of Some ws \<Rightarrow> ws | None \<Rightarrow> []) @ [reply_channel]) \<rparr>)"

fun handle_client_msg :: "('q, 'h) clientenv \<Rightarrow> moment \<Rightarrow> 'q ClientMsg \<Rightarrow> 'q ClientSession \<Rightarrow> 'q ClientSession res" where
  "handle_client_msg V t (MC_Authenticate user meth) s = bindR (write_auth_request_if_needed V user meth s) (\<lambda>(_, s). Inr s)"
| "handle_client_msg V t (MC_Signed _) s = Inr s"
| "handle_client_msg V t (MC_AuthInfoResponse _) s = Inr s"
| "handle_client_msg V t (MC_ChannelOpenSession r) s = cli_register_channel r (cli_channel_open_session V s)"
| "handle_client_msg V t (MC_ChannelOpenX11 oa op r) s = cli_register_channel r (cli_channel_open_x11 V oa op s)"
| "handle_client_msg V t (MC_ChannelOpenDirectTcpIp a p oa op r) s = cli_register_channel r (cli_channel_open_direct_tcpip V a p oa op s)"
| "handle_client_msg V t (MC_ChannelOpenDirectStreamLocal p r) s = cli_register_channel r (cli_channel_open_direct_streamlocal V p s)"
| "handle_client_msg V t (MC_TcpIpForward reply address port) s = Inr (cli_tcpip_forward V reply address port s)"
| "handle_client_msg V t (MC_CancelTcpIpForward reply address port) s = Inr (cli_cancel_tcpip_forward V reply address port s)"
| "handle_client_msg V t (MC_StreamLocalForward reply path) s = Inr (cli_streamlocal_forward V reply path s)"
| "handle_client_msg V t (MC_CancelStreamLocalForward reply path) s = Inr (cli_cancel_streamlocal_forward V reply path s)"
| "handle_client_msg V t (MC_Disconnect reason description language_tag) s = Inr (cli_disconnect V reason description language_tag s)"
| "handle_client_msg V t (MC_Channel cid m) s = handle_channel_msg V cid m s"
| "handle_client_msg V t (MC_ChannelDataAcked cid ext data ack) s = cli_data_acked V cid ext data ack s"
| "handle_client_msg V t MC_Rekey s = cli_initiate_rekey V t s"
| "handle_client_msg V t (MC_AwaitExtensionInfo name c) s = Inr (cn_on_enc (await_extension_info name c) s)"
| "handle_client_msg V t (MC_GetServerSigAlgs c) s = Inr (cn_signal (CS_SigAlgs c (cn_server_sig_algs s)) s)"
| "handle_client_msg V t (MC_Keepalive want_reply) s = Inr (cli_send_keepalive V want_reply s)"
| "handle_client_msg V t (MC_Ping c) s = Inr (cli_send_ping V c s)"
| "handle_client_msg V t (MC_NoMoreSessions want_reply) s = Inr (cli_no_more_sessions V want_reply s)"
| "handle_client_msg V t (MC_Close cid) s = Inl Panicked"
| "handle_client_msg V t (MC_ServerChannelOpenReply pending result) s = Inl Panicked"

definition handle_msg :: "('q, 'h) clientenv \<Rightarrow> moment \<Rightarrow> 'q ClientMsg \<Rightarrow> 'q ClientSession \<Rightarrow> 'q ClientSession res" where
  "handle_msg V t m s = handle_client_msg V t m (cli_drain_open_replies V s)"

section \<open>The run loop\<close>

text \<open>A new session, and the session of a connection: the first key exchange is begun at once.\<close>

definition client_session_new :: "('q, 'h) clientenv \<Rightarrow> bytes \<Rightarrow> 'q ClientMsg list \<Rightarrow> 'q ClientSession" where
  "client_session_new V sshid receiver =
     \<lparr> cn_kex = Kex_Idle,
       cn_common = \<lparr> cs_auth_user = [], cs_remote_sshid = sshid, cs_encrypted = None, cs_auth_method = None, cs_auth_attempts = 0,
         cs_packet_writer = PacketWriter_clear, cs_remote_to_local = OK_Clear, cs_wants_reply = False,
         cs_disconnected = False, cs_buffer = [], cs_strict_kex = False, cs_alive_timeouts = 0, cs_received_data = False \<rparr>,
       cn_receiver = receiver, cn_sender = [], cn_handle_gone = False,
       cn_delivery = \<lparr> dl_channels = Map.empty, dl_inbound = Map.empty, dl_needs_reserve = [] \<rparr>,
       cn_outbound_acks = Map.empty, cn_target_window_size = cc_window_size (ce_config V), cn_pending_reads = [], cn_pending_len = 0,
       cn_open_replies = [], cn_open_global_requests = [], cn_server_sig_algs = None, cn_signals = [], cn_kex_done_signal = True \<rparr>"

definition connect_stream :: "('q, 'h) clientenv \<Rightarrow> moment \<Rightarrow> bytes \<Rightarrow> 'q ClientMsg list \<Rightarrow> 'q ClientSession res" where
  "connect_stream V t sshid receiver = cli_begin_rekey V t (client_session_new V sshid receiver)"

definition cli_maybe_decompress ::
  "('q, 'h) clientenv \<Rightarrow> SSHBuffer \<Rightarrow> 'q ClientSession \<Rightarrow> (IncomingSshPacket \<times> 'q ClientSession) res" where
  "cli_maybe_decompress V buffer s =
     (if length (sb_buffer buffer) < 5 then Inl Panicked
      else case cn_enc s of
        Some enc \<Rightarrow>
          bindR (decompress (fla (ce_env V)) (enc_decompress enc) (drop 5 (sb_buffer buffer))) (\<lambda>(out, dec).
            Inr (\<lparr> in_buffer = out, in_seqn = sb_seqn buffer \<rparr>, cn_set_enc (enc\<lparr> enc_decompress := dec \<rparr>) s))
      | None \<Rightarrow> Inr (\<lparr> in_buffer = drop 5 (sb_buffer buffer), in_seqn = sb_seqn buffer \<rparr>, s))"

record RemoteDisconnectInfo =
  rd_reason_code :: Disconnect
  rd_message :: rstring
  rd_lang_tag :: rstring

text \<open>A message that does not decode still disconnects the session.\<close>

definition process_disconnect :: "codec \<Rightarrow> IncomingSshPacket \<Rightarrow> 'q ClientSession \<Rightarrow> RemoteDisconnectInfo res \<times> 'q ClientSession" where
  "process_disconnect C pkt s =
     (case d_u8 (in_buffer pkt) of
        Inl e \<Rightarrow> (Inl e, s)
      | Inr (_, r) \<Rightarrow>
          (bindR (d_u32 C r) (\<lambda>(code, r).
           bindR (disconnect_try_from code) (\<lambda>reason.
           bindR (d_string C r) (\<lambda>(message, r).
           bindR (d_string C r) (\<lambda>(lang, r).
             Inr \<lparr> rd_reason_code = reason, rd_message = message, rd_lang_tag = lang \<rparr>)))),
           s\<lparr> cn_common := (cn_common s)\<lparr> cs_disconnected := True \<rparr> \<rparr>))"

definition keepalive_due :: "('q, 'h) clientenv \<Rightarrow> 'q ClientSession \<Rightarrow> (bool \<times> 'q ClientSession) res" where
  "keepalive_due V s =
     (if (case cn_enc s of Some enc \<Rightarrow> enc_state enc = ES_Authenticated | None \<Rightarrow> False)
      then (let n = min (cs_alive_timeouts (cn_common s) + 1) (2 ^ 64 - 1);
                s = s\<lparr> cn_common := (cn_common s)\<lparr> cs_alive_timeouts := n \<rparr> \<rparr> in
            if cc_keepalive_max (ce_config V) \<noteq> 0 \<and> cc_keepalive_max (ce_config V) < n then Inl E_KeepaliveTimeout
            else Inr (True, cli_send_keepalive V True s))
      else Inr (False, s))"

definition init_compression_done :: "'q ClientSession \<Rightarrow> 'q ClientSession" where
  "init_compression_done s =
     (case cn_enc s of
        Some enc \<Rightarrow>
          if enc_state enc = ES_InitCompression
          then (let w = cn_writer s;
                    w = (if is_deferred (enc_client_compression enc)
                         then w\<lparr> pw_compress := init_compress (enc_client_compression enc) (pw_compress w) \<rparr> else w)
                in cn_set_writer w (cn_set_enc (enc\<lparr> enc_state := ES_Authenticated \<rparr>) s))
          else s
      | None \<Rightarrow> s)"

text \<open>The end of every turn of the loop.\<close>

definition end_of_turn :: "('q, 'h) clientenv \<Rightarrow> moment \<Rightarrow> ChannelId list \<Rightarrow> 'q ClientSession \<Rightarrow> 'q ClientSession res" where
  "end_of_turn V t ids s =
     bindR (cli_flush V t s) (\<lambda>s.
       let s = init_compression_done (cli_release_outbound_acks ids s) in
       Inr (if cs_received_data (cn_common s) then s\<lparr> cn_common := (cn_common s)\<lparr> cs_alive_timeouts := 0 \<rparr> \<rparr> else s))"

end
