(* ===== verification/ClientRead.thy ===== *)
theory ClientRead
  imports ClientSession
begin

text \<open>
  What the client does with a received packet: \<open>client/encrypted.rs\<close> and \<open>reply\<close> of \<open>client/mod.rs\<close>. As for the server, every
  function takes and returns the pair of the handler and the session, and a send that waits for room in a queue is taken to return. The
  scratch buffer \<open>cs_buffer\<close> is only kept where it is read again, which is after a signature from outside; every other use clears it first. The
  last message to a channel whose opening failed goes to a queue that leaves the session with it.
\<close>

section \<open>Authentication\<close>

type_synonym ('q, 'h) cs = "'h \<times> 'q ClientSession"

definition send_reply :: "Reply \<Rightarrow> 'q ClientSession \<Rightarrow> 'q ClientSession res" where
  "send_reply m s = (if cn_handle_gone s then Inl E_SendError else Inr (s\<lparr> cn_sender := cn_sender s @ [m] \<rparr>))"

text \<open>
  Waiting for one kind of message drops every other message that comes first. The list is all the application will send: where it
  ends the application has dropped its handle.
\<close>

fun recv_until :: "('q ClientMsg \<Rightarrow> 'a option) \<Rightarrow> 'q ClientMsg list \<Rightarrow> ('a \<times> 'q ClientMsg list) res" where
  "recv_until f [] = Inl E_RecvError"
| "recv_until f (m # ms) = (case f m of Some x \<Rightarrow> Inr (x, ms) | None \<Rightarrow> recv_until f ms)"

definition recv_signed :: "'q ClientSession \<Rightarrow> (bytes \<times> 'q ClientSession) res" where
  "recv_signed s = bindR (recv_until (\<lambda>m. case m of MC_Signed data \<Rightarrow> Some data | _ \<Rightarrow> None) (cn_receiver s))
     (\<lambda>(data, ms). Inr (data, s\<lparr> cn_receiver := ms \<rparr>))"

definition recv_responses :: "'q ClientSession \<Rightarrow> (rstring list \<times> 'q ClientSession) res" where
  "recv_responses s = bindR (recv_until (\<lambda>m. case m of MC_AuthInfoResponse responses \<Rightarrow> Some responses | _ \<Rightarrow> None) (cn_receiver s))
     (\<lambda>(responses, ms). Inr (responses, s\<lparr> cn_receiver := ms \<rparr>))"

definition handle_server_sig_algs_ext :: "('q, 'h) clientenv \<Rightarrow> bytes \<Rightarrow> 'q ClientSession \<Rightarrow> (bytes \<times> 'q ClientSession) res" where
  "handle_server_sig_algs_ext V r s =
     bindR (name_list_decode (ce_codec V) r) (\<lambda>(algs, r).
       Inr (r, s\<lparr> cn_server_sig_algs := Some (List.map_filter (ce_algorithm_from_str V) algs) \<rparr>))"

definition extension_received :: "rstring \<Rightarrow> 'q ClientSession \<Rightarrow> 'q ClientSession" where
  "extension_received name s =
     (case cn_enc s of
        None \<Rightarrow> s
      | Some enc \<Rightarrow>
          (let senders = (case enc_extension_info_awaiters enc name of Some ws \<Rightarrow> ws | None \<Rightarrow> []);
               enc = enc\<lparr> enc_received_extensions := enc_received_extensions enc @ [name],
                 enc_extension_info_awaiters := (enc_extension_info_awaiters enc)(name := None) \<rparr>
           in fold cn_signal (map CS_Done senders) (cn_set_enc enc s)))"

fun ext_info_loop :: "('q, 'h) clientenv \<Rightarrow> nat \<Rightarrow> bytes \<Rightarrow> 'q ClientSession \<Rightarrow> (bytes \<times> 'q ClientSession) res" where
  "ext_info_loop V 0 r s = Inr (r, s)"
| "ext_info_loop V (Suc n) r s =
     bindR (d_string (ce_codec V) r) (\<lambda>(name, r).
     bindR (if name = str ''server-sig-algs'' then handle_server_sig_algs_ext V r s
            else bindR (d_bytes (ce_codec V) r) (\<lambda>(_, r). Inr (r, s))) (\<lambda>(r, s).
       ext_info_loop V n r (extension_received name s)))"

definition handle_ext_info :: "('q, 'h) clientenv \<Rightarrow> bytes \<Rightarrow> 'q ClientSession \<Rightarrow> 'q ClientSession res" where
  "handle_ext_info V r s =
     bindR (d_u32 (ce_codec V) r) (\<lambda>(n_extensions, r).
     bindR (ext_info_loop V (unat n_extensions) r s) (\<lambda>(r, s).
     bindR (ensure_end r) (\<lambda>_. Inr s)))"

definition read_service_accept :: "('q, 'h) clientenv \<Rightarrow> bool \<Rightarrow> bytes \<Rightarrow> Encrypted \<Rightarrow> 'q ClientSession \<Rightarrow> 'q ClientSession res" where
  "read_service_accept V sent r enc s =
     bindR (d_bytes (ce_codec V) r) (\<lambda>(name, r).
       if name \<noteq> str ''ssh-userauth'' then Inr s
       else bindR (ensure_end r) (\<lambda>_.
         let enc = enc\<lparr> enc_state := ES_WaitingAuthServiceRequest True sent \<rparr> in
         case cs_auth_method (cn_common s) of
           None \<Rightarrow> Inr (cn_set_enc enc s)
         | Some meth \<Rightarrow>
             bindR (write_auth_request (ce_lib V) (cs_auth_user (cn_common s)) meth enc) (\<lambda>(written, enc).
               Inr (cn_set_enc (if written then enc\<lparr> enc_state := ES_WaitingAuthRequest (AuthRequest_new meth) \<rparr> else enc) s))))"

definition read_auth_success :: "bytes \<Rightarrow> Encrypted \<Rightarrow> 'q ClientSession \<Rightarrow> 'q ClientSession res" where
  "read_auth_success r enc s =
     bindR (ensure_end r) (\<lambda>_.
     bindR (send_reply RP_AuthSuccess s) (\<lambda>s.
       let enc = enc\<lparr> enc_state := ES_InitCompression \<rparr> in
       Inr (cn_set_enc (if is_deferred (enc_server_compression enc)
         then enc\<lparr> enc_decompress := init_decompress (enc_server_compression enc) (enc_decompress enc) \<rparr> else enc) s)))"

definition read_auth_banner :: "('q, 'h) clientenv \<Rightarrow> bytes \<Rightarrow> ('q, 'h) cs \<Rightarrow> ('q, 'h) cs res" where
  "read_auth_banner V r hs =
     bindR (d_string (ce_codec V) r) (\<lambda>(banner, r).
     bindR (d_string (ce_codec V) r) (\<lambda>(_, r).
     bindR (ensure_end r) (\<lambda>_. ce_call V (CC_auth_banner banner) hs)))"

text \<open>The reply to the application is sent before the session gives up for want of methods.\<close>

definition read_auth_failure :: "('q, 'h) clientenv \<Rightarrow> bytes \<Rightarrow> AuthRequest \<Rightarrow> Encrypted \<Rightarrow> 'q ClientSession \<Rightarrow> 'q ClientSession res" where
  "read_auth_failure V r auth_request enc s =
     bindR (name_list_decode (ce_codec V) r) (\<lambda>(names, r).
     bindR (d_u8 r) (\<lambda>(partial_success, r).
     bindR (ensure_end r) (\<lambda>_.
       let remaining_methods = method_set_from_name_list names;
           enc = enc\<lparr> enc_state := ES_WaitingAuthRequest (auth_request\<lparr> ar_methods := remaining_methods \<rparr>) \<rparr>;
           s = cn_set_enc enc s; s = s\<lparr> cn_common := (cn_common s)\<lparr> cs_auth_method := None \<rparr> \<rparr> in
       bindR (send_reply (RP_AuthFailure remaining_methods (partial_success \<noteq> 0)) s) (\<lambda>s.
         if remaining_methods = [] then Inl E_NoAuthMethod else Inr s))))"

fun read_prompts :: "codec \<Rightarrow> nat \<Rightarrow> bytes \<Rightarrow> ((rstring \<times> bool) list \<times> bytes) res" where
  "read_prompts C 0 r = Inr ([], r)"
| "read_prompts C (Suc n) r =
     bindR (d_string C r) (\<lambda>(prompt, r).
     bindR (d_u8 r) (\<lambda>(echo, r).
     bindR (read_prompts C n r) (\<lambda>(ps, r). Inr ((prompt, echo \<noteq> 0) # ps, r))))"

definition read_info_request :: "('q, 'h) clientenv \<Rightarrow> bytes \<Rightarrow> Encrypted \<Rightarrow> 'q ClientSession \<Rightarrow> 'q ClientSession res" where
  "read_info_request V r enc s =
     (let C = ce_codec V in
      bindR (d_string C r) (\<lambda>(name, r).
      bindR (d_string C r) (\<lambda>(instructions, r).
      bindR (d_string C r) (\<lambda>(_, r).
      bindR (d_u32 C r) (\<lambda>(n_prompts, r).
      if unat n_prompts > length r div 5 then Inl E_Inconsistent
      else bindR (read_prompts C (unat n_prompts) r) (\<lambda>(prompts, r).
      bindR (ensure_end r) (\<lambda>_.
      bindR (send_reply (RP_AuthInfoRequest name instructions prompts) s) (\<lambda>s.
      bindR (recv_responses s) (\<lambda>(responses, s).
        Inr (cn_set_enc (client_send_auth_response C responses enc) s))))))))))"

text \<open>
  A signature from outside: the data to sign goes to the application, and what comes back is sent if it has another length. Data
  that is too short is an index out of range.
\<close>

definition sign_outside ::
  "('q, 'h) clientenv \<Rightarrow> PublicKeyOrCertificate \<Rightarrow> (bytes \<Rightarrow> Reply) \<Rightarrow> Encrypted \<Rightarrow> 'q ClientSession \<Rightarrow> 'q ClientSession res" where
  "sign_outside V key request enc s =
     bindR (client_make_to_sign (ce_lib V) (cs_auth_user (cn_common s)) key enc) (\<lambda>(i, buffer).
     bindR (send_reply (request buffer) s) (\<lambda>s.
     bindR (recv_signed s) (\<lambda>(data, s).
       let s = s\<lparr> cn_common := (cn_common s)\<lparr> cs_buffer := data \<rparr> \<rparr> in
       if length data = length buffer then Inr (cn_set_enc enc s)
       else if length data < i then Inl Panicked
       else Inr (cn_set_enc (enc_push (ce_codec V) (drop i data) enc) s))))"

definition continue_with_pk_ok :: "('q, 'h) clientenv \<Rightarrow> Encrypted \<Rightarrow> 'q ClientSession \<Rightarrow> 'q ClientSession res" where
  "continue_with_pk_ok V enc s =
     (let meth = cs_auth_method (cn_common s); s = s\<lparr> cn_common := (cn_common s)\<lparr> cs_auth_method := None \<rparr> \<rparr>;
          own = (\<lambda>meth. bindR (client_send_signature (ce_lib V) (cs_auth_user (cn_common s)) meth enc) (\<lambda>enc. Inr (cn_set_enc enc s))) in
      case meth of
        Some (M_PublicKey key hash_alg) \<Rightarrow> own (M_PublicKey key hash_alg)
      | Some (M_OpenSshCertificate key cert) \<Rightarrow> own (M_OpenSshCertificate key cert)
      | Some (M_FuturePublicKey key hash_alg) \<Rightarrow> sign_outside V (PKC_PublicKey key hash_alg) (RP_SignRequest key) enc s
      | Some (M_FutureCertificate cert hash_alg) \<Rightarrow> sign_outside V (PKC_Certificate cert) (RP_SignRequestCert cert hash_alg) enc s
      | _ \<Rightarrow> Inr (cn_set_enc enc s))"

definition read_pk_ok_or_info_request ::
  "('q, 'h) clientenv \<Rightarrow> bytes \<Rightarrow> AuthRequest \<Rightarrow> Encrypted \<Rightarrow> 'q ClientSession \<Rightarrow> 'q ClientSession res" where
  "read_pk_ok_or_info_request V r auth_request enc s =
     (let C = ce_codec V in
      case ar_current auth_request of
        Some (CR_PublicKey key algo _) \<Rightarrow>
          bindR (d_string C r) (\<lambda>(_, r).
          bindR (d_bytes C r) (\<lambda>(_, r).
          bindR (ensure_end r) (\<lambda>_.
            continue_with_pk_ok V (enc\<lparr> enc_state :=
              ES_WaitingAuthRequest (auth_request\<lparr> ar_current := Some (CR_PublicKey key algo True) \<rparr>) \<rparr>) s)))
      | Some (CR_KeyboardInteractive _) \<Rightarrow> read_info_request V r enc s
      | None \<Rightarrow> continue_with_pk_ok V enc s)"

definition process_auth_packet ::
  "('q, 'h) clientenv \<Rightarrow> u8 \<Rightarrow> bytes \<Rightarrow> AuthRequest \<Rightarrow> Encrypted \<Rightarrow> ('q, 'h) cs \<Rightarrow> ('q, 'h) cs res" where
  "process_auth_packet V m r auth_request enc = (\<lambda>(h, s).
     if m = USERAUTH_SUCCESS then bindR (read_auth_success r enc s) (\<lambda>s. Inr (h, s))
     else if m = USERAUTH_BANNER then read_auth_banner V r (h, s)
     else if m = USERAUTH_FAILURE then bindR (read_auth_failure V r auth_request enc s) (\<lambda>s. Inr (h, s))
     else if m = USERAUTH_INFO_REQUEST_OR_USERAUTH_PK_OK then bindR (read_pk_ok_or_info_request V r auth_request enc s) (\<lambda>s. Inr (h, s))
     else if m = EXT_INFO then bindR (handle_ext_info V r s) (\<lambda>s. Inr (h, s))
     else Inl E_Inconsistent)"

section \<open>Messages on channels\<close>

abbreviation cn_channel :: "'q ClientSession \<Rightarrow> ChannelId \<Rightarrow> 'q ChannelRef option" where
  "cn_channel s cid \<equiv> dl_channels (cn_delivery s) cid"

definition cli_app_send :: "('q, 'h) clientenv \<Rightarrow> ChannelId \<Rightarrow> ChannelMsg \<Rightarrow> 'q ClientSession \<Rightarrow> 'q ClientSession" where
  "cli_app_send V cid m s =
     (case cn_channel s cid of
        None \<Rightarrow> s
      | Some c \<Rightarrow>
          (case mq_send (ce_mpsc V) m (cr_sender c) of
             Some q \<Rightarrow> cn_on_channels (\<lambda>_. Some (c\<lparr> cr_sender := q \<rparr>)) cid s
           | None \<Rightarrow> s))"

definition cli_read_open_confirmation :: "('q, 'h) clientenv \<Rightarrow> bytes \<Rightarrow> ('q, 'h) cs \<Rightarrow> ('q, 'h) cs res" where
  "cli_read_open_confirmation V r = (\<lambda>(h, s).
     bindR (open_confirmation_decode (ce_codec V) r) (\<lambda>(m, r).
     bindR (ensure_end r) (\<lambda>_.
       let cid = coc_recipient_channel m in
       case cn_enc s of
         None \<Rightarrow> Inl E_Inconsistent
       | Some enc \<Rightarrow>
           if \<not> channel_exists enc cid then Inl E_Inconsistent
           else (let s = cn_set_enc (update_channel cid (confirm m) enc) s;
                     s = cli_app_send V cid (CM_Open cid (coc_maximum_packet_size m) (coc_initial_window_size m)) s
                 in ce_call V (CC_channel_open_confirmation cid (coc_maximum_packet_size m) (coc_initial_window_size m)) (h, s)))))"

definition cli_deliver_close :: "('q, 'h) clientenv \<Rightarrow> ChannelId \<Rightarrow> ('q, 'h) cs \<Rightarrow> ('q, 'h) cs res" where
  "cli_deliver_close V cid = (\<lambda>(h, s).
     case cli_deliver_inbound V cid II_Close s of (r, s) \<Rightarrow>
       if r = ID_Queued then Inr (h, s)
       else bindR (ce_call V (CC_channel_close cid) (h, s)) (\<lambda>(h, s). Inr (h, cli_finalize_close cid s)))"

definition cli_read_channel_close :: "('q, 'h) clientenv \<Rightarrow> bytes \<Rightarrow> ('q, 'h) cs \<Rightarrow> ('q, 'h) cs res" where
  "cli_read_channel_close V r = (\<lambda>(h, s).
     bindR (d_u32 (ce_codec V) r) (\<lambda>(cid, r).
     bindR (ensure_end r) (\<lambda>_.
       case (case cn_enc s of Some enc \<Rightarrow> map_option confirmed (enc_channels enc cid) | None \<Rightarrow> None) of
         Some False \<Rightarrow> Inr (h, s)
       | Some True \<Rightarrow> cli_deliver_close V cid (h, cli_discard_channel_outbound V cid s)
       | None \<Rightarrow> if cn_channel s cid = None then Inr (h, s) else cli_deliver_close V cid (h, s))))"

definition cli_read_channel_eof :: "('q, 'h) clientenv \<Rightarrow> bytes \<Rightarrow> ('q, 'h) cs \<Rightarrow> ('q, 'h) cs res" where
  "cli_read_channel_eof V r = (\<lambda>(h, s).
     bindR (d_u32 (ce_codec V) r) (\<lambda>(cid, r).
     bindR (ensure_end r) (\<lambda>_.
       case cli_deliver_inbound V cid II_Eof s of (r, s) \<Rightarrow>
         if r = ID_Delivered \<or> r = ID_ChannelGone then ce_call V (CC_channel_eof cid) (h, s) else Inr (h, s))))"

definition cli_read_open_failure :: "('q, 'h) clientenv \<Rightarrow> bytes \<Rightarrow> ('q, 'h) cs \<Rightarrow> ('q, 'h) cs res" where
  "cli_read_open_failure V r = (\<lambda>(h, s).
     let C = ce_codec V in
     bindR (d_u32 C r) (\<lambda>(cid, r).
     bindR (d_u32 C r) (\<lambda>(code, r).
     bindR (d_string C r) (\<lambda>(descr, r).
     bindR (d_string C r) (\<lambda>(language, r).
     bindR (ensure_end r) (\<lambda>_.
       let reason = (case failure_from_u32 code of Some x \<Rightarrow> x | None \<Rightarrow> AdministrativelyProhibited);
           s = cn_on_channels (\<lambda>_. None) cid (cn_on_enc (remove_channel cid) s);
           s = (if cn_handle_gone s then s else s\<lparr> cn_sender := cn_sender s @ [RP_ChannelOpenFailure] \<rparr>)
       in ce_call V (CC_channel_open_failure cid reason descr language) (h, s)))))))"

definition cli_deliver_payload ::
  "('q, 'h) clientenv \<Rightarrow> ChannelId \<Rightarrow> u32 option \<Rightarrow> bytes \<Rightarrow> ('q, 'h) cs \<Rightarrow> ('q, 'h) cs res" where
  "cli_deliver_payload V cid ext data = (\<lambda>(h, s).
     let s = cn_on_enc (consume_recv_window cid (length data)) s;
         item = (case ext of Some ext \<Rightarrow> II_ExtendedData ext data | None \<Rightarrow> II_Data data);
         cb = (case ext of Some ext \<Rightarrow> CC_extended_data cid ext data | None \<Rightarrow> CC_data cid data) in
     case cli_deliver_inbound V cid item s of (r, s) \<Rightarrow>
       (case r of
          ID_Delivered \<Rightarrow> ce_call V cb (cli_maybe_grant_after_delivery V cid (h, s))
        | ID_ChannelGone \<Rightarrow> ce_call V cb (cli_maybe_grant_after_delivery V cid (h, s))
        | ID_Queued \<Rightarrow> Inr (h, s)
        | ID_Overflow \<Rightarrow>
            Inr (h, cn_on_channels (\<lambda>_. None) cid (cli_teardown_inbound_channel cid (cli_discard_channel_outbound V cid s)))))"

definition cli_read_channel_data :: "('q, 'h) clientenv \<Rightarrow> bool \<Rightarrow> bytes \<Rightarrow> ('q, 'h) cs \<Rightarrow> ('q, 'h) cs res" where
  "cli_read_channel_data V extended r hs =
     (let C = ce_codec V in
      bindR (d_u32 C r) (\<lambda>(cid, r).
      bindR (if extended then bindR (d_u32 C r) (\<lambda>(x, r). Inr (Some x, r)) else Inr (None, r)) (\<lambda>(ext, r).
      bindR (d_bytes C r) (\<lambda>(data, r).
      bindR (ensure_end r) (\<lambda>_. cli_deliver_payload V cid ext data hs)))))"

text \<open>The answer to a request that this side does not serve; the flag that an answer is due is cleared with it.\<close>

definition cli_answer_request :: "('q, 'h) clientenv \<Rightarrow> u8 \<Rightarrow> ChannelId \<Rightarrow> 'q ClientSession \<Rightarrow> 'q ClientSession" where
  "cli_answer_request V m cid s =
     (case cn_enc s of
        None \<Rightarrow> s
      | Some enc \<Rightarrow>
          (let s = s\<lparr> cn_common := (cn_common s)\<lparr> cs_wants_reply := False \<rparr> \<rparr> in
           case enc_channels enc cid of
             None \<Rightarrow> s
           | Some ch \<Rightarrow> cn_set_enc (enc_push (ce_codec V) (m # u32_encode (ce_codec V) (recipient_channel ch)) enc) s))"

definition request_exit_signal :: "('q, 'h) clientenv \<Rightarrow> ChannelId \<Rightarrow> bytes \<Rightarrow> ('q, 'h) cs \<Rightarrow> ('q, 'h) cs res" where
  "request_exit_signal V cid r = (\<lambda>(h, s).
     let C = ce_codec V in
     bindR (d_u8 r) (\<lambda>(_, r).
     bindR (d_string C r) (\<lambda>(name, r).
     bindR (d_u8 r) (\<lambda>(core_dumped, r).
     bindR (d_string C r) (\<lambda>(error_message, r).
     bindR (d_string C r) (\<lambda>(lang_tag, r).
     bindR (ensure_end r) (\<lambda>_.
       ce_call V (CC_exit_signal cid (sig_from_name name) (core_dumped \<noteq> 0) error_message lang_tag)
         (h, cli_app_send V cid (CM_ExitSignal (sig_from_name name) (core_dumped \<noteq> 0) error_message lang_tag) s))))))))"

definition cli_read_channel_request :: "('q, 'h) clientenv \<Rightarrow> bytes \<Rightarrow> ('q, 'h) cs \<Rightarrow> ('q, 'h) cs res" where
  "cli_read_channel_request V r = (\<lambda>(h, s).
     let C = ce_codec V in
     bindR (d_u32 C r) (\<lambda>(cid, r).
     bindR (d_string C r) (\<lambda>(req, r).
       if req = str ''xon-xoff'' then
         bindR (d_u8 r) (\<lambda>(_, r).
         bindR (d_u8 r) (\<lambda>(client_can_do, r).
         bindR (ensure_end r) (\<lambda>_.
           ce_call V (CC_xon_xoff cid (client_can_do \<noteq> 0)) (h, cli_app_send V cid (CM_XonXoff (client_can_do \<noteq> 0)) s))))
       else if req = str ''exit-status'' then
         bindR (d_u8 r) (\<lambda>(_, r).
         bindR (d_u32 C r) (\<lambda>(exit_status, r).
         bindR (ensure_end r) (\<lambda>_.
           ce_call V (CC_exit_status cid exit_status) (h, cli_app_send V cid (CM_ExitStatus exit_status) s))))
       else if req = str ''exit-signal'' then request_exit_signal V cid r (h, s)
       else if req = str ''keepalive@openssh.com'' then
         bindR (d_u8 r) (\<lambda>(wants, r).
         bindR (ensure_end r) (\<lambda>_. Inr (h, if wants = 1 then cli_answer_request V CHANNEL_SUCCESS cid s else s)))
       else
         bindR (d_u8 r) (\<lambda>(wants, r). Inr (h, if wants = 1 then cli_answer_request V CHANNEL_FAILURE cid s else s)))))"

definition cli_notify_window :: "('q, 'h) clientenv \<Rightarrow> ChannelId \<Rightarrow> u32 \<Rightarrow> 'q ClientSession \<Rightarrow> 'q ClientSession" where
  "cli_notify_window V cid new_size =
     cn_on_channels (map_option (\<lambda>c.
       let c = c\<lparr> cr_window_size := new_size \<rparr> in
       case mq_try_send (ce_mpsc V) (CM_WindowAdjusted new_size) (cr_sender c) of
         TS_Ok q \<Rightarrow> c\<lparr> cr_sender := q \<rparr> | _ \<Rightarrow> c)) cid"

definition cli_read_window_adjust :: "('q, 'h) clientenv \<Rightarrow> bytes \<Rightarrow> ('q, 'h) cs \<Rightarrow> ('q, 'h) cs res" where
  "cli_read_window_adjust V r = (\<lambda>(h, s).
     let C = ce_codec V in
     bindR (d_u32 C r) (\<lambda>(cid, r).
     bindR (d_u32 C r) (\<lambda>(amount, r).
     bindR (ensure_end r) (\<lambda>_.
       case cn_enc s of
         None \<Rightarrow> ce_call V (CC_window_adjusted cid 0) (h, cli_notify_window V cid 0 s)
       | Some enc \<Rightarrow>
           (case enc_channels enc cid of
              None \<Rightarrow> Inr (h, s)
            | Some ch \<Rightarrow>
                bindR (flush_pending_with_writer (ce_env V) cid (window_adjust cid amount enc) (cn_writer s)) (\<lambda>(n, enc, w).
                  let new_size = saturating_add (recipient_window_size ch) amount - of_nat n in
                  ce_call V (CC_window_adjusted cid new_size)
                    (h, cli_notify_window V cid new_size (cn_set_writer w (cn_set_enc enc s)))))))))"

section \<open>Global requests and their answers\<close>

fun announced_keys :: "nat \<Rightarrow> codec \<Rightarrow> hostlib \<Rightarrow> bytes \<Rightarrow> PublicKey list res" where
  "announced_keys n C H r =
     (if r = [] then Inr []
      else case n of
        0 \<Rightarrow> Inl Diverged
      | Suc n \<Rightarrow>
          bindR (d_bytes C r) (\<lambda>(key_blob, r).
          bindR (announced_keys n C H r) (\<lambda>keys.
            Inr (case parse_public_key H key_blob of Some key \<Rightarrow> key # keys | None \<Rightarrow> keys))))"

declare announced_keys.simps [simp del]

definition cli_read_global_request :: "('q, 'h) clientenv \<Rightarrow> bytes \<Rightarrow> ('q, 'h) cs \<Rightarrow> ('q, 'h) cs res" where
  "cli_read_global_request V r = (\<lambda>(h, s).
     let C = ce_codec V;
         answer = (\<lambda>m s. cn_on_enc (enc_push C [m]) (s\<lparr> cn_common := (cn_common s)\<lparr> cs_wants_reply := False \<rparr> \<rparr>));
         idle = (\<lambda>s. s\<lparr> cn_common := (cn_common s)\<lparr> cs_received_data := False \<rparr> \<rparr>) in
     bindR (d_string C r) (\<lambda>(req, r).
     bindR (d_u8 r) (\<lambda>(wants, r).
       if cn_enc s = None then Inr (h, idle s)
       else if take 9 req = str ''keepalive'' then
         bindR (ensure_end r) (\<lambda>_. Inr (h, idle (if wants = 1 then answer REQUEST_SUCCESS s else s)))
       else if req = str ''hostkeys-00@openssh.com'' then
         bindR (announced_keys (length r) C (ke_host (ce_kex V)) r) (\<lambda>keys.
           ce_call V (CC_openssh_ext_host_keys_announced keys) (h, s))
       else Inr (h, idle (answer REQUEST_FAILURE s)))))"

definition cli_pop_global_request :: "'q ClientSession \<Rightarrow> GlobalRequestResponse option \<times> 'q ClientSession" where
  "cli_pop_global_request s =
     (case cn_open_global_requests s of
        [] \<Rightarrow> (None, s)
      | g # gs \<Rightarrow> (Some g, s\<lparr> cn_open_global_requests := gs \<rparr>))"

definition cli_forward_answer :: "codec \<Rightarrow> bytes \<Rightarrow> u32 option" where
  "cli_forward_answer C r =
     (if r = [] then Some 0
      else case d_u32 C r of
        Inr (port, r) \<Rightarrow> if ensure_end r = Inr () then Some port else None
      | Inl _ \<Rightarrow> None)"

definition cli_read_request_success :: "('q, 'h) clientenv \<Rightarrow> bytes \<Rightarrow> 'q ClientSession \<Rightarrow> 'q ClientSession res" where
  "cli_read_request_success V r s =
     (case cli_pop_global_request s of (g, s) \<Rightarrow>
        let finish = (\<lambda>s. bindR (ensure_end r) (\<lambda>_. Inr s)) in
        (case g of
           Some GR_Keepalive \<Rightarrow> finish s
         | Some (GR_Ping c) \<Rightarrow> finish (cn_signal (CS_Done c) s)
         | Some GR_NoMoreSessions \<Rightarrow> finish s
         | Some (GR_TcpIpForward c) \<Rightarrow> Inr (cn_signal (CS_Port c (cli_forward_answer (ce_codec V) r)) s)
         | Some (GR_CancelTcpIpForward c) \<Rightarrow> finish (cn_signal (CS_Flag c True) s)
         | Some (GR_StreamLocalForward c) \<Rightarrow> finish (cn_signal (CS_Flag c True) s)
         | Some (GR_CancelStreamLocalForward c) \<Rightarrow> finish (cn_signal (CS_Flag c True) s)
         | None \<Rightarrow> Inr s))"

definition cli_read_request_failure :: "bytes \<Rightarrow> 'q ClientSession \<Rightarrow> 'q ClientSession res" where
  "cli_read_request_failure r s =
     bindR (ensure_end r) (\<lambda>_.
       case cli_pop_global_request s of (g, s) \<Rightarrow>
         Inr (case g of
            Some GR_Keepalive \<Rightarrow> s
          | Some (GR_Ping c) \<Rightarrow> cn_signal (CS_Done c) s
          | Some GR_NoMoreSessions \<Rightarrow> s
          | Some (GR_TcpIpForward c) \<Rightarrow> cn_signal (CS_Port c None) s
          | Some (GR_CancelTcpIpForward c) \<Rightarrow> cn_signal (CS_Flag c False) s
          | Some (GR_StreamLocalForward c) \<Rightarrow> cn_signal (CS_Flag c False) s
          | Some (GR_CancelStreamLocalForward c) \<Rightarrow> cn_signal (CS_Flag c False) s
          | None \<Rightarrow> s))"

section \<open>Channels the server opens\<close>

definition cli_pending_open :: "('q, 'h) clientenv \<Rightarrow> OpenChannelMessage \<Rightarrow> ChannelId \<Rightarrow> 'q PendingChannelOpen" where
  "cli_pending_open V m cid =
     (let F = ce_config V in
      \<lparr> po_recipient_channel = ocm_recipient_channel m, po_sender_channel = cid,
        po_window_size = cc_window_size F, po_packet_size = cc_maximum_packet_size F,
        po_channel_ref = \<lparr> cr_sender = mq_channel (ce_mpsc V) (cc_channel_buffer_size F), cr_window_size = ocm_recipient_window_size m \<rparr>,
        po_channel_params = \<lparr> recipient_channel = ocm_recipient_channel m, sender_channel = cid,
          recipient_window_size = ocm_recipient_window_size m, sender_window_size = cc_window_size F,
          recipient_maximum_packet_size = ocm_recipient_maximum_packet_size m,
          sender_maximum_packet_size = cc_maximum_packet_size F, confirmed = True, wants_reply = False,
          pending_data = [], pending_eof = False, pending_close = False \<rparr> \<rparr>)"

definition cli_drop_open_handle :: "'q PendingChannelOpen \<Rightarrow> 'q ClientSession \<Rightarrow> 'q ClientSession" where
  "cli_drop_open_handle pending s = s\<lparr> cn_open_replies := cn_open_replies s @ [(pending, Some AdministrativelyProhibited)] \<rparr>"

text \<open>A type without a name is refused at once, and again when its unused reply handle is dropped.\<close>

definition client_handle_channel_open :: "('q, 'h) clientenv \<Rightarrow> bytes \<Rightarrow> ('q, 'h) cs \<Rightarrow> ('q, 'h) cs res" where
  "client_handle_channel_open V r = (\<lambda>(h, s).
     let C = ce_codec V in
     bindR (open_channel_parse C r) (\<lambda>(m, _).
       case cn_enc s of
         None \<Rightarrow> Inl E_Inconsistent
       | Some enc \<Rightarrow>
           (case new_channel_id enc of
              None \<Rightarrow> Inl Diverged
            | Some (cid, enc) \<Rightarrow>
                (let pending = cli_pending_open V m cid; s = cn_set_enc enc s in
                 case ocm_typ m of
                   CT_Unknown typ \<Rightarrow>
                     (case ce_accept_unknown V cid typ h of (accept, h) \<Rightarrow>
                        if accept then ce_call V (CC_server_channel_open (ocm_typ m) pending) (h, s)
                        else Inr (h, cli_drop_open_handle pending (cn_on_enc (\<lambda>enc. enc\<lparr> enc_write :=
                          open_channel_unknown_type C m (enc_write enc) \<rparr>) s)))
                 | _ \<Rightarrow> ce_call V (CC_server_channel_open (ocm_typ m) pending) (h, s)))))"

section \<open>Packets\<close>

definition client_read_authenticated :: "('q, 'h) clientenv \<Rightarrow> bytes \<Rightarrow> ('q, 'h) cs \<Rightarrow> ('q, 'h) cs res" where
  "client_read_authenticated V buf hs =
     (case buf of
        [] \<Rightarrow> Inr hs
      | m # r \<Rightarrow>
          if m = CHANNEL_OPEN_CONFIRMATION then cli_read_open_confirmation V r hs
          else if m = CHANNEL_CLOSE then cli_read_channel_close V r hs
          else if m = CHANNEL_EOF then cli_read_channel_eof V r hs
          else if m = CHANNEL_OPEN_FAILURE then cli_read_open_failure V r hs
          else if m = CHANNEL_DATA \<or> m = CHANNEL_EXTENDED_DATA then cli_read_channel_data V (m \<noteq> CHANNEL_DATA) r hs
          else if m = CHANNEL_REQUEST then cli_read_channel_request V r hs
          else if m = CHANNEL_WINDOW_ADJUST then cli_read_window_adjust V r hs
          else if m = GLOBAL_REQUEST then cli_read_global_request V r hs
          else if m = CHANNEL_SUCCESS \<or> m = CHANNEL_FAILURE then
            bindR (d_u32 (ce_codec V) r) (\<lambda>(cid, r).
            bindR (ensure_end r) (\<lambda>_.
              ce_call V (if m = CHANNEL_SUCCESS then CC_channel_success cid else CC_channel_failure cid)
                (fst hs, cli_app_send V cid (if m = CHANNEL_SUCCESS then CM_Success else CM_Failure) (snd hs))))
          else if m = CHANNEL_OPEN then client_handle_channel_open V r hs
          else if m = REQUEST_SUCCESS then bindR (cli_read_request_success V r (snd hs)) (\<lambda>s. Inr (fst hs, s))
          else if m = REQUEST_FAILURE then bindR (cli_read_request_failure r (snd hs)) (\<lambda>s. Inr (fst hs, s))
          else Inr hs)"

definition cli_process_packet :: "('q, 'h) clientenv \<Rightarrow> bytes \<Rightarrow> ('q, 'h) cs \<Rightarrow> ('q, 'h) cs res" where
  "cli_process_packet V buf = (\<lambda>(h, s).
     case cn_enc s of
       None \<Rightarrow> Inr (h, s)
     | Some enc \<Rightarrow>
         (case enc_state enc of
            ES_WaitingAuthServiceRequest accepted sent \<Rightarrow>
              (case buf of
                 [] \<Rightarrow> Inl E_Inconsistent
               | m # r \<Rightarrow>
                   if m = SERVICE_ACCEPT then bindR (read_service_accept V sent r enc s) (\<lambda>s. Inr (h, s))
                   else if m = EXT_INFO then bindR (handle_ext_info V r s) (\<lambda>s. Inr (h, s))
                   else Inl E_Inconsistent)
          | ES_WaitingAuthRequest auth_request \<Rightarrow>
              (case buf of
                 [] \<Rightarrow> Inl E_Inconsistent
               | m # r \<Rightarrow> process_auth_packet V m r auth_request enc (h, s))
          | ES_InitCompression \<Rightarrow> Inl Panicked
          | ES_Authenticated \<Rightarrow> client_read_authenticated V buf (h, s)))"

fun cli_process_packets :: "('q, 'h) clientenv \<Rightarrow> bytes list \<Rightarrow> ('q, 'h) cs \<Rightarrow> ('q, 'h) cs res" where
  "cli_process_packets V [] hs = Inr hs"
| "cli_process_packets V (p # ps) hs = bindR (cli_process_packet V p hs) (\<lambda>hs. cli_process_packets V ps hs)"

section \<open>Key exchange\<close>

fun shared_secret_bytes :: "KexAlgorithm \<Rightarrow> bytes option" where
  "shared_secret_bytes (KA_DhGroup _ k) = dhk_shared_secret k"
| "shared_secret_bytes (KA_Curve25519 k) = cvk_shared_secret k"
| "shared_secret_bytes (KA_EcdhNistP _ k) = eck_shared_secret k"
| "shared_secret_bytes (KA_MlKem768X25519 k) = k_cl k"
| "shared_secret_bytes KA_None = None"

definition initial_encrypted_state :: "('q, 'h) clientenv \<Rightarrow> EncryptedState" where
  "initial_encrypted_state V =
     (if cc_anonymous (ce_config V) then ES_Authenticated else ES_WaitingAuthServiceRequest False False)"

definition cli_rekey_done ::
  "('q, 'h) clientenv \<Rightarrow> moment \<Rightarrow> ChannelId list \<Rightarrow> NewKeys \<Rightarrow> ('q, 'h) cs \<Rightarrow> ('q, 'h) cs res" where
  "cli_rekey_done V t ids newkeys = (\<lambda>(h, s).
     let cs = session_newkeys newkeys (cn_common s);
         w = cs_packet_writer cs; w = w\<lparr> pw_write_buffer := (pw_write_buffer w)\<lparr> sb_bytes := 0 \<rparr> \<rparr>;
         s = s\<lparr> cn_common := cs\<lparr> cs_packet_writer := w \<rparr> \<rparr> in
     bindR (case cs_encrypted cs of
          None \<Rightarrow> Inr s
        | Some enc \<Rightarrow>
            bindR (flush_all_pending_with_writer (ce_env V) ids (enc\<lparr> enc_last_rekey := mo_now t \<rparr>) w) (\<lambda>(enc, w).
              Inr (cn_set_writer w (cn_set_enc enc s)))) (\<lambda>s.
     bindR (cli_process_packets V (cn_pending_reads s) (h, s\<lparr> cn_pending_reads := [] \<rparr>)) (\<lambda>(h, s).
       Inr (h, s\<lparr> cn_pending_reads := [], cn_pending_len := 0 \<rparr>))))"

text \<open>The first keys are only installed once the application has accepted the host key, if the method has one.\<close>

definition cli_first_kex_done ::
  "('q, 'h) clientenv \<Rightarrow> moment \<Rightarrow> PublicKey option \<Rightarrow> NewKeys \<Rightarrow> ('q, 'h) cs \<Rightarrow> ('q, 'h) cs res" where
  "cli_first_kex_done V t server_host_key newkeys = (\<lambda>(h, s).
     bindR (case server_host_key of None \<Rightarrow> Inr (True, h) | Some key \<Rightarrow> ce_check_server_key V key h) (\<lambda>(check, h).
       if \<not> check then Inl E_UnknownKey
       else Inr (h, s\<lparr> cn_common := session_encrypted (mo_now t) (initial_encrypted_state V) newkeys (cn_common s),
                       cn_kex_done_signal := False \<rparr>)))"

definition cli_kex_done ::
  "('q, 'h) clientenv \<Rightarrow> moment \<Rightarrow> ChannelId list \<Rightarrow> PublicKey option \<Rightarrow> NewKeys \<Rightarrow> ('q, 'h) cs \<Rightarrow> ('q, 'h) cs res" where
  "cli_kex_done V t ids server_host_key newkeys = (\<lambda>(h, s).
     let s = s\<lparr> cn_common := (cn_common s)\<lparr> cs_strict_kex := (cs_strict_kex (cn_common s) \<or> nm_strict_kex (nk_names newkeys)) \<rparr> \<rparr> in
     bindR (ce_call V (CC_kex_done (shared_secret_bytes (nk_kex newkeys)) (nk_names newkeys)) (h, s)) (\<lambda>(h, s).
     bindR (if cn_enc s \<noteq> None then cli_rekey_done V t ids newkeys (h, s)
            else cli_first_kex_done V t server_host_key newkeys (h, s)) (\<lambda>(h, s).
       Inr (h, s\<lparr> cn_kex := Kex_Idle \<rparr>))))"

definition cli_kex_step ::
  "('q, 'h) clientenv \<Rightarrow> moment \<Rightarrow> ChannelId list \<Rightarrow> ClientKex \<Rightarrow> IncomingSshPacket \<Rightarrow> ('q, 'h) cs \<Rightarrow> (('q, 'h) cs \<times> u32) res" where
  "cli_kex_step V t ids kex pkt = (\<lambda>(h, s).
     bindR (client_step (ce_kex V) (packet_emit (ce_env V)) (mo_random t) kex (Some pkt) (cn_writer s)) (\<lambda>(progress, w).
       let s = cn_set_writer w s in
       bindR (case progress of
            NeedsReply kex reset \<Rightarrow>
              (let s = s\<lparr> cn_kex := Kex_InProgress kex \<rparr> in
               Inr ((h, if reset then s\<lparr> cn_common := session_reset_seqn (cn_common s) \<rparr> else s), in_seqn pkt))
          | Done server_host_key newkeys \<Rightarrow>
              bindR (cli_kex_done V t ids server_host_key newkeys (h, s)) (\<lambda>(h, s).
                Inr ((h, s), if cs_strict_kex (cn_common s) then 0 else in_seqn pkt))) (\<lambda>((h, s), seqn).
       bindR (cli_flush V t s) (\<lambda>s. Inr ((h, s), seqn)))))"

definition cli_reply ::
  "('q, 'h) clientenv \<Rightarrow> moment \<Rightarrow> ChannelId list \<Rightarrow> IncomingSshPacket \<Rightarrow> ('q, 'h) cs \<Rightarrow> (('q, 'h) cs \<times> u32) res" where
  "cli_reply V t ids pkt = (\<lambda>(h, s).
     bindR (case in_buffer pkt of
         [] \<Rightarrow> Inr ()
       | m # _ \<Rightarrow>
           if cs_strict_kex (cn_common s) \<and> cn_enc s = None
           then validate_server_msg_strict_kex m (unat (in_seqn pkt - 1)) else Inr ()) (\<lambda>_.
       if \<exists>m\<in>set (take 1 (in_buffer pkt)). m \<in> {IGNORE, UNIMPLEMENTED, DEBUG} then Inr ((h, s), in_seqn pkt)
       else bindR (if take 1 (in_buffer pkt) = [KEXINIT] \<and> cn_kex s = Kex_Idle then cli_begin_rekey V t s else Inr s) (\<lambda>s.
         let (taken, left) = kex_take (cn_kex s) in
         if \<exists>m\<in>set (take 1 (in_buffer pkt)). is_kex_msg m
         then (let s = s\<lparr> cn_kex := left \<rparr> in
               case taken of
                 Kex_InProgress kex \<Rightarrow> cli_kex_step V t ids kex pkt (h, s)
               | _ \<Rightarrow> bindR (cli_process_packet V (in_buffer pkt) (h, s)) (\<lambda>hs. Inr (hs, in_seqn pkt)))
         else bindR (cli_process_packet V (in_buffer pkt) (h, s)) (\<lambda>hs. Inr (hs, in_seqn pkt)))))"

end
