(* ===== verification/ClientRequests.thy ===== *)
theory ClientRequests
  imports ClientRead ServerRead
begin

text \<open>
  The client and the server together: the requests that \<open>ClientSession\<close> writes for a channel, read by \<open>ServerRead\<close>.
\<close>

section \<open>Requests\<close>

text \<open>
  Numbers of the package \<open>ssh_encoding\<close> are those that \<open>byteorder\<close> reads: both are the big-endian numbers of RFC 4251. The
  terminal modes of a request are written with one and read with the other.
\<close>

definition big_endian :: "codec \<Rightarrow> bool" where
  "big_endian C \<longleftrightarrow> (\<forall>n. u32_encode C n = to_be_bytes n)"

text \<open>
  A request the server can read in full: strings within the limits, a signal under its own name, and terminal modes without an
  end marker that fit the server's table.
\<close>

fun request_ok :: "ChannelMsg \<Rightarrow> bool" where
  "request_ok (CM_RequestPty _ term _ _ _ _ modes) \<longleftrightarrow> string_ok term \<and> length modes \<le> 130 \<and> TTY_OP_END \<notin> fst ` set modes"
| "request_ok (CM_RequestX11 _ _ protocol cookie _) \<longleftrightarrow> string_ok protocol \<and> string_ok cookie"
| "request_ok (CM_SetEnv _ name v) \<longleftrightarrow> string_ok name \<and> string_ok v"
| "request_ok (CM_RequestShell _) \<longleftrightarrow> True"
| "request_ok (CM_Exec _ command) \<longleftrightarrow> length command \<le> max_string"
| "request_ok (CM_Signal sig) \<longleftrightarrow> string_ok (sig_name sig) \<and> sig_from_name (sig_name sig) = sig"
| "request_ok (CM_RequestSubsystem _ name) \<longleftrightarrow> string_ok name"
| "request_ok (CM_WindowChange _ _ _ _) \<longleftrightarrow> True"
| "request_ok (CM_AgentForward _) \<longleftrightarrow> True"
| "request_ok _ \<longleftrightarrow> False"

text \<open>A request of which the lengths fit, whatever its terminal modes are.\<close>

fun request_fits :: "ChannelMsg \<Rightarrow> bool" where
  "request_fits (CM_RequestPty _ term _ _ _ _ modes) \<longleftrightarrow> string_ok term \<and> 1 + 5 * length modes \<le> max_string"
| "request_fits m \<longleftrightarrow> request_ok m"

fun request_wants :: "ChannelMsg \<Rightarrow> bool" where
  "request_wants (CM_RequestPty w _ _ _ _ _ _) = w"
| "request_wants (CM_RequestX11 w _ _ _ _) = w"
| "request_wants (CM_SetEnv w _ _) = w"
| "request_wants (CM_RequestShell w) = w"
| "request_wants (CM_Exec w _) = w"
| "request_wants (CM_RequestSubsystem w _) = w"
| "request_wants (CM_AgentForward w) = w"
| "request_wants _ = False"

text \<open>What the server does with it: the application gets a message on the channel, then its callback runs with the same arguments.\<close>

definition told :: "('q, 'h) serverenv \<Rightarrow> ChannelId \<Rightarrow> ChannelMsg \<Rightarrow> 'q callback \<Rightarrow> ('q, 'h) hs \<Rightarrow> ('q, 'h) hs res" where
  "told W cid m cb = (\<lambda>(h, s). invoke W cb (h, app_send W cid m s))"

fun serve_request :: "('q, 'h) serverenv \<Rightarrow> ChannelId \<Rightarrow> ChannelMsg \<Rightarrow> ('q, 'h) hs \<Rightarrow> ('q, 'h) hs res" where
  "serve_request W cid (CM_RequestPty _ term cw rh pw ph modes) =
     told W cid (CM_RequestPty True term cw rh pw ph (modes @ replicate (130 - length modes) (TTY_OP_END, 0)))
       (CB_pty_request cid term cw rh pw ph modes)"
| "serve_request W cid (CM_RequestX11 _ single protocol cookie screen) =
     told W cid (CM_RequestX11 True single protocol cookie screen) (CB_x11_request cid single protocol cookie screen)"
| "serve_request W cid (CM_SetEnv _ name v) = told W cid (CM_SetEnv True name v) (CB_env_request cid name v)"
| "serve_request W cid (CM_RequestShell _) = told W cid (CM_RequestShell True) (CB_shell_request cid)"
| "serve_request W cid (CM_Exec _ command) = told W cid (CM_Exec True command) (CB_exec_request cid command)"
| "serve_request W cid (CM_Signal sig) = told W cid (CM_Signal sig) (CB_signal cid sig)"
| "serve_request W cid (CM_RequestSubsystem _ name) = told W cid (CM_RequestSubsystem True name) (CB_subsystem_request cid name)"
| "serve_request W cid (CM_WindowChange cw rh pw ph) =
     told W cid (CM_WindowChange cw rh pw ph) (CB_window_change_request cid cw rh pw ph)"
| "serve_request W cid (CM_AgentForward _) = (\<lambda>(h, s).
     bindR (sv_call W (CB_agent_request cid) (h, app_send W cid (CM_AgentForward True) s)) (\<lambda>((response, _), h, s).
       Inr (h, if response then request_success W s else request_failure W s)))"
| "serve_request W cid _ = (\<lambda>hs. Inr hs)"

section \<open>Terminal modes\<close>

lemma pty_code_round: "pty_from_u8 (pty_code c) = (if c = TTY_OP_END then None else Some c)"
  by (cases c) (simp_all add: pty_from_u8_def pty_table_def)

lemma pty_code_end: "pty_code c = 0 \<longleftrightarrow> c = TTY_OP_END"
  by (cases c) simp_all

definition mode_bytes :: "(Pty \<times> u32) list \<Rightarrow> bytes" where
  "mode_bytes modes = concat (map (\<lambda>(code, v). pty_code code # to_be_bytes v) modes)"

lemma mode_bytes_simps [simp]:
  "mode_bytes [] = []" "mode_bytes ((code, v) # modes) = pty_code code # to_be_bytes v @ mode_bytes modes"
  by (simp_all add: mode_bytes_def)

lemma length_mode_bytes [simp]: "length (mode_bytes modes) = 5 * length modes"
  by (induction modes) auto

lemma pty_modes_bytes:
  assumes "ssh_codec C" "big_endian C" "TTY_OP_END \<notin> fst ` set modes"
  shows "pty_modes C modes = bytes_encode C (mode_bytes modes @ [0])"
proof -
  have "concat (map (\<lambda>(code, v). if code = TTY_OP_END then [] else pty_code code # u32_encode C v) modes) = mode_bytes modes"
    using assms(2,3) by (induction modes) (auto simp: big_endian_def)
  then show ?thesis
    by (simp add: pty_modes_def ssh_codec.bytes_layout [OF assms(1)])
qed

lemma parse_modes_round:
  assumes "ssh_codec C" "TTY_OP_END \<notin> fst ` set modes" "i + length modes \<le> length buf"
  shows "parse_modes C (mode_bytes modes @ [0]) buf i =
    Inr (take i buf @ modes @ drop (i + length modes) buf, i + length modes)"
  using assms(2,3)
proof (induction modes arbitrary: buf i)
  case Nil
  then show ?case by (subst parse_modes.simps) simp
next
  case (Cons m modes)
  obtain code v where m: "m = (code, v)" by (cases m)
  have v: "be_read_u32 C (to_be_bytes v) = v"
    using ssh_codec.be_read_Nil [OF assms(1)] .
  have "parse_modes C (mode_bytes (m # modes) @ [0]) buf i = parse_modes C (mode_bytes modes @ [0]) (buf[i := m]) (i + 1)"
    using Cons.prems m by (subst parse_modes.simps) (auto simp: pty_code_end pty_code_round v)
  also have "\<dots> = Inr (take (i + 1) (buf[i := m]) @ modes @ drop (i + 1 + length modes) (buf[i := m]), i + 1 + length modes)"
    using Cons.prems by (intro Cons.IH) auto
  also have "take (i + 1) (buf[i := m]) = take i buf @ [m]"
    using Cons.prems by (simp add: take_Suc_conv_app_nth)
  finally show ?case by simp
qed

section \<open>Reading a request\<close>

lemma string_ok_ascii: "is_ascii s \<Longrightarrow> length s \<le> 100 \<Longrightarrow> string_ok s"
  using utf8_valid_ascii [of s] by (simp add: string_ok_def max_string_def)

lemma request_names_ok:
  "string_ok (str ''pty-req'')" "string_ok (str ''x11-req'')" "string_ok (str ''env'')" "string_ok (str ''shell'')"
  "string_ok (str ''auth-agent-req@openssh.com'')" "string_ok (str ''exec'')" "string_ok (str ''subsystem'')"
  "string_ok (str ''window-change'')" "string_ok (str ''signal'')"
  by (rule string_ok_ascii; simp add: is_ascii_def)+

lemma d_string_ok:
  assumes "ssh_codec C" "string_ok s"
  shows "d_string C (bytes_encode C s @ r) = Inr (s, r)" "d_string C (bytes_encode C s) = Inr (s, [])"
  using ssh_codec.d_string_round [OF assms(1), of s r] ssh_codec.d_string_round [OF assms(1), of s "[]"] assms(2)
  by (simp_all add: string_ok_def)

lemma d_bytes_ok:
  assumes "ssh_codec C" "length s \<le> max_string"
  shows "d_bytes C (bytes_encode C s @ r) = Inr (s, r)" "d_bytes C (bytes_encode C s) = Inr (s, [])"
  using ssh_codec.d_bytes_round [OF assms, of r] ssh_codec.d_bytes_round [OF assms, of "[]"] by simp_all

lemma d_u32_ok:
  assumes "ssh_codec C"
  shows "d_u32 C (u32_encode C n @ r) = Inr (n, r)" "d_u32 C (u32_encode C n) = Inr (n, [])"
  using ssh_codec.d_u32_round [OF assms] ssh_codec.d_u32_round_Nil [OF assms] by simp_all

lemmas request_decode = d_string_ok d_bytes_ok d_u32_ok

definition mark_wants :: "ChannelId \<Rightarrow> bool \<Rightarrow> 'q ServerSession \<Rightarrow> 'q ServerSession" where
  "mark_wants cid b = on_enc (update_channel cid (\<lambda>ch. ch\<lparr> wants_reply := b \<rparr>))"

lemma mark_wants_established: "is_established_channel (mark_wants cid b s) cid = is_established_channel s cid"
  by (auto simp: mark_wants_def on_enc_def is_established_channel_def update_channel_def set_enc_def split: option.splits)

text \<open>The head of a request is decoded, and its name selects the rest.\<close>

lemma request_head:
  assumes "ssh_codec C" "sv_codec W = C" "string_ok name" "is_established_channel s peer"
  shows "read_channel_request W (u32_encode C peer @ bytes_encode C name @ flag # r) (h, s) =
    (let hs = (h, mark_wants peer (flag \<noteq> 0) s) in
     if name = str ''pty-req'' then request_pty W peer r hs
     else if name = str ''x11-req'' then request_x11 W peer r hs
     else if name = str ''env'' then request_env W peer r hs
     else if name = str ''shell'' then request_shell W peer r hs
     else if name = str ''auth-agent-req@openssh.com'' then request_agent W peer r hs
     else if name = str ''exec'' then request_exec W peer r hs
     else if name = str ''subsystem'' then request_subsystem W peer r hs
     else if name = str ''window-change'' then request_window_change W peer r hs
     else if name = str ''signal'' then request_signal W peer r hs
     else request_unknown W peer hs)"
proof -
  have e: "is_established_channel (on_enc (update_channel peer (\<lambda>ch. ch\<lparr> wants_reply := flag \<noteq> 0 \<rparr>)) s) peer"
    using mark_wants_established [of peer "flag \<noteq> 0" s] assms(4) by (simp add: mark_wants_def)
  show ?thesis
    using assms(1-3) e
    by (simp add: read_channel_request_def request_decode d_u8_def mark_wants_def Let_def del: str_simps)
qed

lemma request_pty_read:
  assumes "ssh_codec C" "big_endian C" "sv_codec W = C" "request_ok (CM_RequestPty w term cw rh pw ph modes)"
  shows "request_pty W peer (bytes_encode C term @ u32_encode C cw @ u32_encode C rh @ u32_encode C pw @ u32_encode C ph @
      pty_modes C modes) hs = serve_request W peer (CM_RequestPty w term cw rh pw ph modes) hs"
proof -
  have m: "TTY_OP_END \<notin> fst ` set modes" "length modes \<le> 130" "string_ok term"
    using assms(4) by simp_all
  have l: "length (mode_bytes modes @ [0]) \<le> max_string"
    using m(2) by (simp add: max_string_def)
  have p: "parse_modes C (mode_bytes modes @ [0]) PTY_MODES 0 =
      Inr (modes @ replicate (130 - length modes) (TTY_OP_END, 0), length modes)"
    using parse_modes_round [OF assms(1) m(1), of 0 PTY_MODES] m(2) by (simp add: PTY_MODES_def)
  show ?thesis
    using assms(1,3) m(3) request_decode(4) [OF assms(1) l]
    by (cases hs) (simp add: request_pty_def pty_modes_bytes [OF assms(1,2) m(1)] request_decode p told_def ensure_end_def Let_def)
qed

text \<open>Other modes are refused: the length is that of all modes, but end markers are left out; and the table has 130 entries.\<close>

lemma parse_modes_overflow:
  assumes "TTY_OP_END \<notin> fst ` set modes" "i \<le> length buf" "length buf < i + length modes"
  shows "parse_modes C (mode_bytes modes @ [0]) buf i = Inl E_Inconsistent"
  using assms
proof (induction modes arbitrary: buf i)
  case (Cons m modes)
  obtain code v where m: "m = (code, v)" by (cases m)
  show ?case
  proof (cases "length buf \<le> i")
    case True
    with Cons.prems m show ?thesis by (subst parse_modes.simps) (auto simp: pty_code_end)
  next
    case False
    with Cons.prems have "parse_modes C (mode_bytes modes @ [0]) (buf[i := x]) (i + 1) = Inl E_Inconsistent" for x
      by (intro Cons.IH) auto
    with Cons.prems m False show ?thesis
      by (subst parse_modes.simps) (auto simp: pty_code_end pty_code_round)
  qed
qed simp

lemma pty_modes_short:
  assumes "ssh_codec C" "TTY_OP_END \<in> fst ` set modes" "1 + 5 * length modes \<le> max_string"
  shows "\<exists>e. d_bytes C (pty_modes C modes) = Inl e"
proof (cases "d_bytes C (pty_modes C modes)")
  case (Inr a)
  obtain x r where a: "a = (x, r)" by (cases a)
  let ?body = "concat (map (\<lambda>(code, v). if code = TTY_OP_END then [] else pty_code code # u32_encode C v) modes)"
  have body: "length ?body + 5 \<le> 5 * length modes"
    using assms(2)
  proof (induction modes)
    case (Cons m modes)
    have "length (concat (map (\<lambda>(code, v). if code = TTY_OP_END then [] else pty_code code # u32_encode C v) ms)) \<le> 5 * length ms" for ms
      by (induction ms) (auto simp: ssh_codec.u32_length [OF assms(1)])
    with Cons show ?case by (cases m) (auto simp: ssh_codec.u32_length [OF assms(1)])
  qed simp
  from Inr a have "pty_modes C modes = bytes_encode C x @ r" "length x \<le> max_string"
    by (simp_all add: ssh_codec.d_bytes_iff [OF assms(1)])
  then have eq: "u32_encode C (of_nat (1 + 5 * length modes)) @ (?body @ [0]) = u32_encode C (of_nat (length x)) @ (x @ r)"
    by (simp add: pty_modes_def ssh_codec.bytes_layout [OF assms(1)])
  then have "d_u32 C (u32_encode C (of_nat (1 + 5 * length modes)) @ (?body @ [0])) = d_u32 C (u32_encode C (of_nat (length x)) @ (x @ r))"
    by (simp only:)
  then have "(of_nat (1 + 5 * length modes) :: u32) = of_nat (length x)" "?body @ [0] = x @ r"
    by (simp_all only: request_decode(5) [OF assms(1)] sum.inject prod.inject)
  moreover from this(2) have "length (?body @ [0]) = length (x @ r)"
    by (rule arg_cong)
  then have "length ?body + 1 = length x + length r" by simp
  ultimately have "1 + 5 * length modes = length x" "length ?body + 1 = length x + length r"
    using assms(3) \<open>length x \<le> max_string\<close>
    by (auto simp: max_string_def word_of_nat_eq_iff take_bit_nat_eq_self simp del: of_nat_add of_nat_mult of_nat_Suc)
  with body show ?thesis by simp
qed simp

lemma request_pty_refused:
  assumes "ssh_codec C" "big_endian C" "sv_codec W = C" "request_fits (CM_RequestPty w term cw rh pw ph modes)"
    and "\<not> request_ok (CM_RequestPty w term cw rh pw ph modes)"
  shows "\<exists>e. request_pty W peer (bytes_encode C term @ u32_encode C cw @ u32_encode C rh @ u32_encode C pw @ u32_encode C ph @
      pty_modes C modes) hs = Inl e"
proof (cases "TTY_OP_END \<in> fst ` set modes")
  case True
  with assms(4) pty_modes_short [OF assms(1)] obtain e where "d_bytes C (pty_modes C modes) = Inl e" by auto
  with assms(1,3,4) show ?thesis by (cases hs) (simp add: request_pty_def request_decode Let_def)
next
  case False
  with assms(4,5) have m: "130 < length modes" "length (mode_bytes modes @ [0]) \<le> max_string" by auto
  have "parse_modes C (mode_bytes modes @ [0]) PTY_MODES 0 = Inl E_Inconsistent"
    by (rule parse_modes_overflow) (use False m in \<open>simp_all add: PTY_MODES_def\<close>)
  then show ?thesis
    using assms(1,3,4) request_decode(4) [OF assms(1) m(2)]
    by (cases hs) (simp add: request_pty_def pty_modes_bytes [OF assms(1,2) False] request_decode Let_def)
qed

lemma request_bodies:
  assumes "ssh_codec C" "sv_codec W = C"
  shows "request_ok (CM_RequestX11 w single protocol cookie screen) \<Longrightarrow>
      request_x11 W peer (flag_byte single # bytes_encode C protocol @ bytes_encode C cookie @ u32_encode C screen) hs =
      serve_request W peer (CM_RequestX11 w single protocol cookie screen) hs"
    "request_ok (CM_SetEnv w name v) \<Longrightarrow>
      request_env W peer (bytes_encode C name @ bytes_encode C v) hs = serve_request W peer (CM_SetEnv w name v) hs"
    "request_shell W peer [] hs = serve_request W peer (CM_RequestShell w) hs"
    "request_ok (CM_Exec w command) \<Longrightarrow> request_exec W peer (bytes_encode C command) hs = serve_request W peer (CM_Exec w command) hs"
    "request_ok (CM_Signal sig) \<Longrightarrow> request_signal W peer (bytes_encode C (sig_name sig)) hs = serve_request W peer (CM_Signal sig) hs"
    "request_ok (CM_RequestSubsystem w name) \<Longrightarrow>
      request_subsystem W peer (bytes_encode C name) hs = serve_request W peer (CM_RequestSubsystem w name) hs"
    "request_window_change W peer (u32_encode C cw @ u32_encode C rh @ u32_encode C pw @ u32_encode C ph) hs =
      serve_request W peer (CM_WindowChange cw rh pw ph) hs"
    "request_agent W peer [] hs = serve_request W peer (CM_AgentForward w) hs"
  using assms
  by (cases hs; simp add: request_x11_def request_env_def request_shell_def request_exec_def request_signal_def request_subsystem_def
      request_window_change_def request_agent_def request_decode d_u8_def told_def ensure_end_def Let_def)+

text \<open>The name and the body of a request, as the client writes them behind the number of the channel.\<close>

fun request_name :: "ChannelMsg \<Rightarrow> rstring" where
  "request_name (CM_RequestPty _ _ _ _ _ _ _) = str ''pty-req''"
| "request_name (CM_RequestX11 _ _ _ _ _) = str ''x11-req''"
| "request_name (CM_SetEnv _ _ _) = str ''env''"
| "request_name (CM_RequestShell _) = str ''shell''"
| "request_name (CM_Exec _ _) = str ''exec''"
| "request_name (CM_Signal _) = str ''signal''"
| "request_name (CM_RequestSubsystem _ _) = str ''subsystem''"
| "request_name (CM_WindowChange _ _ _ _) = str ''window-change''"
| "request_name _ = str ''auth-agent-req@openssh.com''"

fun request_body :: "codec \<Rightarrow> ChannelMsg \<Rightarrow> bytes" where
  "request_body C (CM_RequestPty _ term cw rh pw ph modes) =
     bytes_encode C term @ u32_encode C cw @ u32_encode C rh @ u32_encode C pw @ u32_encode C ph @ pty_modes C modes"
| "request_body C (CM_RequestX11 _ single protocol cookie screen) =
     flag_byte single # bytes_encode C protocol @ bytes_encode C cookie @ u32_encode C screen"
| "request_body C (CM_SetEnv _ name v) = bytes_encode C name @ bytes_encode C v"
| "request_body C (CM_Exec _ command) = bytes_encode C command"
| "request_body C (CM_Signal sig) = bytes_encode C (sig_name sig)"
| "request_body C (CM_RequestSubsystem _ name) = bytes_encode C name"
| "request_body C (CM_WindowChange cw rh pw ph) = u32_encode C cw @ u32_encode C rh @ u32_encode C pw @ u32_encode C ph"
| "request_body C _ = []"

lemmas cli_requests =
  cli_request_pty_def cli_request_x11_def cli_set_env_def cli_request_shell_def cli_exec_def cli_signal_def
  cli_request_subsystem_def cli_window_change_def cli_agent_forward_def

lemma request_fits_ok: "request_ok m \<or> (\<exists>w term cw rh pw ph modes. m = CM_RequestPty w term cw rh pw ph modes)" if "request_fits m"
  using that by (cases m) simp_all

lemma request_written:
  assumes "request_fits m"
  shows "handle_channel_msg V cid m s = Inr (cli_channel_request (bytes_encode (ce_codec V) (request_name m) @
    flag_byte (request_wants m) # request_body (ce_codec V) m) V cid s)"
  using assms by (cases m) (simp_all add: cli_requests Let_def del: str_simps)

lemma request_served:
  assumes "ssh_codec C" "big_endian C" "sv_codec W = C" "request_ok m" "is_established_channel s peer"
  shows "read_channel_request W (u32_encode C peer @ bytes_encode C (request_name m) @ flag_byte (request_wants m) # request_body C m)
    (h, s) = serve_request W peer m (h, mark_wants peer (request_wants m) s)"
proof -
  have "string_ok (request_name m)"
    using request_names_ok by (cases m) simp_all
  note head = request_head [OF assms(1,3) this assms(5), of "flag_byte (request_wants m)" "request_body C m" h]
  have wants: "(flag_byte (request_wants m) \<noteq> 0) = request_wants m" by simp
  show ?thesis
    unfolding head wants Let_def using assms(4)
    by (cases m, simp_all only: request_name.simps request_body.simps str_eq_iff request_pty_read [OF assms(1-3)]
        request_bodies [OF assms(1,3)] list.inject char.inject if_False if_True list.distinct simp_thms, simp_all)
qed

lemma request_refused:
  assumes "ssh_codec C" "big_endian C" "sv_codec W = C" "request_fits m" "\<not> request_ok m" "is_established_channel s peer"
  shows "\<exists>e. read_channel_request W (u32_encode C peer @ bytes_encode C (request_name m) @ flag_byte (request_wants m) # request_body C m)
    (h, s) = Inl e"
proof -
  from request_fits_ok [OF assms(4)] assms(5) obtain w t cw rh pw ph modes where m: "m = CM_RequestPty w t cw rh pw ph modes"
    by blast
  have "string_ok (str ''pty-req'')" by (rule request_names_ok)
  from request_head [OF assms(1,3) this assms(6)] show ?thesis
    using request_pty_refused [OF assms(1-3) assms(4,5) [unfolded m], of peer "(h, mark_wants peer (request_wants m) s)"]
    by (cases w) (simp_all add: m Let_def del: str_simps)
qed

section \<open>Announced host keys\<close>

text \<open>The bytes that are left bound the rounds of the loop over the announced keys, so it always returns.\<close>

lemma announced_keys_returns:
  assumes "ssh_codec C" "length r \<le> n"
  shows "announced_keys n C H r \<noteq> Inl Diverged"
  using assms(2)
proof (induction n arbitrary: r)
  case 0
  then show ?case by (simp add: announced_keys.simps)
next
  case (Suc n)
  show ?case
  proof (cases "d_bytes C r")
    case (Inl e)
    then have "e \<noteq> Diverged" by (auto simp: d_bytes_def ok_or_def split: option.splits)
    with Inl show ?thesis by (subst announced_keys.simps) simp
  next
    case (Inr a)
    obtain x r' where a: "a = (x, r')" by fastforce
    with Inr have "length r' < length r"
      using ssh_codec.bytes_length [OF assms(1)] by (auto simp: ssh_codec.d_bytes_iff [OF assms(1)])
    with Suc have "announced_keys n C H r' \<noteq> Inl Diverged" by simp
    with Inr a show ?thesis by (subst announced_keys.simps) (auto simp: bindR_def split: sum.splits)
  qed
qed

section \<open>Property\<close>

text \<open>
  C10. What the client asks for on a channel is what the server's application is asked: the packet the client writes for a
  request is read, on the channel it is sent to, as a callback with the same arguments, and the channel remembers whether an answer is
  wanted. The strings of the request have to be valid and within the limits, and a signal has to stand under its own name. The terminal modes of a
  pseudo-terminal request have to be at most 130 and without an end marker: with any other modes the server refuses the packet with an error.
\<close>

theorem channel_request_served:
  assumes "ssh_codec (ce_codec V)" "big_endian (ce_codec V)" "sv_codec W = ce_codec V"
    and "cn_enc c = Some enc" "enc_channels enc cid = Some ch" "request_fits m"
    and "is_established_channel s (recipient_channel ch)"
  shows "\<exists>r. handle_channel_msg V cid m c = Inr (cn_set_enc (enc_push (ce_codec V) (CHANNEL_REQUEST # r) enc) c) \<and>
    (if request_ok m
     then read_channel_request W r (h, s) =
       serve_request W (recipient_channel ch) m (h, mark_wants (recipient_channel ch) (request_wants m) s)
     else \<exists>e. read_channel_request W r (h, s) = Inl e)"
  using request_written [OF assms(6), of V cid c] request_served [OF assms(1-3) _ assms(7), of m h]
    request_refused [OF assms(1-3,6) _ assms(7), of h] assms(4,5)
  by (intro exI conjI) (auto simp: cli_channel_request_def)

definition demo_clientenv :: "(ChannelMsg list, unit) clientenv" where
  "demo_clientenv = \<lparr> ce_env = demo_env, ce_kex = demo_kexenv, ce_lib = demo_clientlib, ce_mpsc = demo_mpsc,
     ce_config = \<lparr> cc_client_id = SshId_Standard [65], cc_kex = \<lparr> cl_preferred = demo_client_prefs, cl_gex = \<lparr> min_group_size = 2048, preferred_group_size = 4096, max_group_size = 8192 \<rparr> \<rparr>,
       cc_limits = Limits_default, cc_window_size = 100, cc_maximum_packet_size = 100, cc_channel_buffer_size = 1,
       cc_max_pending_outbound_bytes = 10, cc_max_pending_inbound_bytes = 10, cc_keepalive_max = 3, cc_anonymous = False \<rparr>,
     ce_call = (\<lambda>cb hs. Inr hs), ce_check_server_key = (\<lambda>key h. Inr (True, h)), ce_accept_unknown = (\<lambda>cid typ h. (False, h)),
     ce_adjust_window = (\<lambda>c w h. (w, h)), ce_algorithm_from_str = (\<lambda>x. None) \<rparr>"

definition demo_client_session :: "ChannelMsg list ClientSession" where
  "demo_client_session = cn_set_enc (demo_encrypted\<lparr> enc_channels := [5 \<mapsto> demo_channel\<lparr> recipient_channel := 2 \<rparr>] \<rparr>)
     (client_session_new demo_clientenv [66] [])"

theorem channel_request_served_witness:
  "\<exists>r. handle_channel_msg demo_clientenv 5 (CM_Exec True [108, 115]) demo_client_session =
      Inr (cn_set_enc (enc_push rfc4251 (CHANNEL_REQUEST # r) (demo_encrypted\<lparr> enc_channels := [5 \<mapsto> demo_channel\<lparr> recipient_channel := 2 \<rparr>] \<rparr>))
        demo_client_session) \<and>
    read_channel_request demo_serverenv r ((), demo_open_session) =
      told demo_serverenv 2 (CM_Exec True [108, 115]) (CB_exec_request 2 [108, 115]) ((), mark_wants 2 True demo_open_session)"
proof -
  have c: "ce_codec demo_clientenv = rfc4251" "sv_codec demo_serverenv = rfc4251"
    by (simp_all add: demo_clientenv_def)
  have "ssh_codec rfc4251" "big_endian rfc4251"
    using rfc.ssh_codec_axioms by (simp_all add: big_endian_def)
  moreover have "cn_enc demo_client_session = Some (demo_encrypted\<lparr> enc_channels := [5 \<mapsto> demo_channel\<lparr> recipient_channel := 2 \<rparr>] \<rparr>)"
    by (simp add: demo_client_session_def cn_set_enc_def)
  moreover have "request_ok (CM_Exec True [108, 115])"
    by (simp add: max_string_def)
  moreover have "is_established_channel demo_open_session 2"
    by (simp add: is_established_channel_def demo_encrypted_def demo_channel_def)
  ultimately show ?thesis
    using channel_request_served [of demo_clientenv demo_serverenv demo_client_session _ 5 "demo_channel\<lparr> recipient_channel := 2 \<rparr>"
        "CM_Exec True [108, 115]" demo_open_session "()"] unfolding c
    by simp
qed

end
