(* ===== verification/ClientLaws.thy ===== *)
theory ClientLaws
  imports ClientRequests
begin

text \<open>
  Laws of the client session: what keeps the identity of a session. Every operation, every message of the application and every
  packet outside a key exchange leaves the session id and the key exchange alone, or begins a new one.
\<close>

section \<open>What keeps the identity of a session\<close>

text \<open>The session id and the key exchange stay, or a new key exchange is begun.\<close>

definition quiet :: "('q, 'h) clientenv \<Rightarrow> 'q ClientSession \<Rightarrow> 'q ClientSession \<Rightarrow> bool" where
  "quiet V s s' \<longleftrightarrow> map_option enc_session_id (cn_enc s') = map_option enc_session_id (cn_enc s) \<and>
     (cn_kex s' = cn_kex s \<or>
      (\<exists>kex. cn_kex s' = Kex_InProgress kex \<and> ck_state kex = CKS_Created \<and> ck_config kex = cc_kex (ce_config V) \<and>
         (cn_enc s = None \<longrightarrow> ck_cause kex = KC_Initial)))"

lemma quiet_refl [intro, simp]: "quiet V s s"
  by (simp add: quiet_def)

lemma quiet_trans: "quiet V s s' \<Longrightarrow> quiet V s' s'' \<Longrightarrow> quiet V s s''"
  by (auto simp: quiet_def)

lemma quiet_same: "cn_enc s' = cn_enc s \<Longrightarrow> cn_kex s' = cn_kex s \<Longrightarrow> quiet V s s'"
  by (simp add: quiet_def)

lemma quiet_set: "cn_enc s = Some e \<Longrightarrow> enc_session_id e' = enc_session_id e \<Longrightarrow> quiet V s (cn_set_enc e' s)"
  by (simp add: quiet_def cn_set_enc_def)

lemma quiet_set_writer:
  "cn_enc s = Some e \<Longrightarrow> enc_session_id e' = enc_session_id e \<Longrightarrow> quiet V s (cn_set_writer w (cn_set_enc e' s))"
  by (simp add: quiet_def cn_set_enc_def cn_set_writer_def)

lemma quiet_on_enc: "(\<And>e. enc_session_id (f e) = enc_session_id e) \<Longrightarrow> quiet V s (cn_on_enc f s)"
  by (auto simp: cn_on_enc_def intro: quiet_set split: option.splits)

lemma quiet_onto: "quiet V s s' \<Longrightarrow> cn_enc s'' = cn_enc s' \<Longrightarrow> cn_kex s'' = cn_kex s' \<Longrightarrow> quiet V s s''"
  by (simp add: quiet_def)

text \<open>No operation on the encrypted state changes the session id.\<close>

named_theorems session_id

lemma enc_ids [session_id, simp]:
  "enc_session_id (enc_push C p e) = enc_session_id e"
  "enc_session_id (channel_byte C cid x e) = enc_session_id e"
  "enc_session_id (update_channel cid f e) = enc_session_id e"
  "enc_session_id (remove_channel cid e) = enc_session_id e"
  "enc_session_id (consume_recv_window cid n e) = enc_session_id e"
  "enc_session_id (window_adjust cid m e) = enc_session_id e"
  "enc_session_id (await_extension_info name c e) = enc_session_id e"
  "enc_session_id (client_send_auth_response C rs e) = enc_session_id e"
  by (simp_all add: enc_push_def channel_byte_def update_channel_def remove_channel_def consume_recv_window_def window_adjust_def
      await_extension_info_def client_send_auth_response_def split: option.splits)

lemma control_ids [session_id, simp]:
  "enc_session_id (channel_eof C cid e) = enc_session_id e"
  "enc_session_id (channel_close C cid e) = enc_session_id e"
  "enc_session_id (close_discarding_pending C cid e) = enc_session_id e"
  "enc_session_id (handle_flushed_channel C cid r e) = enc_session_id e"
  by (simp_all add: channel_eof_def channel_close_def close_discarding_pending_def split: option.splits)
    (cases r; simp add: channel_eof_def channel_close_def Let_def)

lemma result_ids [session_id]:
  "snd (maybe_grant_recv_window C cid target n e) = e' \<Longrightarrow> enc_session_id e' = enc_session_id e"
  "new_channel w p e = Some (cid, e') \<Longrightarrow> enc_session_id e' = enc_session_id e"
  "new_channel_id e = Some (cid, e') \<Longrightarrow> enc_session_id e' = enc_session_id e"
  "send_on_channel_with_writer E a cid data k e wr = Inr (e', wr') \<Longrightarrow> enc_session_id e' = enc_session_id e"
  "flush_pending_with_writer E cid e wr = Inr (n', e', wr') \<Longrightarrow> enc_session_id e' = enc_session_id e"
  "enc_flush E now limits e wr = Inr (due, e', wr') \<Longrightarrow> enc_session_id e' = enc_session_id e"
  "write_auth_request L user meth e = Inr (b, e') \<Longrightarrow> enc_session_id e' = enc_session_id e"
  "client_send_signature L user meth e = Inr e' \<Longrightarrow> enc_session_id e' = enc_session_id e"
  by (auto simp: maybe_grant_recv_window_def new_channel_def new_channel_id_def send_on_channel_with_writer_def
      flush_pending_with_writer_def enc_flush_def write_auth_request_def client_send_signature_def Let_def bindR_Inr_iff
      split: option.splits if_splits Method.splits)

lemma flush_all_id [session_id]:
  "flush_all_pending_with_writer E ids e w = Inr (e', w') \<Longrightarrow> enc_session_id e' = enc_session_id e"
  by (induction ids arbitrary: e w) (auto simp: bindR_Inr_iff dest: result_ids(5))

section \<open>Operations of the session\<close>

lemma quiet_fold: "(\<And>x s. quiet V s (f x s)) \<Longrightarrow> quiet V s (fold f xs s)"
  by (induction xs arbitrary: s) (auto intro: quiet_trans)

lemma quiet_signals: "quiet V s (fold cn_signal xs s)"
  by (rule quiet_fold) (simp add: quiet_same cn_signal_def)

lemma quiet_requests:
  "quiet V s (cli_channel_request body V cid s)"
  "quiet V s (cli_global_request V await name body s)"
  "quiet V s (cli_awaited_request V a name b s)"
  "quiet V s (cli_disconnect V why description language s)"
proof -
  show "quiet V s (cli_channel_request body V cid s)"
    by (auto simp: cli_channel_request_def intro: quiet_set split: option.splits)
  show "quiet V s (cli_global_request V await name body s)"
    unfolding cli_global_request_def Let_def
    by (auto intro!: quiet_trans [OF quiet_same quiet_on_enc] split: option.splits)
  show "quiet V s (cli_awaited_request V a name b s)"
    unfolding cli_awaited_request_def by (rule quiet_trans [OF quiet_same quiet_on_enc]) simp_all
  show "quiet V s (cli_disconnect V why description language s)"
    by (auto simp: cli_disconnect_def quiet_def session_disconnect_def push_message_def Let_def split: option.splits)
qed

lemma quiet_app: "quiet V s (cn_on_channels f cid s)" "quiet V s (cn_on_queue g cid s)" "quiet V s (cli_teardown_inbound_channel cid s)"
  "quiet V s (snd (cli_deliver_inbound V cid item s))" "quiet V s (fst (cli_drain_needs_reserve rs s))" "quiet V s (cli_pump_rearm cid s)"
  "quiet V s (cli_notify_window V cid w s)" "quiet V s (cli_app_send V cid m s)"
  by (auto intro!: quiet_same simp: cn_on_channels_def cn_on_queue_def cli_teardown_inbound_channel_def cli_deliver_inbound_def
      cli_drain_needs_reserve_def cli_pump_rearm_def cli_notify_window_def cli_app_send_def Let_def split_beta split: option.splits)

lemma quiet_finalize: "quiet V s (cli_finalize_close cid s)"
  unfolding cli_finalize_close_def Let_def
  by (rule quiet_trans [OF quiet_same quiet_on_enc]) (simp_all add: cn_on_channels_def cli_teardown_inbound_channel_def)

lemma quiet_discard: "quiet V s (cli_discard_channel_outbound V cid s)"
  unfolding cli_discard_channel_outbound_def Let_def
  by (rule quiet_trans [OF quiet_on_enc quiet_same]) simp_all

lemma quiet_enforce: "quiet V s (cli_enforce_outbound_cap V cid s)"
  unfolding cli_enforce_outbound_cap_def
  by (auto intro: quiet_trans [OF quiet_discard quiet_finalize] split: option.splits)

lemma quiet_grant: "quiet V s (snd (cli_maybe_grant_after_delivery V cid (h, s)))"
proof (cases "cn_enc s")
  case (Some e)
  obtain granted e' where g: "maybe_grant_recv_window (ce_codec V) cid (cc_window_size (ce_config V))
      (let u = (case dl_inbound (cn_delivery s) cid of Some q \<Rightarrow> iq_pending_bytes q | None \<Rightarrow> 0) in
       if u < 2 ^ 32 then of_nat u else - 1) e = (granted, e')"
    by fastforce
  then have "quiet V s (cn_set_enc e' s)"
    using Some result_ids(1) by (metis quiet_set snd_conv)
  then show ?thesis
    using Some g by (auto simp: cli_maybe_grant_after_delivery_def Let_def split_beta intro: quiet_onto)
qed (simp add: cli_maybe_grant_after_delivery_def)

lemma quiet_release: "quiet V (s :: 'q ClientSession) (cli_release_outbound_acks ids s)"
proof -
  have sig: "quiet V s (fold cn_signal xs (s\<lparr> cn_outbound_acks := m \<rparr>))" for s :: "'q ClientSession" and xs m
    by (rule quiet_trans [OF quiet_same quiet_signals]) simp_all
  have "quiet V s (cli_release_acks ids enc s)" for enc
  proof (induction ids arbitrary: s)
    case (Cons cid ids)
    show ?case
      unfolding cli_release_acks.simps by (rule quiet_trans [OF _ Cons.IH]) (auto intro: sig split: option.splits)
  qed simp
  then show ?thesis
    by (simp add: cli_release_outbound_acks_def split: option.splits)
qed

text \<open>Operations that may fail, and those that may begin a key exchange.\<close>

lemma quiet_begin_rekey:
  assumes "cli_begin_rekey V t s = Inr s'"
  shows "quiet V s s'"
proof -
  obtain kex w where k: "client_kexinit (ce_env V) (ke_names (ce_kex V)) (mo_cookie t)
      (ClientKex_new (cc_kex (ce_config V)) (cc_client_id (ce_config V)) (cs_remote_sshid (cn_common s))
        (case cn_enc s of None \<Rightarrow> KC_Initial | Some enc \<Rightarrow> KC_Rekey (cs_strict_kex (cn_common s)) (enc_session_id enc)))
      (cn_writer s) = Inr (kex, w)" "s' = s\<lparr> cn_common := (cn_common s)\<lparr> cs_packet_writer := w \<rparr>, cn_kex := Kex_InProgress kex \<rparr>"
    using assms by (auto simp: cli_begin_rekey_def Let_def bindR_Inr_iff)
  from k(1) have "ck_state kex = CKS_Created \<and> ck_config kex = cc_kex (ce_config V) \<and> (cn_enc s = None \<longrightarrow> ck_cause kex = KC_Initial)"
    by (auto simp: client_kexinit_def ClientKex_new_def bindR_Inr_iff)
  then show ?thesis
    using k(2) by (auto simp: quiet_def)
qed

lemma quiet_flush:
  assumes "cli_flush V t s = Inr s'"
  shows "quiet V s s'"
proof (cases "cn_enc s")
  case None
  with assms show ?thesis by (simp add: cli_flush_def)
next
  case (Some e)
  from assms obtain due e' w where f: "enc_flush (ce_env V) (mo_now t) (cc_limits (ce_config V)) e (cn_writer s) = Inr (due, e', w)"
    "cli_begin_rekey V t (cn_set_writer w (cn_set_enc e' s)) = Inr s' \<or> s' = cn_set_writer w (cn_set_enc e' s)"
    by (auto simp: cli_flush_def Some bindR_Inr_iff Let_def split: if_splits)
  have "quiet V s (cn_set_writer w (cn_set_enc e' s))"
    by (rule quiet_set_writer [OF Some result_ids(6) [OF f(1)]])
  with f(2) show ?thesis
    by (blast intro: quiet_trans quiet_begin_rekey)
qed

lemma quiet_initiate_rekey:
  assumes "cli_initiate_rekey V t s = Inr s'"
  shows "quiet V s s'"
  using assms quiet_flush [of V t "cn_on_enc (\<lambda>e. e\<lparr> enc_rekey_wanted := True \<rparr>) s" s']
    quiet_trans [OF quiet_on_enc [where s = s and f = "\<lambda>e. e\<lparr> enc_rekey_wanted := True \<rparr>" and V = V]]
  by (simp add: cli_initiate_rekey_def split: if_splits)

lemma quiet_send:
  assumes "cli_data V cid data s = Inr s' \<or> cli_extended_data V cid ext data s = Inr s'"
  shows "quiet V s s'"
proof -
  from assms obtain e a e' w where "cn_enc s = Some e"
    "send_on_channel_with_writer (ce_env V) a cid data (kex_active (cn_kex s)) e (cn_writer s) = Inr (e', w)"
    "s' = cli_enforce_outbound_cap V cid (cn_set_writer w (cn_set_enc e' s))"
    by (auto simp: cli_data_def cli_extended_data_def data_with_writer_def extended_data_with_writer_def bindR_Inr_iff split: option.splits)
  then show ?thesis
    using quiet_trans [OF quiet_set_writer quiet_enforce] result_ids(4) by blast
qed

lemmas quiet_data = quiet_send [OF disjI1] quiet_send [OF disjI2]

lemma quiet_eof: "cli_eof V cid s = Inr s' \<Longrightarrow> quiet V s s'"
  by (auto simp: cli_eof_def intro: quiet_set split: option.splits)

lemma quiet_close:
  assumes "cli_close V cid s = Inr s'"
  shows "quiet V s s'"
proof -
  from assms obtain e where e: "cn_enc s = Some e"
    "s' = cn_set_enc (channel_close (ce_codec V) cid e) s \<or> s' = cli_finalize_close cid (cn_set_enc (channel_close (ce_codec V) cid e) s)"
    by (auto simp: cli_close_def Let_def split: option.splits if_splits)
  have "quiet V s (cn_set_enc (channel_close (ce_codec V) cid e) s)"
    by (rule quiet_set [OF e(1)]) simp
  with e(2) show ?thesis
    using quiet_trans [OF _ quiet_finalize] by auto
qed

lemma quiet_open:
  assumes "cli_channel_open_generic V kind suffix s = Inr (cid, s')"
  shows "quiet V s s'"
  using assms result_ids(2)
  by (auto simp: cli_channel_open_generic_def Let_def intro!: quiet_set split: option.splits if_splits)

lemma quiet_open_reply: "quiet V s (finalize_server_channel_open_reply V pending result s)"
  by (auto simp: finalize_server_channel_open_reply_def Let_def intro!: quiet_set quiet_trans [OF quiet_set quiet_app(1)]
      split: option.splits)

lemma quiet_drain: "quiet V s (cli_drain_open_replies V s)"
  unfolding cli_drain_open_replies_def
  by (rule quiet_trans [OF quiet_same quiet_fold]) (auto simp: quiet_open_reply split_beta)

lemma quiet_user:
  "cn_enc s = Some e \<Longrightarrow> enc_session_id e' = enc_session_id e \<Longrightarrow> quiet V s ((cn_set_writer w (cn_set_enc e' s))\<lparr> cn_common :=
     (cn_common (cn_set_writer w (cn_set_enc e' s)))\<lparr> cs_auth_user := u, cs_auth_method := m \<rparr> \<rparr>)"
  by (simp add: quiet_def cn_set_enc_def cn_set_writer_def)

lemma quiet_auth_request:
  assumes "write_auth_request_if_needed V user meth s = Inr (b, s')"
  shows "quiet V s s'"
proof (cases "cn_enc s")
  case None
  with assms show ?thesis by (auto simp: write_auth_request_if_needed_def intro: quiet_same)
next
  case (Some e)
  with assms show ?thesis
    by (auto simp: write_auth_request_if_needed_def bindR_Inr_iff split: EncryptedState.splits if_splits dest!: result_ids(7)
        intro!: quiet_user [OF Some])
qed

lemma quiet_data_acked: "cli_data_acked V cid ext data ack s = Inr s' \<Longrightarrow> quiet V s s'"
  by (cases ext) (auto simp: cli_data_acked_def bindR_Inr_iff Let_def cn_signal_def split: if_splits
      intro: quiet_data quiet_onto [OF quiet_data(1)] quiet_onto [OF quiet_data(2)])

lemma quiet_register:
  "cli_register_channel r (cli_channel_open_generic V kind suffix s) = Inr s' \<Longrightarrow> quiet V s s'"
  by (auto simp: cli_register_channel_def bindR_Inr_iff intro: quiet_trans [OF quiet_open quiet_app(1)])

lemma quiet_channel_msg:
  assumes "handle_channel_msg V cid m s = Inr s'"
  shows "quiet V s s'"
  using assms quiet_data quiet_eof quiet_close quiet_requests(1) by (cases m) (auto simp: cli_requests Let_def)

lemmas cli_opens =
  cli_channel_open_session_def cli_channel_open_x11_def cli_channel_open_direct_tcpip_def cli_channel_open_direct_streamlocal_def

lemmas cli_globals =
  cli_tcpip_forward_def cli_cancel_tcpip_forward_def cli_streamlocal_forward_def cli_cancel_streamlocal_forward_def
  cli_send_keepalive_def cli_send_ping_def cli_no_more_sessions_def

lemma quiet_client_msg:
  assumes "handle_client_msg V t m s = Inr s'"
  shows "quiet V s s'"
proof (cases "\<exists>name c. m = MC_AwaitExtensionInfo name c")
  case True
  with assms show ?thesis using quiet_on_enc [OF enc_ids(7)] by auto
next
  case False
  have "quiet V s (cn_signal x s)" for x by (simp add: quiet_same cn_signal_def)
  with assms False show ?thesis
    using quiet_auth_request quiet_register quiet_requests quiet_channel_msg quiet_data_acked quiet_initiate_rekey
    by (cases m) (auto simp: cli_opens cli_globals bindR_Inr_iff Let_def)
qed

lemma quiet_msg: "handle_msg V t m s = Inr s' \<Longrightarrow> quiet V s s'"
  unfolding handle_msg_def by (rule quiet_trans [OF quiet_drain quiet_client_msg])

section \<open>The application\<close>

text \<open>What the application may do with the session it is lent.\<close>

inductive client_api :: "('q, 'h) clientenv \<Rightarrow> 'q ClientSession \<Rightarrow> 'q ClientSession \<Rightarrow> bool" for V where
  api_msg: "handle_channel_msg V cid m s = Inr s' \<Longrightarrow> client_api V s s'"
| api_global: "client_api V s (cli_global_request V await name body s)"
| api_awaited: "client_api V s (cli_awaited_request V a name want_reply s)"
| api_open: "cli_channel_open_generic V kind suffix s = Inr (cid, s') \<Longrightarrow> client_api V s s'"
| api_disconnect: "client_api V s (cli_disconnect V why description language_tag s)"
| api_rekey: "cli_initiate_rekey V t s = Inr s' \<Longrightarrow> client_api V s s'"
| api_reply: "client_api V s (s\<lparr> cn_open_replies := cn_open_replies s @ [(cli_pending_open V m cid, result)] \<rparr>)"

definition client_handler_ok :: "('q, 'h) clientenv \<Rightarrow> bool" where
  "client_handler_ok V \<longleftrightarrow> (\<forall>cb h s h' s'. ce_call V cb (h, s) = Inr (h', s') \<longrightarrow> (client_api V)\<^sup>*\<^sup>* s s')"

lemma quiet_api: "client_api V s s' \<Longrightarrow> quiet V s s'"
  by (induction rule: client_api.induct)
    (auto intro: quiet_channel_msg quiet_requests quiet_open quiet_initiate_rekey quiet_same)

lemma quiet_call:
  assumes "client_handler_ok V" "ce_call V cb (h, s) = Inr (h', s')"
  shows "quiet V s s'"
proof -
  have "(client_api V)\<^sup>*\<^sup>* s s'"
    using assms unfolding client_handler_ok_def by blast
  then show ?thesis
    by (induction rule: rtranclp_induct) (auto intro: quiet_trans quiet_api)
qed

text \<open>A change of the session before the application is called.\<close>

lemma quiet_then_call:
  assumes "client_handler_ok V" "quiet V s s1" "ce_call V cb (h, s1) = Inr (h', s')"
  shows "quiet V s s'"
  by (rule quiet_trans [OF assms(2) quiet_call [OF assms(1,3)]])

lemma quiet_call_close:
  assumes "client_handler_ok V" "quiet V s s1" "ce_call V cb (h, s1) = Inr (h', s2)"
  shows "quiet V s (cli_finalize_close cid s2)"
  by (rule quiet_trans [OF quiet_then_call [OF assms] quiet_finalize])

section \<open>Packets\<close>

lemma quiet_pump:
  assumes ok: "client_handler_ok V" and "cli_pump_inbound V cid g permit (h, s) = Inr (h', s')"
  shows "quiet V s s'"
proof -
  have item: "quiet V s s'" if "cli_pump_item V cid item (h, s) = Inr (h', s')" for item s
  proof -
    define s1 where "s1 = cn_on_channels (map_option (\<lambda>c. c\<lparr> cr_sender := mq_permit_send (ce_mpsc V) (to_msg item) (cr_sender c) \<rparr>)) cid
      (cn_on_queue (\<lambda>q. q\<lparr> iq_queue := tl (iq_queue q), iq_pending_bytes := iq_pending_bytes q - byte_len item \<rparr>) cid s)"
    obtain h2 s2 where s2: "(if grants_window item then cli_maybe_grant_after_delivery V cid (h, s1) else (h, s1)) = (h2, s2)"
      by fastforce
    have "quiet V s s1" unfolding s1_def by (rule quiet_trans [OF quiet_app(2) quiet_app(1)])
    moreover have "quiet V s1 s2"
      using s2 quiet_grant [where s = s1 and V = V and cid = cid and h = h] by (auto split: if_splits)
    moreover have "bindR (ce_call V (cli_deferred_callback cid (capture_callback item)) (h2, s2)) (\<lambda>(h, s).
        Inr (h, if item = II_Close then cli_finalize_close cid s else cli_pump_rearm cid s)) = Inr (h', s')"
      using that unfolding cli_pump_item_def Let_def prod.case s1_def [symmetric] s2 .
    then obtain h3 s3 where "ce_call V (cli_deferred_callback cid (capture_callback item)) (h2, s2) = Inr (h3, s3)"
      "s' = (if item = II_Close then cli_finalize_close cid s3 else cli_pump_rearm cid s3)"
      by (auto simp: bindR_Inr_iff)
    ultimately show ?thesis
      using quiet_call [OF ok] quiet_finalize quiet_app(6) by (metis quiet_trans)
  qed
  show ?thesis
    using assms(2) quiet_app(2)
    by (auto simp: cli_pump_inbound_def Let_def bindR_Inr_iff split: option.splits if_splits list.splits
        intro: quiet_call_close [OF ok quiet_app(2)] quiet_trans [OF quiet_app(2) quiet_app(3)] quiet_trans [OF quiet_app(2) item])
qed

lemma quiet_send_reply: "send_reply m s = Inr s' \<Longrightarrow> quiet V s s'"
  by (auto simp: send_reply_def intro: quiet_same split: if_splits)

lemma send_reply_fields: "send_reply m s = Inr s' \<Longrightarrow> cn_enc s' = cn_enc s \<and> cn_kex s' = cn_kex s \<and> cn_common s' = cn_common s"
  by (auto simp: send_reply_def split: if_splits)

lemma recv_fields:
  "recv_signed s = Inr (data, s') \<Longrightarrow> cn_common s' = cn_common s \<and> cn_kex s' = cn_kex s"
  "recv_responses s = Inr (rs, s') \<Longrightarrow> cn_common s' = cn_common s \<and> cn_kex s' = cn_kex s"
  by (auto simp: recv_signed_def recv_responses_def bindR_Inr_iff)

text \<open>A state that differs from the session in its encrypted state, with the same session id.\<close>

lemma quiet_with:
  assumes "cn_enc s = Some e" "cn_kex s' = cn_kex s" "cn_enc s' = Some e'" "enc_session_id e' = enc_session_id e"
  shows "quiet V s s'"
  using assms by (simp add: quiet_def)

lemma quiet_ext_info:
  fixes V :: "('q, 'h) clientenv"
  assumes "handle_ext_info V r s = Inr s'"
  shows "quiet V s s'"
proof -
  have received: "quiet V s (extension_received name s)" for name and s :: "'q ClientSession"
    by (auto simp: extension_received_def Let_def intro!: quiet_trans [OF quiet_set quiet_signals] intro: quiet_set split: option.splits)
  have "quiet V s s'" if "ext_info_loop V n r s = Inr (r', s')" for n r r' and s s' :: "'q ClientSession"
    using that
  proof (induction n arbitrary: r s)
    case (Suc n)
    then obtain name r1 s1 where "ext_info_loop V n r1 (extension_received name s1) = Inr (r', s')" "cn_common s1 = cn_common s" "cn_kex s1 = cn_kex s"
      by (auto simp: bindR_Inr_iff handle_server_sig_algs_ext_def split: if_splits)
    with Suc.IH show ?case
      by (metis quiet_trans received quiet_same)
  qed simp
  with assms show ?thesis
    by (auto simp: handle_ext_info_def bindR_Inr_iff)
qed

lemma quiet_service_accept:
  assumes "cn_enc s = Some e" "read_service_accept V sent r e s = Inr s'"
  shows "quiet V s s'"
  using assms by (auto simp: read_service_accept_def bindR_Inr_iff Let_def split: if_splits option.splits
      intro!: quiet_set [OF assms(1)] dest!: result_ids(7))

lemma quiet_auth_success:
  assumes "cn_enc s = Some e" "read_auth_success r e s = Inr s'"
  shows "quiet V s s'"
  using assms by (auto simp: read_auth_success_def bindR_Inr_iff Let_def cn_set_enc_def intro!: quiet_with [OF assms(1)] dest!: send_reply_fields)

lemma quiet_auth_failure:
  assumes "cn_enc s = Some e" "read_auth_failure V r a e s = Inr s'"
  shows "quiet V s s'"
  using assms by (auto simp: read_auth_failure_def bindR_Inr_iff Let_def cn_set_enc_def intro!: quiet_with [OF assms(1)]
      dest!: send_reply_fields split: if_splits)

lemma quiet_info_request:
  assumes "cn_enc s = Some e" "read_info_request V r e s = Inr s'"
  shows "quiet V s s'"
  using assms by (auto simp: read_info_request_def bindR_Inr_iff Let_def cn_set_enc_def intro!: quiet_with [OF assms(1)]
      dest!: send_reply_fields recv_fields split: if_splits)

lemma quiet_sign_outside:
  assumes "cn_enc s = Some e" "enc_session_id e1 = enc_session_id e" "sign_outside V key req e1 s = Inr s'"
  shows "quiet V s s'"
  using assms by (auto simp: sign_outside_def bindR_Inr_iff Let_def cn_set_enc_def intro!: quiet_with [OF assms(1)]
      dest!: send_reply_fields recv_fields split: if_splits)

lemma quiet_pk_ok:
  assumes "cn_enc s = Some e" "continue_with_pk_ok V e1 s = Inr s'" "enc_session_id e1 = enc_session_id e"
  shows "quiet V s s'"
proof -
  define s1 where "s1 = s\<lparr> cn_common := (cn_common s)\<lparr> cs_auth_method := None \<rparr> \<rparr>"
  have s1: "cn_enc s1 = Some e" "quiet V s s1" using assms(1) by (simp_all add: s1_def quiet_def)
  have "quiet V s1 s'"
    using assms(2,3) s1(1) unfolding continue_with_pk_ok_def Let_def s1_def [symmetric]
    by (auto simp: bindR_Inr_iff split: option.splits Method.splits intro!: quiet_set [OF s1(1)] intro: quiet_sign_outside dest!: result_ids(8))
  with s1(2) show ?thesis by (rule quiet_trans)
qed

lemma quiet_auth_packet:
  assumes ok: "client_handler_ok V" and "cn_enc s = Some e" "process_auth_packet V m r a e (h, s) = Inr (h', s')"
  shows "quiet V s s'"
  using assms(3) quiet_auth_success [OF assms(2)] quiet_auth_failure [OF assms(2)] quiet_info_request [OF assms(2)]
    quiet_ext_info quiet_call [OF ok]
  by (auto intro: quiet_pk_ok [OF assms(2)] simp: process_auth_packet_def read_auth_banner_def read_pk_ok_or_info_request_def bindR_Inr_iff Let_def
      split: if_splits option.splits CurrentRequest.splits)

lemma quiet_deliver: "cli_deliver_inbound V cid item s = (r, s') \<Longrightarrow> quiet V s s'"
  using quiet_app(4) [where s = s] by (metis snd_conv)

lemma quiet_deliver_close:
  assumes ok: "client_handler_ok V" and "cli_deliver_close V cid (h, s) = Inr (h', s')"
  shows "quiet V s s'"
proof -
  obtain r s1 where d: "cli_deliver_inbound V cid II_Close s = (r, s1)" by fastforce
  from assms(2) have "s' = s1 \<or> (\<exists>s2. ce_call V (CC_channel_close cid) (h, s1) = Inr (h', s2) \<and> s' = cli_finalize_close cid s2)"
    by (auto simp: cli_deliver_close_def d bindR_Inr_iff split: if_splits)
  then show ?thesis
    using quiet_deliver [OF d] quiet_then_call [OF ok] quiet_trans [OF _ quiet_finalize] by blast
qed

lemma quiet_channel_close:
  assumes ok: "client_handler_ok V" and "cli_read_channel_close V r (h, s) = Inr (h', s')"
  shows "quiet V s s'"
proof -
  from assms(2) obtain cid x where "(case x of Some False \<Rightarrow> Inr (h, s)
       | Some True \<Rightarrow> cli_deliver_close V cid (h, cli_discard_channel_outbound V cid s)
       | None \<Rightarrow> if cn_channel s cid = None then Inr (h, s) else cli_deliver_close V cid (h, s)) = Inr (h', s')"
    unfolding cli_read_channel_close_def split_beta fst_conv snd_conv bindR_Inr_iff by blast
  then have "s' = s \<or> cli_deliver_close V cid (h, s) = Inr (h', s') \<or>
      cli_deliver_close V cid (h, cli_discard_channel_outbound V cid s) = Inr (h', s')"
    by (cases x) (simp_all split: if_splits bool.splits)
  then show ?thesis
    using quiet_deliver_close [OF ok] quiet_trans [OF quiet_discard] by blast
qed

lemma quiet_channel_eof:
  assumes ok: "client_handler_ok V" and "cli_read_channel_eof V r (h, s) = Inr (h', s')"
  shows "quiet V s s'"
proof -
  from assms(2) obtain cid where d: "(case cli_deliver_inbound V cid II_Eof s of (x, s1) \<Rightarrow>
      if x = ID_Delivered \<or> x = ID_ChannelGone then ce_call V (CC_channel_eof cid) (h, s1) else Inr (h, s1)) = Inr (h', s')"
    by (auto simp: cli_read_channel_eof_def bindR_Inr_iff)
  obtain x s1 where x: "cli_deliver_inbound V cid II_Eof s = (x, s1)" by fastforce
  with d have "ce_call V (CC_channel_eof cid) (h, s1) = Inr (h', s') \<or> s' = s1"
    by (auto split: if_splits)
  then show ?thesis
    using quiet_deliver [OF x] quiet_then_call [OF ok quiet_deliver [OF x]] by blast
qed

lemma quiet_payload:
  assumes ok: "client_handler_ok V" and "cli_deliver_payload V cid ext data (h, s) = Inr (h', s')"
  shows "quiet V s s'"
proof -
  define s0 where "s0 = cn_on_enc (consume_recv_window cid (length data)) s"
  define item where "item = (case ext of Some ext \<Rightarrow> II_ExtendedData ext data | None \<Rightarrow> II_Data data)"
  define cb :: "'a client_callback" where "cb = (case ext of Some ext \<Rightarrow> CC_extended_data cid ext data | None \<Rightarrow> CC_data cid data)"
  obtain r s1 where d: "cli_deliver_inbound V cid item s0 = (r, s1)" by fastforce
  have s1: "quiet V s s1"
    unfolding s0_def by (rule quiet_trans [OF quiet_on_enc quiet_deliver [OF d [unfolded s0_def]]]) simp
  have grant: "quiet V s (snd (cli_maybe_grant_after_delivery V cid (h, s1)))"
    by (rule quiet_trans [OF s1 quiet_grant])
  have called: "quiet V s s'" if "ce_call V cb (cli_maybe_grant_after_delivery V cid (h, s1)) = Inr (h', s')"
    using that quiet_then_call [OF ok grant, of cb "fst (cli_maybe_grant_after_delivery V cid (h, s1))" h' s'] by simp
  have "ce_call V cb (cli_maybe_grant_after_delivery V cid (h, s1)) = Inr (h', s') \<or> s' = s1 \<or>
    s' = cn_on_channels (\<lambda>_. None) cid (cli_teardown_inbound_channel cid (cli_discard_channel_outbound V cid s1))"
    using assms(2) unfolding cli_deliver_payload_def Let_def prod.case s0_def [symmetric] item_def [symmetric] cb_def [symmetric] d
    by (auto split: InboundDelivery.splits)
  then show ?thesis
    using called s1 quiet_trans [OF s1 quiet_trans [OF quiet_discard quiet_trans [OF quiet_app(3) quiet_app(1)]]] by blast
qed

lemma quiet_channel_data:
  assumes ok: "client_handler_ok V" and "cli_read_channel_data V ext r (h, s) = Inr (h', s')"
  shows "quiet V s s'"
  using assms(2) quiet_payload [OF ok]
  by (auto simp: cli_read_channel_data_def bindR_Inr_iff Let_def split: if_splits)

lemma quiet_open_messages:
  assumes ok: "client_handler_ok V"
  shows "cli_read_open_confirmation V r (h, s) = Inr (h', s') \<Longrightarrow> quiet V s s'"
    "cli_read_open_failure V r (h, s) = Inr (h', s') \<Longrightarrow> quiet V s s'"
proof -
  show "quiet V s s'" if "cli_read_open_confirmation V r (h, s) = Inr (h', s')"
  proof -
    from that obtain e cid f m cb where e: "cn_enc s = Some e"
      "ce_call V cb (h, cli_app_send V cid m (cn_set_enc (update_channel cid f e) s)) = Inr (h', s')"
      by (cases "cn_enc s") (auto simp: cli_read_open_confirmation_def bindR_Inr_iff Let_def split: if_splits)
    show ?thesis
      by (rule quiet_then_call [OF ok quiet_trans [OF quiet_set [OF e(1)] quiet_app(8)] e(2)]) simp
  qed
  have "quiet V s (let s = cn_on_channels (\<lambda>_. None) cid (cn_on_enc (remove_channel cid) s) in
      if cn_handle_gone s then s else s\<lparr> cn_sender := cn_sender s @ [RP_ChannelOpenFailure] \<rparr>)" for cid
  proof -
    have "quiet V s (cn_on_channels (\<lambda>_. None) cid (cn_on_enc (remove_channel cid) s))"
      by (rule quiet_trans [OF quiet_on_enc quiet_app(1)]) simp
    then show ?thesis by (auto simp: Let_def intro: quiet_onto)
  qed
  note left = quiet_then_call [OF ok this]
  show "quiet V s s'" if "cli_read_open_failure V r (h, s) = Inr (h', s')"
    using that left unfolding cli_read_open_failure_def Let_def by (auto simp: bindR_Inr_iff)
qed

lemma quiet_answer: "quiet V s (cli_answer_request V m cid s)"
proof (cases "cn_enc s")
  case (Some e)
  then show ?thesis
    by (auto simp: cli_answer_request_def Let_def cn_set_enc_def quiet_def split: option.splits)
qed (simp add: cli_answer_request_def)

lemma quiet_channel_request:
  assumes ok: "client_handler_ok V" and "cli_read_channel_request V r (h, s) = Inr (h', s')"
  shows "quiet V s s'"
proof -
  have "(\<exists>cb cid m. ce_call V cb (h, cli_app_send V cid m s) = Inr (h', s')) \<or> s' = s \<or> (\<exists>x cid. s' = cli_answer_request V x cid s)"
    using assms(2)
    by (auto simp: cli_read_channel_request_def request_exit_signal_def Let_def bindR_Inr_iff split: if_splits simp del: str_simps)
  then show ?thesis
    using quiet_then_call [OF ok quiet_app(8)] quiet_answer by blast
qed

lemma quiet_window_adjust:
  assumes ok: "client_handler_ok V" and "cli_read_window_adjust V r (h, s) = Inr (h', s')"
  shows "quiet V s s'"
proof (cases "cn_enc s")
  case None
  with assms(2) show ?thesis
    using quiet_then_call [OF ok quiet_app(7)] by (auto simp: cli_read_window_adjust_def Let_def bindR_Inr_iff)
next
  case (Some e)
  from assms(2) obtain cid r1 amount r2 where d:
    "d_u32 (ce_codec V) r = Inr (cid, r1)" "d_u32 (ce_codec V) r1 = Inr (amount, r2)" "ensure_end r2 = Inr ()"
    by (auto simp: cli_read_window_adjust_def bindR_Inr_iff Let_def)
  show ?thesis
  proof (cases "enc_channels e cid")
    case None
    with assms(2) Some d show ?thesis by (simp add: cli_read_window_adjust_def Let_def)
  next
    case (Some ch)
    with assms(2) d \<open>cn_enc s = Some e\<close> obtain n e' w new cb where
      f: "flush_pending_with_writer (ce_env V) cid (window_adjust cid amount e) (cn_writer s) = Inr (n, e', w)"
      "ce_call V cb (h, cli_notify_window V cid new (cn_set_writer w (cn_set_enc e' s))) = Inr (h', s')"
      by (auto simp: cli_read_window_adjust_def Let_def bindR_Inr_iff)
    have "enc_session_id e' = enc_session_id e" using result_ids(5) [OF f(1)] by simp
    from quiet_then_call [OF ok quiet_trans [OF quiet_set_writer [OF \<open>cn_enc s = Some e\<close> this] quiet_app(7)] f(2)]
    show ?thesis .
  qed
qed

lemma quiet_global_request:
  assumes ok: "client_handler_ok V" and "cli_read_global_request V r (h, s) = Inr (h', s')"
  shows "quiet V s s'"
proof -
  have answer: "quiet V s ((cn_on_enc (enc_push C p) (s\<lparr> cn_common := (cn_common s)\<lparr> cs_wants_reply := False \<rparr> \<rparr>))\<lparr> cn_common :=
    (cn_common (cn_on_enc (enc_push C p) (s\<lparr> cn_common := (cn_common s)\<lparr> cs_wants_reply := False \<rparr> \<rparr>)))\<lparr> cs_received_data := False \<rparr> \<rparr>)" for C p
    by (auto simp: quiet_def cn_on_enc_def cn_set_enc_def split: option.splits)
  have idle: "quiet V s (s\<lparr> cn_common := (cn_common s)\<lparr> cs_received_data := False \<rparr> \<rparr>)"
    by (simp add: quiet_same)
  show ?thesis
    using assms(2) answer idle quiet_call [OF ok]
    by (auto simp: cli_read_global_request_def Let_def bindR_Inr_iff split: if_splits simp del: str_simps)
qed

lemma quiet_answers:
  "cli_read_request_success V r s = Inr s' \<Longrightarrow> quiet V s s'" "cli_read_request_failure r s = Inr s' \<Longrightarrow> quiet V s s'"
  by (auto simp: cli_read_request_success_def cli_read_request_failure_def cli_pop_global_request_def cn_signal_def Let_def bindR_Inr_iff
      intro!: quiet_same split: list.splits GlobalRequestResponse.splits)

lemma quiet_channel_open:
  assumes ok: "client_handler_ok V" and "client_handle_channel_open V r (h, s) = Inr (h', s')"
  shows "quiet V s s'"
proof -
  from assms(2) obtain m r1 where m: "open_channel_parse (ce_codec V) r = Inr (m, r1)"
    by (auto simp: client_handle_channel_open_def bindR_Inr_iff Let_def)
  with assms(2) obtain e cid e' where e: "cn_enc s = Some e" "new_channel_id e = Some (cid, e')"
    by (auto simp: client_handle_channel_open_def Let_def split: option.splits)
  with assms(2) m have e3: "(\<exists>cb h1. ce_call V cb (h1, cn_set_enc e' s) = Inr (h', s')) \<or>
     s' = cli_drop_open_handle (cli_pending_open V m cid) (cn_on_enc (\<lambda>e. e\<lparr> enc_write :=
       open_channel_unknown_type (ce_codec V) m (enc_write e) \<rparr>) (cn_set_enc e' s))"
    by (cases "ocm_typ m") (auto simp: client_handle_channel_open_def Let_def split_beta split: if_splits)
  have q: "quiet V s (cn_set_enc e' s)" by (rule quiet_set [OF e(1) result_ids(3) [OF e(2)]])
  have "quiet V s (cn_on_enc (\<lambda>e. e\<lparr> enc_write := open_channel_unknown_type (ce_codec V) m (enc_write e) \<rparr>) (cn_set_enc e' s))"
    by (rule quiet_trans [OF q quiet_on_enc]) simp
  then show ?thesis
    using e3 quiet_then_call [OF ok q] by (auto simp: cli_drop_open_handle_def intro: quiet_onto)
qed

text \<open>Every packet on an authenticated connection, and every packet before.\<close>

lemma quiet_read_authenticated:
  assumes ok: "client_handler_ok V" and "client_read_authenticated V buf (h, s) = Inr (h', s')"
  shows "quiet V s s'"
proof (cases buf)
  case (Cons m r)
  note body = assms(2) [unfolded client_read_authenticated_def Cons list.case]
  have "(\<exists>cb cid x. ce_call V cb (h, cli_app_send V cid x s) = Inr (h', s')) \<Longrightarrow> quiet V s s'"
    using quiet_then_call [OF ok quiet_app(8)] by blast
  then show ?thesis
    using body quiet_open_messages [OF ok] quiet_channel_close [OF ok] quiet_channel_eof [OF ok] quiet_channel_data [OF ok]
      quiet_channel_request [OF ok] quiet_window_adjust [OF ok] quiet_global_request [OF ok] quiet_channel_open [OF ok] quiet_answers
    by (auto simp: bindR_Inr_iff split: if_splits)
qed (use assms(2) in \<open>simp add: client_read_authenticated_def\<close>)

lemma quiet_process_packet:
  assumes ok: "client_handler_ok V" and "cli_process_packet V buf (h, s) = Inr (h', s')"
  shows "quiet V s s'"
proof (cases "cn_enc s")
  case None
  with assms(2) show ?thesis by (simp add: cli_process_packet_def)
next
  case (Some e)
  with assms(2) show ?thesis
    using quiet_service_accept [OF Some] quiet_ext_info quiet_auth_packet [OF ok Some] quiet_read_authenticated [OF ok]
    by (cases "enc_state e"; cases buf) (auto simp: cli_process_packet_def bindR_Inr_iff split: if_splits)
qed

lemma quiet_process_packets:
  assumes ok: "client_handler_ok V" and "cli_process_packets V ps (h, s) = Inr (h', s')"
  shows "quiet V s s'"
  using assms(2)
proof (induction ps arbitrary: h s)
  case (Cons p ps)
  then show ?case
    using quiet_process_packet [OF ok] quiet_trans by (fastforce simp: bindR_Inr_iff)
qed simp

end
