(* ===== verification/ClientRuns.thy ===== *)
theory ClientRuns
  imports ClientLaws
begin

text \<open>
  Runs of a client session, and who the client talks to: keys are only in use after the application accepted the host key that
  signed the exchange hash, which is the identity of the session for as long as it lasts.
\<close>

section \<open>Key exchange\<close>

text \<open>A host key that is kept until the keys are taken into use has signed the session id.\<close>

definition kex_verified :: "kexenv \<Rightarrow> ClientKex \<Rightarrow> bool" where
  "kex_verified X kex \<longleftrightarrow> (\<forall>key nk. ck_state kex = CKS_WaitingForNewKeys key nk \<longrightarrow> ck_cause kex = KC_Initial \<longrightarrow>
     (\<exists>sig. signature_verify (ke_host X) key (nk_session_id nk) sig))"

lemma new_keys_id:
  "kex_new_keys X is_server hash kex names ex sid = Inr nk \<Longrightarrow> nk_session_id nk = (case sid of Some s \<Rightarrow> s | None \<Rightarrow> hash)"
  by (auto simp: kex_new_keys_def Let_def bindR_Inr_iff split_beta)

lemma step_dh_verified:
  assumes "client_step_dh X emit kex names alg pkt w = Inr (progress, w')"
  shows "\<exists>kex' reset. progress = NeedsReply kex' reset \<and> ck_cause kex' = ck_cause kex \<and> ck_config kex' = ck_config kex \<and> kex_verified X kex'"
proof (cases "nm_ignore_guessed names")
  case True
  with assms show ?thesis by (auto simp: client_step_dh_def kex_verified_def)
next
  case False
  with assms show ?thesis
    by (auto simp: client_step_dh_def Let_def bindR_Inr_iff kex_verified_def split: if_splits dest!: new_keys_id)
qed

text \<open>Without a host key the exchange was skipped: the client itself offered the method \<open>none\<close>, and the first session id is empty.\<close>

definition offers_none :: "client_kex_config \<Rightarrow> bool" where
  "offers_none config \<longleftrightarrow> NAME_NONE \<in> set (pf_kex (cl_preferred config))"

lemma skipped_offered:
  assumes "read_kex Client C N buf pref keys cause = Inr names" "map_of (KEXES L) (nm_kex names) = Some kex" "skip_exchange kex"
    "cl_preferred config = pref"
  shows "offers_none config"
proof -
  from assms(1) obtain f peer where "client_select id (local_kexes_no_ext pref) peer AK_Kex = Inr (f, nm_kex names)"
    by (auto simp: read_kex_def bindR_Inr_iff split: if_splits)
  then have "nm_kex names \<in> set (pf_kex pref)"
    by (auto simp: local_kexes_no_ext_def dest: client_sel.sel_common)
  moreover have "nm_kex names = NAME_NONE"
    using assms(2,3) by (auto simp: KEXES_def Let_def split: if_splits)
  ultimately show ?thesis using assms(4) by (simp add: offers_none_def del: str_simps)
qed

lemma step_verified:
  assumes "client_step X emit rnd kex (Some pkt) w = Inr (progress, w')" "kex_verified X kex"
  shows "case progress of
      NeedsReply kex' reset \<Rightarrow> ck_cause kex' = ck_cause kex \<and> ck_config kex' = ck_config kex \<and> kex_verified X kex'
    | Done host_key nk \<Rightarrow> ck_cause kex = KC_Initial \<longrightarrow>
        (case host_key of Some key \<Rightarrow> \<exists>sig. signature_verify (ke_host X) key (nk_session_id nk) sig | None \<Rightarrow> nk_session_id nk = [] \<and> offers_none (ck_config kex))"
proof (cases "ck_state kex")
  case CKS_Created
  with assms(1) show ?thesis
    by (auto simp: client_step_def client_step_created_def Let_def bindR_Inr_iff ok_or_Inr_iff kex_verified_def split: if_splits dest!: new_keys_id
        intro: skipped_offered)
next
  case (CKS_WaitingForGexReply names alg)
  with assms(1) show ?thesis
    by (auto simp: client_step_def client_step_gex_def Let_def bindR_Inr_iff kex_verified_def split: if_splits)
next
  case (CKS_WaitingForDhReply names alg)
  with assms(1) show ?thesis
    using step_dh_verified by (fastforce simp: client_step_def)
next
  case (CKS_WaitingForNewKeys key nk)
  with assms show ?thesis
    by (auto simp: client_step_def client_step_newkeys_def bindR_Inr_iff kex_verified_def split: if_splits)
qed

section \<open>The invariant of a run\<close>

text \<open>
  A session id is trusted when a host key that the application accepted signed it. The empty one belongs to the method \<open>none\<close>, which has
  no host key and no exchange hash, and which the client has to offer.
\<close>

definition trusted :: "('q, 'h) clientenv \<Rightarrow> bytes \<Rightarrow> bool" where
  "trusted V sid \<longleftrightarrow> sid = [] \<and> offers_none (cc_kex (ce_config V)) \<or> (\<exists>key h h' sig. ce_check_server_key V key h = Inr (True, h') \<and>
     signature_verify (ke_host (ce_kex V)) key sid sig)"

text \<open>The invariant names the session id when there is one already: it is then the same for as long as the session lasts.\<close>

fun identified :: "('q, 'h) clientenv \<Rightarrow> bytes option \<Rightarrow> bytes option \<Rightarrow> bool" where
  "identified V None None = True"
| "identified V None (Some sid) = trusted V sid"
| "identified V (Some sid) sid' = (sid' = Some sid)"

definition client_inv :: "('q, 'h) clientenv \<Rightarrow> bytes option \<Rightarrow> 'q ClientSession \<Rightarrow> bool" where
  "client_inv V sid s \<longleftrightarrow> (\<forall>kex. cn_kex s = Kex_InProgress kex \<longrightarrow>
       kex_verified (ce_kex V) kex \<and> ck_config kex = cc_kex (ce_config V) \<and> (cn_enc s = None \<longrightarrow> ck_cause kex = KC_Initial)) \<and>
     identified V sid (map_option enc_session_id (cn_enc s))"

lemma quiet_inv:
  assumes "quiet V s s'" "client_inv V sid s"
  shows "client_inv V sid s'"
proof -
  have "cn_enc s' = None \<longleftrightarrow> cn_enc s = None"
    using assms(1) by (auto simp: quiet_def)
  moreover have "map_option enc_session_id (cn_enc s') = map_option enc_session_id (cn_enc s)"
    using assms(1) by (simp add: quiet_def)
  moreover have "cn_kex s' = cn_kex s \<or> (\<forall>kex. cn_kex s' = Kex_InProgress kex \<longrightarrow> kex_verified (ce_kex V) kex \<and> ck_config kex = cc_kex (ce_config V) \<and>
      (cn_enc s = None \<longrightarrow> ck_cause kex = KC_Initial))"
    using assms(1) by (auto simp: quiet_def kex_verified_def)
  ultimately show ?thesis
    using assms(2) unfolding client_inv_def by metis
qed

lemma inv_same:
  assumes "client_inv V sid s" "cn_enc s' = cn_enc s" "cn_kex s' = cn_kex s"
  shows "client_inv V sid s'"
  using assms by (auto intro: quiet_inv [OF quiet_same])

lemma inv_kex_taken: "client_inv V sid s \<Longrightarrow> client_inv V sid (s\<lparr> cn_kex := Kex_Taken \<rparr>)" "client_inv V sid s \<Longrightarrow> client_inv V sid (s\<lparr> cn_kex := Kex_Idle \<rparr>)"
  by (simp_all add: client_inv_def)

lemma rekey_done_inv:
  assumes ok: "client_handler_ok V" and "cli_rekey_done V t ids nk (h, s) = Inr (h', s')"
  shows "quiet V s s'"
proof -
  define cs w where "cs = session_newkeys nk (cn_common s)"
    and "w = (cs_packet_writer cs)\<lparr> pw_write_buffer := (pw_write_buffer (cs_packet_writer cs))\<lparr> sb_bytes := 0 \<rparr> \<rparr>"
  define s1 where "s1 = s\<lparr> cn_common := cs\<lparr> cs_packet_writer := w \<rparr> \<rparr>"
  have s1: "quiet V s s1"
    by (auto simp: quiet_def s1_def cs_def session_newkeys_def Let_def split: option.splits)
  from assms(2) [unfolded cli_rekey_done_def Let_def prod.case] obtain s2 h3 s3 where
    s2: "(case cs_encrypted cs of None \<Rightarrow> Inr s1 | Some enc \<Rightarrow>
        bindR (flush_all_pending_with_writer (ce_env V) ids (enc\<lparr> enc_last_rekey := mo_now t \<rparr>) w) (\<lambda>(enc, w).
          Inr (cn_set_writer w (cn_set_enc enc s1)))) = Inr s2"
    "cli_process_packets V (cn_pending_reads s2) (h, s2\<lparr> cn_pending_reads := [] \<rparr>) = Inr (h3, s3)"
    "s' = s3\<lparr> cn_pending_reads := [], cn_pending_len := 0 \<rparr>"
    unfolding cs_def [symmetric] w_def [symmetric] s1_def [symmetric] bindR_Inr_iff by auto
  have "quiet V s1 s2"
    using s2(1) by (auto simp: bindR_Inr_iff s1_def split: option.splits dest!: flush_all_id intro!: quiet_set_writer)
  moreover have "quiet V s2 s3"
    by (rule quiet_trans [OF quiet_same quiet_process_packets [OF ok s2(2)]]) simp_all
  moreover have "quiet V s3 s'"
    unfolding s2(3) by (simp add: quiet_same)
  ultimately show ?thesis
    using s1 quiet_trans by blast
qed

lemma first_kex_inv:
  assumes "cli_first_kex_done V t host_key nk (h, s) = Inr (h', s')"
    "case host_key of Some key \<Rightarrow> \<exists>sig. signature_verify (ke_host (ce_kex V)) key (nk_session_id nk) sig | None \<Rightarrow> nk_session_id nk = [] \<and> offers_none (cc_kex (ce_config V))"
  shows "client_inv V None (s'\<lparr> cn_kex := Kex_Idle \<rparr>)"
proof -
  have "trusted V (nk_session_id nk)"
    using assms by (auto simp: cli_first_kex_done_def bindR_Inr_iff trusted_def split: option.splits if_splits)
  moreover have "\<exists>enc. cn_enc s' = Some enc \<and> enc_session_id enc = nk_session_id nk"
    using assms(1) by (auto simp: cli_first_kex_done_def bindR_Inr_iff session_encrypted_def Let_def split: if_splits)
  ultimately show ?thesis
    by (auto simp: client_inv_def)
qed

lemma kex_done_inv:
  assumes ok: "client_handler_ok V" and "cli_kex_done V t ids host_key nk (h, s) = Inr (h', s')" "client_inv V sid s"
    and signed: "cn_enc s = None \<Longrightarrow> (case host_key of
      Some key \<Rightarrow> \<exists>sig. signature_verify (ke_host (ce_kex V)) key (nk_session_id nk) sig | None \<Rightarrow> nk_session_id nk = [] \<and> offers_none (cc_kex (ce_config V)))"
  shows "client_inv V sid s'"
proof -
  define s0 where "s0 = s\<lparr> cn_common := (cn_common s)\<lparr> cs_strict_kex := (cs_strict_kex (cn_common s) \<or> nm_strict_kex (nk_names nk)) \<rparr> \<rparr>"
  have s0: "quiet V s s0" by (simp add: s0_def quiet_def)
  from assms(2) [unfolded cli_kex_done_def Let_def prod.case] obtain h1 s1 h2 s2 where
    c: "ce_call V (CC_kex_done (shared_secret_bytes (nk_kex nk)) (nk_names nk)) (h, s0) = Inr (h1, s1)"
    "(if cn_enc s1 \<noteq> None then cli_rekey_done V t ids nk (h1, s1) else cli_first_kex_done V t host_key nk (h1, s1)) = Inr (h2, s2)"
    "s' = s2\<lparr> cn_kex := Kex_Idle \<rparr>"
    by (auto simp: bindR_Inr_iff simp flip: s0_def split del: if_split)
  have s1: "quiet V s s1" by (rule quiet_then_call [OF ok s0 c(1)])
  show ?thesis
  proof (cases "cn_enc s1")
    case None
    with s1 have enc: "cn_enc s = None" by (simp add: quiet_def)
    moreover from this assms(3) have "sid = None" by (cases sid) (auto simp: client_inv_def)
    ultimately show ?thesis using None c signed first_kex_inv by simp
  next
    case (Some e)
    with c have "quiet V s1 s2" using rekey_done_inv [OF ok] by simp
    then show ?thesis
      unfolding c(3) using quiet_inv [OF quiet_trans [OF s1] assms(3)] inv_kex_taken(2) by blast
  qed
qed

lemma kex_step_inv:
  assumes ok: "client_handler_ok V" and "cli_kex_step V t ids kex pkt (h, s) = Inr ((h', s'), n)" "client_inv V sid s"
    and kex: "kex_verified (ce_kex V) kex" "ck_config kex = cc_kex (ce_config V)" "cn_enc s = None \<Longrightarrow> ck_cause kex = KC_Initial"
  shows "client_inv V sid s'"
proof -
  from assms(2) obtain progress w h1 s1 m where p:
    "client_step (ce_kex V) (packet_emit (ce_env V)) (mo_random t) kex (Some pkt) (cn_writer s) = Inr (progress, w)"
    "(case progress of
        NeedsReply kex reset \<Rightarrow>
          (let s = (cn_set_writer w s)\<lparr> cn_kex := Kex_InProgress kex \<rparr> in
           Inr ((h, if reset then s\<lparr> cn_common := session_reset_seqn (cn_common s) \<rparr> else s), in_seqn pkt))
      | Done server_host_key newkeys \<Rightarrow>
          bindR (cli_kex_done V t ids server_host_key newkeys (h, cn_set_writer w s)) (\<lambda>(h, s).
            Inr ((h, s), if cs_strict_kex (cn_common s) then 0 else in_seqn pkt))) = Inr ((h1, s1), m)"
    "cli_flush V t s1 = Inr s'"
    by (auto simp: cli_kex_step_def Let_def bindR_Inr_iff)
  have w: "client_inv V sid (cn_set_writer w s)" "cn_enc (cn_set_writer w s) = cn_enc s"
    using assms(3) by (simp_all add: client_inv_def cn_set_writer_def)
  note v = step_verified [OF p(1) kex(1)]
  have "client_inv V sid s1"
  proof (cases progress)
    case (NeedsReply kex' reset)
    with p(2) v kex(2,3) w show ?thesis
      by (auto simp: client_inv_def Let_def session_reset_seqn_def split: if_splits)
  next
    case (Done host_key nk)
    with p(2) have "cli_kex_done V t ids host_key nk (h, cn_set_writer w s) = Inr (h1, s1)"
      by (auto simp: bindR_Inr_iff)
    then show ?thesis
    proof (rule kex_done_inv [OF ok _ w(1)])
      assume "cn_enc (cn_set_writer w s) = None"
      with v Done kex(2,3) show "case host_key of
          Some key \<Rightarrow> \<exists>sig. signature_verify (ke_host (ce_kex V)) key (nk_session_id nk) sig
        | None \<Rightarrow> nk_session_id nk = [] \<and> offers_none (cc_kex (ce_config V))"
        by (simp add: w(2) split: option.splits)
    qed
  qed
  then show ?thesis
    by (rule quiet_inv [OF quiet_flush [OF p(3)]])
qed

lemma reply_inv:
  assumes ok: "client_handler_ok V" and "cli_reply V t ids pkt (h, s) = Inr ((h', s'), n)" "client_inv V sid s"
  shows "client_inv V sid s'"
proof (cases "\<exists>m\<in>set (take 1 (in_buffer pkt)). m \<in> {IGNORE, UNIMPLEMENTED, DEBUG}")
  case True
  with assms(2,3) show ?thesis by (auto simp: cli_reply_def bindR_Inr_iff)
next
  case False
  with assms(2) obtain s1 where s1:
    "(if take 1 (in_buffer pkt) = [KEXINIT] \<and> cn_kex s = Kex_Idle then cli_begin_rekey V t s else Inr s) = Inr s1"
    "(let (taken, left) = kex_take (cn_kex s1) in
         if \<exists>m\<in>set (take 1 (in_buffer pkt)). is_kex_msg m
         then (let s = s1\<lparr> cn_kex := left \<rparr> in
               case taken of
                 Kex_InProgress kex \<Rightarrow> cli_kex_step V t ids kex pkt (h, s)
               | _ \<Rightarrow> bindR (cli_process_packet V (in_buffer pkt) (h, s)) (\<lambda>hs. Inr (hs, in_seqn pkt)))
         else bindR (cli_process_packet V (in_buffer pkt) (h, s1)) (\<lambda>hs. Inr (hs, in_seqn pkt))) = Inr ((h', s'), n)"
    unfolding cli_reply_def prod.case bindR_Inr_iff by (auto simp only: if_False simp_thms bindR_Inr_iff)
  have "quiet V s s1"
    using s1(1) quiet_begin_rekey by (auto split: if_splits)
  then have inv: "client_inv V sid s1" using quiet_inv assms(3) by blast
  have packet: "client_inv V sid s'" if "cli_process_packet V (in_buffer pkt) (h, s2) = Inr (h', s')" "client_inv V sid s2" for s2
    using quiet_inv [OF quiet_process_packet [OF ok that(1)] that(2)] .
  show ?thesis
  proof (cases "cn_kex s1")
    case (Kex_InProgress kex)
    have "client_inv V sid (s1\<lparr> cn_kex := Kex_Taken \<rparr>)" "kex_verified (ce_kex V) kex" "ck_config kex = cc_kex (ce_config V)" "cn_enc s1 = None \<Longrightarrow> ck_cause kex = KC_Initial"
      using inv Kex_InProgress by (simp_all add: client_inv_def)
    note step = kex_step_inv [OF ok _ this(1,2,3)]
    show ?thesis
      using s1(2) Kex_InProgress packet inv \<open>cn_enc s1 = None \<Longrightarrow> _\<close>
      by (auto simp: Let_def bindR_Inr_iff split: if_splits intro: step)
  qed (use s1(2) inv in \<open>auto simp: Let_def bindR_Inr_iff split: if_splits intro: packet inv_kex_taken\<close>)
qed

section \<open>Runs\<close>

text \<open>
  The arm of the loop that has read a packet. It gives back the sequence number to go on with, and what a disconnect message said.
\<close>

definition cli_packet_arm ::
  "('q, 'h) clientenv \<Rightarrow> moment \<Rightarrow> ChannelId list \<Rightarrow> SSHBuffer \<Rightarrow> ('q, 'h) cs \<Rightarrow> (('q, 'h) cs \<times> u32 \<times> RemoteDisconnectInfo res option) res" where
  "cli_packet_arm V t ids buffer = (\<lambda>(h, s).
     bindR (cli_maybe_decompress V buffer s) (\<lambda>(pkt, s).
       case in_buffer pkt of
         [] \<Rightarrow> Inr ((h, s), sb_seqn buffer, None)
       | m # _ \<Rightarrow>
           if m = DISCONNECT
           then (case process_disconnect (ce_codec V) pkt s of (info, s) \<Rightarrow> Inr ((h, s), sb_seqn buffer, Some info))
           else (let s = s\<lparr> cn_common := (cn_common s)\<lparr> cs_received_data := True \<rparr> \<rparr> in
                 bindR (cli_reply V t ids pkt (h, s)) (\<lambda>(hs, seqn). Inr (hs, seqn, None)))))"

text \<open>
  One event of the loop that runs a session: the start of a turn, a packet, output that the socket takes, a message of a handle, answers to
  channel opens, room in a channel's queue, the keepalive timer, the last handle dropped, and the end of a turn. The reader holds the opening cipher
  between packets and gives it back changed. Other tasks meanwhile queue messages and answers, and drop the handle.
\<close>

inductive client_session_step :: "('q, 'h) clientenv \<Rightarrow> 'h \<times> 'q ClientSession \<Rightarrow> 'h \<times> 'q ClientSession \<Rightarrow> bool" for V where
  cstep_start: "client_session_step V (h, s) (h, s\<lparr> cn_common := (cn_common s)\<lparr> cs_received_data := False \<rparr> \<rparr>)"
| cstep_cipher: "client_session_step V (h, s) (h, s\<lparr> cn_common := (cn_common s)\<lparr> cs_remote_to_local := cipher \<rparr> \<rparr>)"
| cstep_written: "flush_into answers flushed 0 (cn_writer s) = (r, sent, w) \<Longrightarrow> client_session_step V (h, s) (h, cn_set_writer w s)"
| cstep_gone: "client_session_step V (h, s) (h, s\<lparr> cn_common := (cn_common s)\<lparr> cs_disconnected := True \<rparr> \<rparr>)"
| cstep_packet: "cli_packet_arm V t ids buf (h, s) = Inr ((h', s'), n, left) \<Longrightarrow> client_session_step V (h, s) (h', s')"
| cstep_message: "handle_msg V t m s = Inr s' \<Longrightarrow> client_session_step V (h, s) (h, s')"
| cstep_open_reply: "client_session_step V (h, s) (h, finalize_server_channel_open_reply V pending result s)"
| cstep_replies: "client_session_step V (h, s) (h, cli_drain_open_replies V s)"
| cstep_pump: "cli_pump_inbound V cid generation permit (h, s) = Inr (h', s') \<Longrightarrow> client_session_step V (h, s) (h', s')"
| cstep_reserve: "cli_drain_needs_reserve rs s = (s', rs') \<Longrightarrow> client_session_step V (h, s) (h, s')"
| cstep_keepalive: "keepalive_due V s = Inr (sent, s') \<Longrightarrow> client_session_step V (h, s) (h, s')"
| cstep_turn: "end_of_turn V t ids s = Inr s' \<Longrightarrow> client_session_step V (h, s) (h, s')"
| cstep_queues: "client_session_step V (h, s) (h, s\<lparr> cn_receiver := ms, cn_open_replies := rs, cn_handle_gone := gone \<rparr>)"

lemma quiet_decompress: "cli_maybe_decompress V buf s = Inr (pkt, s') \<Longrightarrow> quiet V s s'"
  by (auto simp: cli_maybe_decompress_def bindR_Inr_iff split: if_splits option.splits intro: quiet_set)

lemma quiet_disconnected: "process_disconnect C pkt s = (info, s') \<Longrightarrow> quiet V s s'"
  by (auto simp: process_disconnect_def split: sum.splits prod.splits intro: quiet_same)

lemma quiet_keepalive: "keepalive_due V s = Inr (sent, s') \<Longrightarrow> quiet V s s'"
  by (auto simp: keepalive_due_def cli_send_keepalive_def Let_def split: if_splits option.splits intro!: quiet_trans [OF quiet_same quiet_requests(3)])

lemma quiet_init_compression: "quiet V s (init_compression_done s)"
  by (auto simp: init_compression_done_def Let_def split: option.splits intro: quiet_set_writer)

lemma quiet_turn:
  assumes "end_of_turn V t ids s = Inr s'"
  shows "quiet V s s'"
proof -
  from assms obtain s1 where "cli_flush V t s = Inr s1"
    "cn_enc s' = cn_enc (init_compression_done (cli_release_outbound_acks ids s1))"
    "cn_kex s' = cn_kex (init_compression_done (cli_release_outbound_acks ids s1))"
    by (auto simp: end_of_turn_def Let_def bindR_Inr_iff split: if_splits)
  then show ?thesis
    using quiet_onto quiet_trans quiet_flush quiet_release quiet_init_compression by meson
qed

lemma packet_arm_inv:
  assumes ok: "client_handler_ok V" and "cli_packet_arm V t ids buf (h, s) = Inr ((h', s'), n, left)" "client_inv V sid s"
  shows "client_inv V sid s'"
proof -
  from assms(2) obtain pkt s1 where d: "cli_maybe_decompress V buf s = Inr (pkt, s1)"
    and e: "(case in_buffer pkt of
         [] \<Rightarrow> Inr ((h, s1), sb_seqn buf, None)
       | m # _ \<Rightarrow>
           if m = DISCONNECT
           then (case process_disconnect (ce_codec V) pkt s1 of (info, s) \<Rightarrow> Inr ((h, s), sb_seqn buf, Some info))
           else (let s = s1\<lparr> cn_common := (cn_common s1)\<lparr> cs_received_data := True \<rparr> \<rparr> in
                 bindR (cli_reply V t ids pkt (h, s)) (\<lambda>(hs, seqn). Inr (hs, seqn, None)))) = Inr ((h', s'), n, left)"
    unfolding cli_packet_arm_def bindR_Inr_iff prod.case by auto
  have inv: "client_inv V sid s1" by (rule quiet_inv [OF quiet_decompress [OF d] assms(3)])
  then have reply: "client_inv V sid (s1\<lparr> cn_common := (cn_common s1)\<lparr> cs_received_data := True \<rparr> \<rparr>)"
    by (rule quiet_inv [OF quiet_same, rotated 2]) simp_all
  show ?thesis
  proof (cases "in_buffer pkt")
    case Nil
    with e inv show ?thesis by simp
  next
    case (Cons m r)
    with e inv reply show ?thesis
      by (auto simp: bindR_Inr_iff Let_def split: if_splits prod.splits dest: quiet_disconnected reply_inv [OF ok] intro: quiet_inv)
  qed
qed

lemma step_inv:
  assumes "client_handler_ok V" "client_session_step V hs hs'" "client_inv V sid (snd hs)"
  shows "client_inv V sid (snd hs')"
  using assms(2,3)
proof cases
  case (cstep_packet t ids buf h s h' s' n left)
  then show ?thesis using packet_arm_inv [OF assms(1)] assms(3) by simp
next
  case (cstep_pump cid generation permit h s h' s')
  then show ?thesis using quiet_inv [OF quiet_pump [OF assms(1) cstep_pump(3)]] assms(3) by simp
next
  case (cstep_reserve rs s s' rs' h)
  then have "quiet V s s'"
    by (auto simp: cli_drain_needs_reserve_def split: prod.splits intro: quiet_same)
  with cstep_reserve show ?thesis using quiet_inv assms(3) by simp
next
  case (cstep_queues h s gone rs ms)
  then show ?thesis using inv_same [OF assms(3)] by simp
next
  case (cstep_written answers flushed s r sent w h)
  then show ?thesis using inv_same [OF assms(3)] by (simp add: cn_set_writer_def)
qed (simp_all add: inv_same [OF assms(3)] quiet_inv [OF quiet_msg]
    quiet_inv [OF quiet_open_reply] quiet_inv [OF quiet_drain] quiet_inv [OF quiet_keepalive] quiet_inv [OF quiet_turn])

lemma run_inv:
  assumes "client_handler_ok V" "(client_session_step V)\<^sup>*\<^sup>* hs hs'" "client_inv V sid (snd hs)"
  shows "client_inv V sid (snd hs')"
  using assms(2,3) by induction (auto intro: step_inv [OF assms(1)])

lemma connect_inv:
  assumes "connect_stream V t sshid receiver = Inr s"
  shows "client_inv V None s"
proof -
  have "client_inv V None (client_session_new V sshid receiver)"
    by (simp add: client_inv_def client_session_new_def)
  then show ?thesis
    using quiet_inv [OF quiet_begin_rekey] assms by (simp add: connect_stream_def)
qed

section \<open>A concrete run\<close>

text \<open>A client in its first key exchange that has sent few bytes, all of them in the clear.\<close>

definition clear_writer :: "nat \<Rightarrow> PacketWriter \<Rightarrow> bool" where
  "clear_writer n w \<longleftrightarrow> pw_cipher w = SK_Clear \<and> pw_compress w = Compress_None \<and> sb_bytes (pw_write_buffer w) \<le> n"

definition exchanging :: "nat \<Rightarrow> ClientKex \<Rightarrow> 'q ClientSession \<Rightarrow> bool" where
  "exchanging n kex s \<longleftrightarrow> cn_kex s = Kex_InProgress kex \<and> cn_enc s = None \<and> \<not> cs_strict_kex (cn_common s) \<and> clear_writer n (cn_writer s)"

lemma clear_raw:
  assumes "clear_writer n w" "p \<noteq> []" "length p \<le> 1000"
  shows "\<exists>w'. packet_raw demo_env p w = Inr w' \<and> clear_writer (n + 1000) w'"
  using assms packet_raw_clear [of demo_env w p] by (simp add: clear_writer_def demo_crypto_ok MAXIMUM_PADDING_LEN_def)

lemma clear_emit:
  assumes "clear_writer n w" "p \<noteq> []" "length p \<le> 1000"
  shows "\<exists>w'. packet_emit demo_env p w = Inr w' \<and> clear_writer (n + 1000) w'"
  using clear_raw [OF assms] assms write_packet_plain [of demo_env p w]
  by (simp add: packet_emit_def clear_writer_def demo_crypto_ok rfc4251_codec MAXIMUM_PADDING_LEN_def)

abbreviation received :: "u32 \<Rightarrow> bytes \<Rightarrow> SSHBuffer" where
  "received n p \<equiv> \<lparr> sb_buffer = replicate 5 0 @ p, sb_len = 0, sb_bytes = 0, sb_seqn = n \<rparr>"

lemma received_arm:
  assumes "exchanging n kex s" "is_kex_msg m"
  shows "cli_packet_arm V t ids (received k (m # r)) (h, s) =
    bindR (cli_kex_step V t ids kex \<lparr> in_buffer = m # r, in_seqn = k \<rparr>
      (h, s\<lparr> cn_common := (cn_common s)\<lparr> cs_received_data := True \<rparr>, cn_kex := Kex_Taken \<rparr>)) (\<lambda>(hs, seqn). Inr (hs, seqn, None))"
proof -
  have "m \<notin> {IGNORE, UNIMPLEMENTED, DEBUG, DISCONNECT}"
    using assms(2) by (auto simp: is_kex_msg_def ALL_KEX_MESSAGES_def)
  then show ?thesis
    using assms by (simp add: cli_packet_arm_def cli_maybe_decompress_def exchanging_def cli_reply_def numeral_eq_Suc)
qed

lemma exchange_goes_on:
  fixes t :: moment
  assumes "exchanging n kex s" "is_kex_msg m"
    and "\<And>w. clear_writer n w \<Longrightarrow> \<exists>w'. client_step (ce_kex V) (packet_emit (ce_env V)) (mo_random t) kex
      (Some \<lparr> in_buffer = m # r, in_seqn = k \<rparr>) w = Inr (NeedsReply kex' reset, w') \<and> clear_writer n' w'"
  shows "\<exists>s'. client_session_step V (h, s) (h, s') \<and> exchanging n' kex' s'"
proof -
  let ?s = "s\<lparr> cn_common := (cn_common s)\<lparr> cs_received_data := True \<rparr>, cn_kex := Kex_Taken \<rparr>"
  obtain w where w: "client_step (ce_kex V) (packet_emit (ce_env V)) (mo_random t) kex (Some \<lparr> in_buffer = m # r, in_seqn = k \<rparr>) (cn_writer s) =
    Inr (NeedsReply kex' reset, w)" "clear_writer n' w"
    using assms(1,3) by (force simp: exchanging_def)
  define s' where "s' = (let s = (cn_set_writer w ?s)\<lparr> cn_kex := Kex_InProgress kex' \<rparr> in
    if reset then s\<lparr> cn_common := session_reset_seqn (cn_common s) \<rparr> else s)"
  have enc: "cn_enc s' = None" and s': "exchanging n' kex' s'"
    using assms(1) w(2) by (auto simp: s'_def exchanging_def clear_writer_def session_reset_seqn_def reset_seqn_def Let_def cn_set_writer_def)
  have "cli_packet_arm V t [] (received k (m # r)) (h, s) = Inr ((h, s'), k, None)"
    unfolding received_arm [OF assms(1,2)] cli_kex_step_def prod.case using enc
    by (cases reset) (simp_all add: w(1) Let_def cli_flush_def s'_def)
  from cstep_packet [OF this] s' show ?thesis by blast
qed

lemma demo_clientenv_simps:
  "ce_env demo_clientenv = demo_env" "ce_kex demo_clientenv = demo_kexenv" "ce_call demo_clientenv cb hs = Inr hs"
  "ce_check_server_key demo_clientenv key h = Inr (True, h)" "cc_limits (ce_config demo_clientenv) = Limits_default"
  "cc_kex (ce_config demo_clientenv) = \<lparr> cl_preferred = demo_client_prefs,
     cl_gex = \<lparr> min_group_size = 2048, preferred_group_size = 4096, max_group_size = 8192 \<rparr> \<rparr>"
  "cc_client_id (ce_config demo_clientenv) = SshId_Standard [65]"
  by (simp_all add: demo_clientenv_def)

lemma exchange_ends:
  fixes s :: "ChannelMsg list ClientSession" and t :: moment
  assumes "exchanging n kex s" "n < 10000"
    and "\<And>w. client_step demo_kexenv (packet_emit demo_env) (mo_random t) kex (Some \<lparr> in_buffer = NEWKEYS # r, in_seqn = k \<rparr>) w =
      Inr (Done (Some key) nk, w)"
  shows "\<exists>s'. client_session_step demo_clientenv (h, s) (h, s') \<and> cn_enc s' \<noteq> None"
proof -
  note arm = received_arm [OF assms(1), where m = NEWKEYS and V = demo_clientenv and t = t and ids = "[]" and k = k and r = r and h = h]
  have lim: "rekey_write_limit Limits_default > 10000" "rekey_time_limit Limits_default > 0"
    by (simp_all add: Limits_default_def)
  let ?cs = "(cn_common s)\<lparr> cs_received_data := True, cs_strict_kex := nm_strict_kex (nk_names nk) \<rparr>"
  let ?s = "s\<lparr> cn_common := session_encrypted (mo_now t) (initial_encrypted_state demo_clientenv) nk ?cs, cn_kex := Kex_Idle,
    cn_kex_done_signal := False \<rparr>"
  have "\<exists>s'. cli_flush demo_clientenv t ?s = Inr s' \<and> cn_enc s' \<noteq> None"
    using assms(1,2) lim
    by (simp add: exchanging_def clear_writer_def cli_flush_def enc_flush_def flush_writes.simps demo_clientenv_simps session_encrypted_def Let_def
        set_cipher_def cn_set_writer_def cn_set_enc_def)
  moreover have "cli_kex_done demo_clientenv t [] (Some key) nk (h, s\<lparr> cn_common := (cn_common s)\<lparr> cs_received_data := True \<rparr>, cn_kex := Kex_Taken \<rparr>) =
    Inr (h, ?s)"
    using assms(1) by (simp add: cli_kex_done_def cli_first_kex_done_def exchanging_def Let_def demo_clientenv_simps)
  ultimately obtain s' n where "cli_packet_arm demo_clientenv t [] (received k (NEWKEYS # r)) (h, s) = Inr ((h, s'), n, None)" "cn_enc s' \<noteq> None"
    using arm by (auto simp: cli_kex_step_def Let_def assms(3) demo_clientenv_simps is_kex_msg_def ALL_KEX_MESSAGES_def cn_set_writer_def)
  then show ?thesis using cstep_packet by fastforce
qed

text \<open>The client's part of the concrete exchange, over the packet writer.\<close>

definition demo_moment :: moment where
  "demo_moment = \<lparr> mo_now = 0, mo_cookie = replicate 16 5, mo_random = ([5], []) \<rparr>"

definition demo_client_kex :: ClientKex where
  "demo_client_kex = (let kex = ClientKex_new (cc_kex (ce_config demo_clientenv)) (cc_client_id (ce_config demo_clientenv)) [66] KC_Initial in
     kex\<lparr> ck_exchange := (ck_exchange kex)\<lparr> client_kex_init := demo_pc \<rparr> \<rparr>)"

lemma demo_pc_length: "length demo_pc \<le> 1000" "demo_pc \<noteq> []"
  by (simp_all add: demo_pc_def kexinit_payload_def demo_client_prefs_def kex_names_to_send_def key_names_to_send_def name_list_encode_def as_encoded_string_def)

lemma demo_connected: "\<exists>s. connect_stream demo_clientenv demo_moment [66] [] = Inr s \<and> exchanging 1000 demo_client_kex s"
proof -
  have "clear_writer 0 PacketWriter_clear"
    by (simp add: clear_writer_def PacketWriter_clear_def PacketWriter_new_def SSHBuffer_new_def)
  from clear_raw [OF this demo_pc_length(2,1)] obtain w where
    w: "packet_raw demo_env demo_pc PacketWriter_clear = Inr w" "clear_writer 1000 w" by auto
  have "client_kexinit demo_env demo_alg_name (replicate 16 5)
      (ClientKex_new (cc_kex (ce_config demo_clientenv)) (cc_client_id (ce_config demo_clientenv)) [66] KC_Initial) PacketWriter_clear =
    Inr (demo_client_kex, w)"
    using w(1) by (simp add: client_kexinit_def write_kex_def packet_bytes_def demo_client_kex_def Let_def demo_pc_def ClientKex_new_def demo_clientenv_def)
  then show ?thesis
    using w(2) by (simp add: connect_stream_def cli_begin_rekey_def Let_def client_session_new_def exchanging_def demo_moment_def)
      (simp add: demo_clientenv_def)
qed

abbreviation demo_client_curve :: KexAlgorithm where
  "demo_client_curve \<equiv> KA_Curve25519 \<lparr> cvk_local_secret = Some [5], cvk_shared_secret = None \<rparr>"

definition demo_client_waits :: ClientKex where
  "demo_client_waits = demo_client_kex\<lparr> ck_exchange := demo_transcript\<lparr> client_ephemeral := pad32 [5] \<rparr>,
     ck_state := CKS_WaitingForDhReply demo_names demo_client_curve \<rparr>"

lemma demo_first_step:
  assumes "clear_writer n w"
  shows "\<exists>w'. client_step demo_kexenv (packet_emit demo_env) ([5], []) demo_client_kex (Some \<lparr> in_buffer = demo_ps, in_seqn = 1 \<rparr>) w =
    Inr (NeedsReply demo_client_waits False, w') \<and> clear_writer (n + 1000) w'"
proof -
  obtain w' where w: "packet_emit demo_env (KEX_ECDH_INIT # bytes_encode rfc4251 (pad32 [5])) w = Inr w'" "clear_writer (n + 1000) w'"
    using clear_emit [OF assms, of "KEX_ECDH_INIT # bytes_encode rfc4251 (pad32 [5])"] by (auto simp: rfc.bytes_length)
  have "x25519_public demo_kexlib = pad32" by (simp add: demo_kexlib_def)
  with w show ?thesis
    by (simp add: client_step_def client_step_created_def demo_client_kex_def ClientKex_new_def demo_negotiated demo_clientenv_simps Let_def
        demo_kexinit_first check_first_seqn_def demo_kex demo_transcript_def Exchange_new_def cvk_client_dh_def demo_client_waits_def
        del: rfc4251_simps)
qed

definition demo_reply :: bytes where
  "demo_reply = bytes_encode rfc4251 [1] @ bytes_encode rfc4251 (pad32 [6]) @ bytes_encode rfc4251 [7]"

lemma demo_second_step:
  "\<exists>nk reset. \<forall>w. clear_writer n w \<longrightarrow> (\<exists>w'. client_step demo_kexenv (packet_emit demo_env) ([5], []) demo_client_waits
      (Some \<lparr> in_buffer = KEX_ECDH_REPLY # demo_reply, in_seqn = 2 \<rparr>) w =
    Inr (NeedsReply (demo_client_waits\<lparr> ck_exchange := demo_transcript\<lparr> client_ephemeral := pad32 [5], server_ephemeral := pad32 [6] \<rparr>,
      ck_state := CKS_WaitingForNewKeys [1] nk \<rparr>) reset, w') \<and> clear_writer (n + 1000) w')"
proof -
  have "pad32 [b] \<noteq> zero_point" if "b \<noteq> 0" for b
    using that by (simp add: pad32_def zero_point_def numeral_eq_Suc)
  from this [of 6] have n: "pad32 [6] \<noteq> zero_point" by simp
  have d: "d_bytes rfc4251 (bytes_encode rfc4251 x @ r) = Inr (x, r)" "d_bytes rfc4251 (bytes_encode rfc4251 x) = Inr (x, [])" if "length x \<le> 32" for x r
    using rfc.d_bytes_round [of x r] rfc.d_bytes_round [of x "[]"] that by (simp_all add: max_string_def)
  have l: "length (pad32 [6]) \<le> 32" by simp
  define h where "h = mpint_exchange_hash demo_kexlib rfc4251 KH_Sha256 (Some (x25519_mult demo_kexlib [5] (pad32 [6])))
    (bytes_encode rfc4251 [1]) (demo_transcript\<lparr> client_ephemeral := pad32 [5], server_ephemeral := pad32 [6] \<rparr>)"
  obtain hl where hl: "hash_ok (digest demo_kexlib KH_Sha256) hl" using kexlib_okD(1) [OF demo_kexlib_ok] by blast
  obtain c mc where "map_of CIPHERS (str ''aes256-ctr'') = Some c" "map_of MACS (str ''hmac-sha2-256'') = Some mc"
    by (simp add: CIPHERS_def MACS_def)
  then obtain pair where pair: "kex_compute_keys demo_kexlib rfc4251 demo_crypto
      (KA_Curve25519 \<lparr> cvk_local_secret = None, cvk_shared_secret = Some (x25519_mult demo_kexlib [5] (pad32 [6])) \<rparr>) h h
      (str ''aes256-ctr'') (str ''hmac-sha2-256'') (str ''hmac-sha2-256'') False = Inr pair"
    using keys_of_role [OF hl, where K = demo_crypto] by (simp del: str_simps) metis
  have "\<exists>nk reset. \<forall>w. client_step demo_kexenv (packet_emit demo_env) ([5], []) demo_client_waits
      (Some \<lparr> in_buffer = KEX_ECDH_REPLY # demo_reply, in_seqn = 2 \<rparr>) w =
    bindR (packet_emit demo_env [NEWKEYS] w) (\<lambda>w. Inr (NeedsReply (demo_client_waits\<lparr>
      ck_exchange := demo_transcript\<lparr> client_ephemeral := pad32 [5], server_ephemeral := pad32 [6] \<rparr>,
      ck_state := CKS_WaitingForNewKeys [1] nk \<rparr>) reset, w))"
    using n pair
    by (simp add: client_step_def client_step_dh_def Let_def demo_client_waits_def demo_names_def demo_reply_def d l ensure_end_def
        cvk_compute_shared_secret_def demo_hostlib_def kex_new_keys_def demo_client_kex_def ClientKex_new_def
        demo_transcript_def Exchange_new_def h_def del: str_simps rfc4251_simps) (rule exI, rule exI, rule allI, rule refl)
  then obtain nk reset where nk: "\<And>w. client_step demo_kexenv (packet_emit demo_env) ([5], []) demo_client_waits
      (Some \<lparr> in_buffer = KEX_ECDH_REPLY # demo_reply, in_seqn = 2 \<rparr>) w =
    bindR (packet_emit demo_env [NEWKEYS] w) (\<lambda>w. Inr (NeedsReply (demo_client_waits\<lparr>
      ck_exchange := demo_transcript\<lparr> client_ephemeral := pad32 [5], server_ephemeral := pad32 [6] \<rparr>,
      ck_state := CKS_WaitingForNewKeys [1] nk \<rparr>) reset, w))"
    by blast
  show ?thesis
    by (rule exI [of _ nk], rule exI [of _ reset]) (use clear_emit [of n _ "[NEWKEYS]"] in \<open>fastforce simp: nk\<close>)
qed

lemma demo_client_run:
  "\<exists>s0 s. connect_stream demo_clientenv demo_moment [66] [] = Inr s0 \<and>
     (client_session_step demo_clientenv)\<^sup>*\<^sup>* ((), s0) ((), s) \<and> cn_enc s \<noteq> None"
proof -
  have V: "ce_kex demo_clientenv = demo_kexenv" "ce_env demo_clientenv = demo_env" "mo_random demo_moment = ([5], [])"
    by (simp_all add: demo_clientenv_simps demo_moment_def)
  have msgs: "is_kex_msg KEXINIT" "is_kex_msg KEX_ECDH_REPLY"
    by (simp_all add: is_kex_msg_def ALL_KEX_MESSAGES_def)
  have ps: "demo_ps = KEXINIT # tl demo_ps"
    by (simp add: demo_ps_def kexinit_payload_def)
  obtain s0 where s0: "connect_stream demo_clientenv demo_moment [66] [] = Inr s0" "exchanging 1000 demo_client_kex s0"
    using demo_connected by blast
  have "\<exists>s1. client_session_step demo_clientenv ((), s0) ((), s1) \<and> exchanging (1000 + 1000) demo_client_waits s1"
    by (rule exchange_goes_on [OF s0(2) msgs(1), where V = demo_clientenv and t = demo_moment and r = "tl demo_ps" and k = 1 and reset = False])
      (simp only: V ps [symmetric] demo_first_step)
  then obtain s1 where s1: "client_session_step demo_clientenv ((), s0) ((), s1)" "exchanging (1000 + 1000) demo_client_waits s1"
    by blast
  obtain nk reset where nk: "\<forall>w. clear_writer (1000 + 1000) w \<longrightarrow> (\<exists>w'. client_step demo_kexenv (packet_emit demo_env) ([5], []) demo_client_waits
      (Some \<lparr> in_buffer = KEX_ECDH_REPLY # demo_reply, in_seqn = 2 \<rparr>) w =
    Inr (NeedsReply (demo_client_waits\<lparr> ck_exchange := demo_transcript\<lparr> client_ephemeral := pad32 [5], server_ephemeral := pad32 [6] \<rparr>,
      ck_state := CKS_WaitingForNewKeys [1] nk \<rparr>) reset, w') \<and> clear_writer (1000 + 1000 + 1000) w')"
    using demo_second_step by blast
  define kex where "kex = demo_client_waits\<lparr> ck_exchange := demo_transcript\<lparr> client_ephemeral := pad32 [5], server_ephemeral := pad32 [6] \<rparr>,
    ck_state := CKS_WaitingForNewKeys [1] nk \<rparr>"
  have "\<exists>s2. client_session_step demo_clientenv ((), s1) ((), s2) \<and> exchanging (1000 + 1000 + 1000) kex s2"
    by (rule exchange_goes_on [OF s1(2) msgs(2), where V = demo_clientenv and t = demo_moment and r = demo_reply and k = 2 and reset = reset])
      (simp only: V nk [rule_format] kex_def)
  then obtain s2 where s2: "client_session_step demo_clientenv ((), s1) ((), s2)" "exchanging (1000 + 1000 + 1000) kex s2"
    by blast
  have "client_step demo_kexenv (packet_emit demo_env) (mo_random demo_moment) kex (Some \<lparr> in_buffer = [NEWKEYS], in_seqn = 3 \<rparr>) w =
    Inr (Done (Some [1]) nk, w)" for w
    by (simp add: client_step_def kex_def client_step_newkeys_def ensure_end_def)
  from exchange_ends [OF s2(2) _ this] obtain s3 where "client_session_step demo_clientenv ((), s2) ((), s3)" "cn_enc s3 \<noteq> None"
    by auto
  moreover from this s1(1) s2(1) have "(client_session_step demo_clientenv)\<^sup>*\<^sup>* ((), s0) ((), s3)"
    by (meson rtranclp.rtrancl_into_rtrancl rtranclp.rtrancl_refl)
  ultimately show ?thesis using s0(1) by blast
qed

lemma demo_client_handler_ok: "client_handler_ok demo_clientenv"
  by (simp add: client_handler_ok_def demo_clientenv_simps)

section \<open>Properties\<close>

text \<open>
  C2. A client only ever talks over keys of a server that the application accepted, and it is the same server until the end. Take any state of any run from the
  connection on, whatever packets arrive and whatever the application does with the session. When there are keys, then the session id they belong to was signed by a host
  key, the signature verified, and the application was asked about this host key and accepted it. The only other case is the method \<open>none\<close>, which
  has no host key: the client must offer it, and the session id is then empty. However the run goes on from there, through as many key exchanges as there
  are, the session stays encrypted under this session id.
\<close>

theorem session_host_key_accepted:
  assumes "client_handler_ok V" "connect_stream V t sshid receiver = Inr s0" "(client_session_step V)\<^sup>*\<^sup>* (h0, s0) (h, s)"
    and "cn_enc s = Some enc" "(client_session_step V)\<^sup>*\<^sup>* (h, s) (h', s')"
  shows "((\<exists>key h1 h2 sig. signature_verify (ke_host (ce_kex V)) key (enc_session_id enc) sig \<and> ce_check_server_key V key h1 = Inr (True, h2)) \<or>
      NAME_NONE \<in> set (pf_kex (cl_preferred (cc_kex (ce_config V)))) \<and> enc_session_id enc = []) \<and>
    (\<exists>enc'. cn_enc s' = Some enc' \<and> enc_session_id enc' = enc_session_id enc)"
proof -
  have inv: "client_inv V None s"
    using run_inv [OF assms(1,3)] connect_inv [OF assms(2)] by simp
  then have "client_inv V (Some (enc_session_id enc)) s"
    using assms(4) by (simp add: client_inv_def)
  then have "client_inv V (Some (enc_session_id enc)) s'"
    using run_inv [OF assms(1,5)] by simp
  then have "\<exists>enc'. cn_enc s' = Some enc' \<and> enc_session_id enc' = enc_session_id enc"
    by (auto simp: client_inv_def)
  moreover from inv assms(4) have "trusted V (enc_session_id enc)"
    by (simp add: client_inv_def)
  ultimately show ?thesis
    unfolding trusted_def offers_none_def by blast
qed

theorem session_host_key_accepted_witness:
  "\<exists>s0 s enc key sig. connect_stream demo_clientenv demo_moment [66] [] = Inr s0 \<and>
     (client_session_step demo_clientenv)\<^sup>*\<^sup>* ((), s0) ((), s) \<and> cn_enc s = Some enc \<and>
     signature_verify demo_hostlib key (enc_session_id enc) sig"
proof -
  obtain s0 s enc where run: "connect_stream demo_clientenv demo_moment [66] [] = Inr s0"
    "(client_session_step demo_clientenv)\<^sup>*\<^sup>* ((), s0) ((), s)" "cn_enc s = Some enc"
    using demo_client_run by blast
  have "NAME_NONE \<notin> set (pf_kex (cl_preferred (cc_kex (ce_config demo_clientenv))))"
    by (simp add: demo_clientenv_simps demo_client_prefs_def)
  then obtain key sig where "signature_verify demo_hostlib key (enc_session_id enc) sig"
    using session_host_key_accepted [OF demo_client_handler_ok run rtranclp.rtrancl_refl] by (auto simp: demo_clientenv_simps)
  with run show ?thesis by blast
qed

end
