(* ===== verification/Spec2Isabelle.thy ===== *)
theory Spec2Isabelle
  imports ServerRuns Identification ClientRuns
begin

text \<open>
  A verification development for the SSH library in \<open>src/russh\<close>.

  \<^bold>\<open>The program.\<close> The library is one protocol engine used by a client and by a server. Bytes pass
  through a transport layer (packets sealed and opened by a cipher, optionally compressed), a key
  exchange that agrees on algorithms and installs keys, and a connection layer that multiplexes
  channels. Each layer is a theory or a few theories here.

  \<^bold>\<open>Conventions.\<close> A Rust struct is a record, an enum a datatype, an integer of \<open>n\<close> bits a word of \<open>n\<close>
  bits, a \<open>usize\<close> a natural number, a string or byte buffer a list of bytes. A fallible function
  returns \<open>error + 'a\<close>; the datatype \<open>error\<close> has the library's errors and two more outcomes, \<open>Panicked\<close>
  for an index out of range or a failed assertion and \<open>Diverged\<close> for a loop that does not return. When a
  function fails the session ends, so the state it leaves behind is not returned.

  \<^bold>\<open>Packages.\<close> Code outside \<open>src\<close> is a parameter: the record \<open>codec\<close> (\<open>ssh_encoding\<close> and
  \<open>byteorder\<close>), \<open>crypto\<close> (ciphers, MACs), \<open>flate\<close> (zlib), \<open>kexlib\<close> (big integers, curves, ML-KEM, digests), \<open>hostlib\<close> (host
  keys and signatures), \<open>authlib\<close> and \<open>clientlib\<close> (public keys and certificates of users), \<open>mpsc\<close> (the queues of \<open>tokio\<close>), and function
  arguments for hash functions and names of host key algorithms. The application is a parameter too: \<open>auth_handler\<close> and \<open>sv_call\<close> on the server,
  \<open>ce_call\<close> and \<open>ce_check_server_key\<close> on the client. What the sources rely on is stated as laws: the locale \<open>ssh_codec\<close> and the predicates
  \<open>crypto_ok\<close>, \<open>inflate_ok\<close>, \<open>hash_ok\<close>, \<open>kexlib_ok\<close>, \<open>hostlib_ok\<close>, \<open>mpint_ok\<close> and \<open>mpsc_ok\<close>; \<open>handler_ok\<close> and \<open>client_handler_ok\<close> say that a callback
  changes the session it is lent by the operations of the session only. Every property that assumes them has a witness on a concrete instance.

  \<^bold>\<open>Theories.\<close>
    \<^item> \<open>Prelude\<close>: bytes, results, UTF-8, splitting, the locale \<open>ssh_codec\<close> and its instance of RFC 4251.
    \<^item> \<open>Types\<close>: \<open>lib_inner.rs\<close>, \<open>msg.rs\<close>, \<open>pty.rs\<close>.
    \<^item> \<open>Wire\<close>: \<open>helpers.rs\<close> and \<open>parsing.rs\<close>. C28 and C29 characterise what the decoders accept.
    \<^item> \<open>Cipher\<close>: \<open>cipher\<close> and \<open>mac\<close>. C33 bounds the padding, C17 shows that nonces do not repeat.
    \<^item> \<open>Transport\<close>: \<open>cipher/mod.rs\<close>. C5 is the round trip of a stream of packets, C34 the equality of the two
      ways to finish a packet, C22 the absence of panics and C39 the one case with a panic.
    \<^item> \<open>Writer\<close>: \<open>sshbuffer.rs\<close> and \<open>compression.rs\<close>. C23 shows that decompression returns within its
      bound, C35 that the ways to stage a packet agree, C14 that flushing loses and repeats nothing, with or without compression.
    \<^item> \<open>Negotiation\<close>: \<open>negotiation.rs\<close>. C6 and C32 show that both sides agree; the contract of the
      \<open>Select\<close> trait is the locale \<open>algorithm_select\<close>, interpreted for both roles.
    \<^item> \<open>Kex\<close>: \<open>kex/mod.rs\<close>. C21 equates the derivation with the key stream of RFC 4253, C11 shows
      that both sides build matching ciphers, C36 that the secret is encoded canonically.
    \<^item> \<open>DhGroups\<close>: \<open>kex/dh/groups.rs\<close> and the group exchange parameters. C40 exhibits the default choice
      of a group outside the requested range.
    \<^item> \<open>KexAlgs\<close>: the key exchange methods of \<open>kex\<close>. Their common contract is the locale \<open>kex_method\<close>,
      with one sublocale per method. C12 shows that both sides get one secret and one exchange hash, C37
      that the exchange hash and the key derivation use one encoding of the secret.
    \<^item> \<open>Handshake\<close>: \<open>server/kex.rs\<close> and \<open>client/kex.rs\<close>. C1 composes negotiation, the round of a group
      exchange, methods and derivation: two sides that exchange the messages they write end with the same session and matching ciphers.
    \<^item> \<open>Auth\<close>: the data of \<open>auth.rs\<close>, with the round trip of a method set.
    \<^item> \<open>Session\<close>: \<open>session.rs\<close>, the state both roles share once keys are installed.
    \<^item> \<open>Channels\<close>: the laws of that state. C26 and C25 give the exact effect of sending and flushing, C7 the
      conservation of a channel's data over any sequence of operations, C27 the equality of the two ways of
      sending, C16 the bound on the receive window and C30 the choice of a free channel number.
    \<^item> \<open>ServerAuth\<close>: \<open>cert.rs\<close> and the authentication part of \<open>server/encrypted.rs\<close>. C4 shows that a request is only accepted
      when the application accepted it, for keys with a signature over this session; C13 that this holds over a whole
      conversation for the user it is about, C24 that every request gets exactly one answer.
    \<^item> \<open>Supervisor\<close>: \<open>server/supervisor.rs\<close>. C31 says exactly when the write watchdog fires, for both of its conditions.
    \<^item> \<open>Inbound\<close>: \<open>pending_inbound.rs\<close>, the queues of received messages, which both roles use.
    \<^item> \<open>ServerSession\<close>: \<open>server/session.rs\<close>, the session of the server and its operations.
    \<^item> \<open>ServerRead\<close>: the packets of \<open>server/encrypted.rs\<close> and \<open>reply\<close> of \<open>server/mod.rs\<close>.
    \<^item> \<open>Delivery\<close>: the laws of delivery under any interleaving of the run loop. C8 shows that it refines a queue, which
      messages that are not data may overtake, C20 that the queue is bounded and has exactly one reservation, C19 that it drains.
    \<^item> \<open>ServerLaws\<close>: the locale \<open>session_relation\<close>, a relation on sessions that every operation keeps, and that every packet
      keeps it too.
    \<^item> \<open>ServerRuns\<close>: runs of a session, and the locale \<open>session_steps\<close> that lifts such a relation to them. C3 says what
      a packet may do before the client is authenticated, C18 that the channel table stays well formed, C38 that the check of a
      strict key exchange never rejects a packet.
    \<^item> \<open>Identification\<close>: \<open>ssh_read.rs\<close>. C15 shows that the identification read, the errors and the rest are those of the
      lines of the whole stream, however the bytes arrive.
    \<^item> \<open>ClientAuth\<close>: the requests \<open>client/encrypted.rs\<close> writes to authenticate. C9 composes them with \<open>ServerAuth\<close>: a client
      whose key the application accepts gets in.
    \<^item> \<open>ClientSession\<close>: \<open>client/session.rs\<close> and the session of \<open>client/mod.rs\<close>, its operations, the dispatch of application
      messages and the arms of its loop.
    \<^item> \<open>ClientRead\<close>: the packets of \<open>client/encrypted.rs\<close> and \<open>reply\<close> of \<open>client/mod.rs\<close>.
    \<^item> \<open>ClientRequests\<close>: the channel requests of the client as the server reads them. C10 shows that what is asked on a channel
      is what the application of the server is asked, and which terminal modes the server refuses.
    \<^item> \<open>ClientLaws\<close>: no operation and no packet of an established session changes its session id or advances a key exchange
      otherwise than by beginning one.
    \<^item> \<open>ClientRuns\<close>: runs of a client. C2 shows that keys are only in use for a session id that an accepted host key signed, and that
      the session keeps it.

  \<^bold>\<open>Loops.\<close> Loops over lists are structural recursion. The loops over a compression object, of the key derivation and of the search for
  a channel number are \<open>partial_function\<close>s into \<open>option\<close>; C23, C21 and C30 prove that they return. The loop over announced host keys has the bytes left
  as its fuel, which is enough (\<open>announced_keys_returns\<close>).

  \<^bold>\<open>Not modelled.\<close> The select loops, timers, sockets and tasks are the asynchronous runtime (\<open>tokio\<close>): a run here is any interleaving of the
  arms of a loop. The handles that other tasks use only build the messages that a session dispatches. The stream adaptors of \<open>channels\<close> wait on queues and
  notifications of the runtime. Key files and the agent protocol (\<open>keys\<close>) are calls into the key packages with file and socket access; the
  configuration parser, process spawning, Pageant and the memory-locking buffers are input/output and platform calls.
\<close>

end
